(* ===== verification/Prelude.thy ===== *)
theory Prelude
  imports Main "HOL-Library.Char_ord" "HOL-Library.List_Lexorder" "HOL-Library.Sublist" "HOL-Library.Multiset"
begin

text \<open>
  Shared vocabulary of the development: character classes and the string helpers the
  TypeScript sources use (\<open>startsWith\<close>, \<open>includes\<close>, \<open>split\<close>, \<open>join\<close>, \<open>trim\<close>, the
  \<open>/i\<close> flag), the list and association-list facts the component proofs share, and the
  named collections of simplification rules.

  A \<^typ>\<open>char\<close> stands for one UTF-16 code unit below 256; code units above that are not
  represented.  A \<^typ>\<open>string\<close> is therefore compared, sorted and measured exactly as the
  JavaScript string with the same code units.
\<close>

named_theorems js_simps \<open>evaluation of the JavaScript value helpers\<close>
named_theorems chain_simps \<open>facts about audit chains\<close>
named_theorems world_simps \<open>what each runtime operation does to the fields of the world\<close>

subsection \<open>Character classes\<close>

definition is_lower :: "char \<Rightarrow> bool" where
  "is_lower c \<longleftrightarrow> CHR ''a'' \<le> c \<and> c \<le> CHR ''z''"

definition is_upper :: "char \<Rightarrow> bool" where
  "is_upper c \<longleftrightarrow> CHR ''A'' \<le> c \<and> c \<le> CHR ''Z''"

definition is_digit :: "char \<Rightarrow> bool" where
  "is_digit c \<longleftrightarrow> CHR ''0'' \<le> c \<and> c \<le> CHR ''9''"

definition is_hex :: "char \<Rightarrow> bool" where
  "is_hex c \<longleftrightarrow> is_digit c \<or> (CHR ''a'' \<le> c \<and> c \<le> CHR ''f'') \<or> (CHR ''A'' \<le> c \<and> c \<le> CHR ''F'')"

definition is_word_char :: "char \<Rightarrow> bool" where
  "is_word_char c \<longleftrightarrow> is_lower c \<or> is_upper c \<or> is_digit c \<or> c = CHR ''_''"

text \<open>
  The white space that \<open>trim\<close> removes and that \<open>\s\<close> matches, among code units below 256:
  tab, line feed, vertical tab, form feed, carriage return, space and no-break space.
\<close>

definition is_space :: "char \<Rightarrow> bool" where
  "is_space c \<longleftrightarrow> (let n = (of_char c :: nat) in (9 \<le> n \<and> n \<le> 13) \<or> n = 32 \<or> n = 160)"

text \<open>\<open>toLowerCase\<close> below 256: ASCII letters and the Latin-1 capitals.\<close>

definition lower_char :: "char \<Rightarrow> char" where
  "lower_char c =
     (let n = (of_char c :: nat) in
      if is_upper c \<or> (192 \<le> n \<and> n \<le> 222 \<and> n \<noteq> 215) then char_of (n + 32) else c)"

definition to_lower :: "string \<Rightarrow> string" where
  "to_lower = map lower_char"

lemma char_code_cases: "\<exists>n < 256. c = char_of (n :: nat)"
  by (rule exI[of _ "of_char c"]) simp

subsection \<open>String helpers\<close>

abbreviation starts_with :: "string \<Rightarrow> string \<Rightarrow> bool" where
  "starts_with s p \<equiv> prefix p s"

definition ends_with :: "string \<Rightarrow> string \<Rightarrow> bool" where
  "ends_with s p \<longleftrightarrow> prefix (rev p) (rev s)"

fun contains_str :: "string \<Rightarrow> string \<Rightarrow> bool" where
  "contains_str [] p = (p = [])"
| "contains_str (c # cs) p = (prefix p (c # cs) \<or> contains_str cs p)"

text \<open>\<open>/p/i.test(s)\<close> for a literal \<open>p\<close> given in lower case.\<close>

definition contains_ci :: "string \<Rightarrow> string \<Rightarrow> bool" where
  "contains_ci s p = contains_str (to_lower s) p"

definition trim :: "string \<Rightarrow> string" where
  "trim s = rev (dropWhile is_space (rev (dropWhile is_space s)))"

text \<open>\<open>s.split(c)\<close> for a one-character separator.\<close>

fun split_on :: "char \<Rightarrow> string \<Rightarrow> string list" where
  "split_on c [] = [[]]"
| "split_on c (x # xs) =
     (if x = c then [] # split_on c xs
      else (case split_on c xs of [] \<Rightarrow> [[x]] | w # ws \<Rightarrow> (x # w) # ws))"

fun join_with :: "string \<Rightarrow> string list \<Rightarrow> string" where
  "join_with sep [] = []"
| "join_with sep [x] = x"
| "join_with sep (x # y # zs) = x @ sep @ join_with sep (y # zs)"

definition replace_char :: "char \<Rightarrow> string \<Rightarrow> string \<Rightarrow> string" where
  "replace_char c r s = concat (map (\<lambda>x. if x = c then r else [x]) s)"

definition newline :: string where
  "newline = [char_of (10 :: nat)]"

lemma split_on_nonempty [simp]: "split_on c s \<noteq> []"
  by (induction s) (auto split: list.splits)

lemma split_on_no_sep: "c \<notin> set s \<Longrightarrow> split_on c s = [s]"
  by (induction s) auto

lemma split_on_append:
  "c \<notin> set u \<Longrightarrow> split_on c (u @ c # v) = u # split_on c v"
  by (induction u) auto

lemma split_on_parts: "w \<in> set (split_on c s) \<Longrightarrow> c \<notin> set w"
proof (induction s arbitrary: w)
  case Nil
  then show ?case by simp
next
  case (Cons x xs)
  then show ?case by (auto split: if_splits list.splits)
qed

lemma join_with_append:
  "xs \<noteq> [] \<Longrightarrow> ys \<noteq> [] \<Longrightarrow> join_with sep (xs @ ys) = join_with sep xs @ sep @ join_with sep ys"
proof (induction xs rule: join_with.induct[of _ sep])
  case (2 sep x)
  then show ?case by (cases ys) auto
qed auto

subsection \<open>Decimal numerals\<close>

definition digit_char :: "nat \<Rightarrow> char" where
  "digit_char d = char_of (48 + d)"

fun nat_str :: "nat \<Rightarrow> string" where
  "nat_str n = (if n < 10 then [digit_char n] else nat_str (n div 10) @ [digit_char (n mod 10)])"

declare nat_str.simps [simp del]

definition int_str :: "int \<Rightarrow> string" where
  "int_str i = (if i < 0 then ''-'' @ nat_str (nat (- i)) else nat_str (nat i))"

definition digit_val :: "char \<Rightarrow> nat" where
  "digit_val c = of_char c - 48"

definition digits_val :: "string \<Rightarrow> nat" where
  "digits_val s = foldl (\<lambda>a c. a * 10 + digit_val c) 0 s"

lemma of_char_digit_char: "d < 10 \<Longrightarrow> of_char (digit_char d) = 48 + d"
  by (simp add: digit_char_def)

lemma is_digit_code: "is_digit c \<longleftrightarrow> 48 \<le> (of_char c :: nat) \<and> (of_char c :: nat) \<le> 57"
  by (simp add: is_digit_def less_eq_char_def)

lemma digit_char_props [simp]:
  "d < 10 \<Longrightarrow> is_digit (digit_char d)" "d < 10 \<Longrightarrow> digit_val (digit_char d) = d"
  by (simp_all add: is_digit_code digit_val_def of_char_digit_char)

lemma nat_str_nonempty [simp]: "nat_str n \<noteq> []"
  by (subst nat_str.simps) simp

lemma nat_str_digits: "list_all is_digit (nat_str n)"
proof (induction n rule: nat_str.induct)
  case (1 n)
  then show ?case by (subst nat_str.simps) (auto simp: list_all_iff)
qed

lemma digits_val_snoc: "digits_val (s @ [c]) = digits_val s * 10 + digit_val c"
  by (simp add: digits_val_def)

lemma digits_val_nat_str [simp]: "digits_val (nat_str n) = n"
proof (induction n rule: nat_str.induct)
  case (1 n)
  show ?case
  proof (cases "n < 10")
    case True
    then show ?thesis by (subst nat_str.simps) (simp add: digits_val_def)
  next
    case False
    with "1.IH" show ?thesis
      by (subst nat_str.simps) (simp add: digits_val_snoc)
  qed
qed

lemma nat_str_inj: "nat_str m = nat_str n \<Longrightarrow> m = n"
  by (metis digits_val_nat_str)

subsection \<open>Lists and association lists\<close>

text \<open>\<open>xs.findIndex(p)\<close>, with \<^term>\<open>None\<close> for \<open>-1\<close>.\<close>

fun find_index :: "('a \<Rightarrow> bool) \<Rightarrow> 'a list \<Rightarrow> nat option" where
  "find_index p [] = None"
| "find_index p (x # xs) = (if p x then Some 0 else map_option Suc (find_index p xs))"

lemma find_index_Some:
  "find_index p xs = Some i \<Longrightarrow> i < length xs \<and> p (xs ! i) \<and> (\<forall>j < i. \<not> p (xs ! j))"
proof (induction xs arbitrary: i)
  case Nil
  then show ?case by simp
next
  case (Cons x xs)
  show ?case
  proof (cases "p x")
    case True
    with Cons.prems show ?thesis by simp
  next
    case False
    with Cons.prems obtain k where k: "find_index p xs = Some k" "i = Suc k" by auto
    with Cons.IH[OF k(1)] False show ?thesis by (auto simp: less_Suc_eq_0_disj)
  qed
qed

lemma find_index_None: "find_index p xs = None \<longleftrightarrow> (\<forall>x \<in> set xs. \<not> p x)"
  by (induction xs) auto

text \<open>\<open>xs.splice(i, 1)\<close> as the list that remains.\<close>

definition remove_at :: "nat \<Rightarrow> 'a list \<Rightarrow> 'a list" where
  "remove_at i xs = take i xs @ drop (Suc i) xs"

lemma remove_at_length: "i < length xs \<Longrightarrow> length (remove_at i xs) = length xs - 1"
  by (simp add: remove_at_def)

text \<open>
  A JavaScript \<open>Map\<close> iterates in the order keys were first inserted; setting an existing key
  keeps its place.  An association list with distinct keys models it.
\<close>

fun map_set :: "'k \<Rightarrow> 'v \<Rightarrow> ('k \<times> 'v) list \<Rightarrow> ('k \<times> 'v) list" where
  "map_set k v [] = [(k, v)]"
| "map_set k v ((k', v') # m) = (if k = k' then (k, v) # m else (k', v') # map_set k v m)"

definition map_from :: "('k \<times> 'v) list \<Rightarrow> ('k \<times> 'v) list" where
  "map_from kvs = foldl (\<lambda>m (k, v). map_set k v m) [] kvs"

abbreviation map_has :: "('k \<times> 'v) list \<Rightarrow> 'k \<Rightarrow> bool" where
  "map_has m k \<equiv> map_of m k \<noteq> None"

lemma map_of_map_set [simp]: "map_of (map_set k v m) = (map_of m)(k \<mapsto> v)"
  by (induction m rule: map_set.induct) (auto simp: fun_eq_iff)

lemma keys_map_set:
  "map fst (map_set k v m) = (if k \<in> fst ` set m then map fst m else map fst m @ [k])"
  by (induction m rule: map_set.induct) auto

lemma distinct_map_set: "distinct (map fst m) \<Longrightarrow> distinct (map fst (map_set k v m))"
  by (simp add: keys_map_set)

lemma set_map_set: "set (map_set k v m) \<subseteq> insert (k, v) (set m)"
  by (induction m rule: map_set.induct) auto

lemma map_from_Nil [simp]: "map_from [] = []"
  by (simp add: map_from_def)

lemma map_from_snoc: "map_from (kvs @ [(k, v)]) = map_set k v (map_from kvs)"
  by (simp add: map_from_def)

lemma distinct_map_from: "distinct (map fst (map_from kvs))"
  by (induction kvs rule: rev_induct) (auto simp: map_from_snoc distinct_map_set)

lemma map_of_map_from: "map_of (map_from kvs) = map_of (rev kvs)"
  by (induction kvs rule: rev_induct) (auto simp: map_from_snoc fun_eq_iff map_add_def)

lemma keys_map_from: "fst ` set (map_from kvs) = fst ` set kvs"
proof -
  have "fst ` set (map_from kvs) = dom (map_of (map_from kvs))" by (simp add: dom_map_of_conv_image_fst)
  also have "\<dots> = fst ` set kvs" by (simp add: map_of_map_from dom_map_of_conv_image_fst)
  finally show ?thesis .
qed

lemma set_map_from: "set (map_from kvs) \<subseteq> set kvs"
proof (induction kvs rule: rev_induct)
  case Nil
  then show ?case by simp
next
  case (snoc kv kvs)
  obtain k v where "kv = (k, v)" by force
  with snoc set_map_set[of k v "map_from kvs"] show ?case by (auto simp: map_from_snoc)
qed

lemma map_from_keyed: "map_of (map_from (map (\<lambda>x. (key x, x)) xs)) k = Some x \<Longrightarrow> key x = k"
  using set_map_from[of "map (\<lambda>x. (key x, x)) xs"] by (auto dest!: map_of_SomeD)

lemma map_set_new: "k \<notin> fst ` set m \<Longrightarrow> map_set k v m = m @ [(k, v)]"
  by (induction m rule: map_set.induct) auto

lemma map_from_distinct: "distinct (map fst kvs) \<Longrightarrow> map_from kvs = kvs"
proof (induction kvs rule: rev_induct)
  case Nil
  then show ?case by simp
next
  case (snoc kv kvs)
  obtain k v where "kv = (k, v)" by force
  with snoc show ?case by (auto simp: map_from_snoc intro: map_set_new)
qed

lemma find_Some_iff_set: "List.find p xs = Some x \<Longrightarrow> x \<in> set xs \<and> p x"
  by (auto simp: find_Some_iff)

end
