(* ===== verification/Js_Values.thy ===== *)
theory Js_Values
  imports Prelude
begin

text \<open>
  The JavaScript values the sources pass around as \<open>unknown\<close>: numbers, strings, dates, arrays
  and plain objects, with the language operations the sources use on them (\<open>typeof\<close> tests,
  truthiness, \<open>===\<close>, property reads, \<open>Number.isInteger\<close>, \<open>String(x)\<close>,
  \<open>Object.keys().sort()\<close>, \<open>JSON.stringify\<close>).

  Numbers.  A finite binary64 value is represented by its shortest decimal, the one
  \<open>Number::toString\<close> prints: \<open>Dec m e\<close> is \<open>m * 10 ^ e\<close>.  Different doubles have different
  shortest decimals and the decimals are ordered as the doubles are, so comparisons agree;
  arithmetic is only modelled where the sources do it on integers.

  Objects.  \<open>JObj kvs\<close> lists the own enumerable properties in the language's key order
  (array indices ascending, then insertion order).  Assigning \<open>o["__proto__"]\<close> on a plain
  object does not create a property: \<open>obj_set\<close> models this.
\<close>

subsection \<open>Numbers\<close>

datatype jsnum = NaN | PosInf | NegInf | Dec int int

abbreviation JsInt :: "int \<Rightarrow> jsnum" where
  "JsInt i \<equiv> Dec i 0"

definition scale :: "int \<Rightarrow> int \<Rightarrow> int \<Rightarrow> int" where
  "scale m e e0 = m * 10 ^ nat (e - e0)"

fun num_less :: "jsnum \<Rightarrow> jsnum \<Rightarrow> bool" where
  "num_less NaN _ = False"
| "num_less _ NaN = False"
| "num_less PosInf _ = False"
| "num_less _ NegInf = False"
| "num_less NegInf _ = True"
| "num_less _ PosInf = True"
| "num_less (Dec m e) (Dec m' e') = (scale m e (min e e') < scale m' e' (min e e'))"

fun num_eq :: "jsnum \<Rightarrow> jsnum \<Rightarrow> bool" where
  "num_eq (Dec m e) (Dec m' e') = (scale m e (min e e') = scale m' e' (min e e'))"
| "num_eq PosInf PosInf = True"
| "num_eq NegInf NegInf = True"
| "num_eq _ _ = False"

definition num_leq :: "jsnum \<Rightarrow> jsnum \<Rightarrow> bool" where
  "num_leq a b \<longleftrightarrow> num_less a b \<or> num_eq a b"

fun is_finite :: "jsnum \<Rightarrow> bool" where
  "is_finite (Dec m e) = True"
| "is_finite _ = False"

text \<open>\<open>Number.isInteger\<close>, and the integer itself.\<close>

fun int_of_num :: "jsnum \<Rightarrow> int option" where
  "int_of_num (Dec m e) =
     (if 0 \<le> e then Some (m * 10 ^ nat e)
      else if m mod 10 ^ nat (- e) = 0 then Some (m div 10 ^ nat (- e)) else None)"
| "int_of_num _ = None"

definition is_integer :: "jsnum \<Rightarrow> bool" where
  "is_integer n \<longleftrightarrow> int_of_num n \<noteq> None"

text \<open>
  \<open>Number::toString\<close> for a normalised decimal (\<open>m\<close> not divisible by ten, or \<open>m = 0\<close> and
  \<open>e = 0\<close>): \<open>k\<close> digits \<open>ds\<close>, and \<open>n\<close> the position of the decimal point.
\<close>

function norm_dec :: "int \<Rightarrow> int \<Rightarrow> int \<times> int" where
  "norm_dec m e = (if m = 0 then (0, 0) else if m mod 10 = 0 then norm_dec (m div 10) (e + 1) else (m, e))"
  by pat_completeness auto
termination
  by (relation "measure (\<lambda>(m, e). nat \<bar>m\<bar>)") auto

declare norm_dec.simps [simp del]

definition digits_str :: "string \<Rightarrow> int \<Rightarrow> string" where
  "digits_str ds e =
     (let k = int (length ds); n = k + e in
      if k \<le> n \<and> n \<le> 21 then ds @ replicate (nat (n - k)) (CHR ''0'')
      else if 0 < n \<and> n \<le> 21 then take (nat n) ds @ ''.'' @ drop (nat n) ds
      else if -6 < n \<and> n \<le> 0 then ''0.'' @ replicate (nat (- n)) (CHR ''0'') @ ds
      else (let ex = n - 1; sg = (if ex < 0 then ''-'' else ''+'') @ nat_str (nat \<bar>ex\<bar>) in
            if k = 1 then ds @ ''e'' @ sg else take 1 ds @ ''.'' @ drop 1 ds @ ''e'' @ sg))"

fun num_str :: "jsnum \<Rightarrow> string" where
  "num_str NaN = ''NaN''"
| "num_str PosInf = ''Infinity''"
| "num_str NegInf = ''-Infinity''"
| "num_str (Dec m e) =
     (let (m', e') = norm_dec m e in
      if m' < 0 then ''-'' @ digits_str (nat_str (nat (- m'))) e' else digits_str (nat_str (nat m')) e')"

subsection \<open>Values\<close>

datatype json =
    JUndef
  | JNull
  | JBool bool
  | JNum jsnum
  | JStr string
  | JDate int
  | JArr "json list"
  | JObj "(string \<times> json) list"

type_synonym fields = "(string \<times> json) list"

lemma json_size_arr [termination_simp]: "v \<in> set vs \<Longrightarrow> size v < Suc (size_list size vs)"
  using size_list_estimation'[of v vs "size v" size] by simp

lemma json_size_obj [termination_simp]:
  "kv \<in> set kvs \<Longrightarrow> size (snd kv) < Suc (size_list (size_prod (\<lambda>_. 0) size) kvs)"
  using size_list_estimation'[of kv kvs "size (snd kv)" "size_prod (\<lambda>_. 0) size"]
  by (cases kv) simp

lemma json_induct [case_names Undef Null Bool Num Str Date Arr Obj]:
  assumes "P JUndef" "P JNull" "\<And>b. P (JBool b)" "\<And>n. P (JNum n)" "\<And>s. P (JStr s)"
    and "\<And>d. P (JDate d)"
    and "\<And>vs. (\<And>v. v \<in> set vs \<Longrightarrow> P v) \<Longrightarrow> P (JArr vs)"
    and "\<And>kvs. (\<And>k v. (k, v) \<in> set kvs \<Longrightarrow> P v) \<Longrightarrow> P (JObj kvs)"
  shows "P v"
proof (induction v rule: json.induct)
  case (JObj kvs)
  then show ?case using assms(8) by (metis snds.intros snd_conv)
qed (use assms in blast)+

text \<open>\<open>value && typeof value === "object"\<close>\<close>

fun is_object :: "json \<Rightarrow> bool" where
  "is_object (JDate d) = True"
| "is_object (JArr vs) = True"
| "is_object (JObj kvs) = True"
| "is_object _ = False"

fun truthy :: "json \<Rightarrow> bool" where
  "truthy JUndef = False"
| "truthy JNull = False"
| "truthy (JBool b) = b"
| "truthy (JNum n) = (n \<noteq> NaN \<and> \<not> num_eq n (JsInt 0))"
| "truthy (JStr s) = (s \<noteq> [])"
| "truthy _ = True"

text \<open>\<open>x ?? y\<close>\<close>

fun nullish :: "json \<Rightarrow> bool" where
  "nullish JUndef = True"
| "nullish JNull = True"
| "nullish _ = False"

definition coalesce :: "json \<Rightarrow> json \<Rightarrow> json" where
  "coalesce a b = (if nullish a then b else a)"

text \<open>
  \<open>a === b\<close> where at least one side is a primitive (the sources never compare two objects).
\<close>

fun strict_eq :: "json \<Rightarrow> json \<Rightarrow> bool" where
  "strict_eq JUndef JUndef = True"
| "strict_eq JNull JNull = True"
| "strict_eq (JBool a) (JBool b) = (a = b)"
| "strict_eq (JNum a) (JNum b) = num_eq a b"
| "strict_eq (JStr a) (JStr b) = (a = b)"
| "strict_eq _ _ = False"

text \<open>\<open>value[key]\<close> for an own property; anything else reads as \<open>undefined\<close>.\<close>

definition get_field :: "fields \<Rightarrow> string \<Rightarrow> json" where
  "get_field kvs k = (case map_of kvs k of None \<Rightarrow> JUndef | Some v \<Rightarrow> v)"

fun js_prop :: "json \<Rightarrow> string \<Rightarrow> json" where
  "js_prop (JObj kvs) k = get_field kvs k"
| "js_prop _ k = JUndef"

subsection \<open>Key order of plain objects\<close>

text \<open>Array-index keys: canonical numerals below \<open>2^32 - 1\<close>.\<close>

definition is_index_key :: "string \<Rightarrow> bool" where
  "is_index_key k \<longleftrightarrow>
     k \<noteq> [] \<and> list_all is_digit k \<and> (hd k = CHR ''0'' \<longrightarrow> length k = 1) \<and>
     length k \<le> 10 \<and> digits_val k < 4294967295"

definition js_order :: "fields \<Rightarrow> fields" where
  "js_order kvs =
     sort_key (\<lambda>kv. digits_val (fst kv)) (filter (\<lambda>kv. is_index_key (fst kv)) kvs)
     @ filter (\<lambda>kv. \<not> is_index_key (fst kv)) kvs"

text \<open>\<open>out[k] = v\<close> on an object literal.\<close>

definition obj_set :: "string \<Rightarrow> json \<Rightarrow> fields \<Rightarrow> fields" where
  "obj_set k v kvs = (if k = ''__proto__'' then kvs else js_order (map_set k v kvs))"

definition obj_build :: "(string \<times> json) list \<Rightarrow> fields" where
  "obj_build kvs = foldl (\<lambda>o' (k, v). obj_set k v o') [] kvs"

lemma mset_js_order [simp]: "mset (js_order kvs) = mset kvs"
  by (simp add: js_order_def)

lemma set_js_order [simp]: "set (js_order kvs) = set kvs"
  using mset_js_order[of kvs] by (metis set_mset_mset)

lemma distinct_js_order [simp]: "distinct (map fst (js_order kvs)) = distinct (map fst kvs)"
  by (rule mset_eq_imp_distinct_iff) simp

lemma map_of_js_order:
  "distinct (map fst kvs) \<Longrightarrow> map_of (js_order kvs) = map_of kvs"
  by (intro map_of_inject_set[THEN iffD2]) simp_all

text \<open>\<open>Object.keys(o).sort()\<close>: by code unit, hence lexicographically on \<^typ>\<open>string\<close>.\<close>

definition sort_entries :: "fields \<Rightarrow> fields" where
  "sort_entries kvs = sort_key fst kvs"

subsection \<open>\<open>String(x)\<close> and \<open>JSON.stringify\<close>\<close>

definition hex_digit :: "nat \<Rightarrow> char" where
  "hex_digit d = (if d < 10 then char_of (48 + d) else char_of (87 + d))"

definition escape_char :: "char \<Rightarrow> string" where
  "escape_char c =
     (let n = (of_char c :: nat); bs = char_of (92 :: nat) in
      if n = 34 then [bs, c] else if n = 92 then [bs, bs]
      else if n = 8 then bs # ''b'' else if n = 12 then bs # ''f''
      else if n = 10 then bs # ''n'' else if n = 13 then bs # ''r'' else if n = 9 then bs # ''t''
      else if n < 32 then bs # ''u00'' @ [hex_digit (n div 16), hex_digit (n mod 16)]
      else [c])"

definition quote_str :: "string \<Rightarrow> string" where
  "quote_str s = char_of (34 :: nat) # concat (map escape_char s) @ [char_of (34 :: nat)]"

text \<open>
  \<open>fmt\<close> is \<open>Date.prototype.toISOString\<close> on the time value.  An absent result is
  \<open>undefined\<close>: array elements print as \<open>null\<close>, object members are left out.
\<close>

fun stringify :: "(int \<Rightarrow> string) \<Rightarrow> json \<Rightarrow> string option" where
  "stringify fmt JUndef = None"
| "stringify fmt JNull = Some ''null''"
| "stringify fmt (JBool b) = Some (if b then ''true'' else ''false'')"
| "stringify fmt (JNum n) = Some (if is_finite n then num_str n else ''null'')"
| "stringify fmt (JStr s) = Some (quote_str s)"
| "stringify fmt (JDate d) = Some (quote_str (fmt d))"
| "stringify fmt (JArr vs) =
     Some (''['' @ join_with '','' (map (\<lambda>v. case stringify fmt v of None \<Rightarrow> ''null'' | Some s \<Rightarrow> s) vs) @ '']'')"
| "stringify fmt (JObj kvs) =
     Some (''{'' @ join_with '',''
       (concat (map (\<lambda>kv. case stringify fmt (snd kv) of None \<Rightarrow> [] | Some s \<Rightarrow> [quote_str (fst kv) @ '':'' @ s]) kvs))
       @ ''}'')"

text \<open>The result where the argument is never \<open>undefined\<close>.\<close>

definition stringify_val :: "(int \<Rightarrow> string) \<Rightarrow> json \<Rightarrow> string" where
  "stringify_val fmt v = (case stringify fmt v of None \<Rightarrow> ''undefined'' | Some s \<Rightarrow> s)"

text \<open>
  \<open>String(x)\<close>: \<open>dstr\<close> is \<open>Date.prototype.toString\<close>, which depends on the host's time zone.
  Array elements that are null or undefined print as the empty string.
\<close>

fun js_string :: "(int \<Rightarrow> string) \<Rightarrow> json \<Rightarrow> string" where
  "js_string dstr JUndef = ''undefined''"
| "js_string dstr JNull = ''null''"
| "js_string dstr (JBool b) = (if b then ''true'' else ''false'')"
| "js_string dstr (JNum n) = num_str n"
| "js_string dstr (JStr s) = s"
| "js_string dstr (JDate d) = dstr d"
| "js_string dstr (JArr vs) =
     join_with '','' (map (\<lambda>v. if nullish v then [] else js_string dstr v) vs)"
| "js_string dstr (JObj kvs) = ''[object Object]''"

lemma norm_dec_0 [simp]: "norm_dec 0 e = (0, 0)"
  by (subst norm_dec.simps) simp

lemma int_of_num_Int [simp]: "int_of_num (JsInt i) = Some i"
  by simp

lemma num_eq_Int [simp]: "num_eq (JsInt a) (JsInt b) = (a = b)"
  by (simp add: scale_def)

lemma num_less_Int [simp]: "num_less (JsInt a) (JsInt b) = (a < b)"
  by (simp add: scale_def)

lemma num_leq_Int [simp]: "num_leq (JsInt a) (JsInt b) = (a \<le> b)"
  by (auto simp: num_leq_def scale_def)

subsection \<open>Facts on key order\<close>

lemma set_sort_entries [simp]: "set (sort_entries kvs) = set kvs"
  by (simp add: sort_entries_def)

lemma sort_key_append_sort: "sort_key f (sort_key f xs @ ys) = sort_key f (xs @ ys)"
proof (rule properties_for_sort_key)
  have st: "filter (\<lambda>x. f k = f x) (sort_key f zs) = filter (\<lambda>x. f k = f x) zs" for k zs
    using sort_key_stable[of f "f k" zs] by (simp add: eq_commute)
  show "filter (\<lambda>x. f k = f x) (sort_key f (xs @ ys)) = filter (\<lambda>x. f k = f x) (sort_key f xs @ ys)" for k
    by (simp add: st)
qed simp_all

lemma filter_js_order:
  "filter (\<lambda>kv. is_index_key (fst kv)) (js_order m) =
     sort_key (\<lambda>kv. digits_val (fst kv)) (filter (\<lambda>kv. is_index_key (fst kv)) m)"
  "filter (\<lambda>kv. \<not> is_index_key (fst kv)) (js_order m) = filter (\<lambda>kv. \<not> is_index_key (fst kv)) m"
proof -
  have "filter (\<lambda>kv. is_index_key (fst kv)) (sort_key f (filter (\<lambda>kv. is_index_key (fst kv)) m)) =
      sort_key f (filter (\<lambda>kv. is_index_key (fst kv)) m)"
    "filter (\<lambda>kv. \<not> is_index_key (fst kv)) (sort_key f (filter (\<lambda>kv. is_index_key (fst kv)) m)) = []"
    for f :: "string \<times> json \<Rightarrow> nat"
    by (rule filter_True) (auto simp: filter_empty_conv)
  then show "filter (\<lambda>kv. is_index_key (fst kv)) (js_order m) =
     sort_key (\<lambda>kv. digits_val (fst kv)) (filter (\<lambda>kv. is_index_key (fst kv)) m)"
    "filter (\<lambda>kv. \<not> is_index_key (fst kv)) (js_order m) = filter (\<lambda>kv. \<not> is_index_key (fst kv)) m"
    by (simp_all add: js_order_def filter_empty_conv)
qed

lemma js_order_append: "js_order (js_order m @ ys) = js_order (m @ ys)"
  by (simp add: js_order_def[of "js_order m @ ys"] filter_js_order sort_key_append_sort)
     (simp add: js_order_def)

lemma js_order_idem [simp]: "js_order (js_order m) = js_order m"
  using js_order_append[of m "[]"] by simp

lemma js_order_Nil [simp]: "js_order [] = []"
  by (simp add: js_order_def)

text \<open>Building an object from entries with distinct keys: everything but \<open>__proto__\<close> is kept.\<close>

lemma obj_build_snoc: "obj_build (kvs @ [(k, v)]) = obj_set k v (obj_build kvs)"
  by (simp add: obj_build_def)

lemma obj_build_Nil [simp]: "obj_build [] = []"
  by (simp add: obj_build_def)

lemma obj_build_distinct:
  "distinct (map fst kvs) \<Longrightarrow> obj_build kvs = js_order (filter (\<lambda>kv. fst kv \<noteq> ''__proto__'') kvs)"
proof (induction kvs rule: rev_induct)
  case (snoc kv kvs)
  obtain k v where kv: "kv = (k, v)" by force
  let ?m = "filter (\<lambda>kv. fst kv \<noteq> ''__proto__'') kvs"
  have IH: "obj_build kvs = js_order ?m" and new: "k \<notin> fst ` set kvs" using snoc kv by auto
  then have "k \<notin> fst ` set (js_order ?m)" by auto
  then show ?case by (auto simp: kv obj_build_snoc IH obj_set_def map_set_new js_order_append)
qed simp

lemma distinct_obj_build: "distinct (map fst (obj_build kvs))"
proof (induction kvs rule: rev_induct)
  case (snoc kv kvs)
  obtain k v where "kv = (k, v)" by force
  with snoc show ?case by (simp add: obj_build_snoc obj_set_def distinct_map_set)
qed simp

lemma js_order_obj_build [simp]: "js_order (obj_build kvs) = obj_build kvs"
proof (induction kvs rule: rev_induct)
  case (snoc kv kvs)
  obtain k v where "kv = (k, v)" by force
  with snoc show ?case by (simp add: obj_build_snoc obj_set_def)
qed simp

lemma set_obj_build: "set (obj_build kvs) \<subseteq> set kvs"
proof (induction kvs rule: rev_induct)
  case (snoc kv kvs)
  obtain k v where "kv = (k, v)" by force
  with snoc set_map_set[of k v "obj_build kvs"] show ?case by (auto simp: obj_build_snoc obj_set_def)
qed simp

text \<open>Every object in the value is a JavaScript object: distinct own keys, in order.\<close>

fun js_wf :: "json \<Rightarrow> bool" where
  "js_wf (JArr vs) = (\<forall>v \<in> set vs. js_wf v)"
| "js_wf (JObj kvs) = (distinct (map fst kvs) \<and> js_order kvs = kvs \<and> (\<forall>kv \<in> set kvs. js_wf (snd kv)))"
| "js_wf _ = True"

text \<open>An integer as a number value, in its printed normal form.\<close>

definition num_of_int :: "int \<Rightarrow> jsnum" where
  "num_of_int i = (case norm_dec i 0 of (m, e) \<Rightarrow> Dec m e)"

lemma norm_dec_value:
  "norm_dec m e = (m', e') \<Longrightarrow> m \<noteq> 0 \<Longrightarrow> m' \<noteq> 0 \<and> e \<le> e' \<and> m' * 10 ^ nat (e' - e) = m"
proof (induction m e arbitrary: m' e' rule: norm_dec.induct)
  case (1 m e)
  show ?case
  proof (cases "m mod 10 = 0")
    case True
    then have "norm_dec (m div 10) (e + 1) = (m', e')" using 1(2,3) by (subst (asm) norm_dec.simps) simp
    moreover have "m div 10 \<noteq> 0" using True 1(3) by auto
    ultimately have ih: "m' \<noteq> 0" "e + 1 \<le> e'" "m' * 10 ^ nat (e' - (e + 1)) = m div 10"
      using 1(1) True 1(3) by auto
    moreover have "nat (e' - e) = Suc (nat (e' - (e + 1)))" using ih(2) by simp
    ultimately show ?thesis using True by auto
  next
    case False
    then show ?thesis using 1(2,3) by (subst (asm) norm_dec.simps) auto
  qed
qed

lemma norm_dec_normal: "norm_dec m e = (m', e') \<Longrightarrow> m' \<noteq> 0 \<Longrightarrow> m' mod 10 \<noteq> 0"
proof (induction m e arbitrary: m' e' rule: norm_dec.induct)
  case (1 m e)
  from 1(2) have eq: "(if m = 0 then (0, 0) else if m mod 10 = 0 then norm_dec (m div 10) (e + 1) else (m, e)) = (m', e')"
    by (simp add: norm_dec.simps[of m e])
  show ?case
  proof (cases "m \<noteq> 0 \<and> m mod 10 = 0")
    case True
    with eq have "norm_dec (m div 10) (e + 1) = (m', e')" by simp
    then show ?thesis using 1(1)[of m' e'] 1(3) True by simp
  next
    case False
    then show ?thesis using eq 1(3) by (auto split: if_splits)
  qed
qed

lemma num_of_int_inj: "num_of_int a = num_of_int b \<Longrightarrow> a = b"
proof -
  assume eq: "num_of_int a = num_of_int b"
  obtain m e m' e' where ab: "norm_dec a 0 = (m, e)" "norm_dec b 0 = (m', e')" by force
  with eq have same: "m' = m" "e' = e" by (auto simp: num_of_int_def)
  show "a = b"
  proof (cases "a = 0 \<or> b = 0")
    case True
    then show ?thesis using ab same norm_dec_value[OF ab(1)] norm_dec_value[OF ab(2)]
      by (cases "a = 0"; cases "b = 0") auto
  next
    case False
    then show ?thesis using norm_dec_value[OF ab(1)] norm_dec_value[OF ab(2)] same by auto
  qed
qed

end
