(* ===== verification/Js_Json.thy ===== *)
theory Js_Json
  imports Js_Values
begin

text \<open>
  \<open>JSON.parse\<close> and \<open>Number(string)\<close>, and the round trip with \<open>JSON.stringify\<close>.

  \<open>json_parse\<close> follows the JSON grammar.  Its recursion carries fuel; the length of the text
  is enough, since every recursive call has consumed at least one character.  Escapes of code
  units above 255 are outside the string model and are refused.  Decimal numerals are kept
  exact, with the overflow to an infinity that binary64 has.  Minus zero, which \<open>===\<close> and
  \<open>JSON.stringify\<close> do not tell from zero, is \<open>Dec 0 0\<close>.
\<close>

subsection \<open>Decimal numerals\<close>

definition max_double_bound :: int where
  "max_double_bound = 2 ^ 1024 - 2 ^ 970"

definition dec_overflows :: "int \<Rightarrow> int \<Rightarrow> bool" where
  "dec_overflows m e \<longleftrightarrow>
     m \<noteq> 0 \<and>
     (e > 308 \<or> (0 \<le> e \<and> \<bar>m\<bar> * 10 ^ nat e \<ge> max_double_bound)
      \<or> (e < 0 \<and> \<bar>m\<bar> \<ge> max_double_bound * 10 ^ nat (- e)))"

definition num_of_dec :: "bool \<Rightarrow> nat \<Rightarrow> int \<Rightarrow> jsnum" where
  "num_of_dec neg m e =
     (let (m', e') = norm_dec (int m) e in
      if dec_overflows m' e' then (if neg then NegInf else PosInf)
      else Dec (if neg then - m' else m') e')"

text \<open>A fraction part after the point, and an exponent part; the flag says "well formed".\<close>

definition read_frac :: "string \<Rightarrow> string \<times> string \<times> bool" where
  "read_frac s =
     (case s of
        [] \<Rightarrow> ([], s, True)
      | c # r \<Rightarrow> if c = CHR ''.'' then (takeWhile is_digit r, dropWhile is_digit r, takeWhile is_digit r \<noteq> [])
                 else ([], s, True))"

definition read_exp :: "string \<Rightarrow> int \<times> string \<times> bool" where
  "read_exp s =
     (case s of
        [] \<Rightarrow> (0, s, True)
      | c # r \<Rightarrow>
          if c = CHR ''e'' \<or> c = CHR ''E'' then
            (let (sg, r') = (case r of [] \<Rightarrow> (1, r)
                             | d # ds \<Rightarrow> if d = CHR ''-'' then (-1, ds) else if d = CHR ''+'' then (1, ds) else (1, r));
                 ds = takeWhile is_digit r'
             in (sg * int (digits_val ds), dropWhile is_digit r', ds \<noteq> []))
          else (0, s, True))"

definition read_sign :: "string \<Rightarrow> bool \<times> string" where
  "read_sign s = (case s of [] \<Rightarrow> (False, s) | c # r \<Rightarrow> if c = CHR ''-'' then (True, r) else (False, s))"

definition parse_num :: "string \<Rightarrow> (jsnum \<times> string) option" where
  "parse_num s =
     (let (neg, s1) = read_sign s;
          ip = takeWhile is_digit s1;
          (fp, s3, okf) = read_frac (dropWhile is_digit s1);
          (ex, s4, oke) = read_exp s3
      in if ip = [] \<or> (hd ip = CHR ''0'' \<and> length ip > 1) \<or> \<not> okf \<or> \<not> oke then None
         else Some (num_of_dec neg (digits_val (ip @ fp)) (ex - int (length fp)), s4))"

subsection \<open>\<open>JSON.parse\<close>\<close>

definition is_json_ws :: "char \<Rightarrow> bool" where
  "is_json_ws c \<longleftrightarrow> (let n = (of_char c :: nat) in n = 32 \<or> n = 9 \<or> n = 10 \<or> n = 13)"

abbreviation skip_ws :: "string \<Rightarrow> string" where
  "skip_ws s \<equiv> dropWhile is_json_ws s"

definition simple_escape :: "char \<Rightarrow> char option" where
  "simple_escape d =
     (let n = (of_char d :: nat) in
      if n = 34 \<or> n = 92 \<or> n = 47 then Some d
      else if d = CHR ''b'' then Some (char_of (8 :: nat))
      else if d = CHR ''f'' then Some (char_of (12 :: nat))
      else if d = CHR ''n'' then Some (char_of (10 :: nat))
      else if d = CHR ''r'' then Some (char_of (13 :: nat))
      else if d = CHR ''t'' then Some (char_of (9 :: nat))
      else None)"

definition hex_val :: "char \<Rightarrow> nat" where
  "hex_val c = (let n = (of_char c :: nat) in if n \<le> 57 then n - 48 else if n \<le> 70 then n - 55 else n - 87)"

fun parse_str :: "string \<Rightarrow> (string \<times> string) option" where
  "parse_str [] = None"
| "parse_str (c # cs) =
     (if (of_char c :: nat) = 34 then Some ([], cs)
      else if (of_char c :: nat) = 92 then
        (case cs of
           [] \<Rightarrow> None
         | d # ds \<Rightarrow>
             if d = CHR ''u'' then
               (case ds of
                  h1 # h2 # h3 # h4 # rest \<Rightarrow>
                    if is_hex h1 \<and> is_hex h2 \<and> is_hex h3 \<and> is_hex h4 then
                      (let n = ((hex_val h1 * 16 + hex_val h2) * 16 + hex_val h3) * 16 + hex_val h4 in
                       if n < 256 then map_option (\<lambda>(t, r). (char_of n # t, r)) (parse_str rest) else None)
                    else None
                | _ \<Rightarrow> None)
             else (case simple_escape d of
                     None \<Rightarrow> None
                   | Some x \<Rightarrow> map_option (\<lambda>(t, r). (x # t, r)) (parse_str ds)))
      else if (of_char c :: nat) < 32 then None
      else map_option (\<lambda>(t, r). (c # t, r)) (parse_str cs))"

fun parse_value :: "nat \<Rightarrow> string \<Rightarrow> (json \<times> string) option"
and parse_elems :: "nat \<Rightarrow> string \<Rightarrow> (json list \<times> string) option"
and parse_members :: "nat \<Rightarrow> string \<Rightarrow> (fields \<times> string) option" where
  "parse_value 0 s = None"
| "parse_value (Suc n) s =
     (case skip_ws s of
        [] \<Rightarrow> None
      | c # cs \<Rightarrow>
          if (of_char c :: nat) = 34 then map_option (\<lambda>(t, r). (JStr t, r)) (parse_str cs)
          else if c = CHR ''['' then
            (case skip_ws cs of
               [] \<Rightarrow> None
             | d # r \<Rightarrow> if d = CHR '']'' then Some (JArr [], r)
                        else map_option (\<lambda>(vs, r'). (JArr vs, r')) (parse_elems n cs))
          else if c = CHR ''{'' then
            (case skip_ws cs of
               [] \<Rightarrow> None
             | d # r \<Rightarrow> if d = CHR ''}'' then Some (JObj [], r)
                        else map_option (\<lambda>(kvs, r'). (JObj (js_order (map_from kvs)), r')) (parse_members n cs))
          else if prefix ''true'' (c # cs) then Some (JBool True, drop 4 (c # cs))
          else if prefix ''false'' (c # cs) then Some (JBool False, drop 5 (c # cs))
          else if prefix ''null'' (c # cs) then Some (JNull, drop 4 (c # cs))
          else map_option (\<lambda>(x, r). (JNum x, r)) (parse_num (c # cs)))"
| "parse_elems 0 s = None"
| "parse_elems (Suc n) s =
     (case parse_value n s of
        None \<Rightarrow> None
      | Some (v, r) \<Rightarrow>
          (case skip_ws r of
             [] \<Rightarrow> None
           | d # r' \<Rightarrow>
               if d = CHR '','' then map_option (\<lambda>(vs, q). (v # vs, q)) (parse_elems n r')
               else if d = CHR '']'' then Some ([v], r') else None))"
| "parse_members 0 s = None"
| "parse_members (Suc n) s =
     (case skip_ws s of
        [] \<Rightarrow> None
      | c # cs \<Rightarrow>
          if (of_char c :: nat) \<noteq> 34 then None
          else (case parse_str cs of
             None \<Rightarrow> None
           | Some (k, r) \<Rightarrow>
               (case skip_ws r of
                  [] \<Rightarrow> None
                | d # r1 \<Rightarrow>
                    if d \<noteq> CHR '':'' then None
                    else (case parse_value n r1 of
                       None \<Rightarrow> None
                     | Some (v, r2) \<Rightarrow>
                         (case skip_ws r2 of
                            [] \<Rightarrow> None
                          | d' # r3 \<Rightarrow>
                              if d' = CHR '','' then map_option (\<lambda>(kvs, q). ((k, v) # kvs, q)) (parse_members n r3)
                              else if d' = CHR ''}'' then Some ([(k, v)], r3) else None)))))"

declare parse_value.simps [simp del] parse_elems.simps [simp del] parse_members.simps [simp del]

definition json_parse :: "string \<Rightarrow> json option" where
  "json_parse s =
     (case parse_value (Suc (length s)) s of
        None \<Rightarrow> None
      | Some (v, r) \<Rightarrow> if skip_ws r = [] then Some v else None)"

subsection \<open>\<open>Number(s)\<close> on a string\<close>

definition radix_val :: "nat \<Rightarrow> string \<Rightarrow> nat" where
  "radix_val b s = foldl (\<lambda>a c. a * b + hex_val c) 0 s"

definition str_to_num :: "string \<Rightarrow> jsnum" where
  "str_to_num s0 =
     (let s = trim s0;
          (neg, s1) = (case s of [] \<Rightarrow> (False, s)
                       | c # r \<Rightarrow> if c = CHR ''-'' then (True, r) else if c = CHR ''+'' then (False, r) else (False, s));
          ip = takeWhile is_digit s1;
          s2 = dropWhile is_digit s1;
          (fp, s3) = (case s2 of [] \<Rightarrow> ([], s2)
                      | c # r \<Rightarrow> if c = CHR ''.'' then (takeWhile is_digit r, dropWhile is_digit r) else ([], s2));
          (ex, s4, oke) = read_exp s3
      in if s = [] then JsInt 0
         else if s1 = ''Infinity'' then (if neg then NegInf else PosInf)
         else if (prefix ''0x'' s \<or> prefix ''0X'' s) \<and> drop 2 s \<noteq> [] \<and> list_all is_hex (drop 2 s)
           then num_of_dec False (radix_val 16 (drop 2 s)) 0
         else if (prefix ''0o'' s \<or> prefix ''0O'' s) \<and> drop 2 s \<noteq> [] \<and> list_all (\<lambda>c. is_digit c \<and> hex_val c < 8) (drop 2 s)
           then num_of_dec False (radix_val 8 (drop 2 s)) 0
         else if (prefix ''0b'' s \<or> prefix ''0B'' s) \<and> drop 2 s \<noteq> [] \<and> list_all (\<lambda>c. is_digit c \<and> hex_val c < 2) (drop 2 s)
           then num_of_dec False (radix_val 2 (drop 2 s)) 0
         else if ip = [] \<and> fp = [] \<or> \<not> oke \<or> s4 \<noteq> [] then NaN
         else num_of_dec neg (digits_val (ip @ fp)) (ex - int (length fp)))"

subsection \<open>Reading back a printed number\<close>

abbreviation no_digit :: "string \<Rightarrow> bool" where
  "no_digit r \<equiv> r = [] \<or> \<not> is_digit (hd r)"

text \<open>What may follow a number in a JSON text.\<close>

definition num_stop :: "string \<Rightarrow> bool" where
  "num_stop r \<longleftrightarrow> r = [] \<or> (\<not> is_digit (hd r) \<and> hd r \<noteq> CHR ''.'' \<and> hd r \<noteq> CHR ''e'' \<and> hd r \<noteq> CHR ''E'')"

lemma take_digits:
  "list_all is_digit ds \<Longrightarrow> no_digit r \<Longrightarrow> takeWhile is_digit (ds @ r) = ds"
  "list_all is_digit ds \<Longrightarrow> no_digit r \<Longrightarrow> dropWhile is_digit (ds @ r) = r"
proof -
  assume ds: "list_all is_digit ds" and r: "no_digit r"
  show "takeWhile is_digit (ds @ r) = ds"
    using ds r by (cases r) (simp_all add: takeWhile_append list_all_iff)
  show "dropWhile is_digit (ds @ r) = r"
    using ds r by (cases r) (simp_all add: dropWhile_append list_all_iff)
qed

lemma digits_val_zeros [simp]: "digits_val (ds @ replicate k (CHR ''0'')) = digits_val ds * 10 ^ k"
proof (induction k)
  case (Suc k)
  have "digits_val (ds @ replicate (Suc k) (CHR ''0'')) = digits_val ((ds @ replicate k (CHR ''0'')) @ [CHR ''0''])"
    by (simp add: replicate_append_same)
  also have "\<dots> = digits_val ds * 10 ^ Suc k"
    by (simp only: digits_val_snoc Suc) (simp add: digit_val_def)
  finally show ?case .
qed simp

lemma digits_val_lead_zeros [simp]: "digits_val (CHR ''0'' # ds) = digits_val ds"
  by (simp add: digits_val_def digit_val_def)

lemma digits_val_lead_zeros' [simp]: "digits_val (replicate k (CHR ''0'') @ ds) = digits_val ds"
  by (induction k) simp_all

lemma hd_nat_str: "0 < m \<Longrightarrow> hd (nat_str m) \<noteq> CHR ''0''"
proof (induction m rule: nat_str.induct)
  case (1 n)
  show ?case
  proof (cases "n < 10")
    case True
    have "of_char (digit_char n) = 48 + n" using True by (rule of_char_digit_char)
    then have "digit_char n \<noteq> CHR ''0''" using 1(2) by auto
    with True show ?thesis by (subst nat_str.simps) simp
  next
    case False
    then show ?thesis using 1 by (subst nat_str.simps) simp
  qed
qed

lemma norm_dec_pow: "norm_dec (m * 10 ^ k) e = norm_dec m (e + int k)"
proof (induction k arbitrary: e)
  case (Suc k)
  show ?case
  proof (cases "m = 0")
    case False
    have "norm_dec (m * 10 ^ Suc k) e = norm_dec (m * 10 ^ k) (e + 1)"
      by (subst norm_dec.simps) (simp add: False)
    then show ?thesis by (simp add: Suc algebra_simps)
  qed simp
qed simp

lemma num_of_dec_pow: "num_of_dec neg (m * 10 ^ k) e = num_of_dec neg m (e + int k)"
  by (simp add: num_of_dec_def norm_dec_pow)

definition read_num :: "bool \<Rightarrow> string \<Rightarrow> (jsnum \<times> string) option" where
  "read_num neg s1 =
     (let ip = takeWhile is_digit s1;
          (fp, s3, okf) = read_frac (dropWhile is_digit s1);
          (ex, s4, oke) = read_exp s3
      in if ip = [] \<or> (hd ip = CHR ''0'' \<and> length ip > 1) \<or> \<not> okf \<or> \<not> oke then None
         else Some (num_of_dec neg (digits_val (ip @ fp)) (ex - int (length fp)), s4))"

lemma read_num_parts:
  assumes "list_all is_digit ip" "ip \<noteq> []" "hd ip = CHR ''0'' \<Longrightarrow> length ip = 1" "no_digit s2"
    and "read_frac s2 = (fp, s3, True)" "read_exp s3 = (ex, s4, True)"
  shows "read_num neg (ip @ s2) = Some (num_of_dec neg (digits_val (ip @ fp)) (ex - int (length fp)), s4)"
  using assms by (simp add: read_num_def take_digits)

lemma read_frac_digits:
  "list_all is_digit fp \<Longrightarrow> fp \<noteq> [] \<Longrightarrow> no_digit s3 \<Longrightarrow> read_frac (CHR ''.'' # fp @ s3) = (fp, s3, True)"
  by (simp add: read_frac_def take_digits)

lemma read_frac_none: "s = [] \<or> hd s \<noteq> CHR ''.'' \<Longrightarrow> read_frac s = ([], s, True)"
  by (cases s) (simp_all add: read_frac_def)

lemma read_exp_none: "num_stop r \<Longrightarrow> read_exp r = (0, r, True)"
  by (cases r) (simp_all add: read_exp_def num_stop_def)

lemma digit_neq [simp]:
  "\<not> is_digit (CHR '']'')" "\<not> is_digit (CHR ''}'')" "\<not> is_digit (CHR ''e'')" "\<not> is_digit (CHR ''.'')" "\<not> is_digit (CHR ''-'')" "\<not> is_digit (CHR ''+'')"
  "is_digit (CHR ''0'')"
  by (simp_all add: is_digit_code)

lemma read_exp_digits:
  assumes "num_stop r"
  shows "read_exp (CHR ''e'' # (if ex < 0 then ''-'' else ''+'') @ nat_str (nat \<bar>ex\<bar>) @ r) = (ex, r, True)"
proof -
  have "no_digit r" using assms by (auto simp: num_stop_def)
  then have "takeWhile is_digit (nat_str (nat \<bar>ex\<bar>) @ r) = nat_str (nat \<bar>ex\<bar>)"
    "dropWhile is_digit (nat_str (nat \<bar>ex\<bar>) @ r) = r"
    by (simp_all add: take_digits nat_str_digits)
  then show ?thesis by (cases "ex < 0") (simp_all add: read_exp_def Let_def)
qed

lemma parse_num_read: "s = [] \<or> hd s \<noteq> CHR ''-'' \<Longrightarrow> parse_num s = read_num False s"
  "parse_num (CHR ''-'' # s) = read_num True s"
  by (cases s; simp add: parse_num_def read_num_def read_sign_def)
     (simp add: parse_num_def read_num_def read_sign_def)

text \<open>The decimals \<open>Number::toString\<close> prints from: no trailing zero digit.\<close>

definition norm_num :: "int \<Rightarrow> int \<Rightarrow> bool" where
  "norm_num m e \<longleftrightarrow> (if m = 0 then e = 0 else m mod 10 \<noteq> 0)"

lemma norm_num_dec: "norm_num m e \<Longrightarrow> norm_dec m e = (m, e)"
  by (subst norm_dec.simps) (simp add: norm_num_def split: if_splits)

lemma digits_str_read:
  assumes ds: "ds = nat_str m" and lead: "0 < m \<or> e = 0" and stop: "num_stop r"
  shows "read_num neg (digits_str ds e @ r) = Some (num_of_dec neg m e, r)"
proof -
  define n where "n = int (length ds) + e"
  have dig: "list_all is_digit ds" and ne: "ds \<noteq> []" and val: "digits_val ds = m"
    using ds by (simp_all add: nat_str_digits)
  have hd0: "hd ds = CHR ''0'' \<Longrightarrow> length ds = 1 \<and> e = 0"
    using lead hd_nat_str[of m] ds by (cases "m = 0") (auto simp: nat_str.simps)
  have nd: "no_digit r" and rx: "read_exp r = (0, r, True)" and rf: "read_frac r = ([], r, True)"
    using stop by (auto simp: num_stop_def intro: read_exp_none read_frac_none)
  consider (int) "0 \<le> e" "n \<le> 21" | (point) "e < 0" "0 < n" "n \<le> 21" | (small) "-6 < n" "n \<le> 0"
    | (exp1) "\<not> (0 \<le> e \<and> n \<le> 21)" "\<not> (0 < n \<and> n \<le> 21)" "\<not> (-6 < n \<and> n \<le> 0)" "length ds = 1"
    | (exp) "\<not> (0 \<le> e \<and> n \<le> 21)" "\<not> (0 < n \<and> n \<le> 21)" "\<not> (-6 < n \<and> n \<le> 0)" "length ds \<noteq> 1"
    using ne unfolding n_def by linarith
  then show ?thesis
  proof cases
    case int
    let ?z = "replicate (nat e) (CHR ''0'')"
    have "read_num neg ((ds @ ?z) @ r) = Some (num_of_dec neg (digits_val ((ds @ ?z) @ [])) (0 - int (length ([] :: string))), r)"
      by (rule read_num_parts) (use dig ne hd0 nd rx rf in \<open>auto simp: list_all_iff\<close>)
    moreover have "num_of_dec neg (digits_val (ds @ ?z)) 0 = num_of_dec neg m e"
      using int(1) by (simp add: val num_of_dec_pow)
    ultimately show ?thesis using int by (simp add: digits_str_def n_def Let_def)
  next
    case point
    let ?k = "nat n"
    have k: "0 < ?k" "?k < length ds" using point unfolding n_def by auto
    have "read_num neg (take ?k ds @ CHR ''.'' # drop ?k ds @ r) =
        Some (num_of_dec neg (digits_val (take ?k ds @ drop ?k ds)) (0 - int (length (drop ?k ds))), r)"
    proof (rule read_num_parts)
      show "list_all is_digit (take ?k ds)" using dig by (meson list_all_iff in_set_takeD)
      show "take ?k ds \<noteq> []" using k by auto
      show "length (take ?k ds) = 1" if "hd (take ?k ds) = CHR ''0''" using that hd0 k by auto
      show "read_frac (CHR ''.'' # drop ?k ds @ r) = (drop ?k ds, r, True)"
        using dig k nd by (intro read_frac_digits) (auto simp: list_all_iff dest: in_set_dropD)
    qed (use rx in simp_all)
    moreover have "- int (length (drop ?k ds)) = e" using k point(2) unfolding n_def by simp
    ultimately show ?thesis using point by (simp add: digits_str_def n_def Let_def val)
  next
    case small
    let ?z = "replicate (nat (- n)) (CHR ''0'')"
    have "read_num neg (''0'' @ CHR ''.'' # (?z @ ds) @ r) =
        Some (num_of_dec neg (digits_val (''0'' @ (?z @ ds))) (0 - int (length (?z @ ds))), r)"
    proof (rule read_num_parts)
      show "read_frac (CHR ''.'' # (?z @ ds) @ r) = (?z @ ds, r, True)"
        using dig ne nd by (intro read_frac_digits) (auto simp: list_all_iff)
    qed (use rx in simp_all)
    moreover have "- int (length (?z @ ds)) = e" using small unfolding n_def by simp
    moreover have "e < 0" using small(2) ne unfolding n_def by (cases ds) auto
    ultimately show ?thesis using small by (simp add: digits_str_def n_def Let_def val del: length_append)
  next
    case exp1
    let ?x = "CHR ''e'' # (if n - 1 < 0 then ''-'' else ''+'') @ nat_str (nat \<bar>n - 1\<bar>) @ r"
    have "read_num neg (ds @ ?x) =
        Some (num_of_dec neg (digits_val (ds @ [])) (n - 1 - int (length ([] :: string))), r)"
    proof (rule read_num_parts)
      show "read_frac ?x = ([], ?x, True)" by (rule read_frac_none) simp
      show "read_exp ?x = (n - 1, r, True)" by (rule read_exp_digits[OF stop])
    qed (use dig ne hd0 in auto)
    then show ?thesis using exp1 by (auto simp: digits_str_def n_def Let_def val)
  next
    case exp
    have k: "1 < length ds" using exp ne by (cases ds) auto
    let ?x = "CHR ''e'' # (if n - 1 < 0 then ''-'' else ''+'') @ nat_str (nat \<bar>n - 1\<bar>) @ r"
    have "read_num neg (take 1 ds @ CHR ''.'' # drop 1 ds @ ?x) =
        Some (num_of_dec neg (digits_val (take 1 ds @ drop 1 ds)) (n - 1 - int (length (drop 1 ds))), r)"
    proof (rule read_num_parts)
      show "list_all is_digit (take 1 ds)" using dig by (meson list_all_iff in_set_takeD)
      show "read_frac (CHR ''.'' # drop 1 ds @ ?x) = (drop 1 ds, ?x, True)"
        using dig k by (intro read_frac_digits) (auto simp: list_all_iff dest: in_set_dropD)
      show "read_exp ?x = (n - 1, r, True)" by (rule read_exp_digits[OF stop])
    qed (use k in auto)
    then show ?thesis using exp k by (auto simp: digits_str_def n_def Let_def val)
  qed
qed

lemma digits_str_head: "ds \<noteq> [] \<Longrightarrow> list_all is_digit ds \<Longrightarrow> digits_str ds e \<noteq> [] \<and> is_digit (hd (digits_str ds e))"
  by (cases ds) (auto simp: digits_str_def Let_def take_Cons split: nat.splits)

lemma parse_num_str:
  assumes "norm_num m e" "\<not> dec_overflows m e" "num_stop r"
  shows "parse_num (num_str (Dec m e) @ r) = Some (Dec m e, r)"
proof -
  have nd: "norm_dec m e = (m, e)" using assms(1) by (rule norm_num_dec)
  have num: "num_of_dec neg (nat \<bar>m\<bar>) e = Dec (if neg then - \<bar>m\<bar> else \<bar>m\<bar>) e" for neg
  proof -
    have "norm_num \<bar>m\<bar> e" using assms(1) by (auto simp: norm_num_def abs_if zmod_zminus1_eq_if)
    then have "norm_dec \<bar>m\<bar> e = (\<bar>m\<bar>, e)" by (rule norm_num_dec)
    moreover have "\<not> dec_overflows \<bar>m\<bar> e" using assms(2) by (simp add: dec_overflows_def)
    ultimately show ?thesis by (simp add: num_of_dec_def)
  qed
  have lead: "0 < nat \<bar>m\<bar> \<or> e = 0" using assms(1) by (auto simp: norm_num_def split: if_splits)
  note rd = digits_str_read[OF refl lead assms(3)]
  show ?thesis
  proof (cases "m < 0")
    case True
    then show ?thesis using rd[of True] num[of True] by (simp add: nd parse_num_read)
  next
    case False
    have "hd (digits_str (nat_str (nat m)) e @ r) \<noteq> CHR ''-''"
      using digits_str_head[of "nat_str (nat m)" e] nat_str_digits by (auto simp: hd_append)
    then show ?thesis using rd[of False] num[of False] False by (simp add: nd parse_num_read)
  qed
qed

subsection \<open>Reading back a quoted string\<close>

lemma parse_str_escape_char: "parse_str (escape_char c @ r) = map_option (\<lambda>(t, q). (c # t, q)) (parse_str r)"
proof -
  obtain n where n: "n < 256" "c = char_of (n :: nat)" using char_code_cases by blast
  have code: "of_char c = n" using n by simp
  consider "n \<in> {34, 92, 8, 12, 10, 13, 9}" | (ctl) "n < 32" "n \<notin> {8, 12, 10, 13, 9}" | (plain) "32 \<le> n" "n \<noteq> 34" "n \<noteq> 92"
    by fastforce
  then show ?thesis
  proof cases
    case 1
    moreover have "(char_of (34 :: nat) :: char) \<noteq> CHR ''u''" "(char_of (92 :: nat) :: char) \<noteq> CHR ''u''" by code_simp+
    ultimately show ?thesis using n by (elim insertE emptyE) (simp_all add: escape_char_def simple_escape_def Let_def)
  next
    case ctl
    have hd: "is_hex (hex_digit d) \<and> hex_val (hex_digit d) = d" if "d < 16" for d
    proof -
      have "of_char (hex_digit d) = (if d < 10 then 48 + d else 87 + d)" using that by (simp add: hex_digit_def)
      then show ?thesis using that by (auto simp: is_hex_def is_digit_code hex_val_def Let_def less_eq_char_def)
    qed
    have "(n div 16) * 16 + n mod 16 = n" by simp
    moreover have "n div 16 < 16" "n mod 16 < 16" using ctl(1) by simp_all
    moreover have "is_hex (CHR ''0'')" "hex_val (CHR ''0'') = 0"
      by (simp_all add: is_hex_def hex_val_def)
    ultimately show ?thesis using ctl code n(1) hd[of "n div 16"] hd[of "n mod 16"]
      by (simp add: escape_char_def Let_def) (simp add: n(2))
  next
    case plain
    then show ?thesis using code by (simp add: escape_char_def Let_def)
  qed
qed

lemma parse_str_quoted: "parse_str (concat (map escape_char s) @ char_of (34 :: nat) # r) = Some (s, r)"
  by (induction s) (simp_all add: parse_str_escape_char)

lemma quote_str_inj: "quote_str a = quote_str b \<Longrightarrow> a = b"
proof -
  assume "quote_str a = quote_str b"
  then have "parse_str (concat (map escape_char a) @ [char_of (34 :: nat)]) = parse_str (concat (map escape_char b) @ [char_of (34 :: nat)])"
    by (simp add: quote_str_def)
  then show "a = b" by (simp add: parse_str_quoted)
qed

subsection \<open>Reading back a value\<close>

text \<open>
  The values \<open>JSON.parse\<close> can return: no \<open>undefined\<close> and no date, finite numbers, objects
  with distinct keys in the language's order.
\<close>

fun json_ok :: "json \<Rightarrow> bool" where
  "json_ok JUndef = False"
| "json_ok JNull = True"
| "json_ok (JBool b) = True"
| "json_ok (JNum n) = (case n of Dec m e \<Rightarrow> norm_num m e \<and> \<not> dec_overflows m e | _ \<Rightarrow> False)"
| "json_ok (JStr s) = True"
| "json_ok (JDate d) = False"
| "json_ok (JArr vs) = (\<forall>v \<in> set vs. json_ok v)"
| "json_ok (JObj kvs) = (distinct (map fst kvs) \<and> js_order kvs = kvs \<and> (\<forall>kv \<in> set kvs. json_ok (snd kv)))"

definition val_stop :: "string \<Rightarrow> bool" where
  "val_stop r \<longleftrightarrow> r = [] \<or> hd r \<in> {CHR '','', CHR '']'', CHR ''}''}"

lemma val_stop_num: "val_stop r \<Longrightarrow> num_stop r"
  by (cases r) (auto simp: val_stop_def num_stop_def is_digit_code)

lemma json_ws_quote [simp]: "\<not> is_json_ws (char_of (34 :: nat))"
  by (simp add: is_json_ws_def Let_def)

lemma json_ws_punct [simp]:
  "\<not> is_json_ws (CHR '','')" "\<not> is_json_ws (CHR '']'')" "\<not> is_json_ws (CHR ''}'')" "\<not> is_json_ws (CHR ''['')"
  "\<not> is_json_ws (CHR ''{'')" "\<not> is_json_ws (CHR '':'')" "\<not> is_json_ws (CHR ''t'')" "\<not> is_json_ws (CHR ''f'')"
  "\<not> is_json_ws (CHR ''n'')" "\<not> is_json_ws (CHR ''-'')"
  by (simp_all add: is_json_ws_def Let_def)

lemma json_ws_digit: "is_digit c \<Longrightarrow> \<not> is_json_ws c"
  by (auto simp: is_json_ws_def is_digit_code Let_def)

lemma stringify_ok: "json_ok v \<Longrightarrow> stringify fmt v \<noteq> None"
  by (cases v) auto

definition jtext :: "json \<Rightarrow> string" where
  "jtext v = the (stringify (\<lambda>_. []) v)"

lemma stringify_jtext: "json_ok v \<Longrightarrow> stringify fmt v = Some (jtext v)"
proof (induction v rule: json_induct)
  case (Arr vs)
  then have "map (\<lambda>v. case stringify fmt v of None \<Rightarrow> ''null'' | Some s \<Rightarrow> s) vs = map jtext vs"
    and "map (\<lambda>v. case stringify (\<lambda>_. []) v of None \<Rightarrow> ''null'' | Some s \<Rightarrow> s) vs = map jtext vs"
    by (auto simp: jtext_def dest: stringify_ok split: option.splits)
  then show ?case by (simp only: jtext_def[of "JArr vs"] stringify.simps option.sel)
next
  case (Obj kvs)
  let ?f = "\<lambda>fmt kv. case stringify fmt (snd kv) of None \<Rightarrow> [] | Some s \<Rightarrow> [quote_str (fst kv) @ '':'' @ s]"
  have "stringify fmt (snd kv) = Some (jtext (snd kv))" if "kv \<in> set kvs" for kv
    using Obj(1)[of "fst kv" "snd kv"] Obj(2) that by auto
  moreover have "stringify (\<lambda>_. []) (snd kv) = Some (jtext (snd kv))" if "kv \<in> set kvs" for kv
    using Obj(2) that by (cases "stringify (\<lambda>_. []) (snd kv)") (auto simp: jtext_def dest: stringify_ok)
  ultimately have "map (?f fmt) kvs = map (?f (\<lambda>_. [])) kvs" by simp
  then show ?case by (simp only: jtext_def[of "JObj kvs"] stringify.simps option.sel)
qed (auto simp: jtext_def)

lemma jtext_arr: "json_ok (JArr vs) \<Longrightarrow> jtext (JArr vs) = ''['' @ join_with '','' (map jtext vs) @ '']''"
proof -
  assume "json_ok (JArr vs)"
  then have "map (\<lambda>v. case stringify (\<lambda>_. []) v of None \<Rightarrow> ''null'' | Some s \<Rightarrow> s) vs = map jtext vs"
    by (simp add: stringify_jtext)
  then show ?thesis by (simp only: jtext_def[of "JArr vs"] stringify.simps option.sel)
qed

definition member_text :: "string \<times> json \<Rightarrow> string" where
  "member_text kv = quote_str (fst kv) @ '':'' @ jtext (snd kv)"

lemma jtext_obj: "json_ok (JObj kvs) \<Longrightarrow> jtext (JObj kvs) = ''{'' @ join_with '','' (map member_text kvs) @ ''}''"
proof -
  assume "json_ok (JObj kvs)"
  then have "map (\<lambda>kv. case stringify (\<lambda>_. []) (snd kv) of None \<Rightarrow> [] | Some s \<Rightarrow> [quote_str (fst kv) @ '':'' @ s]) kvs
      = map (\<lambda>kv. [member_text kv]) kvs"
    by (simp add: stringify_jtext member_text_def)
  moreover have "concat (map (\<lambda>kv. [member_text kv]) kvs) = map member_text kvs" by (induction kvs) simp_all
  ultimately show ?thesis by (simp only: jtext_def[of "JObj kvs"] stringify.simps option.sel)
qed

lemma jtext_atoms:
  "jtext JNull = ''null''" "jtext (JBool b) = (if b then ''true'' else ''false'')" "jtext (JStr s) = quote_str s"
  "jtext (JNum (Dec m e)) = num_str (Dec m e)"
  by (simp_all add: jtext_def)

lemma num_str_head: "num_str (Dec m e) \<noteq> [] \<and> (hd (num_str (Dec m e)) = CHR ''-'' \<or> is_digit (hd (num_str (Dec m e))))"
  using digits_str_head nat_str_digits nat_str_nonempty by (auto simp: Let_def split: prod.splits)

text \<open>The first character of a value's text is not white space and closes no bracket.\<close>

lemma jtext_head:
  assumes "json_ok v"
  shows "jtext v \<noteq> [] \<and> \<not> is_json_ws (hd (jtext v)) \<and> hd (jtext v) \<noteq> CHR '']'' \<and> hd (jtext v) \<noteq> CHR ''}''"
proof (cases v)
  case (JNum n)
  then obtain m e where "v = JNum (Dec m e)" using assms by (auto split: jsnum.splits)
  then show ?thesis using num_str_head[of m e] by (auto simp: jtext_atoms json_ws_digit simp del: num_str.simps)
next
  case (JStr s)
  have "(char_of (34 :: nat) :: char) \<noteq> CHR '']''" "(char_of (34 :: nat) :: char) \<noteq> CHR ''}''" by code_simp+
  then show ?thesis by (simp add: JStr jtext_atoms quote_str_def)
qed (use assms in \<open>auto simp: jtext_atoms jtext_arr jtext_obj simp del: json_ok.simps(7,8)\<close>)

lemma skip_ws_head: "s \<noteq> [] \<Longrightarrow> \<not> is_json_ws (hd s) \<Longrightarrow> skip_ws s = s"
  by (cases s) auto

lemma parse_value_ws: "parse_value (Suc n) (c # s) = parse_value (Suc n) s" if "is_json_ws c"
  using that by (simp add: parse_value.simps)

lemma parse_value_num:
  assumes "norm_num m e" "\<not> dec_overflows m e" "num_stop r"
  shows "parse_value (Suc n) (num_str (Dec m e) @ r) = Some (JNum (Dec m e), r)"
proof -
  obtain c cs where c: "num_str (Dec m e) = c # cs" "c = CHR ''-'' \<or> is_digit c"
    using num_str_head[of m e] by (metis list.exhaust_sel)
  have "(of_char c :: nat) = 45 \<or> (48 \<le> (of_char c :: nat) \<and> (of_char c :: nat) \<le> 57)"
    using c(2) by (auto simp: is_digit_code)
  then have "\<not> is_json_ws c" "(of_char c :: nat) \<noteq> 34" "c \<noteq> CHR ''[''" "c \<noteq> CHR ''{''" "c \<noteq> CHR ''t''"
    "c \<noteq> CHR ''f''" "c \<noteq> CHR ''n''"
    by (auto simp: is_json_ws_def)
  then show ?thesis
    using parse_num_str[OF assms] c(1)
    by (simp add: parse_value.simps del: num_str.simps)
qed

lemma parse_elems_text:
  assumes "\<And>v r n. v \<in> set vs \<Longrightarrow> val_stop r \<Longrightarrow> size v < n \<Longrightarrow> parse_value n (jtext v @ r) = Some (v, r)"
    and "vs \<noteq> []" "size_list size vs < n"
  shows "parse_elems n (join_with '','' (map jtext vs) @ CHR '']'' # r) = Some (vs, r)"
  using assms
proof (induction vs arbitrary: n)
  case (Cons v vs)
  obtain k where k: "n = Suc k" "size v < k" "size_list size vs < k"
    using Cons.prems(3) by (cases n) auto
  show ?case
  proof (cases vs)
    case Nil
    then show ?thesis using Cons.prems(1)[of v "CHR '']'' # r" k] k
      by (simp add: parse_elems.simps val_stop_def)
  next
    case (Cons w ws)
    let ?rest = "join_with '','' (map jtext vs) @ CHR '']'' # r"
    have "parse_value k (jtext v @ CHR '','' # ?rest) = Some (v, CHR '','' # ?rest)"
      using Cons.prems(1) k by (simp add: val_stop_def)
    moreover have "parse_elems k ?rest = Some (vs, r)"
      using Cons.IH[of k] Cons.prems(1) k Cons by simp
    ultimately show ?thesis using k Cons by (simp add: parse_elems.simps)
  qed
qed simp

lemma parse_members_text:
  assumes "\<And>k v r n. (k, v) \<in> set kvs \<Longrightarrow> val_stop r \<Longrightarrow> size v < n \<Longrightarrow> parse_value n (jtext v @ r) = Some (v, r)"
    and "kvs \<noteq> []" "size_list (size_prod (\<lambda>_. 0) size) kvs < n"
  shows "parse_members n (join_with '','' (map member_text kvs) @ CHR ''}'' # r) = Some (kvs, r)"
  using assms
proof (induction kvs arbitrary: n)
  case (Cons kv kvs)
  obtain key v where kv: "kv = (key, v)" by force
  obtain k where k: "n = Suc k" "size v < k" "size_list (size_prod (\<lambda>_. 0) size) kvs < k"
    using Cons.prems(3) kv by (cases n) auto
  have val: "parse_value k (jtext v @ q) = Some (v, q)" if "val_stop q" for q
    using Cons.prems(1)[of key v q k] that k(2) kv by simp
  show ?case
  proof (cases kvs)
    case Nil
    then show ?thesis using val[of "CHR ''}'' # r"] k(1)
      by (simp add: kv member_text_def quote_str_def parse_members.simps parse_str_quoted val_stop_def)
  next
    case (Cons w ws)
    let ?rest = "join_with '','' (map member_text kvs) @ CHR ''}'' # r"
    have "parse_members k ?rest = Some (kvs, r)"
      using Cons.IH[of k] Cons.prems(1) k Cons by auto
    then show ?thesis using val[of "CHR '','' # ?rest"] k(1) Cons
      by (simp add: kv member_text_def[of "(key, v)"] quote_str_def parse_members.simps parse_str_quoted val_stop_def)
  qed
qed simp

lemma hd_join: "xs \<noteq> [] \<Longrightarrow> hd xs \<noteq> [] \<Longrightarrow> join_with sep xs \<noteq> [] \<and> hd (join_with sep xs) = hd (hd xs)"
  by (cases "(sep, xs)" rule: join_with.cases) auto

lemma parse_value_text:
  "json_ok v \<Longrightarrow> val_stop r \<Longrightarrow> size v < n \<Longrightarrow> parse_value n (jtext v @ r) = Some (v, r)"
proof (induction v arbitrary: r n rule: json_induct)
  case (Bool b)
  then show ?case by (cases n) (auto simp: jtext_atoms parse_value.simps)
next
  case (Num x)
  then obtain m e k where "x = Dec m e" "n = Suc k" "norm_num m e" "\<not> dec_overflows m e"
    by (cases n) (auto split: jsnum.splits)
  then show ?case using parse_value_num[of m e r k] val_stop_num[OF Num.prems(2)] by (simp add: jtext_atoms del: num_str.simps)
next
  case (Str s)
  then show ?case by (cases n) (simp_all add: jtext_atoms quote_str_def parse_value.simps parse_str_quoted)
next
  case (Arr vs)
  then obtain k where k: "n = Suc k" "size_list size vs < k" by (cases n) auto
  show ?case
  proof (cases "vs = []")
    case True
    then show ?thesis using k(1) by (simp add: jtext_def parse_value.simps)
  next
    case False
    have "hd (map jtext vs) \<noteq> []" "\<not> is_json_ws (hd (hd (map jtext vs)))" "hd (hd (map jtext vs)) \<noteq> CHR '']''"
      using False jtext_head[of "hd vs"] Arr.prems(1) by (simp_all add: hd_map)
    moreover have "parse_elems k (join_with '','' (map jtext vs) @ CHR '']'' # r) = Some (vs, r)"
      using Arr False k by (intro parse_elems_text) auto
    ultimately show ?thesis
      using hd_join[of "map jtext vs" "'',''"] False k(1)
      by (cases "join_with '','' (map jtext vs)") (simp_all add: jtext_arr[OF Arr.prems(1)] parse_value.simps)
  qed
next
  case (Obj kvs)
  then obtain k where k: "n = Suc k" "size_list (size_prod (\<lambda>_. 0) size) kvs < k" by (cases n) auto
  show ?case
  proof (cases "kvs = []")
    case True
    then show ?thesis using k(1) by (simp add: jtext_def parse_value.simps)
  next
    case False
    have hd: "hd (map member_text kvs) \<noteq> []" "hd (hd (map member_text kvs)) = char_of (34 :: nat)"
      using False by (simp_all add: hd_map member_text_def quote_str_def)
    have "parse_members k (join_with '','' (map member_text kvs) @ CHR ''}'' # r) = Some (kvs, r)"
      using Obj False k by (intro parse_members_text) auto
    moreover have "js_order (map_from kvs) = kvs" using Obj.prems(1) by (simp add: map_from_distinct)
    moreover have "(char_of (34 :: nat) :: char) \<noteq> CHR ''}''" by code_simp
    ultimately show ?thesis
      using hd_join[of "map member_text kvs" "'',''"] hd False k(1)
      by (cases "join_with '','' (map member_text kvs)") (simp_all add: jtext_obj[OF Obj.prems(1)] parse_value.simps)
  qed
qed (auto simp: parse_value.simps jtext_atoms elim: less_natE)

lemma jtext_inj: "json_ok a \<Longrightarrow> json_ok b \<Longrightarrow> jtext a = jtext b \<Longrightarrow> a = b"
proof -
  assume ok: "json_ok a" "json_ok b" and eq: "jtext a = jtext b"
  let ?n = "Suc (size a + size b)"
  have "parse_value ?n (jtext a @ []) = Some (a, [])" "parse_value ?n (jtext b @ []) = Some (b, [])"
    using ok parse_value_text[of a "[]" ?n] parse_value_text[of b "[]" ?n] by (simp_all add: val_stop_def)
  with eq show "a = b" by simp
qed

text \<open>The fuel \<open>json_parse\<close> starts with is enough for every printed value.\<close>

lemma length_join: "xs \<noteq> [] \<Longrightarrow> length (join_with [c] xs) + 1 = (\<Sum>x \<leftarrow> xs. length x + 1)"
  by (induction "[c]" xs rule: join_with.induct) auto

lemma size_le_text: "json_ok v \<Longrightarrow> size v \<le> length (jtext v)"
proof (induction v rule: json_induct)
  case (Num n)
  then show ?case using jtext_head[of "JNum n"] by (cases "jtext (JNum n)") simp_all
next
  case (Arr vs)
  have "size_list size vs \<le> (\<Sum>x \<leftarrow> map jtext vs. length x + 1)"
    using Arr by (induction vs) (auto intro: add_mono)
  then show ?case using Arr.prems length_join[of "map jtext vs" "CHR '',''"]
    by (cases "vs = []") (auto simp: jtext_arr simp del: json_ok.simps)
next
  case (Obj kvs)
  have "\<forall>kv \<in> set kvs. size (snd kv) \<le> length (jtext (snd kv))" using Obj by auto
  then have "size_list (size_prod (\<lambda>_. 0) size) kvs \<le> (\<Sum>x \<leftarrow> map member_text kvs. length x + 1)"
    by (induction kvs) (auto simp: member_text_def quote_str_def)
  then show ?case using Obj.prems length_join[of "map member_text kvs" "CHR '',''"]
    by (cases "kvs = []") (auto simp: jtext_obj simp del: json_ok.simps)
qed (auto simp: jtext_atoms quote_str_def)

lemma json_parse_jtext: "json_ok v \<Longrightarrow> json_parse (jtext v) = Some v"
  using parse_value_text[of v "[]" "Suc (length (jtext v))"] size_le_text[of v]
  by (simp add: json_parse_def val_stop_def)

subsection \<open>Integers as number values\<close>

lemma num_of_int_ok: "\<bar>i\<bar> < 9007199254740992 \<Longrightarrow> json_ok (JNum (num_of_int i))"
proof -
  assume i: "\<bar>i\<bar> < 9007199254740992"
  obtain m e where me: "norm_dec i 0 = (m, e)" by force
  show ?thesis
  proof (cases "i = 0")
    case True
    then show ?thesis by (simp add: num_of_int_def norm_num_def dec_overflows_def)
  next
    case False
    then have v: "m \<noteq> 0" "0 \<le> e" "m * 10 ^ nat e = i" using norm_dec_value[OF me] by auto
    have norm: "norm_num m e" using norm_dec_normal[OF me] v(1) by (simp add: norm_num_def)
    have abs: "\<bar>m\<bar> * 10 ^ nat e = \<bar>i\<bar>" using v(3) by (metis abs_mult abs_numeral power_abs)
    have "1 * 10 ^ nat e \<le> \<bar>m\<bar> * (10 :: int) ^ nat e" using v(1) by (intro mult_right_mono) auto
    then have "(10 :: int) ^ nat e < 10 ^ 308" using abs i by simp
    then have "nat e < 308" by (rule power_less_imp_less_exp[rotated]) simp
    then have "\<not> dec_overflows m e" using abs i v(2) by (auto simp: dec_overflows_def max_double_bound_def)
    with norm show ?thesis by (simp add: num_of_int_def me)
  qed
qed

lemma num_of_int_parts:
  obtains m e where "num_of_int i = Dec m e" "0 \<le> e" "m * 10 ^ nat e = i"
proof -
  obtain m e where me: "norm_dec i 0 = (m, e)" by force
  have "0 \<le> e \<and> m * 10 ^ nat e = i" using norm_dec_value[OF me] me by (cases "i = 0") auto
  then show thesis using that[of m e] by (simp add: num_of_int_def me)
qed

lemma int_of_num_of_int [simp]: "int_of_num (num_of_int i) = Some i"
  by (rule num_of_int_parts[of i]) auto

lemma is_finite_num_of_int [simp]: "is_finite (num_of_int i)"
  by (rule num_of_int_parts[of i]) auto

lemma num_cmp_of_int [simp]:
  "num_less (JsInt a) (num_of_int b) \<longleftrightarrow> a < b" "num_less (num_of_int b) (JsInt a) \<longleftrightarrow> b < a"
  "num_eq (num_of_int b) (JsInt a) \<longleftrightarrow> b = a"
proof -
  obtain m e where b: "num_of_int b = Dec m e" "0 \<le> e" "m * 10 ^ nat e = b" by (rule num_of_int_parts)
  have "scale m e 0 = b" "scale a 0 0 = a" using b(3) by (simp_all add: scale_def)
  then show "num_less (JsInt a) (num_of_int b) \<longleftrightarrow> a < b" "num_less (num_of_int b) (JsInt a) \<longleftrightarrow> b < a"
    "num_eq (num_of_int b) (JsInt a) \<longleftrightarrow> b = a"
    using b(1,2) by (simp_all add: min_absorb1 min_absorb2)
qed

lemma num_leq_of_int [simp]: "num_leq (num_of_int b) (JsInt a) \<longleftrightarrow> b \<le> a"
  by (auto simp: num_leq_def)

text \<open>\<open>typeof v === "string"\<close> and \<open>typeof v === "number"\<close>\<close>

fun is_str :: "json \<Rightarrow> bool" where
  "is_str (JStr s) = True"
| "is_str _ = False"

fun is_num :: "json \<Rightarrow> bool" where
  "is_num (JNum n) = True"
| "is_num _ = False"

text \<open>\<open>Number(v)\<close>\<close>

fun js_number :: "(int \<Rightarrow> string) \<Rightarrow> json \<Rightarrow> jsnum" where
  "js_number dstr JUndef = NaN"
| "js_number dstr JNull = JsInt 0"
| "js_number dstr (JBool b) = JsInt (if b then 1 else 0)"
| "js_number dstr (JNum n) = n"
| "js_number dstr (JStr s) = str_to_num s"
| "js_number dstr (JDate d) = num_of_int d"
| "js_number dstr (JArr vs) = str_to_num (js_string dstr (JArr vs))"
| "js_number dstr (JObj kvs) = NaN"

text \<open>The integer part of a finite number, rounded down.\<close>

definition num_floor :: "jsnum \<Rightarrow> int" where
  "num_floor n = (case n of Dec m e \<Rightarrow> (if 0 \<le> e then m * 10 ^ nat e else m div 10 ^ nat (- e)) | _ \<Rightarrow> 0)"

end
