(* ===== verification/Audit_Chain.thy ===== *)
theory Audit_Chain
  imports Js_Json
begin

text \<open>
  The hash chain of the audit log: \<open>packages/audit/src/chain.ts\<close> and the record types of
  \<open>packages/audit/src/types.ts\<close>.

  \<open>sha\<close>, the SHA-256 of a text as lower-case hex, is a parameter: nothing is assumed about it.
  What tamper evidence owes to the absence of collisions is stated by exhibiting the two texts
  that would collide.
\<close>

subsection \<open>Records\<close>

record audit_input =
  au_event :: string
  au_actor :: string
  au_actorType :: string
  au_subject :: "string option"
  au_decision :: "string option"
  au_attributes :: json

record audit_body = audit_input +
  au_seq :: int
  au_timestamp :: string
  au_prevHash :: string

record audit_record = audit_body +
  au_hash :: string

datatype fail_reason = Hash_mismatch | Chain_break | Seq_gap | Bad_genesis

datatype verify_result = Verified nat | Failed int fail_reason

definition GENESIS_HASH :: string where
  "GENESIS_HASH = replicate 64 (CHR ''0'')"

definition REDACTED :: string where
  "REDACTED = ''[redacted]''"

subsection \<open>Scrubbing\<close>

text \<open>\<open>/\bkey\b/i\<close>: the word stands between word boundaries.\<close>

fun word_key_from :: "bool \<Rightarrow> string \<Rightarrow> bool" where
  "word_key_from after_word [] = False"
| "word_key_from after_word (c # cs) =
     ((\<not> after_word \<and> prefix ''key'' (to_lower (c # cs)) \<and>
       (case drop 3 (c # cs) of [] \<Rightarrow> True | d # _ \<Rightarrow> \<not> is_word_char d))
      \<or> word_key_from (is_word_char c) cs)"

definition secret_key :: "string \<Rightarrow> bool" where
  "secret_key k \<longleftrightarrow>
     contains_ci k ''pass'' \<or> contains_ci k ''secret'' \<or> contains_ci k ''token'' \<or>
     contains_ci k ''authorization'' \<or> contains_ci k ''cookie'' \<or> contains_ci k ''apikey'' \<or>
     contains_ci k ''api_key'' \<or> word_key_from False k"

text \<open>\<open>walk\<close> returns the scrubbed copy and the paths it scrubbed, in order.\<close>

definition child_path :: "string \<Rightarrow> string \<Rightarrow> string" where
  "child_path path k = (if path = [] then k else path @ ''.'' @ k)"

definition item_path :: "string \<Rightarrow> nat \<Rightarrow> string" where
  "item_path path i = path @ ''['' @ nat_str i @ '']''"

lemma enumerate_size [termination_simp]:
  "iv \<in> set (enumerate n vs) \<Longrightarrow> size (snd iv) < Suc (size_list size vs)"
  by (cases iv) (auto simp: in_set_enumerate_eq intro!: json_size_arr)

fun walk :: "string \<Rightarrow> json \<Rightarrow> json \<times> string list" where
  "walk path (JArr vs) =
     (let rs = map (\<lambda>iv. walk (item_path path (fst iv)) (snd iv)) (enumerate 0 vs)
      in (JArr (map fst rs), concat (map snd rs)))"
| "walk path (JObj kvs) =
     (let rs = map (\<lambda>kv. let p = child_path path (fst kv) in
                 if secret_key (fst kv) then ((fst kv, JStr REDACTED), [p])
                 else (let r = walk p (snd kv) in ((fst kv, fst r), snd r))) kvs
      in (JObj (obj_build (map fst rs)), concat (map snd rs)))"
| "walk path (JDate d) = (JObj [], [])"
| "walk path v = (v, [])"

definition scrubAttributes :: "json \<Rightarrow> json \<times> string list" where
  "scrubAttributes attributes = walk [] (coalesce attributes (JObj []))"

subsection \<open>Canonical form and hashing\<close>

text \<open>
  \<open>canon\<close>: keys sorted, \<open>undefined\<close> members dropped, arrays in order.  \<open>Object.keys\<close> of a
  date is empty, so a date becomes an empty object; none is left for \<open>JSON.stringify\<close>.
\<close>

fun canon :: "json \<Rightarrow> json" where
  "canon (JArr vs) = JArr (map canon vs)"
| "canon (JObj kvs) =
     JObj (obj_build (map (\<lambda>kv. (fst kv, canon (snd kv)))
       (filter (\<lambda>kv. snd kv \<noteq> JUndef) (sort_entries kvs))))"
| "canon (JDate d) = JObj []"
| "canon v = v"

definition canonicalize :: "json \<Rightarrow> string" where
  "canonicalize body = stringify_val (\<lambda>_. []) (canon body)"

definition opt_entry :: "string \<Rightarrow> string option \<Rightarrow> fields" where
  "opt_entry k v = (case v of None \<Rightarrow> [] | Some s \<Rightarrow> [(k, JStr s)])"

text \<open>The body object, with the keys in the order \<open>appendRecord\<close> writes them.\<close>

definition body_entries :: "'a audit_body_scheme \<Rightarrow> fields" where
  "body_entries b =
     [(''event'', JStr (au_event b)), (''actor'', JStr (au_actor b)), (''actorType'', JStr (au_actorType b))]
     @ opt_entry ''subject'' (au_subject b) @ opt_entry ''decision'' (au_decision b)
     @ [(''attributes'', au_attributes b), (''seq'', JNum (num_of_int (au_seq b))),
        (''timestamp'', JStr (au_timestamp b)), (''prevHash'', JStr (au_prevHash b))]"

definition body_json :: "'a audit_body_scheme \<Rightarrow> json" where
  "body_json b = JObj (body_entries b)"

definition hashRecord :: "(string \<Rightarrow> string) \<Rightarrow> 'a audit_body_scheme \<Rightarrow> string" where
  "hashRecord sha body = sha (canonicalize (body_json body))"

subsection \<open>Appending and verifying\<close>

definition appendRecord ::
  "(string \<Rightarrow> string) \<Rightarrow> audit_record option \<Rightarrow> audit_input \<Rightarrow> string \<Rightarrow> audit_record" where
  "appendRecord sha prev input timestamp =
     (let body = \<lparr>au_event = au_event input, au_actor = au_actor input, au_actorType = au_actorType input,
                 au_subject = au_subject input, au_decision = au_decision input,
                 au_attributes = fst (scrubAttributes (au_attributes input)),
                 au_seq = (case prev of None \<Rightarrow> 1 | Some p \<Rightarrow> au_seq p + 1),
                 au_timestamp = timestamp,
                 au_prevHash = (case prev of None \<Rightarrow> GENESIS_HASH | Some p \<Rightarrow> au_hash p)\<rparr>
      in audit_body.extend body \<lparr>au_hash = hashRecord sha body\<rparr>)"

text \<open>The loop over the records; \<open>len\<close> is \<open>records.length\<close>, \<open>prev\<close> the last record accepted.\<close>

fun verify_from :: "(string \<Rightarrow> string) \<Rightarrow> nat \<Rightarrow> audit_record option \<Rightarrow> audit_record list \<Rightarrow> verify_result" where
  "verify_from sha len prev [] = Verified len"
| "verify_from sha len prev (record # rest) =
     (if au_seq record \<noteq> (case prev of None \<Rightarrow> 1 | Some p \<Rightarrow> au_seq p + 1)
      then Failed (au_seq record) Seq_gap
      else if au_prevHash record \<noteq> (case prev of None \<Rightarrow> GENESIS_HASH | Some p \<Rightarrow> au_hash p)
      then Failed (au_seq record) (if prev = None then Bad_genesis else Chain_break)
      else if hashRecord sha (audit_body.truncate record) \<noteq> au_hash record
      then Failed (au_seq record) Hash_mismatch
      else verify_from sha len (Some record) rest)"

definition verifyChain :: "(string \<Rightarrow> string) \<Rightarrow> audit_record list \<Rightarrow> verify_result" where
  "verifyChain sha records = verify_from sha (length records) None records"

subsection \<open>What verification accepts\<close>

definition next_seq :: "audit_record option \<Rightarrow> int" where
  "next_seq prev = (case prev of None \<Rightarrow> 1 | Some p \<Rightarrow> au_seq p + 1)"

definition next_prevHash :: "audit_record option \<Rightarrow> string" where
  "next_prevHash prev = (case prev of None \<Rightarrow> GENESIS_HASH | Some p \<Rightarrow> au_hash p)"

text \<open>The first check of the loop body a record fails after \<open>prev\<close>, if any.\<close>

definition record_fault :: "(string \<Rightarrow> string) \<Rightarrow> audit_record option \<Rightarrow> audit_record \<Rightarrow> fail_reason option" where
  "record_fault sha prev r =
     (if au_seq r \<noteq> next_seq prev then Some Seq_gap
      else if au_prevHash r \<noteq> next_prevHash prev then Some (if prev = None then Bad_genesis else Chain_break)
      else if au_hash r \<noteq> hashRecord sha r then Some Hash_mismatch
      else None)"

definition before :: "'a list \<Rightarrow> nat \<Rightarrow> 'a option" where
  "before xs i = (if i = 0 then None else Some (xs ! (i - 1)))"

text \<open>The abstract contract: a numbered chain of hashes in which every record carries its own.\<close>

definition well_linked :: "(string \<Rightarrow> string) \<Rightarrow> audit_record list \<Rightarrow> bool" where
  "well_linked sha rs \<longleftrightarrow>
     (\<forall>i < length rs.
        au_seq (rs ! i) = int i + 1 \<and>
        au_prevHash (rs ! i) = (if i = 0 then GENESIS_HASH else au_hash (rs ! (i - 1))) \<and>
        au_hash (rs ! i) = hashRecord sha (rs ! i))"

lemma hashRecord_truncate [simp]: "hashRecord sha (audit_body.truncate r) = hashRecord sha r"
  by (simp add: hashRecord_def body_json_def body_entries_def audit_body.defs)

lemma verify_from_Cons:
  "verify_from sha c prev (r # rs) =
     (case record_fault sha prev r of Some f \<Rightarrow> Failed (au_seq r) f | None \<Rightarrow> verify_from sha c (Some r) rs)"
  by (cases prev) (auto simp: record_fault_def next_seq_def next_prevHash_def eq_commute[of "hashRecord sha r"])

declare verify_from.simps(2) [simp del]

lemma before_Cons [simp]:
  "before (x # xs) 0 = None" "before (x # xs) (Suc i) = (if i = 0 then Some x else before xs i)"
  by (auto simp: before_def nth_Cons')

lemma before_take: "i \<le> j \<Longrightarrow> before (take j xs) i = before xs i"
  by (simp add: before_def)

definition prev_at :: "'a option \<Rightarrow> 'a list \<Rightarrow> nat \<Rightarrow> 'a option" where
  "prev_at p xs i = (if i = 0 then p else Some (xs ! (i - 1)))"

lemma prev_at_None [simp]: "prev_at None xs i = before xs i"
  by (simp add: prev_at_def before_def)

lemma prev_at_Suc [simp]: "prev_at p (x # xs) (Suc i) = prev_at (Some x) xs i"
  by (simp add: prev_at_def nth_Cons')

lemma prev_at_0 [simp]: "prev_at p xs 0 = p"
  by (simp add: prev_at_def)

lemma verify_from_Verified:
  "verify_from sha c prev rs = Verified n \<longleftrightarrow>
     n = c \<and> (\<forall>i < length rs. record_fault sha (prev_at prev rs i) (rs ! i) = None)"
proof (induction rs arbitrary: prev)
  case (Cons r rs)
  have "(\<forall>i < length (r # rs). record_fault sha (prev_at prev (r # rs) i) ((r # rs) ! i) = None) \<longleftrightarrow>
      record_fault sha prev r = None \<and> (\<forall>i < length rs. record_fault sha (prev_at (Some r) rs i) (rs ! i) = None)"
    by (simp add: All_less_Suc2)
  then show ?case by (auto simp: verify_from_Cons Cons split: option.splits)
qed auto

lemma verify_from_Failed:
  "verify_from sha c prev rs = Failed s f \<longleftrightarrow>
     (\<exists>i < length rs. (\<forall>j < i. record_fault sha (prev_at prev rs j) (rs ! j) = None) \<and>
        record_fault sha (prev_at prev rs i) (rs ! i) = Some f \<and> s = au_seq (rs ! i))"
proof (induction rs arbitrary: prev)
  case (Cons r rs)
  show ?case
  proof (cases "record_fault sha prev r")
    case None
    have "(\<exists>i < length (r # rs). (\<forall>j < i. record_fault sha (prev_at prev (r # rs) j) ((r # rs) ! j) = None) \<and>
        record_fault sha (prev_at prev (r # rs) i) ((r # rs) ! i) = Some f \<and> s = au_seq ((r # rs) ! i)) \<longleftrightarrow>
      (\<exists>i < length rs. (\<forall>j < i. record_fault sha (prev_at (Some r) rs j) (rs ! j) = None) \<and>
        record_fault sha (prev_at (Some r) rs i) (rs ! i) = Some f \<and> s = au_seq (rs ! i))" (is "?L = ?R")
    proof
      assume ?L
      then obtain i where i: "i < length (r # rs)" "\<forall>j < i. record_fault sha (prev_at prev (r # rs) j) ((r # rs) ! j) = None"
        "record_fault sha (prev_at prev (r # rs) i) ((r # rs) ! i) = Some f" "s = au_seq ((r # rs) ! i)" by blast
      then obtain k where "i = Suc k" using None by (cases i) auto
      then show ?R using i by (intro exI[of _ k]) fastforce
    next
      assume ?R
      then obtain i where "i < length rs" "\<forall>j < i. record_fault sha (prev_at (Some r) rs j) (rs ! j) = None"
        "record_fault sha (prev_at (Some r) rs i) (rs ! i) = Some f" "s = au_seq (rs ! i)" by blast
      then show ?L using None by (intro exI[of _ "Suc i"]) (auto simp: less_Suc_eq_0_disj)
    qed
    then show ?thesis using None by (simp add: verify_from_Cons Cons)
  next
    case (Some g)
    then show ?thesis by (fastforce simp: verify_from_Cons)
  qed
qed simp

lemma well_linked_faults:
  "well_linked sha rs \<longleftrightarrow> (\<forall>i < length rs. record_fault sha (before rs i) (rs ! i) = None)"
proof
  assume "well_linked sha rs"
  then show "\<forall>i < length rs. record_fault sha (before rs i) (rs ! i) = None"
    by (auto simp: well_linked_def record_fault_def before_def next_seq_def next_prevHash_def)
next
  assume ok: "\<forall>i < length rs. record_fault sha (before rs i) (rs ! i) = None"
  have here: "au_seq (rs ! i) = next_seq (before rs i)" "au_prevHash (rs ! i) = next_prevHash (before rs i)"
    "au_hash (rs ! i) = hashRecord sha (rs ! i)" if "i < length rs" for i
    using ok[rule_format, OF that] by (simp_all add: record_fault_def split: if_splits)
  have "au_seq (rs ! i) = int i + 1" if "i < length rs" for i
    using that
  proof (induction i)
    case 0
    then show ?case using here(1)[of 0] by (simp add: before_def next_seq_def)
  next
    case (Suc i)
    then show ?case using here(1)[of "Suc i"] by (simp add: before_def next_seq_def)
  qed
  then show "well_linked sha rs"
    using here(2,3) by (simp add: well_linked_def before_def next_prevHash_def)
qed

lemma well_linked_take: "well_linked sha rs \<Longrightarrow> well_linked sha (take n rs)"
  by (auto simp: well_linked_def)

lemma well_linked_snoc:
  "well_linked sha (rs @ [r]) \<longleftrightarrow> well_linked sha rs \<and> record_fault sha (if rs = [] then None else Some (last rs)) r = None"
proof -
  have b: "before (rs @ [r]) i = (if i = length rs \<and> rs \<noteq> [] then Some (last rs) else before rs i)" if "i \<le> length rs" for i
    using that by (auto simp: before_def nth_append last_conv_nth)
  show ?thesis unfolding well_linked_faults
    by (auto simp: less_Suc_eq b nth_append all_conj_distrib before_def[of rs "length rs"] before_def[of "[]"])
qed

lemma verifyChain_Verified: "verifyChain sha rs = Verified n \<longleftrightarrow> n = length rs \<and> well_linked sha rs"
  by (simp add: verifyChain_def verify_from_Verified well_linked_faults)

lemma verifyChain_Failed:
  "verifyChain sha rs = Failed s f \<longleftrightarrow>
     (\<exists>i < length rs. well_linked sha (take i rs) \<and> record_fault sha (before rs i) (rs ! i) = Some f \<and> s = au_seq (rs ! i))"
proof -
  have "well_linked sha (take i rs) \<longleftrightarrow> (\<forall>j < i. record_fault sha (before rs j) (rs ! j) = None)" if "i < length rs" for i
    using that by (auto simp: well_linked_faults before_take)
  then show ?thesis by (auto simp: verifyChain_def verify_from_Failed)
qed

lemma appendRecord_fields [chain_simps]:
  "au_event (appendRecord sha prev input ts) = au_event input"
  "au_actor (appendRecord sha prev input ts) = au_actor input"
  "au_actorType (appendRecord sha prev input ts) = au_actorType input"
  "au_subject (appendRecord sha prev input ts) = au_subject input"
  "au_decision (appendRecord sha prev input ts) = au_decision input"
  "au_attributes (appendRecord sha prev input ts) = fst (scrubAttributes (au_attributes input))"
  "au_seq (appendRecord sha prev input ts) = next_seq prev"
  "au_timestamp (appendRecord sha prev input ts) = ts"
  "au_prevHash (appendRecord sha prev input ts) = next_prevHash prev"
  by (simp_all add: appendRecord_def audit_body.defs next_seq_def next_prevHash_def)

lemma appendRecord_hash [chain_simps]:
  "au_hash (appendRecord sha prev input ts) = hashRecord sha (appendRecord sha prev input ts)"
  by (simp add: appendRecord_def hashRecord_def body_json_def body_entries_def audit_body.defs)

lemma record_fault_appended:
  "record_fault sha prev (appendRecord sha prev input ts) = None"
  by (simp add: record_fault_def chain_simps flip: appendRecord_hash)

lemma well_linked_append:
  "well_linked sha rs \<Longrightarrow>
   well_linked sha (rs @ [appendRecord sha (if rs = [] then None else Some (last rs)) input ts])"
  by (simp add: well_linked_snoc record_fault_appended)

subsection \<open>The canonical form\<close>

definition canon_fields :: "fields \<Rightarrow> fields" where
  "canon_fields kvs = obj_build (map (\<lambda>kv. (fst kv, canon (snd kv))) (filter (\<lambda>kv. snd kv \<noteq> JUndef) (sort_entries kvs)))"

lemma canon_obj [simp]: "canon (JObj kvs) = JObj (canon_fields kvs)"
  by (simp add: canon_fields_def)

declare canon.simps(2) [simp del]

text \<open>What the canonical object holds, member by member.\<close>

definition canon_member :: "fields \<Rightarrow> string \<Rightarrow> json option" where
  "canon_member kvs k =
     (if k = ''__proto__'' then None
      else case map_of kvs k of None \<Rightarrow> None | Some v \<Rightarrow> if v = JUndef then None else Some (canon v))"

lemma distinct_sort_fst: "distinct (map fst (sort_key f kvs)) = distinct (map fst kvs)"
  by (rule mset_eq_imp_distinct_iff) simp

lemma distinct_sort_entries [simp]: "distinct (map fst (sort_entries kvs)) = distinct (map fst kvs)"
  by (simp add: sort_entries_def distinct_sort_fst)

lemma map_of_filter_snd:
  "distinct (map fst kvs) \<Longrightarrow> map_of (filter (\<lambda>kv. P (snd kv)) kvs) k =
     (case map_of kvs k of None \<Rightarrow> None | Some v \<Rightarrow> if P v then Some v else None)"
  by (induction kvs) (auto split: option.splits dest: map_of_SomeD simp: rev_image_eqI)

lemma map_of_filter_fst: "map_of (filter (\<lambda>kv. P (fst kv)) kvs) k = (if P k then map_of kvs k else None)"
  by (induction kvs) auto

lemma map_of_map_snd: "map_of (map (\<lambda>kv. (fst kv, f (snd kv))) kvs) k = map_option f (map_of kvs k)"
  by (induction kvs) auto

lemma map_of_sort_entries: "distinct (map fst kvs) \<Longrightarrow> map_of (sort_entries kvs) = map_of kvs"
  by (intro map_of_inject_set[THEN iffD2]) simp_all

lemma map_of_obj_build:
  "distinct (map fst kvs) \<Longrightarrow> map_of (obj_build kvs) k = (if k = ''__proto__'' then None else map_of kvs k)"
proof -
  assume d: "distinct (map fst kvs)"
  then have "distinct (map fst (filter (\<lambda>kv. fst kv \<noteq> ''__proto__'') kvs))" by (rule distinct_map_filter)
  with d show ?thesis by (simp add: obj_build_distinct map_of_js_order map_of_filter_fst[of "\<lambda>k. k \<noteq> ''__proto__''"])
qed

lemma map_of_canon_fields: "distinct (map fst kvs) \<Longrightarrow> map_of (canon_fields kvs) k = canon_member kvs k"
proof -
  assume d: "distinct (map fst kvs)"
  let ?es = "map (\<lambda>kv. (fst kv, canon (snd kv))) (filter (\<lambda>kv. snd kv \<noteq> JUndef) (sort_entries kvs))"
  have "map fst ?es = map fst (filter (\<lambda>kv. snd kv \<noteq> JUndef) (sort_entries kvs))" by simp
  then have "distinct (map fst ?es)" using d by (metis distinct_map_filter distinct_sort_entries)
  then show ?thesis
    using d by (simp add: canon_fields_def map_of_obj_build canon_member_def map_of_map_snd
        map_of_filter_snd[of _ "\<lambda>v. v \<noteq> JUndef"] map_of_sort_entries split: option.splits)
qed

lemma distinct_canon_fields [simp]: "distinct (map fst (canon_fields kvs))"
  by (simp add: canon_fields_def distinct_obj_build)

lemma canon_fields_sorted:
  "distinct (map fst kvs) \<Longrightarrow>
   canon_fields kvs = js_order (sort_key fst (canon_fields kvs))"
proof -
  assume d: "distinct (map fst kvs)"
  let ?es = "map (\<lambda>kv. (fst kv, canon (snd kv))) (filter (\<lambda>kv. snd kv \<noteq> JUndef) (sort_entries kvs))"
  let ?fs = "filter (\<lambda>kv. fst kv \<noteq> ''__proto__'') ?es"
  have fsts: "map fst ?es = map fst (filter (\<lambda>kv. snd kv \<noteq> JUndef) (sort_entries kvs))" by simp
  have des: "distinct (map fst ?es)" unfolding fsts using d by (metis distinct_map_filter distinct_sort_entries)
  have "sorted (map fst (sort_entries kvs))" by (simp add: sort_entries_def)
  then have ses: "sorted (map fst ?es)" unfolding fsts by (rule sorted_filter)
  have sfs: "sorted (map fst ?fs)" using ses by (rule sorted_filter)
  have dfs: "distinct (map fst ?fs)" using des by (rule distinct_map_filter)
  have cf: "canon_fields kvs = js_order ?fs" using des by (simp add: canon_fields_def obj_build_distinct)
  have "sort_key fst (js_order ?fs) = ?fs"
  proof (rule map_sorted_distinct_set_unique[of fst])
    show "inj_on fst (set (sort_key fst (js_order ?fs)) \<union> set ?fs)"
      using dfs by (simp only: set_sort set_js_order Un_absorb distinct_map)
    show "distinct (map fst (sort_key fst (js_order ?fs)))"
      using dfs by (simp only: distinct_js_order distinct_sort_fst)
  qed (use sfs dfs in \<open>simp_all only: set_sort set_js_order sorted_sort_key\<close>)
  with cf show ?thesis by simp
qed

text \<open>Two objects with the same members have the same canonical object, whatever their key order.\<close>

lemma canon_fields_cong:
  assumes "distinct (map fst kvs)" "distinct (map fst ls)" "\<And>k. canon_member kvs k = canon_member ls k"
  shows "canon_fields kvs = canon_fields ls"
proof -
  have "map_of (canon_fields kvs) = map_of (canon_fields ls)"
    using assms by (simp add: fun_eq_iff map_of_canon_fields)
  then have set: "set (canon_fields kvs) = set (canon_fields ls)"
    by (simp add: map_of_inject_set)
  have "sort_key fst (canon_fields kvs) = sort_key fst (canon_fields ls)"
  proof (rule map_sorted_distinct_set_unique[of fst])
    show "inj_on fst (set (sort_key fst (canon_fields kvs)) \<union> set (sort_key fst (canon_fields ls)))"
      using set distinct_canon_fields[of ls] by (simp only: set_sort Un_absorb distinct_map)
    show "distinct (map fst (sort_key fst (canon_fields kvs)))" "distinct (map fst (sort_key fst (canon_fields ls)))"
      by (simp_all only: distinct_canon_fields distinct_sort_fst)
  qed (use set in \<open>simp_all only: set_sort sorted_sort_key\<close>)
  then show ?thesis using assms(1,2) by (metis canon_fields_sorted)
qed

lemma json_ok_canon_fields:
  "(\<And>kv. kv \<in> set kvs \<Longrightarrow> snd kv \<noteq> JUndef \<Longrightarrow> json_ok (canon (snd kv))) \<Longrightarrow> json_ok (JObj (canon_fields kvs))"
proof -
  assume ok: "\<And>kv. kv \<in> set kvs \<Longrightarrow> snd kv \<noteq> JUndef \<Longrightarrow> json_ok (canon (snd kv))"
  have "json_ok (snd kv)" if "kv \<in> set (canon_fields kvs)" for kv
  proof -
    have "kv \<in> set (map (\<lambda>kv. (fst kv, canon (snd kv))) (filter (\<lambda>kv. snd kv \<noteq> JUndef) (sort_entries kvs)))"
      using that unfolding canon_fields_def using set_obj_build by blast
    then show ?thesis using ok by auto
  qed
  moreover have "js_order (canon_fields kvs) = canon_fields kvs" by (simp add: canon_fields_def)
  ultimately show ?thesis by simp
qed

lemma json_ok_canon: "json_ok v \<Longrightarrow> json_ok (canon v)"
proof (induction v rule: json_induct)
  case (Obj kvs)
  then have "json_ok (JObj (canon_fields kvs))"
    by (intro json_ok_canon_fields) auto
  then show ?case by simp
qed auto

lemma canonicalize_jtext: "json_ok (canon v) \<Longrightarrow> canonicalize v = jtext (canon v)"
  by (simp add: canonicalize_def stringify_val_def stringify_jtext)

lemma canonicalize_inj:
  "json_ok (canon a) \<Longrightarrow> json_ok (canon b) \<Longrightarrow> canonicalize a = canonicalize b \<Longrightarrow> canon a = canon b"
  by (simp add: canonicalize_jtext jtext_inj)

text \<open>What a record says, with its attributes in canonical form.\<close>

definition record_content ::
  "'a audit_body_scheme \<Rightarrow> string \<times> string \<times> string \<times> string option \<times> string option \<times> json \<times> int \<times> string \<times> string" where
  "record_content r = (au_event r, au_actor r, au_actorType r, au_subject r, au_decision r,
     canon (au_attributes r), au_seq r, au_timestamp r, au_prevHash r)"

text \<open>Attributes as the \<open>jsonb\<close> column returns them, and a sequence number a double holds exactly.\<close>

definition stored_ok :: "'a audit_body_scheme \<Rightarrow> bool" where
  "stored_ok r \<longleftrightarrow> json_ok (au_attributes r) \<and> \<bar>au_seq r\<bar> < 9007199254740992"

lemma body_ok: "stored_ok b \<Longrightarrow> json_ok (canon (body_json b))"
proof -
  assume b: "stored_ok b"
  have "json_ok (canon (snd kv))" if "kv \<in> set (body_entries b)" for kv
    using that b num_of_int_ok[of "au_seq b"] json_ok_canon[of "au_attributes b"]
    by (auto simp: body_entries_def opt_entry_def stored_ok_def split: option.splits)
  then have "json_ok (JObj (canon_fields (body_entries b)))" by (rule json_ok_canon_fields)
  then show ?thesis by (simp add: body_json_def)
qed

lemma distinct_body_entries: "distinct (map fst (body_entries b))"
  by (cases "au_subject b"; cases "au_decision b") (simp_all add: body_entries_def opt_entry_def)

lemma body_members:
  "canon_member (body_entries b) ''event'' = Some (JStr (au_event b))"
  "canon_member (body_entries b) ''actor'' = Some (JStr (au_actor b))"
  "canon_member (body_entries b) ''actorType'' = Some (JStr (au_actorType b))"
  "canon_member (body_entries b) ''subject'' = map_option JStr (au_subject b)"
  "canon_member (body_entries b) ''decision'' = map_option JStr (au_decision b)"
  "canon_member (body_entries b) ''attributes'' =
     (if au_attributes b = JUndef then None else Some (canon (au_attributes b)))"
  "canon_member (body_entries b) ''seq'' = Some (JNum (num_of_int (au_seq b)))"
  "canon_member (body_entries b) ''timestamp'' = Some (JStr (au_timestamp b))"
  "canon_member (body_entries b) ''prevHash'' = Some (JStr (au_prevHash b))"
  by (cases "au_subject b"; cases "au_decision b"; simp add: canon_member_def body_entries_def opt_entry_def)+

lemma same_text_same_content:
  assumes "stored_ok a" "stored_ok b" "canonicalize (body_json a) = canonicalize (body_json b)"
  shows "record_content a = record_content b"
proof -
  have "canon_fields (body_entries a) = canon_fields (body_entries b)"
    using canonicalize_inj[OF body_ok body_ok] assms by (simp add: body_json_def)
  then have m: "canon_member (body_entries a) k = canon_member (body_entries b) k" for k
    by (metis map_of_canon_fields distinct_body_entries)
  have attr: "au_attributes a \<noteq> JUndef" "au_attributes b \<noteq> JUndef"
    using assms(1,2) by (auto simp: stored_ok_def)
  have inj: "map_option JStr x = map_option JStr y \<Longrightarrow> x = y" for x y
    by (cases x; cases y) simp_all
  show ?thesis
    using m[of "''event''"] m[of "''actor''"] m[of "''actorType''"] m[of "''subject''"] m[of "''decision''"]
      m[of "''attributes''"] m[of "''seq''"] m[of "''timestamp''"] m[of "''prevHash''"] attr
    by (simp add: body_members record_content_def num_of_int_inj inj)
qed

lemma same_content_same_text:
  assumes "record_content a = record_content b" "au_attributes a \<noteq> JUndef" "au_attributes b \<noteq> JUndef"
  shows "canon (body_json a) = canon (body_json b)"
proof -
  have "canon_member (body_entries a) k = canon_member (body_entries b) k" for k
    using assms by (cases "au_subject a"; cases "au_decision a"; cases "au_subject b"; cases "au_decision b")
      (auto simp: body_entries_def opt_entry_def canon_member_def record_content_def)
  then have "canon_fields (body_entries a) = canon_fields (body_entries b)"
    by (simp add: canon_fields_cong distinct_body_entries)
  then show ?thesis by (simp add: body_json_def)
qed

subsection \<open>Tamper evidence\<close>

text \<open>
  The hash function does not collide on the two chains: bodies at the same position that are
  written differently have different hashes.
\<close>

definition no_collision :: "(string \<Rightarrow> string) \<Rightarrow> audit_record list \<Rightarrow> audit_record list \<Rightarrow> bool" where
  "no_collision sha rs rs' \<longleftrightarrow>
     (\<forall>i < length rs. hashRecord sha (rs ! i) = hashRecord sha (rs' ! i) \<longrightarrow>
        canonicalize (body_json (rs ! i)) = canonicalize (body_json (rs' ! i)))"

lemma chain_agrees_backwards:
  assumes "well_linked sha rs" "well_linked sha rs'" "length rs = n" "length rs' = n"
    and ok: "\<forall>r \<in> set rs \<union> set rs'. stored_ok r" and nc: "no_collision sha rs rs'"
    and last: "0 < n \<Longrightarrow> au_hash (rs ! (n - 1)) = au_hash (rs' ! (n - 1))"
  shows "k < n \<Longrightarrow> au_hash (rs ! (n - 1 - k)) = au_hash (rs' ! (n - 1 - k)) \<and>
     record_content (rs ! (n - 1 - k)) = record_content (rs' ! (n - 1 - k))"
proof (induction k)
  have content: "record_content (rs ! i) = record_content (rs' ! i)"
    if "i < n" "au_hash (rs ! i) = au_hash (rs' ! i)" for i
  proof -
    have "hashRecord sha (rs ! i) = hashRecord sha (rs' ! i)"
      using that assms(1-4) by (simp add: well_linked_def)
    then have "canonicalize (body_json (rs ! i)) = canonicalize (body_json (rs' ! i))"
      using nc that(1) assms(3) by (simp add: no_collision_def)
    then show ?thesis using ok that(1) assms(3,4) by (intro same_text_same_content) auto
  qed
  {
    case 0
    then show ?case using content[of "n - 1"] last by simp
  next
    case (Suc k)
    define i where "i = n - 1 - Suc k"
    have i: "i < n" "n - 1 - k = Suc i" using Suc(2) by (auto simp: i_def)
    have "record_content (rs ! Suc i) = record_content (rs' ! Suc i)" using Suc i(2) by simp
    then have "au_prevHash (rs ! Suc i) = au_prevHash (rs' ! Suc i)" by (simp add: record_content_def)
    moreover have "Suc i < n" using Suc(2) i(2) by linarith
    ultimately have "au_hash (rs ! i) = au_hash (rs' ! i)"
      using assms(1-4) by (auto simp: well_linked_def)
    with content[OF i(1)] show ?case by (simp add: i_def)
  }
qed

lemma chain_agrees:
  assumes "well_linked sha rs" "well_linked sha rs'" "length rs = length rs'"
    and "\<forall>r \<in> set rs \<union> set rs'. stored_ok r" "no_collision sha rs rs'"
    and "rs \<noteq> [] \<Longrightarrow> au_hash (last rs) = au_hash (last rs')"
  shows "map (\<lambda>r. (record_content r, au_hash r)) rs = map (\<lambda>r. (record_content r, au_hash r)) rs'"
proof (rule nth_equalityI)
  fix i assume i: "i < length (map (\<lambda>r. (record_content r, au_hash r)) rs)"
  let ?n = "length rs"
  have "au_hash (rs ! (?n - 1)) = au_hash (rs' ! (?n - 1))"
  proof -
    have ne: "rs \<noteq> []" "rs' \<noteq> []" using i assms(3) by auto
    then show ?thesis using assms(6)[OF ne(1)] assms(3) by (simp add: last_conv_nth)
  qed
  then have "au_hash (rs ! (?n - 1 - (?n - 1 - i))) = au_hash (rs' ! (?n - 1 - (?n - 1 - i))) \<and>
     record_content (rs ! (?n - 1 - (?n - 1 - i))) = record_content (rs' ! (?n - 1 - (?n - 1 - i)))"
    using i assms by (intro chain_agrees_backwards[where sha = sha]) auto
  then show "map (\<lambda>r. (record_content r, au_hash r)) rs ! i = map (\<lambda>r. (record_content r, au_hash r)) rs' ! i"
    using i assms(3) by simp
qed (use assms(3) in simp)

subsection \<open>What scrubbing removes\<close>

text \<open>No member under a secret-looking key carries a value, no date and no \<open>__proto__\<close> is left.\<close>

fun scrubbed_clean :: "json \<Rightarrow> bool" where
  "scrubbed_clean (JArr vs) = (\<forall>v \<in> set vs. scrubbed_clean v)"
| "scrubbed_clean (JObj kvs) =
     (distinct (map fst kvs) \<and> js_order kvs = kvs \<and>
      (\<forall>kv \<in> set kvs. fst kv \<noteq> ''__proto__'' \<and>
         (if secret_key (fst kv) then snd kv = JStr REDACTED else scrubbed_clean (snd kv))))"
| "scrubbed_clean (JDate d) = False"
| "scrubbed_clean v = True"

text \<open>The value with everything under a secret-looking key blanked out.\<close>

fun mask_secrets :: "json \<Rightarrow> json" where
  "mask_secrets (JArr vs) = JArr (map mask_secrets vs)"
| "mask_secrets (JObj kvs) =
     JObj (map (\<lambda>kv. (fst kv, if secret_key (fst kv) then JNull else mask_secrets (snd kv))) kvs)"
| "mask_secrets v = v"

lemma obj_build_no_proto: "x \<in> set (obj_build kvs) \<Longrightarrow> fst x \<noteq> ''__proto__''"
proof (induction kvs rule: rev_induct)
  case (snoc kv kvs)
  obtain k v where kv: "kv = (k, v)" by force
  show ?case
  proof (cases "k = ''__proto__''")
    case False
    then have "x = (k, v) \<or> x \<in> set (obj_build kvs)"
      using snoc.prems set_map_set[of k v "obj_build kvs"] by (auto simp: kv obj_build_snoc obj_set_def)
    then show ?thesis using snoc.IH False by auto
  qed (use snoc in \<open>simp add: kv obj_build_snoc obj_set_def\<close>)
qed simp

lemma walk_clean: "scrubbed_clean (fst (walk p v))"
proof (induction v arbitrary: p rule: json_induct)
  case (Arr vs)
  then show ?case by (auto simp: Let_def in_set_enumerate_eq)
next
  case (Obj kvs)
  let ?e = "\<lambda>kv. let q = child_path p (fst kv) in
      if secret_key (fst kv) then ((fst kv, JStr REDACTED), [q]) else (let r = walk q (snd kv) in ((fst kv, fst r), snd r))"
  let ?es = "map fst (map ?e kvs)"
  have "fst kv \<noteq> ''__proto__'' \<and> (if secret_key (fst kv) then snd kv = JStr REDACTED else scrubbed_clean (snd kv))"
    if "kv \<in> set (obj_build ?es)" for kv
  proof -
    have "kv \<in> set ?es" using that set_obj_build by blast
    then obtain x where x: "x \<in> set kvs" "kv = fst (?e x)" by auto
    have "fst kv \<noteq> ''__proto__''" using that by (rule obj_build_no_proto)
    then show ?thesis using x Obj[of "fst x" "snd x"] by (simp add: Let_def)
  qed
  moreover have "fst (walk p (JObj kvs)) = JObj (obj_build ?es)" by (simp add: Let_def)
  ultimately show ?case by (simp add: distinct_obj_build del: walk.simps map_map)
qed simp_all

lemma walk_mask: "walk p (mask_secrets v) = walk p v"
proof (induction v arbitrary: p rule: json_induct)
  case (Arr vs)
  have "map (\<lambda>iv. walk (item_path p (fst iv)) (snd iv)) (enumerate n (map mask_secrets vs)) =
      map (\<lambda>iv. walk (item_path p (fst iv)) (snd iv)) (enumerate n vs)" for n
    using Arr by (induction vs arbitrary: n) auto
  then show ?case by (simp only: walk.simps mask_secrets.simps)
next
  case (Obj kvs)
  then show ?case by (auto simp: Let_def o_def intro!: arg_cong[where f = obj_build] arg_cong[where f = concat])
qed simp_all

lemma walk_clean_id: "scrubbed_clean v \<Longrightarrow> fst (walk p v) = v"
proof (induction v arbitrary: p rule: json_induct)
  case (Arr vs)
  have "map fst (map (\<lambda>iv. walk (item_path p (fst iv)) (snd iv)) (enumerate n vs)) = vs" for n
    using Arr by (induction vs arbitrary: n) auto
  then show ?case by (simp only: walk.simps Let_def fst_conv)
next
  case (Obj kvs)
  let ?e = "\<lambda>kv. let q = child_path p (fst kv) in
      if secret_key (fst kv) then ((fst kv, JStr REDACTED), [q]) else (let r = walk q (snd kv) in ((fst kv, fst r), snd r))"
  have "fst (?e kv) = kv" if "kv \<in> set kvs" for kv
    using Obj(1)[of "fst kv" "snd kv"] Obj(2) that by (cases kv) (auto simp: Let_def)
  then have es: "map fst (map ?e kvs) = kvs" by (simp add: map_idI)
  have "filter (\<lambda>kv. fst kv \<noteq> ''__proto__'') kvs = kvs" using Obj(2) by (auto intro: filter_True)
  then have "obj_build kvs = kvs" using Obj(2) by (simp add: obj_build_distinct)
  then show ?case by (simp only: walk.simps Let_def[of "map _ kvs"] es fst_conv)
qed simp_all

lemma scrub_not_nullish [simp]: "\<not> nullish (fst (scrubAttributes v))"
  by (cases v) (simp_all add: scrubAttributes_def coalesce_def Let_def)

lemma scrub_idem: "fst (scrubAttributes (fst (scrubAttributes v))) = fst (scrubAttributes v)"
proof -
  let ?w = "fst (scrubAttributes v)"
  have clean: "scrubbed_clean ?w" by (simp add: scrubAttributes_def walk_clean)
  show ?thesis using walk_clean_id[OF clean] by (simp add: scrubAttributes_def[of ?w] coalesce_def)
qed

lemma scrub_mask: "scrubAttributes (mask_secrets v) = scrubAttributes v"
  using walk_mask[of "[]" v] by (cases v) (simp_all add: scrubAttributes_def coalesce_def)

lemma appendRecord_scrubbed:
  "appendRecord sha prev (input\<lparr>au_attributes := fst (scrubAttributes (au_attributes input))\<rparr>) ts = appendRecord sha prev input ts"
  by (simp add: appendRecord_def scrub_idem)

subsection \<open>When two values have the same canonical form\<close>

text \<open>
  The abstract meaning of the canonical form, for values read from JSON: the order of members
  does not matter, the order of array elements does, and a member named \<open>__proto__\<close> is not seen.
\<close>

inductive same_content :: "json \<Rightarrow> json \<Rightarrow> bool" where
  same_atom: "(\<And>vs. v \<noteq> JArr vs) \<Longrightarrow> (\<And>kvs. v \<noteq> JObj kvs) \<Longrightarrow> same_content v v"
| same_arr: "list_all2 same_content vs ws \<Longrightarrow> same_content (JArr vs) (JArr ws)"
| same_obj: "(\<And>k. k \<noteq> ''__proto__'' \<Longrightarrow> rel_option same_content (map_of kvs k) (map_of ls k)) \<Longrightarrow>
     same_content (JObj kvs) (JObj ls)"

inductive_cases same_objE: "same_content (JObj kvs) w"
inductive_cases same_arrE: "same_content (JArr vs) w"

lemma same_atoms [simp]:
  "same_content JNull JNull" "same_content (JBool b) (JBool b)" "same_content (JNum n) (JNum n)"
  "same_content (JStr s) (JStr s)"
  by (simp_all add: same_atom)

lemma canon_member_ok:
  "json_ok (JObj kvs) \<Longrightarrow> canon_member kvs k = (if k = ''__proto__'' then None else map_option canon (map_of kvs k))"
  by (auto simp: canon_member_def split: option.splits dest!: map_of_SomeD)

lemma same_content_canon:
  "same_content a b \<Longrightarrow> json_ok a \<Longrightarrow> json_ok b \<Longrightarrow> canon a = canon b"
proof (induction rule: same_content.induct)
  case (same_arr vs ws)
  then have "list_all2 (\<lambda>v w. canon v = canon w) vs ws"
    by (auto simp: list_all2_conv_all_nth)
  then show ?case by (simp add: list_all2_conv_all_nth list_eq_iff_nth_eq)
next
  case (same_obj kvs ls)
  have "canon_member kvs k = canon_member ls k" for k
  proof (cases "k = ''__proto__''")
    case False
    have ok: "json_ok v" if "map_of kvs k = Some v" for v using same_obj.prems(1) map_of_SomeD[OF that] by auto
    have ok': "json_ok w" if "map_of ls k = Some w" for w using same_obj.prems(2) map_of_SomeD[OF that] by auto
    show ?thesis using same_obj.IH[OF False] ok ok'
      by (cases "map_of kvs k"; cases "map_of ls k")
        (auto simp: canon_member_ok[OF same_obj.prems(1)] canon_member_ok[OF same_obj.prems(2)])
  qed (simp add: canon_member_def)
  then have "canon_fields kvs = canon_fields ls" using same_obj.prems by (intro canon_fields_cong) auto
  then show ?case by simp
qed simp

lemma canon_same_content:
  "json_ok a \<Longrightarrow> json_ok b \<Longrightarrow> canon a = canon b \<Longrightarrow> same_content a b"
proof (induction a arbitrary: b rule: json_induct)
  case (Arr vs)
  obtain ws where b: "b = JArr ws" using Arr.prems by (cases b) auto
  have "list_all2 same_content vs ws"
  proof (rule list_all2_all_nthI)
    have "map canon vs = map canon ws" using Arr.prems(3) b by simp
    then show len: "length vs = length ws" by (rule map_eq_imp_length_eq)
    show "same_content (vs ! i) (ws ! i)" if i: "i < length vs" for i
    proof (rule Arr.IH)
      have "map canon vs ! i = map canon ws ! i" using Arr.prems(3) b by simp
      then show "canon (vs ! i) = canon (ws ! i)" using i len by simp
    qed (use Arr.prems b i len in simp_all)
  qed
  then show ?case by (simp add: b same_arr)
next
  case (Obj kvs)
  obtain ls where b: "b = JObj ls" using Obj.prems by (cases b) auto
  have d: "distinct (map fst kvs)" "distinct (map fst ls)" using Obj.prems b by simp_all
  have "canon_fields kvs = canon_fields ls" using Obj.prems(3) b by simp
  then have m: "canon_member kvs k = canon_member ls k" for k by (metis d map_of_canon_fields)
  have "rel_option same_content (map_of kvs k) (map_of ls k)" if "k \<noteq> ''__proto__''" for k
  proof (cases "map_of kvs k")
    case None
    then show ?thesis using m[of k] that canon_member_ok[OF Obj.prems(1)] canon_member_ok[of ls] Obj.prems(2) b by simp
  next
    case (Some v)
    have "json_ok (JObj ls)" using Obj.prems(2) b by simp
    then have "map_option canon (map_of ls k) = Some (canon v)"
      using m[of k] that Some by (simp only: canon_member_ok[OF Obj.prems(1)] canon_member_ok) simp
    then obtain w where w: "map_of ls k = Some w" "canon v = canon w" by (cases "map_of ls k") auto
    have "json_ok v" "json_ok w" using Obj.prems b map_of_SomeD[OF Some] map_of_SomeD[OF w(1)] by auto
    then show ?thesis using Obj.IH[OF map_of_SomeD[OF Some]] w Some by simp
  qed
  then show ?case unfolding b by (rule same_obj)
next
  case Null
  from Null(3) show ?case by (cases b) simp_all
next
  case (Bool x)
  from Bool(3) show ?case by (cases b) simp_all
next
  case (Num n)
  from Num(3) show ?case by (cases b) simp_all
next
  case (Str s)
  from Str(3) show ?case by (cases b) simp_all
qed simp_all

subsection \<open>Properties\<close>

definition demo_input :: "fields \<Rightarrow> audit_input" where
  "demo_input attrs = \<lparr>au_event = ''auth.login'', au_actor = ''alice'', au_actorType = ''human'',
     au_subject = None, au_decision = Some ''allow'', au_attributes = JObj attrs\<rparr>"

definition demo_record :: "fields \<Rightarrow> audit_record" where
  "demo_record attrs = appendRecord (\<lambda>s. s) None (demo_input attrs) ''2024-01-01T00:00:00.000Z''"

definition demo_chain :: "fields \<Rightarrow> audit_record list" where
  "demo_chain attrs = [demo_record attrs]"

lemma demo_verified: "verifyChain (\<lambda>s. s) (demo_chain attrs) = Verified 1"
  by (simp add: demo_chain_def demo_record_def verifyChain_Verified)
    (use well_linked_append[of "\<lambda>s. s" "[]"] in \<open>simp add: well_linked_def\<close>)

lemma demo_attributes: "au_attributes (demo_record attrs) = fst (scrubAttributes (JObj attrs))"
  by (simp add: demo_record_def demo_input_def appendRecord_def audit_body.defs)

text \<open>
  C2.  \<open>verifyChain\<close> accepts exactly the chains of the abstract contract: sequence numbers
  1, 2, ..., every \<open>prevHash\<close> the hash of the record before (the genesis value for the first),
  every hash the hash of the record's own body; the count it reports is the chain's length.
\<close>

theorem verify_accepts_exactly_linked_chains:
  "verifyChain sha rs = Verified n \<longleftrightarrow> n = length rs \<and> well_linked sha rs"
  by (rule verifyChain_Verified)

text \<open>
  C3.  When \<open>verifyChain\<close> fails it names the first bad record: everything before it is a valid
  chain, the reported \<open>seq\<close> is that record's, and the reason is the first of the three checks
  that record does not pass.
\<close>

theorem verify_locates_first_fault:
  "verifyChain sha rs = Failed s f \<longleftrightarrow>
     (\<exists>i < length rs. well_linked sha (take i rs) \<and>
        record_fault sha (before rs i) (rs ! i) = Some f \<and> s = au_seq (rs ! i))"
  by (rule verifyChain_Failed)

text \<open>
  Appending to a verified chain yields a verified chain one record longer, whatever the
  event, the attributes and the clock say.
\<close>

theorem append_keeps_chain_verified:
  "verifyChain sha rs = Verified n \<Longrightarrow>
   verifyChain sha (rs @ [appendRecord sha (if rs = [] then None else Some (last rs)) input ts]) = Verified (Suc n)"
  by (simp add: verifyChain_Verified well_linked_append)

theorem append_keeps_chain_verified_witness:
  "verifyChain (\<lambda>s. s) (demo_chain [] @ [appendRecord (\<lambda>s. s) (Some (last (demo_chain []))) (demo_input []) ''t'']) = Verified 2"
proof -
  show ?thesis
    using append_keeps_chain_verified[OF demo_verified, of "[]" "demo_input []" "''t''"]
    by (simp add: demo_chain_def numeral_2_eq_2)
qed



text \<open>
  C12.  Nothing stored under a secret-looking key reaches the log: two inputs whose attributes
  differ only there (at any depth) produce the same record, hash included.
\<close>

theorem secrets_do_not_reach_the_record:
  "mask_secrets a = mask_secrets b \<Longrightarrow>
   appendRecord sha prev (input\<lparr>au_attributes := a\<rparr>) ts = appendRecord sha prev (input\<lparr>au_attributes := b\<rparr>) ts"
  by (simp add: appendRecord_def) (metis scrub_mask)

theorem secrets_do_not_reach_the_record_witness:
  "appendRecord (\<lambda>s. s) None (demo_input [(''apiKey'', JStr ''hunter2''), (''n'', JNull)]) ''t'' =
   appendRecord (\<lambda>s. s) None (demo_input [(''apiKey'', JStr ''other''), (''n'', JNull)]) ''t''"
proof -
  have "mask_secrets (JObj [(''apiKey'', JStr ''hunter2''), (''n'', JNull)]) =
      mask_secrets (JObj [(''apiKey'', JStr ''other''), (''n'', JNull)])"
    by code_simp
  from secrets_do_not_reach_the_record[OF this, of "\<lambda>s. s" None "demo_input []" "''t''"]
  show ?thesis by (simp add: demo_input_def)
qed

text \<open>
  C16.  The canonical form is exactly as discriminating as it claims: two values read from JSON
  are hashed over the same text if and only if they agree up to the order of object members,
  with the exception that a member named \<open>__proto__\<close> is never seen.
\<close>

theorem canonical_text_iff_same_content:
  "json_ok a \<Longrightarrow> json_ok b \<Longrightarrow> canonicalize a = canonicalize b \<longleftrightarrow> same_content a b"
  by (metis canonicalize_inj json_ok_canon canon_same_content same_content_canon canonicalize_def)

theorem canonical_text_iff_same_content_witness:
  "same_content (JObj [(''b'', JArr [JNull, JBool True]), (''a'', JStr ''x'')])
     (JObj [(''a'', JStr ''x''), (''b'', JArr [JNull, JBool True])]) \<and>
   \<not> same_content (JArr [JNull, JBool True]) (JArr [JBool True, JNull])"
proof -
  let ?a = "JObj [(''b'', JArr [JNull, JBool True]), (''a'', JStr ''x'')]"
  let ?b = "JObj [(''a'', JStr ''x''), (''b'', JArr [JNull, JBool True])]"
  let ?c = "JArr [JNull, JBool True]" and ?d = "JArr [JBool True, JNull]"
  have "json_ok ?a" "json_ok ?b" "json_ok ?c" "json_ok ?d" "canonicalize ?a = canonicalize ?b"
    "canonicalize ?c \<noteq> canonicalize ?d"
    by code_simp+
  then show ?thesis
    using canonical_text_iff_same_content[of ?a ?b] canonical_text_iff_same_content[of ?c ?d] by blast
qed

lemma proto_member_unseen:
  assumes "distinct (map fst kvs)" "''__proto__'' \<notin> fst ` set kvs"
  shows "canon_fields (kvs @ [(''__proto__'', v)]) = canon_fields kvs"
proof (rule canon_fields_cong)
  show "canon_member (kvs @ [(''__proto__'', v)]) k = canon_member kvs k" for k
    by (cases "map_of kvs k") (auto simp: canon_member_def map_add_def)
qed (use assms in auto)

text \<open>
  The exception made concrete: adding a member \<open>__proto__\<close> with any value to the
  attributes of any stored record changes no verification result, so this one kind of tampering
  goes unnoticed.
\<close>

theorem proto_member_escapes_verification:
  "distinct (map fst kvs) \<Longrightarrow> ''__proto__'' \<notin> fst ` set kvs \<Longrightarrow> au_attributes r = JObj kvs \<Longrightarrow>
   verifyChain sha (rs @ r\<lparr>au_attributes := JObj (kvs @ [(''__proto__'', v)])\<rparr> # rs') = verifyChain sha (rs @ r # rs')"
proof -
  assume d: "distinct (map fst kvs)" "''__proto__'' \<notin> fst ` set kvs" and r: "au_attributes r = JObj kvs"
  let ?r' = "r\<lparr>au_attributes := JObj (kvs @ [(''__proto__'', v)])\<rparr>"
  have "canon_member (body_entries ?r') k = canon_member (body_entries r) k" for k
    by (cases "au_subject r"; cases "au_decision r")
      (simp_all add: body_entries_def opt_entry_def canon_member_def r proto_member_unseen[OF d])
  then have "canon (body_json ?r') = canon (body_json r)"
    by (simp add: body_json_def canon_fields_cong distinct_body_entries)
  then have h: "hashRecord sha ?r' = hashRecord sha r" by (simp add: hashRecord_def canonicalize_def)
  have fault: "record_fault sha p ?r' = record_fault sha p r" for p by (simp add: record_fault_def h)
  have succ: "record_fault sha (Some ?r') x = record_fault sha (Some r) x" for x
    by (simp add: record_fault_def next_seq_def next_prevHash_def)
  have tail: "verify_from sha n (Some ?r') rs' = verify_from sha n (Some r) rs'" for n
    by (cases rs') (simp_all add: verify_from_Cons succ)
  have "verify_from sha n p (rs @ ?r' # rs') = verify_from sha n p (rs @ r # rs')" for n p
    by (induction rs arbitrary: p) (simp_all add: verify_from_Cons fault tail split: option.splits)
  then show ?thesis by (simp add: verifyChain_def)
qed

theorem proto_member_escapes_verification_witness:
  "verifyChain (\<lambda>s. s) [hd (demo_chain [(''a'', JNull)])\<lparr>au_attributes := JObj [(''a'', JNull), (''__proto__'', JStr ''forged'')]\<rparr>]
     = Verified 1"
proof -
  have "fst (scrubAttributes (JObj [(''a'', JNull)])) = JObj [(''a'', JNull)]" by code_simp
  then have "au_attributes (demo_record [(''a'', JNull)]) = JObj [(''a'', JNull)]" by (simp add: demo_attributes)
  then show ?thesis
    using proto_member_escapes_verification[of "[(''a'', JNull)]" "demo_record [(''a'', JNull)]" "\<lambda>s. s" "[]" "JStr ''forged''" "[]"]
      demo_verified[of "[(''a'', JNull)]"]
    by (simp add: demo_chain_def)
qed

end
