(* ===== verification/Db.thy ===== *)
theory Db
  imports Prelude
begin

text \<open>
  The database seam: \<open>packages/runtime/src/db.ts\<close>.  A transaction works on its own copy of the
  state and the copy becomes the state at COMMIT.  Which of the driver's calls fail is given by
  a fault plan; a COMMIT that fails may or may not have reached the server (\<open>landed\<close>).
\<close>

datatype tx_call = Call_connect | Call_begin | Call_commit

datatype tx_event = Ev_connect | Ev_begin | Ev_commit | Ev_rollback | Ev_release

datatype 'e tx_error = Connect_failed | Begin_failed | Commit_failed | Body_failed 'e

type_synonym faults = "tx_call \<Rightarrow> bool"

definition no_faults :: faults where
  "no_faults c = False"

text \<open>
  \<open>transaction(fn)\<close>: BEGIN, the body, COMMIT; on any throw ROLLBACK and the original error;
  the client is released in every case.  The events are what the client sees.
\<close>

definition transaction ::
  "faults \<Rightarrow> bool \<Rightarrow> 'db \<Rightarrow> ('db \<Rightarrow> 'e + ('db \<times> 'a)) \<Rightarrow> 'db \<times> ('e tx_error + 'a) \<times> tx_event list" where
  "transaction fails landed db body =
     (if fails Call_connect then (db, Inl Connect_failed, [])
      else if fails Call_begin then (db, Inl Begin_failed, [Ev_connect, Ev_rollback, Ev_release])
      else (case body db of
          Inl e \<Rightarrow> (db, Inl (Body_failed e), [Ev_connect, Ev_begin, Ev_rollback, Ev_release])
        | Inr (db', a) \<Rightarrow>
            if fails Call_commit
            then (if landed then db' else db, Inl Commit_failed, [Ev_connect, Ev_begin, Ev_rollback, Ev_release])
            else (db', Inr a, [Ev_connect, Ev_begin, Ev_commit, Ev_release])))"

lemma transaction_ok:
  "fst (snd (transaction fails landed db body)) = Inr a \<longleftrightarrow>
     \<not> fails Call_connect \<and> \<not> fails Call_begin \<and> \<not> fails Call_commit \<and>
     body db = Inr (fst (transaction fails landed db body), a)"
  by (auto simp: transaction_def split: sum.splits prod.splits)

text \<open>An error other than a failed COMMIT leaves the state as it was.\<close>

lemma transaction_error:
  "fst (snd (transaction fails landed db body)) = Inl e \<Longrightarrow> e \<noteq> Commit_failed \<or> \<not> landed \<Longrightarrow>
   fst (transaction fails landed db body) = db"
  by (auto simp: transaction_def split: sum.splits prod.splits if_splits)

lemma transaction_state:
  "fst (transaction fails landed db body) = db \<or>
   (\<exists>a. body db = Inr (fst (transaction fails landed db body), a))"
  by (auto simp: transaction_def split: sum.splits prod.splits)

lemma transaction_no_faults [simp]:
  "transaction no_faults landed db body =
     (case body db of
        Inl e \<Rightarrow> (db, Inl (Body_failed e), [Ev_connect, Ev_begin, Ev_rollback, Ev_release])
      | Inr (db', a) \<Rightarrow> (db', Inr a, [Ev_connect, Ev_begin, Ev_commit, Ev_release]))"
  by (simp add: transaction_def no_faults_def split: sum.splits)

text \<open>
  A transaction is all or nothing and never leaks its connection: a result is returned
  exactly when every call succeeded and then the state is the body's; on an error the state is
  unchanged unless the COMMIT itself failed after reaching the server; and a connection that
  was taken is released exactly once, as the last event.
\<close>

theorem transaction_atomic:
  "case transaction fails landed db body of (db', res, evs) \<Rightarrow>
     (case res of
        Inr a \<Rightarrow> body db = Inr (db', a) \<and> Ev_commit \<in> set evs
      | Inl Commit_failed \<Rightarrow> (\<exists>a db''. body db = Inr (db'', a) \<and> db' = (if landed then db'' else db))
      | Inl (Body_failed e) \<Rightarrow> body db = Inl e \<and> db' = db
      | Inl _ \<Rightarrow> db' = db) \<and>
     count_list evs Ev_connect = count_list evs Ev_release \<and> (evs = [] \<or> last evs = Ev_release)"
  by (auto simp: transaction_def split: sum.splits prod.splits)

end
