(* ===== verification/Audit_Store.thy ===== *)
theory Audit_Store
  imports Audit_Chain Db
begin

text \<open>
  The append-only store over Postgres: \<open>packages/audit/src/store.ts\<close> and its runtime twin
  \<open>packages/runtime/src/audit.ts\<close>.

  A table is a list of pairs: the value of the \<open>bigint\<close> column \<open>seq\<close> (primary key, used by
  WHERE and ORDER BY) and the row object the driver returns.  What the driver returns for the
  values of an INSERT is a parameter \<open>pg_row\<close>, \<^term>\<open>None\<close> where the server rejects them; the
  properties ask of it that a record with JSON attributes reads back as itself (\<open>driver_ok\<close>).
  \<open>fmt\<close> and \<open>dstr\<close> are the two date formatters.
\<close>

type_synonym audit_table = "(int \<times> fields) list"

definition opt_string :: "(int \<Rightarrow> string) \<Rightarrow> json \<Rightarrow> string option" where
  "opt_string dstr v = (if nullish v then None else Some (js_string dstr v))"

text \<open>\<open>Number(v)\<close> of the \<open>bigint NOT NULL\<close> column, an integer or its decimal text.\<close>

definition number_of_bigint :: "json \<Rightarrow> int" where
  "number_of_bigint v =
     (case (case v of JStr s \<Rightarrow> int_of_num (str_to_num s) | JNum n \<Rightarrow> int_of_num n | _ \<Rightarrow> None) of
        Some i \<Rightarrow> i | None \<Rightarrow> 0)"

definition rowToRecord :: "(int \<Rightarrow> string) \<Rightarrow> (int \<Rightarrow> string) \<Rightarrow> fields \<Rightarrow> audit_record" where
  "rowToRecord fmt dstr r =
     \<lparr>au_event = js_string dstr (get_field r ''event''),
      au_actor = js_string dstr (get_field r ''actor''),
      au_actorType = js_string dstr (get_field r ''actor_type''),
      au_subject = opt_string dstr (get_field r ''subject''),
      au_decision = opt_string dstr (get_field r ''decision''),
      au_attributes = coalesce (get_field r ''attributes'') (JObj []),
      au_seq = number_of_bigint (get_field r ''seq''),
      au_timestamp = (case get_field r ''timestamp'' of JDate d \<Rightarrow> fmt d | v \<Rightarrow> js_string dstr v),
      au_prevHash = js_string dstr (get_field r ''prev_hash''),
      au_hash = js_string dstr (get_field r ''hash'')\<rparr>"

definition or_null :: "string option \<Rightarrow> json" where
  "or_null v = (case v of None \<Rightarrow> JNull | Some s \<Rightarrow> JStr s)"

definition insertParams :: "(int \<Rightarrow> string) \<Rightarrow> audit_record \<Rightarrow> json list" where
  "insertParams fmt r =
     [JNum (num_of_int (au_seq r)), JStr (au_timestamp r), JStr (au_event r), JStr (au_actor r),
      JStr (au_actorType r), or_null (au_subject r), or_null (au_decision r),
      JStr (stringify_val fmt (au_attributes r)), JStr (au_prevHash r), JStr (au_hash r)]"

subsection \<open>The statements\<close>

definition in_seq_order :: "audit_table \<Rightarrow> audit_table" where
  "in_seq_order tbl = sort_key fst tbl"

definition select_tail :: "audit_table \<Rightarrow> fields option" where
  "select_tail tbl = (if tbl = [] then None else Some (snd (last (in_seq_order tbl))))"

definition select_page :: "audit_table \<Rightarrow> int \<Rightarrow> nat \<Rightarrow> fields list" where
  "select_page tbl from limit = map snd (take limit (filter (\<lambda>r. from \<le> fst r) (in_seq_order tbl)))"

datatype append_error = Lock_failed | Tail_failed | Insert_failed | Unique_violation

datatype append_call = Call_lock | Call_tail | Call_insert

text \<open>The primary key on \<open>seq\<close> and the unique constraint on \<open>hash\<close>.\<close>

definition insert_row :: "audit_table \<Rightarrow> int \<Rightarrow> fields \<Rightarrow> audit_table option" where
  "insert_row tbl k row =
     (if k \<in> fst ` set tbl \<or> get_field row ''hash'' \<in> (\<lambda>r. get_field (snd r) ''hash'') ` set tbl
      then None else Some (tbl @ [(k, row)]))"

subsection \<open>Operations\<close>

text \<open>
  \<open>appendInTransaction\<close>: the keys the scrubber removed (reported before the first query), and
  the outcome.
\<close>

definition appendInTransaction ::
  "(string \<Rightarrow> string) \<Rightarrow> (int \<Rightarrow> string) \<Rightarrow> (int \<Rightarrow> string) \<Rightarrow> (json list \<Rightarrow> fields option) \<Rightarrow> (append_call \<Rightarrow> bool) \<Rightarrow>
   audit_input \<Rightarrow> string \<Rightarrow> audit_table \<Rightarrow> append_error + (audit_table \<times> audit_record)" where
  "appendInTransaction sha fmt dstr pg_row fails input now tbl =
     (let attributes = fst (scrubAttributes (au_attributes input)) in
      if fails Call_lock then Inl Lock_failed
      else if fails Call_tail then Inl Tail_failed
      else
        (let prev = map_option (rowToRecord fmt dstr) (select_tail tbl);
             record = appendRecord sha prev (input\<lparr>au_attributes := attributes\<rparr>) now
         in if fails Call_insert then Inl Insert_failed
            else (case pg_row (insertParams fmt record) of
                    None \<Rightarrow> Inl Insert_failed
                  | Some row \<Rightarrow>
                      (case insert_row tbl (au_seq record) row of
                         None \<Rightarrow> Inl Unique_violation
                       | Some tbl' \<Rightarrow> Inr (tbl', record)))))"

definition scrub_report :: "audit_input \<Rightarrow> (string \<times> string list) option" where
  "scrub_report input =
     (let keys = snd (scrubAttributes (au_attributes input)) in
      if keys = [] then None else Some (au_event input, keys))"

text \<open>\<open>append\<close> of the store: the same inside a transaction of its own.\<close>

definition store_append ::
  "(string \<Rightarrow> string) \<Rightarrow> (int \<Rightarrow> string) \<Rightarrow> (int \<Rightarrow> string) \<Rightarrow> (json list \<Rightarrow> fields option) \<Rightarrow> faults \<Rightarrow> bool \<Rightarrow>
   (append_call \<Rightarrow> bool) \<Rightarrow> audit_input \<Rightarrow> string \<Rightarrow> audit_table \<Rightarrow>
   audit_table \<times> (append_error tx_error + audit_record) \<times> tx_event list" where
  "store_append sha fmt dstr pg_row txf landed fails input now tbl =
     transaction txf landed tbl (appendInTransaction sha fmt dstr pg_row fails input now)"

definition store_read :: "(int \<Rightarrow> string) \<Rightarrow> (int \<Rightarrow> string) \<Rightarrow> audit_table \<Rightarrow> int option \<Rightarrow> nat option \<Rightarrow> audit_record list" where
  "store_read fmt dstr tbl fromSeq limit =
     map (rowToRecord fmt dstr)
       (select_page tbl (case fromSeq of None \<Rightarrow> 1 | Some s \<Rightarrow> s) (case limit of None \<Rightarrow> 1000 | Some l \<Rightarrow> l))"

text \<open>
  The paging loop of \<open>verify\<close> and \<open>readAllRecords\<close>.  One unit of fuel per page; \<^term>\<open>None\<close> when it runs out.
\<close>

fun read_pages ::
  "(int \<Rightarrow> string) \<Rightarrow> (int \<Rightarrow> string) \<Rightarrow> audit_table \<Rightarrow> nat \<Rightarrow> nat \<Rightarrow> int \<Rightarrow> audit_record list \<Rightarrow> audit_record list option" where
  "read_pages fmt dstr tbl page 0 fromSeq acc = None"
| "read_pages fmt dstr tbl page (Suc fuel) fromSeq acc =
     (let batch = map (rowToRecord fmt dstr) (select_page tbl fromSeq page) in
      if batch = [] then Some acc
      else (let acc' = acc @ batch in
            if length batch < page then Some acc'
            else read_pages fmt dstr tbl page fuel (au_seq (last acc') + 1) acc'))"

definition verify_page :: nat where
  "verify_page = 5000"

definition readAllRecords :: "(int \<Rightarrow> string) \<Rightarrow> (int \<Rightarrow> string) \<Rightarrow> nat \<Rightarrow> audit_table \<Rightarrow> audit_record list option" where
  "readAllRecords fmt dstr fuel tbl = read_pages fmt dstr tbl verify_page fuel 1 []"

definition store_verify ::
  "(string \<Rightarrow> string) \<Rightarrow> (int \<Rightarrow> string) \<Rightarrow> (int \<Rightarrow> string) \<Rightarrow> nat \<Rightarrow> audit_table \<Rightarrow> verify_result option" where
  "store_verify sha fmt dstr fuel tbl = map_option (verifyChain sha) (readAllRecords fmt dstr fuel tbl)"

subsection \<open>The table as a chain\<close>

definition history :: "(int \<Rightarrow> string) \<Rightarrow> (int \<Rightarrow> string) \<Rightarrow> audit_table \<Rightarrow> audit_record list" where
  "history fmt dstr tbl = map (rowToRecord fmt dstr \<circ> snd) (in_seq_order tbl)"

text \<open>Keys are unique and the row object shows the key.\<close>

definition table_ok :: "(int \<Rightarrow> string) \<Rightarrow> (int \<Rightarrow> string) \<Rightarrow> audit_table \<Rightarrow> bool" where
  "table_ok fmt dstr tbl \<longleftrightarrow>
     distinct (map fst tbl) \<and> (\<forall>r \<in> set tbl. au_seq (rowToRecord fmt dstr (snd r)) = fst r)"

definition driver_ok :: "(int \<Rightarrow> string) \<Rightarrow> (int \<Rightarrow> string) \<Rightarrow> (json list \<Rightarrow> fields option) \<Rightarrow> bool" where
  "driver_ok fmt dstr pg_row \<longleftrightarrow>
     (\<forall>r row. json_ok (au_attributes r) \<longrightarrow> \<not> nullish (au_attributes r) \<longrightarrow> pg_row (insertParams fmt r) = Some row \<longrightarrow> rowToRecord fmt dstr row = r)"

lemma set_in_seq_order [simp]: "set (in_seq_order tbl) = set tbl"
  by (simp add: in_seq_order_def)

lemma in_seq_order_empty [simp]: "in_seq_order tbl = [] \<longleftrightarrow> tbl = []"
  by (metis set_empty set_in_seq_order)

lemma history_empty [simp]: "history fmt dstr tbl = [] \<longleftrightarrow> tbl = []"
  by (simp add: history_def)

lemma history_Nil [simp]: "history fmt dstr [] = []"
  by (simp add: history_def in_seq_order_def)

lemma length_history [simp]: "length (history fmt dstr tbl) = length tbl"
  by (simp add: history_def in_seq_order_def)

lemma sort_key_snoc: "(\<And>y. y \<in> set xs \<Longrightarrow> f y \<le> f x) \<Longrightarrow> sort_key f (xs @ [x]) = sort_key f xs @ [x]"
proof (rule properties_for_sort_key)
  fix k
  show "filter (\<lambda>y. f k = f y) (sort_key f xs @ [x]) = filter (\<lambda>y. f k = f y) (xs @ [x])"
    using sort_key_stable[of f "f k" xs] by (simp add: eq_commute)
qed (auto simp: sorted_append)

lemma in_seq_order_strict: "distinct (map fst tbl) \<Longrightarrow> sorted_wrt (<) (map fst (in_seq_order tbl))"
proof -
  assume "distinct (map fst tbl)"
  then have "distinct (map fst (in_seq_order tbl))"
    unfolding in_seq_order_def by (subst mset_eq_imp_distinct_iff[where ys = "map fst tbl"]) simp_all
  then show ?thesis by (simp add: in_seq_order_def strict_sorted_iff)
qed

lemma last_key_max: "r \<in> set tbl \<Longrightarrow> fst r \<le> fst (last (in_seq_order tbl))"
proof -
  assume r: "r \<in> set tbl"
  then have ne: "in_seq_order tbl \<noteq> []" by auto
  have "sorted (map fst (in_seq_order tbl))" by (simp add: in_seq_order_def)
  then have "sorted (map fst (butlast (in_seq_order tbl) @ [last (in_seq_order tbl)]))" using ne by simp
  then have "\<forall>x \<in> set (butlast (in_seq_order tbl)). fst x \<le> fst (last (in_seq_order tbl))"
    by (auto simp: sorted_append simp del: append_butlast_last_id)
  moreover have "r \<in> set (butlast (in_seq_order tbl) @ [last (in_seq_order tbl)])" using r ne by simp
  ultimately show ?thesis by (auto simp del: append_butlast_last_id)
qed

lemma tail_record:
  "map_option (rowToRecord fmt dstr) (select_tail tbl) =
     (if history fmt dstr tbl = [] then None else Some (last (history fmt dstr tbl)))"
  by (auto simp: select_tail_def history_def last_map)

lemma next_key_fresh:
  assumes "table_ok fmt dstr tbl" "y \<in> set tbl"
  shows "fst y < next_seq (map_option (rowToRecord fmt dstr) (select_tail tbl))"
proof -
  have ne: "tbl \<noteq> []" using assms(2) by auto
  then have "last (in_seq_order tbl) \<in> set tbl" by (metis in_seq_order_empty last_in_set set_in_seq_order)
  then have "au_seq (rowToRecord fmt dstr (snd (last (in_seq_order tbl)))) = fst (last (in_seq_order tbl))"
    using assms(1) by (simp add: table_ok_def)
  then have "next_seq (map_option (rowToRecord fmt dstr) (select_tail tbl)) = fst (last (in_seq_order tbl)) + 1"
    using ne by (simp add: next_seq_def select_tail_def)
  then show ?thesis using last_key_max[OF assms(2)] by simp
qed

definition attributes_ok :: "audit_input \<Rightarrow> bool" where
  "attributes_ok input \<longleftrightarrow> json_ok (fst (scrubAttributes (au_attributes input)))"

lemma append_extends_history:
  assumes ok: "appendInTransaction sha fmt dstr pg_row fails input now tbl = Inr (tbl', r)"
    and tbl: "table_ok fmt dstr tbl" and driver: "driver_ok fmt dstr pg_row" and attrs: "attributes_ok input"
  shows "r = appendRecord sha (if tbl = [] then None else Some (last (history fmt dstr tbl))) input now \<and>
     history fmt dstr tbl' = history fmt dstr tbl @ [r] \<and> table_ok fmt dstr tbl'"
proof -
  let ?prev = "map_option (rowToRecord fmt dstr) (select_tail tbl)"
  obtain row where r: "r = appendRecord sha ?prev input now"
    and row: "pg_row (insertParams fmt r) = Some row" and ins: "insert_row tbl (au_seq r) row = Some tbl'"
    using ok appendRecord_scrubbed[of sha ?prev input now]
    by (auto simp: appendInTransaction_def Let_def split: if_splits option.splits)
  have rb: "rowToRecord fmt dstr row = r"
  proof -
    have "json_ok (au_attributes r)" "\<not> nullish (au_attributes r)"
      using attrs by (simp_all add: r chain_simps attributes_ok_def)
    then show ?thesis using driver row unfolding driver_ok_def by blast
  qed
  have tbl': "tbl' = tbl @ [(au_seq r, row)]" using ins by (auto simp: insert_row_def split: if_splits)
  have greater: "fst y < au_seq r" if "y \<in> set tbl" for y
    using next_key_fresh[OF tbl that] by (simp add: r chain_simps)
  have hist: "history fmt dstr tbl' = history fmt dstr tbl @ [r]"
    using greater rb by (simp add: history_def in_seq_order_def tbl' sort_key_snoc less_imp_le)
  have "table_ok fmt dstr tbl'"
    using tbl greater rb by (force simp: table_ok_def tbl')
  with hist r show ?thesis by (simp add: tail_record)
qed

text \<open>The sequence number an append computes is never taken: only a hash can violate a constraint.\<close>

lemma append_conflict_is_hash:
  assumes "appendInTransaction sha fmt dstr pg_row fails input now tbl = Inl Unique_violation"
    and tbl: "table_ok fmt dstr tbl"
  shows "\<exists>r row. pg_row (insertParams fmt r) = Some row \<and>
     r = appendRecord sha (if tbl = [] then None else Some (last (history fmt dstr tbl))) input now \<and>
     get_field row ''hash'' \<in> (\<lambda>x. get_field (snd x) ''hash'') ` set tbl"
proof -
  let ?prev = "map_option (rowToRecord fmt dstr) (select_tail tbl)"
  let ?r = "appendRecord sha ?prev input now"
  obtain row where row: "pg_row (insertParams fmt ?r) = Some row" and ins: "insert_row tbl (au_seq ?r) row = None"
    using assms(1) appendRecord_scrubbed[of sha ?prev input now]
    by (auto simp: appendInTransaction_def Let_def split: if_splits option.splits)
  have "au_seq ?r \<notin> fst ` set tbl"
    using next_key_fresh[OF tbl] by (fastforce simp: chain_simps)
  then have "get_field row ''hash'' \<in> (\<lambda>x. get_field (snd x) ''hash'') ` set tbl"
    using ins by (simp add: insert_row_def split: if_splits)
  with row show ?thesis by (auto simp: tail_record intro!: exI[of _ ?r])
qed

subsection \<open>Paging\<close>

lemma filter_after:
  assumes "sorted_wrt (<) (map fst L)" "0 < p" "p \<le> length L"
  shows "filter (\<lambda>r. fst (L ! (p - 1)) + 1 \<le> fst r) L = drop p (L :: (int \<times> 'b) list)"
proof -
  have lt: "fst (L ! i) < fst (L ! j)" if "i < j" "j < length L" for i j
    using assms(1) that by (simp add: sorted_wrt_iff_nth_less)
  have "filter (\<lambda>r. fst (L ! (p - 1)) + 1 \<le> fst r) (take p L) = []"
  proof (rule filter_False, rule ballI)
    fix r assume "r \<in> set (take p L)"
    then obtain i where i: "i < p" "i < length L" "r = L ! i" by (auto simp: in_set_conv_nth)
    have "p - 1 < length L" using assms(2,3) by linarith
    then have "fst r \<le> fst (L ! (p - 1))"
      using lt[of i "p - 1"] i by (cases "i = p - 1") (auto simp: less_imp_le)
    then show "\<not> fst (L ! (p - 1)) + 1 \<le> fst r" by simp
  qed
  moreover have "filter (\<lambda>r. fst (L ! (p - 1)) + 1 \<le> fst r) (drop p L) = drop p L"
  proof (rule filter_True, rule ballI)
    fix r assume "r \<in> set (drop p L)"
    then obtain i where "i < length L - p" "r = L ! (p + i)" by (auto simp: in_set_conv_nth)
    then have i: "p + i < length L" "r = L ! (p + i)" by linarith+
    then have "fst (L ! (p - 1)) < fst r" using lt[of "p - 1" "p + i"] assms(2) by simp
    then show "fst (L ! (p - 1)) + 1 \<le> fst r" by simp
  qed
  ultimately show ?thesis by (metis append_Nil append_take_drop_id filter_append)
qed

lemma read_pages_all:
  assumes ok: "table_ok fmt dstr tbl" and page: "0 < page"
  shows "length (filter (\<lambda>r. from \<le> fst r) (in_seq_order tbl)) < fuel \<Longrightarrow>
     read_pages fmt dstr tbl page fuel from acc =
       Some (acc @ map (rowToRecord fmt dstr \<circ> snd) (filter (\<lambda>r. from \<le> fst r) (in_seq_order tbl)))"
proof (induction fuel arbitrary: "from" acc)
  case (Suc fuel)
  define L where "L = filter (\<lambda>r. from \<le> fst r) (in_seq_order tbl)"
  let ?rec = "rowToRecord fmt dstr \<circ> snd"
  have batch: "map (rowToRecord fmt dstr) (select_page tbl from page) = map ?rec (take page L)"
    by (simp add: select_page_def L_def)
  show ?case
  proof (cases "L = [] \<or> length L < page")
    case True
    then show ?thesis using page by (auto simp: batch Let_def L_def[symmetric])
  next
    case False
    define k where "k = fst (L ! (page - 1))"
    have len: "0 < length L" "page \<le> length L" using False by auto
    have "sorted_wrt (<) (map fst L)"
      using in_seq_order_strict[of tbl] ok unfolding L_def table_ok_def by (simp add: sorted_wrt_filter sorted_wrt_map)
    then have rest: "filter (\<lambda>r. k + 1 \<le> fst r) L = drop page L"
      unfolding k_def using page len(2) by (rule filter_after)
    have "L ! (page - 1) \<in> set L" using page len(2) by simp
    then have kin: "L ! (page - 1) \<in> set tbl" "from \<le> k" by (auto simp: L_def k_def)
    have "filter (\<lambda>r. k + 1 \<le> fst r) (in_seq_order tbl) = filter (\<lambda>r. k + 1 \<le> fst r) L"
      unfolding L_def filter_filter using kin(2) by (intro filter_cong) auto
    then have next_page: "filter (\<lambda>r. k + 1 \<le> fst r) (in_seq_order tbl) = drop page L" using rest by simp
    have ne: "take page L \<noteq> []" using page len by auto
    have "last (take page L) = L ! (page - 1)" using len page ne by (simp add: last_conv_nth)
    then have seq: "au_seq (last (acc @ map ?rec (take page L))) = k"
      using kin(1) ok ne by (simp add: last_map table_ok_def k_def)
    have "length (drop page L) < fuel" using Suc.prems page len by (simp add: L_def[symmetric])
    then have "read_pages fmt dstr tbl page fuel (k + 1) (acc @ map ?rec (take page L)) =
        Some ((acc @ map ?rec (take page L)) @ map ?rec (drop page L))"
      using Suc.IH[of "k + 1"] by (simp only: next_page)
    then show ?thesis using ne len page seq
      by (simp add: batch Let_def L_def[symmetric] flip: map_append)
  qed
qed simp

lemma readAllRecords_history:
  assumes "table_ok fmt dstr tbl" "list_all (\<lambda>r. 1 \<le> fst r) tbl" "length tbl < fuel"
  shows "readAllRecords fmt dstr fuel tbl = Some (history fmt dstr tbl)"
proof -
  have "filter (\<lambda>r. 1 \<le> fst r) (in_seq_order tbl) = in_seq_order tbl"
    using assms(2) by (auto simp: list_all_iff intro: filter_True)
  then show ?thesis
    using read_pages_all[OF assms(1), of verify_page 1 fuel "[]"] assms(3)
    by (simp add: readAllRecords_def history_def verify_page_def) (simp add: in_seq_order_def)
qed

subsection \<open>The store as an append-only log\<close>

text \<open>
  What the clients of the store rely on: an accepted append adds exactly one entry at the end
  and keeps the log acceptable.
\<close>

locale append_only =
  fixes app :: "'i \<Rightarrow> 'db \<Rightarrow> 'db \<times> 'r option"
    and entries :: "'db \<Rightarrow> 'r list"
    and good :: "'db \<Rightarrow> bool"
    and valid :: "'i \<Rightarrow> bool"
  assumes answered: "good db \<Longrightarrow> valid i \<Longrightarrow> app i db = (db', Some r) \<Longrightarrow> entries db' = entries db @ [r]"
    and unanswered: "good db \<Longrightarrow> valid i \<Longrightarrow> app i db = (db', None) \<Longrightarrow>
      entries db' = entries db \<or> (\<exists>r. entries db' = entries db @ [r])"
    and stays_good: "good db \<Longrightarrow> valid i \<Longrightarrow> app i db = (db', x) \<Longrightarrow> good db'"
begin

primrec app_all :: "'i list \<Rightarrow> 'db \<Rightarrow> 'db" where
  "app_all [] db = db"
| "app_all (i # is) db = app_all is (fst (app i db))"

lemma app_step:
  assumes "good db" "valid i"
  shows "good (fst (app i db)) \<and> (entries (fst (app i db)) = entries db \<or> (\<exists>r. entries (fst (app i db)) = entries db @ [r]))"
proof (cases "app i db")
  case (Pair db' x)
  then show ?thesis using assms answered unanswered stays_good by (cases x) auto
qed

lemma app_all_good: "good db \<Longrightarrow> list_all valid is \<Longrightarrow> good (app_all is db)"
  by (induction "is" arbitrary: db) (auto dest: app_step)

lemma app_all_prefix: "good db \<Longrightarrow> list_all valid is \<Longrightarrow> prefix (entries db) (entries (app_all is db))"
proof (induction "is" arbitrary: db)
  case (Cons i "is")
  have "prefix (entries db) (entries (fst (app i db)))" using app_step[of db i] Cons.prems by auto
  also have "prefix (entries (fst (app i db))) (entries (app_all (i # is) db))"
    using Cons app_step[of db i] by simp
  finally show ?case .
qed simp

lemma app_all_bounded:
  "good db \<Longrightarrow> list_all valid is \<Longrightarrow> length (entries (app_all is db)) \<le> length (entries db) + length is"
proof (induction "is" arbitrary: db)
  case (Cons i "is")
  have "length (entries (fst (app i db))) \<le> Suc (length (entries db))" using app_step[of db i] Cons.prems by auto
  moreover have "length (entries (app_all is (fst (app i db)))) \<le> length (entries (fst (app i db))) + length is"
    using Cons app_step[of db i] by simp
  ultimately show ?case by simp
qed simp

end

text \<open>One call of \<open>append\<close>: what fails, the input and the clock.\<close>

record append_request =
  rq_faults :: "append_call \<Rightarrow> bool"
  rq_tx :: faults
  rq_landed :: bool
  rq_input :: audit_input
  rq_now :: string

definition append_once ::
  "(string \<Rightarrow> string) \<Rightarrow> (int \<Rightarrow> string) \<Rightarrow> (int \<Rightarrow> string) \<Rightarrow> (json list \<Rightarrow> fields option) \<Rightarrow> append_request \<Rightarrow> audit_table \<Rightarrow>
   audit_table \<times> audit_record option" where
  "append_once sha fmt dstr pg_row q tbl =
     (case store_append sha fmt dstr pg_row (rq_tx q) (rq_landed q) (rq_faults q) (rq_input q) (rq_now q) tbl of
        (tbl', res, _) \<Rightarrow> (tbl', (case res of Inr r \<Rightarrow> Some r | Inl _ \<Rightarrow> None)))"

definition verified_table ::
  "(string \<Rightarrow> string) \<Rightarrow> (int \<Rightarrow> string) \<Rightarrow> (int \<Rightarrow> string) \<Rightarrow> (json list \<Rightarrow> fields option) \<Rightarrow> audit_table \<Rightarrow> bool" where
  "verified_table sha fmt dstr pg_row tbl \<longleftrightarrow>
     driver_ok fmt dstr pg_row \<and> table_ok fmt dstr tbl \<and> well_linked sha (history fmt dstr tbl)"

lemma append_body_step:
  assumes "verified_table sha fmt dstr pg_row tbl" "attributes_ok input"
    and "appendInTransaction sha fmt dstr pg_row fails input now tbl = Inr (tbl', r)"
  shows "history fmt dstr tbl' = history fmt dstr tbl @ [r] \<and> verified_table sha fmt dstr pg_row tbl'"
proof -
  note ext = append_extends_history[OF assms(3)]
  have "well_linked sha (history fmt dstr tbl @ [r])"
    using ext assms(1,2) well_linked_append[of sha "history fmt dstr tbl"]
    by (auto simp: verified_table_def split: if_splits)
  with ext assms(1,2) show ?thesis by (simp add: verified_table_def)
qed

lemma append_once_step:
  assumes "verified_table sha fmt dstr pg_row tbl" "attributes_ok (rq_input q)" "append_once sha fmt dstr pg_row q tbl = (tbl', x)"
  shows "verified_table sha fmt dstr pg_row tbl' \<and>
     (case x of Some r \<Rightarrow> history fmt dstr tbl' = history fmt dstr tbl @ [r]
      | None \<Rightarrow> history fmt dstr tbl' = history fmt dstr tbl \<or> (\<exists>r. history fmt dstr tbl' = history fmt dstr tbl @ [r]))"
proof -
  define run where "run = store_append sha fmt dstr pg_row (rq_tx q) (rq_landed q) (rq_faults q) (rq_input q) (rq_now q) tbl"
  have run: "fst run = tbl'" "x = (case fst (snd run) of Inr r \<Rightarrow> Some r | Inl _ \<Rightarrow> None)"
    using assms(3) by (auto simp: append_once_def run_def[symmetric] split: prod.splits)
  let ?body = "appendInTransaction sha fmt dstr pg_row (rq_faults q) (rq_input q) (rq_now q)"
  note step = append_body_step[OF assms(1,2), of "rq_faults q" "rq_now q"]
  show ?thesis
  proof (cases x)
    case None
    have "tbl' = tbl \<or> (\<exists>r. ?body tbl = Inr (tbl', r))"
      using transaction_state[of "rq_tx q" "rq_landed q" tbl ?body] run(1) by (simp add: run_def store_append_def)
    then show ?thesis using None assms(1) step by auto
  next
    case (Some r)
    then have "fst (snd run) = Inr r" using run(2) by (auto split: sum.splits)
    then have "?body tbl = Inr (tbl', r)"
      using run(1) transaction_ok[of "rq_tx q" "rq_landed q" tbl ?body r] by (simp add: run_def store_append_def)
    then show ?thesis using Some step by simp
  qed
qed

interpretation pg_log: append_only
  "append_once sha fmt dstr pg_row" "history fmt dstr" "verified_table sha fmt dstr pg_row" "\<lambda>q. attributes_ok (rq_input q)"
  for sha fmt dstr pg_row
  by unfold_locales (auto dest: append_once_step)

subsection \<open>Concurrent appenders\<close>

text \<open>
  Transactions of different connections interleave at the statements of \<open>appendInTransaction\<close>.
  Each statement reads what is committed when it starts (READ COMMITTED).  \<open>locking\<close> says whether the
  transactions take the advisory lock before they read the tail.
\<close>

datatype appender =
    Idle
  | Waiting audit_input
  | Locked audit_input
  | Tail_read audit_input "audit_record option"
  | Inserted audit_record

record chain_sys =
  sys_committed :: "audit_record list"
  sys_lock :: "nat option"
  sys_procs :: "nat \<Rightarrow> appender"

definition at :: "nat \<Rightarrow> appender \<Rightarrow> chain_sys \<Rightarrow> chain_sys" where
  "at p a s = s\<lparr>sys_procs := (sys_procs s)(p := a)\<rparr>"

inductive chain_step :: "(string \<Rightarrow> string) \<Rightarrow> bool \<Rightarrow> chain_sys \<Rightarrow> chain_sys \<Rightarrow> bool"
  for sha :: "string \<Rightarrow> string" and locking :: bool where
  request: "sys_procs s p = Idle \<Longrightarrow> chain_step sha locking s (at p (Waiting i) s)"
| take_lock: "sys_procs s p = Waiting i \<Longrightarrow> locking \<Longrightarrow> sys_lock s = None \<Longrightarrow>
     chain_step sha locking s ((at p (Locked i) s)\<lparr>sys_lock := Some p\<rparr>)"
| skip_lock: "sys_procs s p = Waiting i \<Longrightarrow> \<not> locking \<Longrightarrow> chain_step sha locking s (at p (Locked i) s)"
| read_tail: "sys_procs s p = Locked i \<Longrightarrow>
     chain_step sha locking s
       (at p (Tail_read i (if sys_committed s = [] then None else Some (last (sys_committed s)))) s)"
| insert: "sys_procs s p = Tail_read i prev \<Longrightarrow>
     chain_step sha locking s (at p (Inserted (appendRecord sha prev i now)) s)"
| commit: "sys_procs s p = Inserted r \<Longrightarrow>
     chain_step sha locking s
       ((at p Idle s)\<lparr>sys_committed := sys_committed s @ [r], sys_lock := (if sys_lock s = Some p then None else sys_lock s)\<rparr>)"
| abort: "sys_procs s p \<noteq> Idle \<Longrightarrow>
     chain_step sha locking s ((at p Idle s)\<lparr>sys_lock := (if sys_lock s = Some p then None else sys_lock s)\<rparr>)"

definition chain_init :: chain_sys where
  "chain_init = \<lparr>sys_committed = [], sys_lock = None, sys_procs = (\<lambda>_. Idle)\<rparr>"

inductive chain_reachable :: "(string \<Rightarrow> string) \<Rightarrow> bool \<Rightarrow> chain_sys \<Rightarrow> bool"
  for sha :: "string \<Rightarrow> string" and locking :: bool where
  init: "chain_reachable sha locking chain_init"
| step: "chain_reachable sha locking s \<Longrightarrow> chain_step sha locking s s' \<Longrightarrow> chain_reachable sha locking s'"

definition tail_of :: "audit_record list \<Rightarrow> audit_record option" where
  "tail_of rs = (if rs = [] then None else Some (last rs))"

text \<open>Inside the lock, what a transaction has read is still the committed tail.\<close>

fun proc_ok :: "(string \<Rightarrow> string) \<Rightarrow> audit_record list \<Rightarrow> bool \<Rightarrow> appender \<Rightarrow> bool" where
  "proc_ok sha rs holds Idle = True"
| "proc_ok sha rs holds (Waiting i) = True"
| "proc_ok sha rs holds (Locked i) = holds"
| "proc_ok sha rs holds (Tail_read i prev) = (holds \<and> prev = tail_of rs)"
| "proc_ok sha rs holds (Inserted r) = (holds \<and> (\<exists>i now. r = appendRecord sha (tail_of rs) i now))"

definition chain_inv :: "(string \<Rightarrow> string) \<Rightarrow> chain_sys \<Rightarrow> bool" where
  "chain_inv sha s \<longleftrightarrow>
     well_linked sha (sys_committed s) \<and>
     (\<forall>p. proc_ok sha (sys_committed s) (sys_lock s = Some p) (sys_procs s p))"

lemma chain_inv_init: "chain_inv sha chain_init"
  by (simp add: chain_inv_def chain_init_def well_linked_def)

lemma proc_ok_free: "proc_ok sha rs False a \<Longrightarrow> proc_ok sha rs' b a"
  by (cases a) auto

lemma chain_inv_update:
  assumes "chain_inv sha s" "sys_procs s' = (sys_procs s)(p := a)" "well_linked sha (sys_committed s')"
    and "proc_ok sha (sys_committed s') (sys_lock s' = Some p) a"
    and "\<And>q. q \<noteq> p \<Longrightarrow> sys_lock s = Some q \<Longrightarrow> sys_committed s' = sys_committed s \<and> sys_lock s' = Some q"
  shows "chain_inv sha s'"
  unfolding chain_inv_def
proof (intro conjI allI)
  fix q
  have q: "proc_ok sha (sys_committed s) (sys_lock s = Some q) (sys_procs s q)" using assms(1) by (simp add: chain_inv_def)
  show "proc_ok sha (sys_committed s') (sys_lock s' = Some q) (sys_procs s' q)"
  proof (cases "q = p")
    case False
    then have same: "sys_procs s' q = sys_procs s q" using assms(2) by simp
    show ?thesis
    proof (cases "sys_lock s = Some q")
      case True
      then show ?thesis using q assms(5)[OF False True] by (simp add: same)
    next
      case False
      then have "proc_ok sha (sys_committed s) False (sys_procs s q)" using q by simp
      then show ?thesis unfolding same by (rule proc_ok_free)
    qed
  qed (use assms(2,4) in simp)
qed (rule assms(3))

lemma chain_step_inv: "chain_step sha True s s' \<Longrightarrow> chain_inv sha s \<Longrightarrow> chain_inv sha s'"
proof (induction rule: chain_step.induct)
  case (request s p i)
  show ?case by (rule chain_inv_update[OF request(2), of _ p "Waiting i"])
    (use request(2) in \<open>simp_all add: at_def chain_inv_def\<close>)
next
  case (take_lock s p i)
  show ?case by (rule chain_inv_update[OF take_lock(4), of _ p "Locked i"])
    (use take_lock in \<open>simp_all add: at_def chain_inv_def\<close>)
next
  case (read_tail s p i)
  then have "proc_ok sha (sys_committed s) (sys_lock s = Some p) (Locked i)" by (metis chain_inv_def)
  then show ?case
    by (intro chain_inv_update[OF read_tail(2), of _ p "Tail_read i (tail_of (sys_committed s))"])
      (use read_tail in \<open>simp_all add: at_def tail_of_def chain_inv_def\<close>)
next
  case (insert s p i prev now)
  then have "proc_ok sha (sys_committed s) (sys_lock s = Some p) (Tail_read i prev)" by (metis chain_inv_def)
  then have "proc_ok sha (sys_committed s) (sys_lock s = Some p) (Inserted (appendRecord sha prev i now))" by auto
  then show ?case
    by (intro chain_inv_update[OF insert(2), of _ p "Inserted (appendRecord sha prev i now)"])
      (use insert(2) in \<open>simp_all add: at_def chain_inv_def del: proc_ok.simps\<close>)
next
  case (commit s p r)
  then have ok: "proc_ok sha (sys_committed s) (sys_lock s = Some p) (Inserted r)" by (metis chain_inv_def)
  then obtain i now where "r = appendRecord sha (tail_of (sys_committed s)) i now" by auto
  then have "well_linked sha (sys_committed s @ [r])"
    using commit(2) well_linked_append by (auto simp: chain_inv_def tail_of_def split: if_splits)
  then show ?case
    by (intro chain_inv_update[OF commit(2), of _ p Idle]) (use ok in \<open>simp_all add: at_def\<close>)
next
  case (abort s p)
  show ?case by (rule chain_inv_update[OF abort(2), of _ p Idle])
    (use abort(2) in \<open>simp_all add: at_def chain_inv_def\<close>)
qed simp

lemma chain_reachable_inv: "chain_reachable sha True s \<Longrightarrow> chain_inv sha s"
  by (induction rule: chain_reachable.induct) (auto intro: chain_inv_init chain_step_inv)

subsection \<open>A concrete driver\<close>

definition plain_row :: "json list \<Rightarrow> fields option" where
  "plain_row ps =
     (case ps of
        [sq, ts, ev, ac, aty, sub, dec, JStr attrs, ph, h] \<Rightarrow>
          map_option (\<lambda>v. [(''seq'', sq), (''timestamp'', ts), (''event'', ev), (''actor'', ac), (''actor_type'', aty),
             (''subject'', sub), (''decision'', dec), (''attributes'', v), (''prev_hash'', ph), (''hash'', h)])
            (json_parse attrs)
      | _ \<Rightarrow> None)"

lemma number_of_num_of_int [simp]: "number_of_bigint (JNum (num_of_int i)) = i"
  by (simp add: number_of_bigint_def)

lemma plain_driver_ok: "driver_ok fmt dstr plain_row"
  unfolding driver_ok_def
proof (intro allI impI)
  fix r :: audit_record and row
  assume ok: "json_ok (au_attributes r)" and nn: "\<not> nullish (au_attributes r)" and row: "plain_row (insertParams fmt r) = Some row"
  have parse: "json_parse (stringify_val fmt (au_attributes r)) = Some (au_attributes r)"
    using ok by (simp add: stringify_val_def stringify_jtext json_parse_jtext)
  have attr: "coalesce (au_attributes r) (JObj []) = au_attributes r"
    using nn by (simp add: coalesce_def)
  have opt: "opt_string dstr (or_null x) = x" for x by (cases x) (simp_all add: opt_string_def or_null_def)
  have "row = [(''seq'', JNum (num_of_int (au_seq r))), (''timestamp'', JStr (au_timestamp r)), (''event'', JStr (au_event r)),
      (''actor'', JStr (au_actor r)), (''actor_type'', JStr (au_actorType r)), (''subject'', or_null (au_subject r)),
      (''decision'', or_null (au_decision r)), (''attributes'', au_attributes r), (''prev_hash'', JStr (au_prevHash r)),
      (''hash'', JStr (au_hash r))]"
    using row parse by (simp add: plain_row_def insertParams_def)
  then show "rowToRecord fmt dstr row = r"
    by (simp add: rowToRecord_def get_field_def attr opt)
qed

lemma empty_table_verified: "driver_ok fmt dstr pg_row \<Longrightarrow> verified_table sha fmt dstr pg_row []"
  by (simp add: verified_table_def table_ok_def history_def in_seq_order_def well_linked_def)

subsection \<open>Properties\<close>


definition demo_request :: append_request where
  "demo_request = \<lparr>rq_faults = (\<lambda>_. False), rq_tx = (\<lambda>c. c = Call_commit), rq_landed = True,
     rq_input = demo_input [], rq_now = ''2024-01-01T00:00:00.000Z''\<rparr>"


text \<open>
  Paging loses nothing.  On a table with unique positive sequence numbers, \<open>verify\<close> with one
  unit of fuel more than there are rows terminates and gives the verdict of \<open>verifyChain\<close> on the
  whole log, in order, whatever the number of pages.
\<close>

theorem paged_verify_is_whole_verify:
  "table_ok fmt dstr tbl \<Longrightarrow> list_all (\<lambda>r. 1 \<le> fst r) tbl \<Longrightarrow> length tbl < fuel \<Longrightarrow>
   store_verify sha fmt dstr fuel tbl = Some (verifyChain sha (history fmt dstr tbl))"
  by (simp add: store_verify_def readAllRecords_history)

theorem paged_verify_is_whole_verify_witness:
  "store_verify (\<lambda>s. s) (\<lambda>_. []) (\<lambda>_. []) 3 [(2, [(''seq'', JNum (JsInt 2))]), (1, [(''seq'', JNum (JsInt 1))])] =
   Some (verifyChain (\<lambda>s. s) (history (\<lambda>_. []) (\<lambda>_. []) [(2, [(''seq'', JNum (JsInt 2))]), (1, [(''seq'', JNum (JsInt 1))])]))"
  by (rule paged_verify_is_whole_verify)
    (simp_all add: table_ok_def rowToRecord_def get_field_def number_of_bigint_def)


lemma upd_at [simp]: "sys_procs (at p a s) p = a" "sys_procs (at p a s) q = (if q = p then a else sys_procs s q)"
  "sys_committed (at p a s) = sys_committed s" "sys_lock (at p a s) = sys_lock s"
  by (simp_all add: at_def)

text \<open>Two requests; the second starts before the first commits.\<close>

definition race_start :: chain_sys where
  "race_start = at 1 (Waiting (demo_input [])) (at 0 (Waiting (demo_input [])) chain_init)"

definition race_locked :: chain_sys where
  "race_locked = (at 0 (Locked (demo_input [])) race_start)\<lparr>sys_lock := Some 0\<rparr>"

lemma race_start_reachable: "chain_reachable sha locking race_start"
  unfolding race_start_def
  by (rule chain_reachable.step[OF chain_reachable.step[OF chain_reachable.init]]; rule chain_step.request)
    (simp_all add: chain_init_def at_def)

definition race_record :: "(string \<Rightarrow> string) \<Rightarrow> audit_record" where
  "race_record sha = appendRecord sha None (demo_input []) []"


end
