(* ===== verification/Audit_Export.thy ===== *)
theory Audit_Export
  imports Audit_Store
begin

text \<open>
  SIEM export: the formats of \<open>packages/audit/src/export.ts\<close> and the streaming
  export of \<open>packages/runtime/src/admin.ts\<close> (\<open>pagedRecords\<close>, \<open>exportStream\<close>).
  \<open>parse_date\<close> is \<open>Date.parse\<close>, with \<^term>\<open>None\<close> for NaN.
\<close>

text \<open>A record as the object \<open>rowToRecord\<close> builds: this is what is streamed.\<close>

definition record_json :: "audit_record \<Rightarrow> json" where
  "record_json r = JObj (
     [(''seq'', JNum (num_of_int (au_seq r))), (''timestamp'', JStr (au_timestamp r)),
      (''event'', JStr (au_event r)), (''actor'', JStr (au_actor r)), (''actorType'', JStr (au_actorType r)),
      (''attributes'', au_attributes r), (''prevHash'', JStr (au_prevHash r)), (''hash'', JStr (au_hash r))]
     @ opt_entry ''subject'' (au_subject r) @ opt_entry ''decision'' (au_decision r))"

definition toJsonl :: "(int \<Rightarrow> string) \<Rightarrow> audit_record list \<Rightarrow> string" where
  "toJsonl fmt records = join_with newline (map (\<lambda>r. stringify_val fmt (record_json r)) records)"

definition otlpKv :: "(int \<Rightarrow> string) \<Rightarrow> string \<Rightarrow> json \<Rightarrow> json" where
  "otlpKv fmt key v =
     JObj [(''key'', JStr key),
       (''value'', (case v of
          JNum n \<Rightarrow> JObj [(''intValue'', JStr (num_str n))]
        | JStr s \<Rightarrow> JObj [(''stringValue'', JStr s)]
        | _ \<Rightarrow> JObj [(''stringValue'', (case stringify fmt v of None \<Rightarrow> JUndef | Some s \<Rightarrow> JStr s))]))]"

definition rfc3339ToUnixNano :: "(string \<Rightarrow> int option) \<Rightarrow> string \<Rightarrow> string" where
  "rfc3339ToUnixNano parse_date ts =
     (case parse_date ts of None \<Rightarrow> ''0'' | Some ms \<Rightarrow> int_str ms @ ''000000'')"

definition otlpLogRecord :: "(int \<Rightarrow> string) \<Rightarrow> (string \<Rightarrow> int option) \<Rightarrow> audit_record \<Rightarrow> json" where
  "otlpLogRecord fmt parse_date r =
     JObj [(''timeUnixNano'', JStr (rfc3339ToUnixNano parse_date (au_timestamp r))),
       (''severityText'', JStr (if au_decision r = Some ''deny'' then ''WARN'' else ''INFO'')),
       (''body'', JObj [(''stringValue'', JStr (au_event r))]),
       (''attributes'', JArr (
          [otlpKv fmt ''seq'' (JNum (num_of_int (au_seq r))), otlpKv fmt ''actor'' (JStr (au_actor r)),
           otlpKv fmt ''actor.type'' (JStr (au_actorType r))]
          @ (case au_subject r of None \<Rightarrow> [] | Some s \<Rightarrow> [otlpKv fmt ''subject'' (JStr s)])
          @ (case au_decision r of None \<Rightarrow> [] | Some s \<Rightarrow> [otlpKv fmt ''decision'' (JStr s)])
          @ [otlpKv fmt ''hash'' (JStr (au_hash r)), otlpKv fmt ''prev_hash'' (JStr (au_prevHash r)),
             otlpKv fmt ''attributes'' (au_attributes r)]))]"

text \<open>The envelope around any list of log records.\<close>

definition otlp_wrap :: "(int \<Rightarrow> string) \<Rightarrow> json list \<Rightarrow> json" where
  "otlp_wrap fmt logs =
     JObj [(''resourceLogs'', JArr [
       JObj [(''resource'', JObj [(''attributes'', JArr
                [otlpKv fmt ''service.name'' (JStr ''openrupiv''), otlpKv fmt ''telemetry.kind'' (JStr ''audit'')])]),
             (''scopeLogs'', JArr [
                JObj [(''scope'', JObj [(''name'', JStr ''@openrupiv/audit'')]), (''logRecords'', JArr logs)]])]])]"

definition toOtlpLogRecords :: "(int \<Rightarrow> string) \<Rightarrow> (string \<Rightarrow> int option) \<Rightarrow> audit_record list \<Rightarrow> json" where
  "toOtlpLogRecords fmt parse_date records = otlp_wrap fmt (map (otlpLogRecord fmt parse_date) records)"

text \<open>\<open>s.indexOf(p)\<close>\<close>

fun index_of :: "string \<Rightarrow> string \<Rightarrow> nat option" where
  "index_of p [] = (if p = [] then Some 0 else None)"
| "index_of p (c # cs) = (if prefix p (c # cs) then Some 0 else map_option Suc (index_of p cs))"

definition log_records_marker :: string where
  "log_records_marker = quote_str ''logRecords'' @ '':[]''"

definition otlpEnvelope :: "(int \<Rightarrow> string) \<Rightarrow> (string \<Rightarrow> int option) \<Rightarrow> (string \<times> string) option" where
  "otlpEnvelope fmt parse_date =
     (let empty = stringify_val fmt (toOtlpLogRecords fmt parse_date []) in
      case index_of log_records_marker empty of
        None \<Rightarrow> None
      | Some i \<Rightarrow> let b = i + length log_records_marker - 1 in Some (take b empty, drop b empty))"

definition escape_sd :: "string \<Rightarrow> string" where
  "escape_sd v = concat (map (\<lambda>c. if c = char_of (92 :: nat) \<or> c = CHR '']'' \<or> c = char_of (34 :: nat)
     then [char_of (92 :: nat), c] else [c]) v)"

definition sd_param :: "string \<Rightarrow> string \<Rightarrow> string" where
  "sd_param k v = '' '' @ k @ ''='' @ [char_of (34 :: nat)] @ v @ [char_of (34 :: nat)]"

definition syslog_line :: "audit_record \<Rightarrow> string" where
  "syslog_line r =
     (let sd = ''[openrupiv@0'' @ sd_param ''seq'' (int_str (au_seq r)) @ sd_param ''actor'' (escape_sd (au_actor r))
            @ sd_param ''actorType'' (au_actorType r)
            @ (case au_subject r of None \<Rightarrow> [] | Some s \<Rightarrow> sd_param ''subject'' (escape_sd s))
            @ (case au_decision r of None \<Rightarrow> [] | Some s \<Rightarrow> sd_param ''decision'' s)
            @ sd_param ''hash'' (au_hash r) @ sd_param ''prevHash'' (au_prevHash r) @ '']''
      in ''<13>1 '' @ au_timestamp r @ '' openrupiv audit '' @ int_str (au_seq r) @ '' '' @ au_event r @ '' '' @ sd)"

definition toSyslog :: "audit_record list \<Rightarrow> string list" where
  "toSyslog records = map syslog_line records"

subsection \<open>Streaming\<close>

datatype export_format = Jsonl | Otlp | Syslog

text \<open>The pages \<open>pagedRecords\<close> yields, with one unit of fuel per page.\<close>

fun pagedRecords :: "(int \<Rightarrow> string) \<Rightarrow> (int \<Rightarrow> string) \<Rightarrow> audit_table \<Rightarrow> nat \<Rightarrow> nat \<Rightarrow> int \<Rightarrow> audit_record list list option" where
  "pagedRecords fmt dstr tbl pageSize 0 fromSeq = None"
| "pagedRecords fmt dstr tbl pageSize (Suc fuel) fromSeq =
     (let page = store_read fmt dstr tbl (Some fromSeq) (Some pageSize) in
      if page = [] then Some []
      else if length page < pageSize then Some [page]
      else map_option (Cons page) (pagedRecords fmt dstr tbl pageSize fuel (au_seq (last page) + 1)))"

text \<open>The chunks of one page; \<open>first\<close> is the flag that suppresses the first separator.\<close>

fun chunks :: "string \<Rightarrow> bool \<Rightarrow> string list \<Rightarrow> string list" where
  "chunks sep first [] = []"
| "chunks sep first (l # ls) = ((if first then [] else sep) @ l) # chunks sep False ls"

fun page_chunks :: "string \<Rightarrow> bool \<Rightarrow> string list list \<Rightarrow> string list" where
  "page_chunks sep first [] = []"
| "page_chunks sep first (p # ps) = chunks sep first p @ page_chunks sep (first \<and> p = []) ps"

definition EXPORT_PAGE_SIZE :: nat where
  "EXPORT_PAGE_SIZE = 1000"

definition exportStream ::
  "(int \<Rightarrow> string) \<Rightarrow> (int \<Rightarrow> string) \<Rightarrow> (string \<Rightarrow> int option) \<Rightarrow> audit_table \<Rightarrow> nat \<Rightarrow> export_format \<Rightarrow> string list option" where
  "exportStream fmt dstr parse_date tbl fuel format =
     (case pagedRecords fmt dstr tbl EXPORT_PAGE_SIZE fuel 1 of
        None \<Rightarrow> None
      | Some pages \<Rightarrow>
          (case format of
             Otlp \<Rightarrow>
               map_option (\<lambda>(opening, closing).
                 opening # page_chunks '','' True (map (map (\<lambda>r. stringify_val fmt (otlpLogRecord fmt parse_date r))) pages)
                 @ [closing]) (otlpEnvelope fmt parse_date)
           | Syslog \<Rightarrow> Some (page_chunks newline True (map toSyslog pages))
           | Jsonl \<Rightarrow> Some (page_chunks newline True (map (map (\<lambda>r. stringify_val fmt (record_json r))) pages))))"

subsection \<open>Streamed and whole output agree\<close>

lemma concat_chunks:
  "concat (chunks sep first ls) = (if ls = [] then [] else (if first then [] else sep) @ join_with sep ls)"
proof (induction ls arbitrary: first)
  case (Cons l ls)
  then show ?case by (cases ls) simp_all
qed simp

lemma concat_page_chunks:
  "concat (page_chunks sep first ps) =
     (if concat ps = [] then [] else (if first then [] else sep) @ join_with sep (concat ps))"
proof (induction ps arbitrary: first)
  case (Cons p ps)
  then show ?case
    by (cases "p = []"; cases "concat ps = []") (auto simp: concat_chunks join_with_append simp del: concat_eq_Nil_conv)
qed simp

lemma paged_records_read_pages:
  "0 < pageSize \<Longrightarrow>
   read_pages fmt dstr tbl pageSize fuel from acc =
     map_option (\<lambda>ps. acc @ concat ps) (pagedRecords fmt dstr tbl pageSize fuel from)"
proof (induction fuel arbitrary: "from" acc)
  case (Suc fuel)
  let ?b = "map (rowToRecord fmt dstr) (select_page tbl from pageSize)"
  show ?case
  proof (cases "?b = []")
    case False
    then have "au_seq (last (acc @ ?b)) = au_seq (last ?b)" by simp
    then show ?thesis using False Suc
      by (simp add: store_read_def Let_def option.map_comp o_def del: last_appendR)
  qed (simp add: store_read_def Let_def)
qed simp

lemma paged_records_history:
  assumes "table_ok fmt dstr tbl" "list_all (\<lambda>r. 1 \<le> fst r) tbl" "length tbl < fuel" "0 < pageSize"
  shows "\<exists>ps. pagedRecords fmt dstr tbl pageSize fuel 1 = Some ps \<and> concat ps = history fmt dstr tbl"
proof -
  have "filter (\<lambda>r. 1 \<le> fst r) (in_seq_order tbl) = in_seq_order tbl"
    using assms(2) by (auto simp: list_all_iff intro: filter_True)
  moreover have "length (in_seq_order tbl) = length tbl" by (simp add: in_seq_order_def)
  ultimately have "read_pages fmt dstr tbl pageSize fuel 1 [] = Some (history fmt dstr tbl)"
    using read_pages_all[OF assms(1,4), of 1 fuel "[]"] assms(3) by (simp add: history_def)
  then show ?thesis using paged_records_read_pages[OF assms(4), of fmt dstr tbl fuel 1 "[]"] by auto
qed

text \<open>The text around the log records, and where the envelope is cut.\<close>

definition otlp_open :: "(int \<Rightarrow> string) \<Rightarrow> string" where
  "otlp_open fmt =
     ''{'' @ quote_str ''resourceLogs'' @ '':[{'' @ quote_str ''resource'' @ '':{'' @ quote_str ''attributes'' @ '':[''
     @ stringify_val fmt (otlpKv fmt ''service.name'' (JStr ''openrupiv'')) @ '','' @
     stringify_val fmt (otlpKv fmt ''telemetry.kind'' (JStr ''audit'')) @ '']},'' @ quote_str ''scopeLogs'' @ '':[{''
     @ quote_str ''scope'' @ '':{'' @ quote_str ''name'' @ '':'' @ quote_str ''@openrupiv/audit'' @ ''},''
     @ quote_str ''logRecords'' @ '':[''"

definition otlp_close :: string where
  "otlp_close = '']}]}]}''"

lemma otlpKv_stringify: "stringify fmt (otlpKv fmt k v) = Some (stringify_val fmt (otlpKv fmt k v))"
  by (simp add: otlpKv_def stringify_val_def)

lemma stringify_wrap:
  assumes "\<And>l. l \<in> set logs \<Longrightarrow> stringify fmt l \<noteq> None"
  shows "stringify_val fmt (otlp_wrap fmt logs) = otlp_open fmt @ join_with '','' (map (stringify_val fmt) logs) @ otlp_close"
proof -
  have "map (\<lambda>v. case stringify fmt v of None \<Rightarrow> ''null'' | Some s \<Rightarrow> s) logs = map (stringify_val fmt) logs"
    using assms by (fastforce simp: stringify_val_def)
  then show ?thesis
    by (simp add: otlp_wrap_def otlp_open_def otlp_close_def otlpKv_stringify stringify_val_def[of _ "JObj _"] del: map_eq_conv)
qed

lemma otlpEnvelope_cut: "otlpEnvelope fmt parse_date = Some (otlp_open fmt, otlp_close)"
proof -
  have empty: "stringify_val fmt (toOtlpLogRecords fmt parse_date []) = otlp_open (\<lambda>_. []) @ otlp_close"
    using stringify_wrap[of "[]" fmt]
    by (simp add: toOtlpLogRecords_def otlp_open_def otlpKv_def stringify_val_def)
  have "index_of log_records_marker (otlp_open (\<lambda>_. []) @ otlp_close) =
      Some (length (otlp_open (\<lambda>_. [])) - (length log_records_marker - 1))"
    by code_simp
  moreover have "length log_records_marker - 1 \<le> length (otlp_open (\<lambda>_. []))" "log_records_marker \<noteq> []" by code_simp+
  ultimately show ?thesis
    by (simp add: otlpEnvelope_def empty Let_def) (simp add: otlp_open_def otlpKv_def stringify_val_def)
qed

definition whole_export ::
  "(int \<Rightarrow> string) \<Rightarrow> (string \<Rightarrow> int option) \<Rightarrow> export_format \<Rightarrow> audit_record list \<Rightarrow> string" where
  "whole_export fmt parse_date format rs =
     (case format of
        Jsonl \<Rightarrow> toJsonl fmt rs
      | Otlp \<Rightarrow> stringify_val fmt (toOtlpLogRecords fmt parse_date rs)
      | Syslog \<Rightarrow> join_with newline (toSyslog rs))"

lemma otlpLogRecord_stringify: "stringify fmt (otlpLogRecord fmt parse_date r) \<noteq> None"
  by (simp add: otlpLogRecord_def)

text \<open>
  Streaming changes nothing.  For every format, the chunks that the paginated export writes
  concatenate to exactly the text the in-memory formatter gives for the whole log, whatever the
  number of pages: no record is lost, repeated or separated differently at a page boundary, and
  the spliced OTLP envelope is the real one.
\<close>

theorem streamed_export_is_whole_export:
  "table_ok fmt dstr tbl \<Longrightarrow> list_all (\<lambda>r. 1 \<le> fst r) tbl \<Longrightarrow> length tbl < fuel \<Longrightarrow>
   map_option concat (exportStream fmt dstr parse_date tbl fuel format) =
     Some (whole_export fmt parse_date format (history fmt dstr tbl))"
proof -
  assume "table_ok fmt dstr tbl" "list_all (\<lambda>r. 1 \<le> fst r) tbl" "length tbl < fuel"
  then obtain ps where ps: "pagedRecords fmt dstr tbl EXPORT_PAGE_SIZE fuel 1 = Some ps" "concat ps = history fmt dstr tbl"
    using paged_records_history[of fmt dstr tbl fuel EXPORT_PAGE_SIZE] by (auto simp: EXPORT_PAGE_SIZE_def)
  have flat: "concat (map (map f) ps) = map f (history fmt dstr tbl)" for f :: "audit_record \<Rightarrow> string"
    by (simp add: map_concat flip: ps(2))
  have wrap: "stringify_val fmt (toOtlpLogRecords fmt parse_date rs) =
      otlp_open fmt @ join_with '','' (map (\<lambda>r. stringify_val fmt (otlpLogRecord fmt parse_date r)) rs) @ otlp_close" for rs
    unfolding toOtlpLogRecords_def using otlpLogRecord_stringify by (subst stringify_wrap) (auto simp: o_def)
  show ?thesis
    by (cases format)
      (simp_all add: exportStream_def ps(1) whole_export_def toJsonl_def toSyslog_def[abs_def] otlpEnvelope_cut
        concat_page_chunks flat wrap del: concat_eq_Nil_conv)
qed

theorem streamed_export_is_whole_export_witness:
  "map_option concat (exportStream (\<lambda>_. []) (\<lambda>_. []) (\<lambda>_. None) [(2, [(''seq'', JNum (JsInt 2))]), (1, [(''seq'', JNum (JsInt 1))])] 3 Otlp) =
   Some (whole_export (\<lambda>_. []) (\<lambda>_. None) Otlp
     (history (\<lambda>_. []) (\<lambda>_. []) [(2, [(''seq'', JNum (JsInt 2))]), (1, [(''seq'', JNum (JsInt 1))])]))"
  by (rule streamed_export_is_whole_export)
    (simp_all add: table_ok_def rowToRecord_def get_field_def number_of_bigint_def)

end
