(* ===== verification/Runtime_Audit.thy ===== *)
theory Runtime_Audit
  imports Audit_Store
begin

text \<open>
  How the runtime uses the log: \<open>appendOrFail\<close>, \<open>appendAllOrFail\<close> and \<open>auditBestEffort\<close> of
  \<open>packages/runtime/src/audit.ts\<close>.

  Here the store is seen through its contract only: an append either adds the event at the end
  or throws.  \<open>outages\<close> says, append by append, whether the next ones throw; when the list
  is used up they succeed.  A failed append leaves the full event in an error log line
  (\<open>logged\<close>).
\<close>

record 'e audit_sink =
  persisted :: "'e list"
  outages :: "bool list"
  logged :: "'e list"

definition sink_append :: "'e \<Rightarrow> 'e audit_sink \<Rightarrow> bool \<times> 'e audit_sink" where
  "sink_append e s =
     (let s' = s\<lparr>outages := tl (outages s)\<rparr> in
      if outages s \<noteq> [] \<and> hd (outages s) then (False, s')
      else (True, s'\<lparr>persisted := persisted s @ [e]\<rparr>))"

text \<open>\<^term>\<open>False\<close> is \<open>ERR_AUDIT_APPEND_FAILED\<close>, status 500.\<close>

definition appendOrFail :: "'e \<Rightarrow> 'e audit_sink \<Rightarrow> bool \<times> 'e audit_sink" where
  "appendOrFail e s =
     (case sink_append e s of
        (True, s') \<Rightarrow> (True, s')
      | (False, s') \<Rightarrow> (False, s'\<lparr>logged := logged s' @ [e]\<rparr>))"

fun append_each :: "'e list \<Rightarrow> nat \<Rightarrow> 'e audit_sink \<Rightarrow> nat \<times> 'e audit_sink" where
  "append_each [] failures s = (failures, s)"
| "append_each (e # es) failures s =
     (case appendOrFail e s of (ok, s') \<Rightarrow> append_each es (if ok then failures else Suc failures) s')"

definition appendAllOrFail :: "'e list \<Rightarrow> 'e audit_sink \<Rightarrow> bool \<times> 'e audit_sink" where
  "appendAllOrFail es s = (case append_each es 0 s of (failures, s') \<Rightarrow> (failures = 0, s'))"

definition auditBestEffort :: "'e \<Rightarrow> 'e audit_sink \<Rightarrow> bool \<times> 'e audit_sink" where
  "auditBestEffort e s =
     (case sink_append e s of
        (True, s') \<Rightarrow> (True, s')
      | (False, s') \<Rightarrow> (False, s'\<lparr>logged := logged s' @ [e]\<rparr>))"

lemma appendOrFail_cases:
  "appendOrFail e s = (ok, s') \<Longrightarrow>
     persisted s' = persisted s @ (if ok then [e] else []) \<and> logged s' = logged s @ (if ok then [] else [e])"
  by (auto simp: appendOrFail_def sink_append_def Let_def split: if_splits)

lemma auditBestEffort_eq [simp]: "auditBestEffort e s = appendOrFail e s"
  by (simp add: auditBestEffort_def appendOrFail_def)

text \<open>The sink satisfies the contract of the append-only log.\<close>

interpretation sink: append_only
  "\<lambda>e s. case appendOrFail e s of (ok, s') \<Rightarrow> (s', if ok then Some e else None)" persisted "\<lambda>_. True" "\<lambda>_. True"
  by unfold_locales (auto split: prod.splits if_splits dest!: appendOrFail_cases)

lemma append_each_all:
  "append_each es n s = (k, s') \<Longrightarrow>
     \<exists>okay bad. persisted s' = persisted s @ okay \<and> logged s' = logged s @ bad \<and>
       k = n + length bad \<and> es \<in> shuffles okay bad"
proof (induction es arbitrary: n s)
  case Nil
  then show ?case by auto
next
  case (Cons e es)
  obtain ok s1 where step: "appendOrFail e s = (ok, s1)" by force
  note st = appendOrFail_cases[OF step]
  from Cons.prems step have "append_each es (if ok then n else Suc n) s1 = (k, s')" by simp
  from Cons.IH[OF this] obtain okay bad where
    ih: "persisted s' = persisted s1 @ okay" "logged s' = logged s1 @ bad"
      "k = (if ok then n else Suc n) + length bad" "es \<in> shuffles okay bad" by auto
  show ?case
  proof (cases ok)
    case True
    then show ?thesis using ih st by (intro exI[of _ "e # okay"] exI[of _ bad]) (simp add: Cons_in_shuffles_leftI)
  next
    case False
    then show ?thesis using ih st by (intro exI[of _ okay] exI[of _ "e # bad"]) (simp add: Cons_in_shuffles_rightI)
  qed
qed

lemma batch_append_loses_no_event_aux:
  "case appendAllOrFail es s of (ok, s') \<Rightarrow>
     \<exists>okay bad. persisted s' = persisted s @ okay \<and> logged s' = logged s @ bad \<and>
       es \<in> shuffles okay bad \<and> (ok \<longleftrightarrow> bad = [])"
proof -
  obtain k s' where run: "append_each es 0 s = (k, s')" by force
  from append_each_all[OF run] show ?thesis by (auto simp: appendAllOrFail_def run)
qed

text \<open>
  No event of a batch is dropped: after \<open>appendAllOrFail\<close>, every event is either in the log
  or in an error line with its content, each kind in the batch's order, and the call reports
  success exactly when nothing had to go to the error lines.
\<close>

theorem batch_append_loses_no_event:
  "case appendAllOrFail es s of (ok, s') \<Rightarrow>
     \<exists>okay bad. persisted s' = persisted s @ okay \<and> logged s' = logged s @ bad \<and>
       es \<in> shuffles okay bad \<and> (ok \<longleftrightarrow> bad = [])"
  by (rule batch_append_loses_no_event_aux)

subsection \<open>The runtime's own store\<close>

text \<open>
  \<open>createDbAuditStore\<close>: the contract of the audit package over the runtime's database seam.  An append is a transaction of
  its own; what the scrubber removed is logged before the first query of it.
\<close>

definition db_scrub_warning :: "audit_input \<Rightarrow> (string \<times> json) list list" where
  "db_scrub_warning input =
     (case scrub_report input of
        None \<Rightarrow> []
      | Some (event, keys) \<Rightarrow>
          [[(''event'', JStr ''audit.attributes_scrubbed''), (''auditEvent'', JStr event), (''keys'', JArr (map JStr keys))]])"

definition db_store_append ::
  "(string \<Rightarrow> string) \<Rightarrow> (int \<Rightarrow> string) \<Rightarrow> (int \<Rightarrow> string) \<Rightarrow> (json list \<Rightarrow> fields option) \<Rightarrow> faults \<Rightarrow> bool \<Rightarrow>
   (append_call \<Rightarrow> bool) \<Rightarrow> audit_input \<Rightarrow> string \<Rightarrow> audit_table \<Rightarrow>
   audit_table \<times> (append_error tx_error + audit_record) \<times> (string \<times> json) list list" where
  "db_store_append sha fmt dstr pg_row txf landed fails input now tbl =
     (case transaction txf landed tbl (appendInTransaction sha fmt dstr pg_row fails input now) of
        (tbl', res, evs) \<Rightarrow> (tbl', res, if Ev_begin \<in> set evs then db_scrub_warning input else []))"

definition db_read_page :: "(int \<Rightarrow> string) \<Rightarrow> (int \<Rightarrow> string) \<Rightarrow> audit_table \<Rightarrow> int \<Rightarrow> nat \<Rightarrow> audit_record list" where
  "db_read_page fmt dstr tbl fromSeq limit = map (rowToRecord fmt dstr) (select_page tbl fromSeq limit)"

definition db_store_read :: "(int \<Rightarrow> string) \<Rightarrow> (int \<Rightarrow> string) \<Rightarrow> audit_table \<Rightarrow> int option \<Rightarrow> nat option \<Rightarrow> audit_record list" where
  "db_store_read fmt dstr tbl fromSeq limit =
     db_read_page fmt dstr tbl (case fromSeq of None \<Rightarrow> 1 | Some s \<Rightarrow> s) (case limit of None \<Rightarrow> 1000 | Some l \<Rightarrow> l)"

text \<open>The loop of \<open>verify\<close>, one unit of fuel per page.\<close>

fun db_verify_pages ::
  "(int \<Rightarrow> string) \<Rightarrow> (int \<Rightarrow> string) \<Rightarrow> audit_table \<Rightarrow> nat \<Rightarrow> int \<Rightarrow> audit_record list \<Rightarrow> audit_record list option" where
  "db_verify_pages fmt dstr tbl 0 fromSeq acc = None"
| "db_verify_pages fmt dstr tbl (Suc fuel) fromSeq acc =
     (let batch = db_read_page fmt dstr tbl fromSeq 5000 in
      if batch = [] then Some acc
      else if length batch < 5000 then Some (acc @ batch)
      else db_verify_pages fmt dstr tbl fuel (au_seq (last (acc @ batch)) + 1) (acc @ batch))"

definition db_store_verify ::
  "(string \<Rightarrow> string) \<Rightarrow> (int \<Rightarrow> string) \<Rightarrow> (int \<Rightarrow> string) \<Rightarrow> nat \<Rightarrow> audit_table \<Rightarrow> verify_result option" where
  "db_store_verify sha fmt dstr fuel tbl = map_option (verifyChain sha) (db_verify_pages fmt dstr tbl fuel 1 [])"

lemma db_verify_pages_same: "db_verify_pages fmt dstr tbl fuel fromSeq acc = read_pages fmt dstr tbl 5000 fuel fromSeq acc"
  by (induction fmt dstr tbl fuel fromSeq acc rule: db_verify_pages.induct) (simp_all add: db_read_page_def Let_def)

text \<open>
  The two stores are one: an append through the runtime leaves the table and the answer of the audit package's own, a read and a
  verification see the same records, and a warning names exactly the keys that the scrubber removed.
\<close>

theorem runtime_store_is_the_audit_store:
  "(case db_store_append sha fmt dstr pg_row txf landed fails input now tbl of (tbl', res, warned) \<Rightarrow>
      (\<exists>evs. store_append sha fmt dstr pg_row txf landed fails input now tbl = (tbl', res, evs)) \<and>
      (\<forall>w \<in> set warned. \<exists>keys. w = [(''event'', JStr ''audit.attributes_scrubbed''), (''auditEvent'', JStr (au_event input)), (''keys'', JArr (map JStr keys))] \<and>
         keys = snd (scrubAttributes (au_attributes input)) \<and> keys \<noteq> [])) \<and>
   db_store_read fmt dstr tbl fromSeq limit = store_read fmt dstr tbl fromSeq limit \<and>
   db_store_verify sha fmt dstr fuel tbl = store_verify sha fmt dstr fuel tbl"
  by (auto simp: db_store_append_def store_append_def db_scrub_warning_def scrub_report_def Let_def db_store_read_def db_read_page_def store_read_def
      db_store_verify_def store_verify_def readAllRecords_def verify_page_def db_verify_pages_same split: prod.splits option.splits if_splits)

end
