(* ===== verification/App_Spec.thy ===== *)
theory App_Spec
  imports Js_Values
begin

text \<open>
  The app spec: the types of \<open>packages/spec/src/types.ts\<close>.  Optional members are
  \<^typ>\<open>'a option\<close>; an optional list that the code only reads as \<open>x ?? []\<close> is still kept
  optional, since \<open>validateSpec\<close> tells the two apart.
\<close>

datatype field_type =
  FString | FText | FNumber | FBoolean | FDate | FDatetime | FEnum | FReference

record field_def =
  fd_name :: string
  fd_type :: field_type
  fd_required :: bool
  fd_unique :: bool
  fd_values :: "string list option"
  fd_entity :: "string option"
  fd_default :: "json option"

record relation_def =
  rd_name :: string
  rd_to :: string

record entity_def =
  en_name :: string
  en_description :: "string option"
  en_fields :: "field_def list"
  en_relations :: "relation_def list option"

datatype page_type = List_page | Detail_page | Form_page

record page_def =
  pg_name :: string
  pg_type :: page_type
  pg_entity :: string
  pg_title :: "string option"
  pg_fields :: "string list option"

datatype predicate_op = Op_eq | Op_ne | Op_gt | Op_gte | Op_lt | Op_lte | Op_set | Op_notSet

record field_predicate =
  fp_field :: string
  fp_op :: predicate_op
  fp_value :: "json option"

record transition_guard =
  tg_roles :: "string list option"
  tg_require :: "field_predicate list option"

record approval_rule =
  ap_count :: nat
  ap_roles :: "string list option"

record transition_def =
  tr_name :: string
  tr_from :: string
  tr_to :: string
  tr_guard :: "transition_guard option"
  tr_approval :: "approval_rule option"

record workflow_def =
  wf_name :: string
  wf_entity :: string
  wf_stateField :: string
  wf_initial :: string
  wf_transitions :: "transition_def list"

record policy_def =
  po_name :: string

record agent_proposal_ref =
  ar_workflow :: string
  ar_transition :: string

record agent_task_def =
  at_name :: string
  at_description :: "string option"
  at_tools :: "string list option"
  at_proposes :: "agent_proposal_ref list option"

record evidence_hook_def =
  ev_name :: string

record app_meta =
  am_name :: string
  am_slug :: string
  am_description :: "string option"
  am_version :: string
  am_roles :: "string list option"

record app_spec =
  sp_specVersion :: string
  sp_app :: app_meta
  sp_entities :: "entity_def list"
  sp_pages :: "page_def list option"
  sp_workflows :: "workflow_def list option"
  sp_policies :: "policy_def list option"
  sp_agents :: "agent_task_def list option"
  sp_evidence :: "evidence_hook_def list option"

text \<open>\<open>xs ?? []\<close>\<close>

definition or_empty :: "'a list option \<Rightarrow> 'a list" where
  "or_empty xs = (case xs of None \<Rightarrow> [] | Some ys \<Rightarrow> ys)"

lemma or_empty_simps [simp]: "or_empty None = []" "or_empty (Some xs) = xs"
  by (simp_all add: or_empty_def)

text \<open>\<open>guard?.roles\<close> and \<open>guard?.require\<close>\<close>

definition guard_roles :: "transition_def \<Rightarrow> string list option" where
  "guard_roles t = (case tr_guard t of None \<Rightarrow> None | Some g \<Rightarrow> tg_roles g)"

definition guard_require :: "transition_def \<Rightarrow> field_predicate list" where
  "guard_require t = (case tr_guard t of None \<Rightarrow> [] | Some g \<Rightarrow> or_empty (tg_require g))"

end
