(* ===== verification/Naming.thy ===== *)
theory Naming
  imports App_Spec
begin

text \<open>
  Names: the mappings from spec identifiers to SQL and HTTP names, once in the runtime
  (\<open>packages/runtime/src/naming.ts\<close>) and once in the compiler
  (\<open>packages/compiler/src/naming.ts\<close>).  The compiler creates the tables the runtime queries, so
  the two must agree.
\<close>

subsection \<open>The two regular expression replacements\<close>

text \<open>\<open>replace(/([a-z0-9])([A-Z])/g, "$1" + sep + "$2")\<close>\<close>

definition is_lower_or_digit :: "char \<Rightarrow> bool" where
  "is_lower_or_digit c \<longleftrightarrow> is_lower c \<or> is_digit c"

fun word_boundary :: "char \<Rightarrow> string \<Rightarrow> string" where
  "word_boundary sep (a # b # r) =
     (if is_lower_or_digit a \<and> is_upper b then a # sep # b # word_boundary sep r
      else a # word_boundary sep (b # r))"
| "word_boundary sep s = s"

text \<open>
  \<open>replace(/([A-Z]+)([A-Z][a-z])/g, "$1" + sep + "$2")\<close>: a maximal run of at least two capitals
  followed by a small letter; the match gives back the last capital.
\<close>

function acronym_boundary :: "char \<Rightarrow> string \<Rightarrow> string" where
  "acronym_boundary sep [] = []"
| "acronym_boundary sep (c # cs) =
     (if is_upper c then
        (let run = c # takeWhile is_upper cs; rest = dropWhile is_upper cs in
         if length run \<ge> 2 \<and> rest \<noteq> [] \<and> is_lower (hd rest)
         then butlast run @ [sep, last run, hd rest] @ acronym_boundary sep (tl rest)
         else run @ acronym_boundary sep rest)
      else c # acronym_boundary sep cs)"
  by pat_completeness auto
termination
proof (relation "measure (\<lambda>(sep, s). length s)", goal_cases)
  case (2 sep c cs run rest)
  then show ?case using length_dropWhile_le[of is_upper cs] by (cases rest) auto
next
  case (3 sep c cs run rest)
  then show ?case using length_dropWhile_le[of is_upper cs] by auto
qed auto

subsection \<open>Runtime\<close>

definition toSnakeCase :: "string \<Rightarrow> string" where
  "toSnakeCase name = to_lower (acronym_boundary (CHR ''_'') (word_boundary (CHR ''_'') name))"

definition entityTable :: "string \<Rightarrow> string" where
  "entityTable entityName = toSnakeCase entityName"

definition entityApiSegment :: "string \<Rightarrow> string" where
  "entityApiSegment entityName = replace_char (CHR ''_'') ''-'' (toSnakeCase entityName)"

definition columnFor :: "field_def \<Rightarrow> string" where
  "columnFor field =
     (let base = toSnakeCase (fd_name field) in
      if fd_type field = FReference then base @ ''_id'' else base)"

text \<open>\<open>/^[a-z_][a-z0-9_]*$/\<close>\<close>

definition sql_identifier :: "string \<Rightarrow> bool" where
  "sql_identifier s \<longleftrightarrow>
     s \<noteq> [] \<and> (is_lower (hd s) \<or> hd s = CHR ''_'') \<and>
     list_all (\<lambda>c. is_lower c \<or> is_digit c \<or> c = CHR ''_'') (tl s)"

text \<open>\<^term>\<open>None\<close> is the error \<open>ERR_SQL_IDENTIFIER\<close>.\<close>

definition quoteIdent :: "string \<Rightarrow> string option" where
  "quoteIdent name =
     (if sql_identifier name then Some ([char_of (34 :: nat)] @ name @ [char_of (34 :: nat)]) else None)"

text \<open>\<open>UUID_PATTERN\<close>: groups of 8, 4, 4, 4 and 12 hexadecimal digits.\<close>

definition uuid_text :: "string \<Rightarrow> bool" where
  "uuid_text s \<longleftrightarrow>
     (case split_on (CHR ''-'') s of
        [a, b, c, d, e] \<Rightarrow>
          length a = 8 \<and> length b = 4 \<and> length c = 4 \<and> length d = 4 \<and> length e = 12 \<and>
          list_all (list_all is_hex) [a, b, c, d, e]
      | _ \<Rightarrow> False)"

definition isUuid :: "json \<Rightarrow> bool" where
  "isUuid v = (case v of JStr s \<Rightarrow> uuid_text s | _ \<Rightarrow> False)"

subsection \<open>Compiler\<close>

definition snakeCase :: "string \<Rightarrow> string" where
  "snakeCase name = to_lower (word_boundary (CHR ''_'') (acronym_boundary (CHR ''_'') name))"

definition kebabCase :: "string \<Rightarrow> string" where
  "kebabCase name = to_lower (word_boundary (CHR ''-'') (acronym_boundary (CHR ''-'') name))"

definition tableName :: "string \<Rightarrow> string" where
  "tableName entityName = snakeCase entityName"

definition columnName :: "field_def \<Rightarrow> string" where
  "columnName field =
     (let base = snakeCase (fd_name field) in
      if fd_type field = FReference then base @ ''_id'' else base)"

definition joinTableName :: "string \<Rightarrow> string \<Rightarrow> string" where
  "joinTableName entityName relationName = snakeCase entityName @ ''_'' @ snakeCase relationName"

definition quote :: char where
  "quote = char_of (39 :: nat)"

definition sqlStringLiteral :: "string \<Rightarrow> string" where
  "sqlStringLiteral v = [quote] @ replace_char quote [quote, quote] v @ [quote]"

fun sqlLiteral :: "json \<Rightarrow> string option" where
  "sqlLiteral (JStr s) = Some (sqlStringLiteral s)"
| "sqlLiteral (JNum n) = Some (num_str n)"
| "sqlLiteral (JBool b) = Some (if b then ''true'' else ''false'')"
| "sqlLiteral _ = None"

subsection \<open>Both replacements are local\<close>

text \<open>
  Each replacement inserts the separator before some characters; which ones depends only on the
  character, the one before it and the one after it.
\<close>

type_synonym cut = "char option \<Rightarrow> char \<Rightarrow> char option \<Rightarrow> bool"

abbreviation head :: "string \<Rightarrow> char option" where
  "head s \<equiv> (case s of [] \<Rightarrow> None | c # _ \<Rightarrow> Some c)"

fun insert_cuts :: "cut \<Rightarrow> char \<Rightarrow> char option \<Rightarrow> string \<Rightarrow> string" where
  "insert_cuts ct sep p [] = []"
| "insert_cuts ct sep p (c # cs) = (if ct p c (head cs) then [sep, c] else [c]) @ insert_cuts ct sep (Some c) cs"

definition word_cut :: cut where
  "word_cut p c n = (is_upper c \<and> (case p of None \<Rightarrow> False | Some a \<Rightarrow> is_lower_or_digit a))"

definition acronym_cut :: cut where
  "acronym_cut p c n =
     (is_upper c \<and> (case p of None \<Rightarrow> False | Some a \<Rightarrow> is_upper a) \<and> (case n of None \<Rightarrow> False | Some b \<Rightarrow> is_lower b))"

lemma word_cut_simps [simp]:
  "word_cut None c n = False" "word_cut (Some a) c n = (is_upper c \<and> is_lower_or_digit a)"
  by (simp_all add: word_cut_def)

lemma acronym_cut_simps [simp]:
  "acronym_cut None c n = False" "acronym_cut p c None = False"
  "acronym_cut (Some a) c (Some b) = (is_upper c \<and> is_upper a \<and> is_lower b)"
  by (simp_all add: acronym_cut_def)

lemma upper_lower_disjoint [simp]:
  "is_upper c \<Longrightarrow> \<not> is_lower c" "is_upper c \<Longrightarrow> \<not> is_lower_or_digit c"
  by (auto simp: is_upper_def is_lower_def is_lower_or_digit_def is_digit_def less_eq_char_def)

lemma word_boundary_local: "word_boundary sep s = insert_cuts word_cut sep None s"
proof -
  have "insert_cuts word_cut sep (Some a) s = (if s \<noteq> [] \<and> is_lower_or_digit a \<and> is_upper (hd s)
      then sep # insert_cuts word_cut sep None s else insert_cuts word_cut sep None s)" for a s
    by (cases s) auto
  note drop = this
  show ?thesis
  proof (induction sep s rule: word_boundary.induct)
    case (1 sep a b r)
    have "insert_cuts word_cut sep (Some b) r = insert_cuts word_cut sep None r" if "is_upper b"
      using that by (cases r) auto
    then show ?case using 1 by auto
  qed auto
qed

lemma acronym_run:
  "list_all is_upper run \<Longrightarrow> run \<noteq> [] \<Longrightarrow> rest = [] \<or> \<not> is_upper (hd rest) \<Longrightarrow>
   insert_cuts acronym_cut sep p (run @ rest) =
     (if (case p of None \<Rightarrow> length run \<ge> 2 | Some a \<Rightarrow> is_upper a \<or> length run \<ge> 2) \<and> rest \<noteq> [] \<and> is_lower (hd rest)
      then butlast run @ [sep, last run] @ insert_cuts acronym_cut sep (Some (last run)) rest
      else run @ insert_cuts acronym_cut sep (Some (last run)) rest)"
proof (induction run arbitrary: p)
  case (Cons c run)
  show ?case
  proof (cases run)
    case Nil
    then show ?thesis using Cons.prems
      by (cases p; cases rest) auto
  next
    case (Cons d ds)
    then have "\<not> acronym_cut p c (head (run @ rest))" using Cons.prems by (cases p) auto
    then show ?thesis using Cons.IH[of "Some c"] Cons.prems Cons
      by (cases p) auto
  qed
qed simp

lemma acronym_cut_not_upper: "\<not> is_upper a \<Longrightarrow> insert_cuts acronym_cut sep (Some a) s = insert_cuts acronym_cut sep None s"
  by (cases s) (auto simp: acronym_cut_def split: list.splits)

lemma insert_cuts_nonupper:
  "s \<noteq> [] \<Longrightarrow> \<not> is_upper (hd s) \<Longrightarrow> insert_cuts acronym_cut sep p s = hd s # insert_cuts acronym_cut sep None (tl s)"
  by (cases s) (auto simp: acronym_cut_def acronym_cut_not_upper)

lemma acronym_boundary_local: "acronym_boundary sep s = insert_cuts acronym_cut sep None s"
proof (induction sep s rule: acronym_boundary.induct)
  case (2 sep c cs)
  show ?case
  proof (cases "is_upper c")
    case True
    define run where "run = c # takeWhile is_upper cs"
    define rest where "rest = dropWhile is_upper cs"
    have split: "c # cs = run @ rest" by (simp add: run_def rest_def)
    have run: "list_all is_upper run" "run \<noteq> []" using True by (auto simp: run_def list_all_iff dest: set_takeWhileD)
    have rest: "rest = [] \<or> \<not> is_upper (hd rest)" using hd_dropWhile[of is_upper cs] by (auto simp: rest_def)
    have tail: "insert_cuts acronym_cut sep (Some (last run)) rest =
        (if rest = [] then [] else hd rest # insert_cuts acronym_cut sep None (tl rest))"
      using rest by (auto simp: insert_cuts_nonupper)
    have whole: "insert_cuts acronym_cut sep None rest = (if rest = [] then [] else hd rest # insert_cuts acronym_cut sep None (tl rest))"
      using rest by (auto simp: insert_cuts_nonupper)
    have step: "acronym_boundary sep (c # cs) =
        (if length run \<ge> 2 \<and> rest \<noteq> [] \<and> is_lower (hd rest)
         then butlast run @ [sep, last run, hd rest] @ acronym_boundary sep (tl rest)
         else run @ acronym_boundary sep rest)"
      using True by (simp only: acronym_boundary.simps run_def rest_def Let_def if_True)
    show ?thesis
    proof (cases "length run \<ge> 2 \<and> rest \<noteq> [] \<and> is_lower (hd rest)")
      case True': True
      then have "acronym_boundary sep (tl rest) = insert_cuts acronym_cut sep None (tl rest)"
        using 2(1)[OF True run_def rest_def] by blast
      then show ?thesis using True' acronym_run[OF run rest, of sep None]
        unfolding step by (simp add: split[symmetric] tail del: insert_cuts.simps)
    next
      case False
      then have "acronym_boundary sep rest = insert_cuts acronym_cut sep None rest"
        using 2(2)[OF True run_def rest_def] by blast
      moreover have "acronym_boundary sep (c # cs) = run @ acronym_boundary sep rest"
        using step False by (simp only: if_False)
      moreover have "insert_cuts acronym_cut sep None (c # cs) = run @ insert_cuts acronym_cut sep (Some (last run)) rest"
        unfolding split using acronym_run[OF run rest, of sep None] False by auto
      ultimately show ?thesis using tail whole by (simp del: insert_cuts.simps acronym_boundary.simps)
    qed
  next
    case False
    then show ?thesis using 2(3) by (simp add: acronym_cut_not_upper)
  qed
qed simp

definition both_cut :: cut where
  "both_cut p c n = (word_cut p c n \<or> acronym_cut p c n)"

text \<open>A separator that is neither a letter nor a digit.\<close>

definition separator :: "char \<Rightarrow> bool" where
  "separator c \<longleftrightarrow> \<not> is_upper c \<and> \<not> is_lower c \<and> \<not> is_digit c"

lemma word_after_acronym:
  "separator sep \<Longrightarrow> insert_cuts word_cut sep p (insert_cuts acronym_cut sep p s) = insert_cuts both_cut sep p s"
  by (induction s arbitrary: p)
    (auto simp: both_cut_def word_cut_def acronym_cut_def separator_def is_lower_or_digit_def split: option.splits list.splits)

lemma head_word: "is_upper c \<Longrightarrow> head (insert_cuts word_cut sep (Some c) s) = head s"
  by (cases s) (auto simp: word_cut_def)

lemma acronym_after_word:
  "separator sep \<Longrightarrow> insert_cuts acronym_cut sep p (insert_cuts word_cut sep p s) = insert_cuts both_cut sep p s"
proof (induction s arbitrary: p)
  case (Cons c s)
  have "\<not> is_upper c \<Longrightarrow> \<not> acronym_cut q c n" for q n by (simp add: acronym_cut_def)
  moreover have "word_cut p c n \<Longrightarrow> is_upper c \<and> \<not> acronym_cut p c m" for n m
    by (auto simp: word_cut_def acronym_cut_def split: option.splits)
  moreover have "\<not> acronym_cut p sep n" "\<not> acronym_cut (Some sep) c n" for n
    using Cons.prems by (simp_all add: acronym_cut_def separator_def)
  ultimately show ?case using Cons head_word[of c sep s]
    by (cases "is_upper c") (auto simp: both_cut_def)
qed simp

subsection \<open>The names are identifiers\<close>

text \<open>The identifiers the schema admits for entities and fields: a letter, then letters and digits.\<close>

definition spec_identifier :: "string \<Rightarrow> bool" where
  "spec_identifier s \<longleftrightarrow>
     s \<noteq> [] \<and> (is_lower (hd s) \<or> is_upper (hd s)) \<and> list_all (\<lambda>c. is_lower c \<or> is_upper c \<or> is_digit c) s"

definition ident_char :: "char \<Rightarrow> bool" where
  "ident_char c \<longleftrightarrow> is_lower c \<or> is_digit c \<or> c = CHR ''_''"

lemma lower_char_ident: "is_lower c \<or> is_upper c \<or> is_digit c \<Longrightarrow> is_lower (lower_char c) \<or> is_digit (lower_char c)"
  "is_lower c \<or> is_upper c \<Longrightarrow> is_lower (lower_char c)"
proof -
  obtain n where n: "n < 256" "c = char_of (n :: nat)" using char_code_cases by blast
  have code: "of_char c = n" using n by simp
  have up: "is_upper c \<longleftrightarrow> 65 \<le> n \<and> n \<le> 90" and lo: "is_lower c \<longleftrightarrow> 97 \<le> n \<and> n \<le> 122"
    and dg: "is_digit c \<longleftrightarrow> 48 \<le> n \<and> n \<le> 57"
    by (simp_all add: is_upper_def is_lower_def is_digit_def less_eq_char_def code)
  have lc: "lower_char c = (if (65 \<le> n \<and> n \<le> 90) \<or> (192 \<le> n \<and> n \<le> 222 \<and> n \<noteq> 215) then char_of (n + 32) else c)"
    by (simp add: lower_char_def Let_def code up)
  have "is_lower (lower_char c)" if "is_lower c \<or> is_upper c"
  proof (cases "65 \<le> n \<and> n \<le> 90")
    case True
    then have "(of_char (lower_char c) :: nat) = n + 32" by (simp add: lc)
    then show ?thesis using True by (simp add: is_lower_def less_eq_char_def)
  next
    case False
    then have "97 \<le> n" "n \<le> 122" using that unfolding up lo by auto
    then show ?thesis by (simp add: lc lo)
  qed
  moreover have "lower_char c = c" if "is_digit c"
    using that unfolding dg by (simp add: lower_char_def Let_def code up)
  ultimately show "is_lower c \<or> is_upper c \<or> is_digit c \<Longrightarrow> is_lower (lower_char c) \<or> is_digit (lower_char c)"
    "is_lower c \<or> is_upper c \<Longrightarrow> is_lower (lower_char c)" by auto
qed

lemma lower_underscore [simp]: "lower_char (CHR ''_'') = CHR ''_''"
  by (simp add: lower_char_def is_upper_def less_eq_char_def)

lemma set_insert_cuts: "set (insert_cuts ct sep p s) \<subseteq> insert sep (set s)"
  by (induction ct sep p s rule: insert_cuts.induct) auto

lemma hd_insert_cuts: "s \<noteq> [] \<Longrightarrow> \<not> ct None (hd s) (head (tl s)) \<Longrightarrow> insert_cuts ct sep None s \<noteq> [] \<and> hd (insert_cuts ct sep None s) = hd s"
  by (cases s) auto

lemma separator_underscore [simp]: "separator (CHR ''_'')" "separator (CHR ''-'')"
  by (simp_all add: separator_def is_upper_def is_lower_def is_digit_def less_eq_char_def)

lemma snakeCase_cuts: "snakeCase s = to_lower (insert_cuts both_cut (CHR ''_'') None s)"
  by (simp add: snakeCase_def acronym_boundary_local word_boundary_local word_after_acronym)

lemma toSnakeCase_cuts: "toSnakeCase s = to_lower (insert_cuts both_cut (CHR ''_'') None s)"
  by (simp add: toSnakeCase_def acronym_boundary_local word_boundary_local acronym_after_word)

lemma kebabCase_cuts: "kebabCase s = to_lower (insert_cuts both_cut (CHR ''-'') None s)"
  by (simp add: kebabCase_def acronym_boundary_local word_boundary_local word_after_acronym)

lemma snake_identifier: "spec_identifier s \<Longrightarrow> sql_identifier (toSnakeCase s)"
proof -
  assume s: "spec_identifier s"
  let ?t = "insert_cuts both_cut (CHR ''_'') None s"
  have hd: "?t \<noteq> [] \<and> hd ?t = hd s"
    using s by (intro hd_insert_cuts) (auto simp: spec_identifier_def both_cut_def)
  have "ident_char (lower_char c)" if "c \<in> set ?t" for c
    using that set_insert_cuts[of both_cut "CHR ''_''" None s] s lower_char_ident(1)[of c]
    by (auto simp: spec_identifier_def list_all_iff ident_char_def)
  then have "list_all ident_char (to_lower ?t)" by (auto simp: to_lower_def list_all_iff)
  moreover have "is_lower (hd (to_lower ?t))"
    using hd s lower_char_ident(2)[of "hd s"] by (auto simp: to_lower_def hd_map spec_identifier_def)
  ultimately show ?thesis using hd
    by (cases "to_lower ?t") (auto simp: toSnakeCase_cuts sql_identifier_def ident_char_def[abs_def] to_lower_def)
qed

lemma replace_char_id: "c \<notin> set s \<Longrightarrow> replace_char c r s = s"
  by (induction s) (auto simp: replace_char_def)

lemma lower_char_underscore: "lower_char c = CHR ''_'' \<longleftrightarrow> c = CHR ''_''"
proof -
  obtain n where n: "n < 256" "c = char_of (n :: nat)" using char_code_cases by blast
  have code: "of_char c = n" using n by simp
  have up: "is_upper c \<longleftrightarrow> 65 \<le> n \<and> n \<le> 90" by (simp add: is_upper_def less_eq_char_def code)
  show ?thesis
  proof (cases "is_upper c \<or> (192 \<le> n \<and> n \<le> 222 \<and> n \<noteq> 215)")
    case True
    then have "lower_char c = char_of (n + 32)" by (simp add: lower_char_def Let_def code)
    moreover have "n + 32 < 256" "n + 32 \<noteq> 95" "n \<noteq> 95" using True up by auto
    ultimately have "(of_char (lower_char c) :: nat) \<noteq> 95" by simp
    then have "lower_char c \<noteq> CHR ''_''" by auto
    moreover have "c \<noteq> CHR ''_''" using code \<open>n \<noteq> 95\<close> by auto
    ultimately show ?thesis by simp
  next
    case False
    then show ?thesis by (auto simp: lower_char_def Let_def code)
  qed
qed

lemma replace_to_lower:
  "CHR ''_'' \<notin> set s \<Longrightarrow>
   replace_char (CHR ''_'') ''-'' (to_lower (insert_cuts ct (CHR ''_'') p s)) = to_lower (insert_cuts ct (CHR ''-'') p s)"
proof (induction s arbitrary: p)
  case (Cons c s)
  have dash: "lower_char (CHR ''-'') = CHR ''-''" by (simp add: lower_char_def is_upper_def less_eq_char_def)
  show ?case using Cons dash by (auto simp: to_lower_def replace_char_def lower_char_underscore)
qed (simp add: to_lower_def replace_char_def)

text \<open>
  C25.  Compiler and runtime agree on names, although they apply the two word-splitting
  replacements in opposite orders: for every string the table the compiler creates is the table
  the runtime queries, for every field the column is the same, and for every entity name
  without an underscore so is the API path segment.
\<close>

theorem compiler_and_runtime_names_agree:
  "tableName n = entityTable n \<and> columnName fd = columnFor fd \<and> (CHR ''_'' \<in> set n \<or> kebabCase n = entityApiSegment n)"
  by (cases "CHR ''_'' \<in> set n")
    (simp_all add: tableName_def entityTable_def columnName_def columnFor_def entityApiSegment_def
      snakeCase_cuts toSnakeCase_cuts kebabCase_cuts replace_to_lower)

text \<open>
  No name from a valid spec is ever refused by, or breaks out of, the SQL quoting: the
  table and column names derived from spec identifiers are plain identifiers, so quoting
  succeeds and adds exactly the two quotes.
\<close>

theorem spec_names_quote_safely:
  "spec_identifier n \<Longrightarrow>
   quoteIdent (entityTable n) = Some ([char_of (34 :: nat)] @ entityTable n @ [char_of (34 :: nat)]) \<and>
   char_of (34 :: nat) \<notin> set (entityTable n)"
proof -
  assume "spec_identifier n"
  then have id: "sql_identifier (entityTable n)" by (simp add: entityTable_def snake_identifier)
  have "\<not> is_lower (char_of (34 :: nat))" "\<not> is_digit (char_of (34 :: nat))" "char_of (34 :: nat) \<noteq> CHR ''_''"
    by code_simp+
  then have "char_of (34 :: nat) \<notin> set (entityTable n)"
    using id by (cases "entityTable n") (auto simp: sql_identifier_def list_all_iff)
  with id show ?thesis by (simp add: quoteIdent_def)
qed

theorem spec_names_quote_safely_witness:
  "quoteIdent (entityTable ''VendorHTTPApplication'') =
     Some ([char_of (34 :: nat)] @ ''vendor_http_application'' @ [char_of (34 :: nat)])"
proof -
  have "spec_identifier ''VendorHTTPApplication''" "entityTable ''VendorHTTPApplication'' = ''vendor_http_application''"
    by code_simp+
  with spec_names_quote_safely[of "''VendorHTTPApplication''"] show ?thesis by simp
qed

end
