(* ===== verification/Records.thy ===== *)
theory Records
  imports Naming Js_Json
begin

text \<open>
  Entity models, request bodies and rows: \<open>packages/runtime/src/records.ts\<close>.  \<open>parse_date\<close> is
  \<open>Date.parse\<close> (\<^term>\<open>None\<close> for NaN), \<open>fmt\<close> is \<open>toISOString\<close>.
\<close>

record entity_model =
  em_entity :: entity_def
  em_table :: string
  em_apiSegment :: string
  em_fieldByName :: "(string \<times> field_def) list"
  em_stateFields :: "(string \<times> string) list"
  em_workflows :: "workflow_def list"

definition buildEntityModel :: "app_spec \<Rightarrow> entity_def \<Rightarrow> entity_model" where
  "buildEntityModel spec entity =
     (let workflows = filter (\<lambda>w. wf_entity w = en_name entity) (or_empty (sp_workflows spec)) in
      \<lparr>em_entity = entity,
       em_table = entityTable (en_name entity),
       em_apiSegment = entityApiSegment (en_name entity),
       em_fieldByName = map_from (map (\<lambda>f. (fd_name f, f)) (en_fields entity)),
       em_stateFields = map_from (map (\<lambda>w. (wf_stateField w, wf_initial w)) workflows),
       em_workflows = workflows\<rparr>)"

definition buildEntityModels :: "app_spec \<Rightarrow> (string \<times> entity_model) list" where
  "buildEntityModels spec = map_from (map (\<lambda>e. (en_name e, buildEntityModel spec e)) (sp_entities spec))"

definition pageFor :: "app_spec \<Rightarrow> string \<Rightarrow> page_type \<Rightarrow> page_def option" where
  "pageFor spec entityName ty =
     List.find (\<lambda>p. pg_type p = ty \<and> pg_entity p = entityName) (or_empty (sp_pages spec))"

subsection \<open>Request bodies\<close>

datatype body_source = Json_body | Form_body

datatype body_mode = Create | Update

datatype body_error = Body_not_object | State_field_readonly string | Body_invalid "string list"

text \<open>
  \<open>input[k]\<close> on a plain object: an own property, else what the object inherits from
  \<open>Object.prototype\<close>.  The inherited members are functions; for \<open>coerceValue\<close>, which only
  accepts primitives, a function is like any other object.
\<close>

definition object_prototype_names :: "string list" where
  "object_prototype_names =
     [''constructor'', ''__defineGetter__'', ''__defineSetter__'', ''hasOwnProperty'', ''__lookupGetter__'',
      ''__lookupSetter__'', ''isPrototypeOf'', ''propertyIsEnumerable'', ''toString'', ''valueOf'', ''__proto__'',
      ''toLocaleString'']"

definition read_member :: "fields \<Rightarrow> string \<Rightarrow> json" where
  "read_member kvs k =
     (case map_of kvs k of
        Some v \<Rightarrow> v
      | None \<Rightarrow> if List.member object_prototype_names k then JObj [] else JUndef)"

definition form_true :: "string \<Rightarrow> bool" where
  "form_true s \<longleftrightarrow> s = ''true'' \<or> s = ''on'' \<or> s = ''1''"

definition form_false :: "string \<Rightarrow> bool" where
  "form_false s \<longleftrightarrow> s = ''false'' \<or> s = ''off'' \<or> s = ''0''"

text \<open>\<open>coerceValue\<close>: \<^term>\<open>None\<close> is INVALID, and then a problem is recorded for the field.\<close>

definition coerceValue :: "(string \<Rightarrow> int option) \<Rightarrow> field_def \<Rightarrow> json \<Rightarrow> body_source \<Rightarrow> json option" where
  "coerceValue parse_date field raw source =
     (case fd_type field of
        FString \<Rightarrow> (case raw of JStr s \<Rightarrow> Some raw | _ \<Rightarrow> None)
      | FText \<Rightarrow> (case raw of JStr s \<Rightarrow> Some raw | _ \<Rightarrow> None)
      | FNumber \<Rightarrow>
          (case raw of
             JNum n \<Rightarrow> if is_finite n then Some (JNum n) else None
           | JStr s \<Rightarrow> if source = Form_body \<and> is_finite (str_to_num s) then Some (JNum (str_to_num s)) else None
           | _ \<Rightarrow> None)
      | FBoolean \<Rightarrow>
          (case raw of
             JBool b \<Rightarrow> Some raw
           | JStr s \<Rightarrow>
               if source = Form_body \<and> form_true s then Some (JBool True)
               else if source = Form_body \<and> form_false s then Some (JBool False)
               else None
           | _ \<Rightarrow> None)
      | FDate \<Rightarrow> (case raw of JStr s \<Rightarrow> if parse_date s = None then None else Some raw | _ \<Rightarrow> None)
      | FDatetime \<Rightarrow> (case raw of JStr s \<Rightarrow> if parse_date s = None then None else Some raw | _ \<Rightarrow> None)
      | FEnum \<Rightarrow> (case raw of JStr s \<Rightarrow> if List.member (or_empty (fd_values field)) s then Some raw else None | _ \<Rightarrow> None)
      | FReference \<Rightarrow> if isUuid raw then Some raw else None)"

text \<open>The loop over the body's keys: a state field ends it, unknown names are collected.\<close>

fun check_keys :: "entity_model \<Rightarrow> string list \<Rightarrow> string list \<Rightarrow> body_error + string list" where
  "check_keys model [] problems = Inr problems"
| "check_keys model (key # keys) problems =
     (if map_has (em_stateFields model) key then Inl (State_field_readonly key)
      else check_keys model keys (if map_has (em_fieldByName model) key then problems else problems @ [key]))"

text \<open>The body of the loop over the entity's fields.\<close>

definition check_field ::
  "(string \<Rightarrow> int option) \<Rightarrow> entity_model \<Rightarrow> fields \<Rightarrow> body_mode \<Rightarrow> body_source \<Rightarrow> field_def \<Rightarrow>
   fields \<times> string list \<Rightarrow> fields \<times> string list" where
  "check_field parse_date model input mode source field acc =
     (case acc of (data, problems) \<Rightarrow>
       if map_has (em_stateFields model) (fd_name field) then (data, problems)
       else (let raw = read_member input (fd_name field);
                 present = (raw \<noteq> JUndef \<and> \<not> (source = Form_body \<and> raw = JStr []))
             in if \<not> present then
                  (if mode = Create \<and> fd_required field \<and> fd_default field = None
                   then (data, problems @ [fd_name field]) else (data, problems))
                else if raw = JNull then
                  (if fd_required field then (data, problems @ [fd_name field])
                   else (map_set (fd_name field) JNull data, problems))
                else (case coerceValue parse_date field raw source of
                        None \<Rightarrow> (data, problems @ [fd_name field])
                      | Some v \<Rightarrow> (map_set (fd_name field) v data, problems))))"

definition validateBody ::
  "(string \<Rightarrow> int option) \<Rightarrow> entity_model \<Rightarrow> json \<Rightarrow> body_mode \<Rightarrow> body_source \<Rightarrow> body_error + fields" where
  "validateBody parse_date model body mode source =
     (case body of
        JObj input \<Rightarrow>
          (case check_keys model (map fst input) [] of
             Inl e \<Rightarrow> Inl e
           | Inr problems \<Rightarrow>
               (case fold (check_field parse_date model input mode source) (en_fields (em_entity model)) ([], problems) of
                  (data, problems') \<Rightarrow> if problems' = [] then Inr data else Inl (Body_invalid problems')))
      | _ \<Rightarrow> Inl Body_not_object)"

subsection \<open>Rows\<close>

definition normalizeValue :: "(int \<Rightarrow> string) \<Rightarrow> json \<Rightarrow> json" where
  "normalizeValue fmt v = (case v of JUndef \<Rightarrow> JNull | JDate d \<Rightarrow> JStr (fmt d) | _ \<Rightarrow> v)"

definition row_to_record :: "(int \<Rightarrow> string) \<Rightarrow> entity_model \<Rightarrow> fields \<Rightarrow> fields" where
  "row_to_record fmt model row =
     obj_build ([(''id'', coalesce (get_field row ''id'') JNull)]
       @ map (\<lambda>f. (fd_name f, normalizeValue fmt (get_field row (columnFor f)))) (en_fields (em_entity model))
       @ [(''createdAt'', normalizeValue fmt (get_field row ''created_at'')),
          (''updatedAt'', normalizeValue fmt (get_field row ''updated_at''))])"

subsection \<open>What an accepted body contains\<close>

text \<open>The values a column of the field's type takes.\<close>

definition value_ok :: "(string \<Rightarrow> int option) \<Rightarrow> field_def \<Rightarrow> json \<Rightarrow> bool" where
  "value_ok parse_date f v =
     (case fd_type f of
        FString \<Rightarrow> (\<exists>s. v = JStr s)
      | FText \<Rightarrow> (\<exists>s. v = JStr s)
      | FNumber \<Rightarrow> (\<exists>n. v = JNum n \<and> is_finite n)
      | FBoolean \<Rightarrow> (\<exists>b. v = JBool b)
      | FDate \<Rightarrow> (\<exists>s d. v = JStr s \<and> parse_date s = Some d)
      | FDatetime \<Rightarrow> (\<exists>s d. v = JStr s \<and> parse_date s = Some d)
      | FEnum \<Rightarrow> (\<exists>s. v = JStr s \<and> s \<in> set (or_empty (fd_values f)))
      | FReference \<Rightarrow> (\<exists>s. v = JStr s \<and> uuid_text s))"

lemma coerceValue_ok: "coerceValue parse_date f raw source = Some v \<Longrightarrow> value_ok parse_date f v"
  by (cases "fd_type f"; cases raw) (auto simp: coerceValue_def value_ok_def isUuid_def split: if_splits)

lemma value_ok_not_null: "value_ok parse_date f v \<Longrightarrow> v \<noteq> JNull \<and> v \<noteq> JUndef"
  by (auto simp: value_ok_def split: field_type.splits)

lemma check_keys_find:
  "check_keys model keys ps =
     (case List.find (map_has (em_stateFields model)) keys of
        Some k \<Rightarrow> Inl (State_field_readonly k)
      | None \<Rightarrow> Inr (ps @ filter (\<lambda>k. \<not> map_has (em_fieldByName model) k) keys))"
  by (induction keys arbitrary: ps) (simp_all split: option.splits)

text \<open>What the loop body decides about one field: nothing, a value, or a problem.\<close>

definition field_verdict ::
  "(string \<Rightarrow> int option) \<Rightarrow> entity_model \<Rightarrow> fields \<Rightarrow> body_mode \<Rightarrow> body_source \<Rightarrow> field_def \<Rightarrow> unit + json option" where
  "field_verdict parse_date model input mode source f =
     (let raw = read_member input (fd_name f) in
      if map_has (em_stateFields model) (fd_name f) then Inr None
      else if raw = JUndef \<or> (source = Form_body \<and> raw = JStr []) then
        (if mode = Create \<and> fd_required f \<and> fd_default f = None then Inl () else Inr None)
      else if raw = JNull then (if fd_required f then Inl () else Inr (Some JNull))
      else (case coerceValue parse_date f raw source of None \<Rightarrow> Inl () | Some v \<Rightarrow> Inr (Some v)))"

lemma check_field_verdict:
  "check_field parse_date model input mode source f (data, ps) =
     (case field_verdict parse_date model input mode source f of
        Inl _ \<Rightarrow> (data, ps @ [fd_name f])
      | Inr None \<Rightarrow> (data, ps)
      | Inr (Some v) \<Rightarrow> (map_set (fd_name f) v data, ps))"
  by (auto simp: check_field_def field_verdict_def Let_def split: option.splits)

definition verdict_entry ::
  "(string \<Rightarrow> int option) \<Rightarrow> entity_model \<Rightarrow> fields \<Rightarrow> body_mode \<Rightarrow> body_source \<Rightarrow> field_def \<Rightarrow> fields" where
  "verdict_entry parse_date model input mode source f =
     (case field_verdict parse_date model input mode source f of Inr (Some v) \<Rightarrow> [(fd_name f, v)] | _ \<Rightarrow> [])"

lemma check_fields_fold:
  assumes "distinct (map fd_name fs)" "fst ` set data \<inter> fd_name ` set fs = {}"
  shows "fold (check_field parse_date model input mode source) fs (data, ps) =
    (data @ concat (map (verdict_entry parse_date model input mode source) fs),
     ps @ map fd_name (filter (\<lambda>f. \<exists>u. field_verdict parse_date model input mode source f = Inl u) fs))"
  using assms
proof (induction fs arbitrary: data ps)
  case (Cons f fs)
  have fresh: "fd_name f \<notin> fst ` set data" using Cons.prems(2) by auto
  have rest: "distinct (map fd_name fs)" "fst ` set data \<inter> fd_name ` set fs = {}" using Cons.prems by auto
  show ?case
  proof (cases "field_verdict parse_date model input mode source f")
    case (Inl u)
    then show ?thesis using Cons.IH[OF rest] by (simp add: check_field_verdict verdict_entry_def)
  next
    case (Inr v)
    show ?thesis
    proof (cases v)
      case None
      then show ?thesis using Inr Cons.IH[OF rest] by (simp add: check_field_verdict verdict_entry_def)
    next
      case (Some x)
      have "fst ` set (data @ [(fd_name f, x)]) \<inter> fd_name ` set fs = {}" using Cons.prems by auto
      from Cons.IH[OF rest(1) this] show ?thesis
        using Inr Some fresh by (simp add: check_field_verdict verdict_entry_def map_set_new)
    qed
  qed
qed simp

lemma validateBody_accepts:
  assumes "distinct (map fd_name (en_fields (em_entity model)))"
  shows "validateBody parse_date model (JObj input) mode source = Inr data \<longleftrightarrow>
    (\<forall>k \<in> fst ` set input. \<not> map_has (em_stateFields model) k \<and> map_has (em_fieldByName model) k) \<and>
    (\<forall>f \<in> set (en_fields (em_entity model)). field_verdict parse_date model input mode source f \<noteq> Inl ()) \<and>
    data = concat (map (verdict_entry parse_date model input mode source) (en_fields (em_entity model)))"
proof -
  note fold = check_fields_fold[OF assms, of "[]" parse_date model input mode source]
  show ?thesis
  proof (cases "List.find (map_has (em_stateFields model)) (map fst input)")
    case None
    then have "\<forall>k \<in> fst ` set input. \<not> map_has (em_stateFields model) k" by (auto simp: find_None_iff)
    then show ?thesis using None fold
      by (auto simp: validateBody_def check_keys_find filter_empty_conv)
  next
    case (Some k)
    then have "k \<in> fst ` set input" "map_has (em_stateFields model) k" by (auto dest!: find_Some_iff_set)
    then show ?thesis using Some by (auto simp: validateBody_def check_keys_find)
  qed
qed

lemma state_field_key_rejected:
  "k \<in> fst ` set input \<Longrightarrow> map_has (em_stateFields model) k \<Longrightarrow>
   \<exists>k'. validateBody parse_date model (JObj input) mode source = Inl (State_field_readonly k')"
proof -
  assume k: "k \<in> fst ` set input" "map_has (em_stateFields model) k"
  then have "List.find (map_has (em_stateFields model)) (map fst input) \<noteq> None" by (auto simp: find_None_iff)
  then show ?thesis by (auto simp: validateBody_def check_keys_find)
qed

lemma verdict_required:
  assumes "fd_required f" "fd_default f = None" "\<not> map_has (em_stateFields model) (fd_name f)"
    and "field_verdict parse_date model input Create source f \<noteq> Inl ()"
  shows "\<exists>v. field_verdict parse_date model input Create source f = Inr (Some v) \<and> v \<noteq> JNull"
proof -
  let ?raw = "read_member input (fd_name f)"
  have "?raw \<noteq> JUndef" "\<not> (source = Form_body \<and> ?raw = JStr [])" "?raw \<noteq> JNull"
    using assms by (auto simp: field_verdict_def)
  moreover from this obtain v where "coerceValue parse_date f ?raw source = Some v"
    using assms by (cases "coerceValue parse_date f ?raw source") (auto simp: field_verdict_def)
  moreover from this have "v \<noteq> JNull" using coerceValue_ok value_ok_not_null by blast
  ultimately show ?thesis using assms(3) by (auto simp: field_verdict_def)
qed


definition demo_field :: "string \<Rightarrow> field_type \<Rightarrow> field_def" where
  "demo_field n ty = \<lparr>fd_name = n, fd_type = ty, fd_required = (ty = FString), fd_unique = False,
     fd_values = (if ty = FEnum then Some [''draft'', ''approved''] else None), fd_entity = None, fd_default = None\<rparr>"

definition demo_model :: entity_model where
  "demo_model = \<lparr>em_entity = \<lparr>en_name = ''Vendor'', en_description = None,
       en_fields = [demo_field ''name'' FString, demo_field ''status'' FEnum], en_relations = None\<rparr>,
     em_table = ''vendor'', em_apiSegment = ''vendor'',
     em_fieldByName = [(''name'', demo_field ''name'' FString), (''status'', demo_field ''status'' FEnum)],
     em_stateFields = [(''status'', ''draft'')], em_workflows = []\<rparr>"


text \<open>
  A field named like a member of \<open>Object.prototype\<close> (for instance \<open>constructor\<close>, which the
  spec accepts as a field name) is taken to be present in every body that does not mention it,
  with a value of the wrong type: every such body is refused.
\<close>

theorem inherited_member_name_refuses_every_body:
  "f \<in> set (en_fields (em_entity model)) \<Longrightarrow> List.member object_prototype_names (fd_name f) \<Longrightarrow>
   \<not> map_has (em_stateFields model) (fd_name f) \<Longrightarrow> distinct (map fd_name (en_fields (em_entity model))) \<Longrightarrow>
   fd_name f \<notin> fst ` set input \<Longrightarrow>
   \<exists>e. validateBody parse_date model (JObj input) mode source = Inl e"
proof -
  assume f: "f \<in> set (en_fields (em_entity model))" "List.member object_prototype_names (fd_name f)"
    "\<not> map_has (em_stateFields model) (fd_name f)" "fd_name f \<notin> fst ` set input"
    and d: "distinct (map fd_name (en_fields (em_entity model)))"
  have "map_of input (fd_name f) = None" using f(4) by (simp add: map_of_eq_None_iff)
  then have "read_member input (fd_name f) = JObj []" using f(2) by (simp add: read_member_def)
  then have "field_verdict parse_date model input mode source f = Inl ()"
    using f(3) by (cases "fd_type f") (simp_all add: field_verdict_def coerceValue_def isUuid_def)
  then have "validateBody parse_date model (JObj input) mode source \<noteq> Inr data" for data
    using validateBody_accepts[OF d] f(1) by blast
  then show ?thesis by (cases "validateBody parse_date model (JObj input) mode source") auto
qed

definition poisoned_model :: entity_model where
  "poisoned_model = demo_model\<lparr>em_entity := \<lparr>en_name = ''Vendor'', en_description = None,
       en_fields = [demo_field ''constructor'' FText], en_relations = None\<rparr>, em_stateFields := []\<rparr>"

theorem inherited_member_name_refuses_every_body_witness:
  "\<exists>e. validateBody (\<lambda>_. None) poisoned_model (JObj []) Create Json_body = Inl e"
  by (rule inherited_member_name_refuses_every_body[where f = "demo_field ''constructor'' FText"])
    (simp_all add: poisoned_model_def demo_field_def object_prototype_names_def)

end
