(* ===== verification/Policy.thy ===== *)
theory Policy
  imports Js_Values
begin

text \<open>
  The policy decision point: \<open>packages/policy/src/engine.ts\<close> over
  \<open>packages/policy/policy/authz.rego\<close>.  The compiled bundle is evaluated by a library; here
  \<open>evaluate\<close> is any function that either throws (with a message) or returns a result set.  The
  rules of the Rego source are \<open>authz_decision\<close>; \<open>show\<close> is Rego's \<open>%v\<close>.
\<close>

record policy_input =
  pi_subject_id :: string
  pi_subject_roles :: "string list"
  pi_action :: string
  pi_type :: string
  pi_id :: "string option"
  pi_allowedRoles :: "string list"
  pi_context :: "fields option"

record policy_decision =
  pd_allow :: bool
  pd_reason :: string
  pd_policyId :: string

definition POLICY_ID :: string where
  "POLICY_ID = ''openrupiv.authz''"

definition str_list :: "string list \<Rightarrow> json" where
  "str_list xs = JArr (map JStr xs)"

definition toRegoInput :: "policy_input \<Rightarrow> json" where
  "toRegoInput input =
     JObj [(''subject'', JObj [(''id'', JStr (pi_subject_id input)), (''roles'', str_list (pi_subject_roles input))]),
       (''action'', JStr (pi_action input)),
       (''resource'', JObj ([(''type'', JStr (pi_type input))]
          @ (case pi_id input of None \<Rightarrow> [] | Some i \<Rightarrow> [(''id'', JStr i)])
          @ [(''allowed_roles'', str_list (pi_allowedRoles input))])),
       (''context'', JObj (case pi_context input of None \<Rightarrow> [] | Some c \<Rightarrow> c))]"

subsection \<open>The Rego rules\<close>

fun elements :: "json \<Rightarrow> json list" where
  "elements (JArr vs) = vs"
| "elements _ = []"

definition rego_required_roles :: "json \<Rightarrow> json list" where
  "rego_required_roles input = elements (js_prop (js_prop input ''resource'') ''allowed_roles'')"

definition rego_subject_roles :: "json \<Rightarrow> json list" where
  "rego_subject_roles input = elements (js_prop (js_prop input ''subject'') ''roles'')"

definition rego_allow :: "json \<Rightarrow> bool" where
  "rego_allow input \<longleftrightarrow>
     (let required = rego_required_roles input in
      (length required > 0 \<and> list_ex (\<lambda>r. List.member required r) (rego_subject_roles input))
      \<or> (length required = 0 \<and> js_prop (js_prop input ''subject'') ''id'' \<noteq> JStr []))"

definition rego_reason :: "(json \<Rightarrow> string) \<Rightarrow> json \<Rightarrow> string" where
  "rego_reason show_v input =
     (let required = rego_required_roles input; action = show_v (js_prop input ''action'') in
      if rego_allow input then
        (if length required = 0 then ''no roles required; authenticated subject permitted''
         else ''subject holds a required role for '' @ action)
      else ''subject roles '' @ show_v (JArr (rego_subject_roles input)) @ '' do not intersect required roles ''
        @ show_v (JArr required) @ '' for '' @ action)"

definition authz_decision :: "(json \<Rightarrow> string) \<Rightarrow> json \<Rightarrow> json" where
  "authz_decision show_v input =
     JObj [(''allow'', JBool (rego_allow input)), (''reason'', JStr (rego_reason show_v input))]"

text \<open>The evaluator on that bundle: one result.\<close>

definition authz_evaluate :: "(json \<Rightarrow> string) \<Rightarrow> json \<Rightarrow> string + json list" where
  "authz_evaluate show_v input = Inr [JObj [(''result'', authz_decision show_v input)]]"

subsection \<open>The engine\<close>

definition decide :: "(json \<Rightarrow> string + json list) \<Rightarrow> policy_input \<Rightarrow> policy_decision" where
  "decide evaluate input =
     (case evaluate (toRegoInput input) of
        Inl message \<Rightarrow>
          \<lparr>pd_allow = False, pd_reason = ''policy evaluation error (fail-closed): '' @ message, pd_policyId = POLICY_ID\<rparr>
      | Inr resultSet \<Rightarrow>
          (let decision = (case resultSet of [] \<Rightarrow> JUndef | r # _ \<Rightarrow> js_prop r ''result'');
               allow = strict_eq (js_prop decision ''allow'') (JBool True);
               reason = (case js_prop decision ''reason'' of
                   JStr s \<Rightarrow> s
                 | _ \<Rightarrow> if allow then ''allowed'' else ''denied by default (no matching policy result)'')
           in \<lparr>pd_allow = allow, pd_reason = reason, pd_policyId = POLICY_ID\<rparr>))"

lemma strict_eq_true: "strict_eq v (JBool True) \<longleftrightarrow> v = JBool True"
  by (cases v) auto

lemma decide_allow_iff:
  "pd_allow (decide evaluate input) \<longleftrightarrow>
     (\<exists>r rs. evaluate (toRegoInput input) = Inr (r # rs) \<and> js_prop (js_prop r ''result'') ''allow'' = JBool True)"
  by (auto simp: decide_def Let_def strict_eq_true split: sum.splits list.splits)

lemma decide_policyId [simp]: "pd_policyId (decide evaluate input) = POLICY_ID"
  by (simp add: decide_def Let_def split: sum.splits)

subsection \<open>What callers rely on\<close>

text \<open>
  The contract of a decision point: it says yes only to a subject that holds one of the
  required roles, or, when none is required, to a subject with an identity.
\<close>

definition entitled :: "policy_input \<Rightarrow> bool" where
  "entitled input \<longleftrightarrow>
     (if pi_allowedRoles input = [] then pi_subject_id input \<noteq> []
      else (\<exists>r \<in> set (pi_subject_roles input). r \<in> set (pi_allowedRoles input)))"

locale decision_point =
  fixes dec :: "policy_input \<Rightarrow> policy_decision"
  assumes sound: "pd_allow (dec i) \<Longrightarrow> entitled i"
begin

lemma denied_without_role:
  "pi_allowedRoles i \<noteq> [] \<Longrightarrow> set (pi_subject_roles i) \<inter> set (pi_allowedRoles i) = {} \<Longrightarrow> \<not> pd_allow (dec i)"
  using sound[of i] by (auto simp: entitled_def)

lemma denied_anonymous: "pi_allowedRoles i = [] \<Longrightarrow> pi_subject_id i = [] \<Longrightarrow> \<not> pd_allow (dec i)"
  using sound[of i] by (auto simp: entitled_def)

end

lemma rego_allow_entitled: "rego_allow (toRegoInput i) \<longleftrightarrow> entitled i"
  by (cases "pi_id i")
    (auto simp: rego_allow_def toRegoInput_def rego_required_roles_def rego_subject_roles_def str_list_def
      get_field_def entitled_def Let_def list_ex_iff)

lemma authz_decide: "pd_allow (decide (authz_evaluate show_v) i) = entitled i"
  by (simp add: decide_allow_iff authz_evaluate_def authz_decision_def get_field_def rego_allow_entitled)

interpretation authz: decision_point "decide (authz_evaluate show_v)" for show_v
  by unfold_locales (simp add: authz_decide)

text \<open>
  C30.  Deny by default.  The engine allows an action only when the evaluation returned a result
  whose \<open>allow\<close> is exactly the boolean true: an exception, an empty result set, a missing or
  non-boolean \<open>allow\<close> are denials, whatever bundle is loaded.  With the committed policy the answer is yes
  exactly for subjects that hold a required role, or, when no role is required, have an identity.
\<close>

theorem decide_denies_by_default:
  "(pd_allow (decide evaluate input) \<longleftrightarrow>
     (\<exists>r rs. evaluate (toRegoInput input) = Inr (r # rs) \<and> js_prop (js_prop r ''result'') ''allow'' = JBool True)) \<and>
   pd_allow (decide (authz_evaluate show_v) input) = entitled input"
  using decide_allow_iff authz_decide by blast

end
