(* ===== verification/Workflow.thy ===== *)
theory Workflow
  imports Records Policy Runtime_Audit
begin

text \<open>
  Workflow transitions with n-eyes approvals: \<open>packages/runtime/src/workflows.ts\<close>.

  The world is what the runtime shares: the entity rows (by table and id), the approvals table,
  and the audit log with its fault plan.  \<open>executeTransition\<close> runs in three parts, as the code
  does: the unlocked peek with the policy decisions, the row-locked transaction, and the flush
  of the events that must survive a rollback.  Between two awaited calls other requests may change
  the world in any way: \<open>env i\<close> is what happens at the \<open>i\<close>-th such point.  The locked
  transaction is one atomic step.  Log lines other than audit events are not modelled.
\<close>

subsection \<open>Guard predicates\<close>

definition toComparable :: "(int \<Rightarrow> string) \<Rightarrow> (string \<Rightarrow> int option) \<Rightarrow> json \<Rightarrow> field_def \<Rightarrow> jsnum option" where
  "toComparable dstr parse_date v field =
     (if fd_type field = FNumber then
        (let n = (case v of JNum n \<Rightarrow> n | _ \<Rightarrow> js_number dstr v) in if is_finite n then Some n else None)
      else (case v of
          JDate d \<Rightarrow> Some (num_of_int d)
        | JStr s \<Rightarrow> map_option num_of_int (parse_date s)
        | _ \<Rightarrow> None))"

definition looseEquals :: "(int \<Rightarrow> string) \<Rightarrow> (string \<Rightarrow> int option) \<Rightarrow> json \<Rightarrow> json \<Rightarrow> field_def \<Rightarrow> bool" where
  "looseEquals dstr parse_date raw expected field =
     (case fd_type field of
        FNumber \<Rightarrow> (case expected of JNum n \<Rightarrow> num_eq (js_number dstr raw) n | _ \<Rightarrow> False)
      | FBoolean \<Rightarrow> (case expected of JBool b \<Rightarrow> strict_eq raw expected | _ \<Rightarrow> False)
      | FDate \<Rightarrow> (case (toComparable dstr parse_date raw field, toComparable dstr parse_date expected field) of
                   (Some l, Some r) \<Rightarrow> num_eq l r | _ \<Rightarrow> False)
      | FDatetime \<Rightarrow> (case (toComparable dstr parse_date raw field, toComparable dstr parse_date expected field) of
                   (Some l, Some r) \<Rightarrow> num_eq l r | _ \<Rightarrow> False)
      | _ \<Rightarrow> (case raw of JStr s \<Rightarrow> strict_eq raw expected | _ \<Rightarrow> False))"

definition predicate_value :: "field_predicate \<Rightarrow> json" where
  "predicate_value p = (case fp_value p of None \<Rightarrow> JUndef | Some v \<Rightarrow> v)"

definition evaluatePredicate ::
  "(int \<Rightarrow> string) \<Rightarrow> (string \<Rightarrow> int option) \<Rightarrow> field_predicate \<Rightarrow> field_def \<Rightarrow> fields \<Rightarrow> bool" where
  "evaluatePredicate dstr parse_date predicate field row =
     (let raw = get_field row (columnFor field); is_set = \<not> nullish raw; v = predicate_value predicate in
      case fp_op predicate of
        Op_set \<Rightarrow> is_set
      | Op_notSet \<Rightarrow> \<not> is_set
      | Op_eq \<Rightarrow> is_set \<and> looseEquals dstr parse_date raw v field
      | Op_ne \<Rightarrow> is_set \<and> \<not> looseEquals dstr parse_date raw v field
      | cmp \<Rightarrow> is_set \<and>
          (case (toComparable dstr parse_date raw field, toComparable dstr parse_date v field) of
             (Some l, Some r) \<Rightarrow>
               (case cmp of Op_gt \<Rightarrow> num_less r l | Op_gte \<Rightarrow> num_leq r l | Op_lt \<Rightarrow> num_less l r | _ \<Rightarrow> num_leq l r)
           | _ \<Rightarrow> False))"

datatype wf_error =
    Sql_identifier | Not_found | Bad_state json | Forbidden_role "string list" | Guard_failed field_predicate
  | Unknown_guard_field | Duplicate_approver | State_update_count | Tx_append_failed | Audit_append_failed
  | Database_error | Unauthenticated | Invalid_record_id

text \<open>The HTTP status of each error; errors that are not \<open>RuntimeError\<close>s are 500.\<close>

fun wf_status :: "wf_error \<Rightarrow> nat" where
  "wf_status Not_found = 404"
| "wf_status (Bad_state s) = 409"
| "wf_status (Forbidden_role rs) = 403"
| "wf_status (Guard_failed p) = 409"
| "wf_status Duplicate_approver = 409"
| "wf_status Unauthenticated = 401"
| "wf_status Invalid_record_id = 400"
| "wf_status _ = 500"

text \<open>\<open>checkGuardPredicates\<close>: the error of the first predicate that fails.\<close>

fun check_predicates ::
  "(int \<Rightarrow> string) \<Rightarrow> (string \<Rightarrow> int option) \<Rightarrow> entity_model \<Rightarrow> fields \<Rightarrow> field_predicate list \<Rightarrow> wf_error option" where
  "check_predicates dstr parse_date model row [] = None"
| "check_predicates dstr parse_date model row (p # ps) =
     (case map_of (em_fieldByName model) (fp_field p) of
        None \<Rightarrow> Some Unknown_guard_field
      | Some field \<Rightarrow>
          if evaluatePredicate dstr parse_date p field row
          then check_predicates dstr parse_date model row ps else Some (Guard_failed p))"

definition checkGuardPredicates ::
  "(int \<Rightarrow> string) \<Rightarrow> (string \<Rightarrow> int option) \<Rightarrow> transition_def \<Rightarrow> entity_model \<Rightarrow> fields \<Rightarrow> wf_error option" where
  "checkGuardPredicates dstr parse_date transition model row =
     check_predicates dstr parse_date model row (guard_require transition)"

subsection \<open>The world and one request\<close>

text \<open>An approval row: entity table, record id, transition, approver.\<close>

type_synonym approval = "string \<times> string \<times> string \<times> string"

record world = "audit_input audit_sink" +
  rows :: "string \<times> string \<Rightarrow> fields option"
  approvals :: "approval list"

record exec_input =
  ex_model :: entity_model
  ex_workflow :: workflow_def
  ex_transition :: transition_def
  ex_recordId :: string
  ex_sub :: string
  ex_roles :: "string list"

datatype outcome = Transitioned string | Pending nat nat

definition ex_table :: "exec_input \<Rightarrow> string" where
  "ex_table x = em_table (ex_model x)"

definition ex_stateColumn :: "exec_input \<Rightarrow> string" where
  "ex_stateColumn x = toSnakeCase (wf_stateField (ex_workflow x))"

definition ex_subject :: "exec_input \<Rightarrow> string" where
  "ex_subject x = ex_table x @ '':'' @ ex_recordId x"

definition ex_key :: "exec_input \<Rightarrow> string \<times> string" where
  "ex_key x = (ex_table x, ex_recordId x)"

definition user_event :: "exec_input \<Rightarrow> string \<Rightarrow> bool \<Rightarrow> fields \<Rightarrow> audit_input" where
  "user_event x event allow attributes =
     \<lparr>au_event = event, au_actor = ex_sub x, au_actorType = ''human'', au_subject = Some (ex_subject x),
      au_decision = Some (if allow then ''allow'' else ''deny''), au_attributes = JObj attributes\<rparr>"

definition decision_event :: "exec_input \<Rightarrow> string \<Rightarrow> string list \<Rightarrow> policy_decision \<Rightarrow> audit_input" where
  "decision_event x action allowedRoles d =
     user_event x ''policy.decision'' (pd_allow d)
       [(''action'', JStr action), (''allowedRoles'', str_list allowedRoles), (''policyId'', JStr (pd_policyId d)),
        (''reason'', JStr (pd_reason d)), (''workflow'', JStr (wf_name (ex_workflow x))),
        (''transition'', JStr (tr_name (ex_transition x)))]"

text \<open>\<open>decide\<close>: ask, append the decision, fail closed.\<close>

definition decide_roles ::
  "(policy_input \<Rightarrow> policy_decision) \<Rightarrow> exec_input \<Rightarrow> string \<Rightarrow> string list \<Rightarrow> world \<Rightarrow>
   (wf_error + policy_decision) \<times> world" where
  "decide_roles pdp x action allowedRoles w =
     (let d = pdp \<lparr>pi_subject_id = ex_sub x, pi_subject_roles = ex_roles x, pi_action = action,
                   pi_type = ''workflow.transition'', pi_id = Some (ex_subject x), pi_allowedRoles = allowedRoles,
                   pi_context = None\<rparr>
      in case sink_append (decision_event x action allowedRoles d) (audit_sink.truncate w) of
           (True, s) \<Rightarrow> (Inr d, w\<lparr>persisted := persisted s, outages := outages s\<rparr>)
         | (False, s) \<Rightarrow>
             (Inl Audit_append_failed,
              w\<lparr>outages := outages s, logged := logged w @ [decision_event x action allowedRoles d]\<rparr>))"

definition approval_roles :: "transition_def \<Rightarrow> string list" where
  "approval_roles t =
     (case tr_approval t of
        None \<Rightarrow> []
      | Some rule \<Rightarrow> (case ap_roles rule of Some rs \<Rightarrow> rs | None \<Rightarrow> or_empty (guard_roles t)))"

text \<open>
  The part before the transaction: peek, guard roles, guard predicates on the peeked row, and
  approval roles.  \<^term>\<open>None\<close> lets the request go on.
\<close>

definition before_transaction ::
  "(int \<Rightarrow> string) \<Rightarrow> (string \<Rightarrow> int option) \<Rightarrow> (policy_input \<Rightarrow> policy_decision) \<Rightarrow> (nat \<Rightarrow> world \<Rightarrow> world) \<Rightarrow>
   exec_input \<Rightarrow> world \<Rightarrow> wf_error option \<times> world" where
  "before_transaction dstr parse_date pdp env x w =
     (if quoteIdent (ex_table x) = None then (Some Sql_identifier, w)
      else (case rows w (ex_key x) of
        None \<Rightarrow> (Some Not_found, w)
      | Some peek \<Rightarrow>
          if \<not> strict_eq (get_field peek (ex_stateColumn x)) (JStr (tr_from (ex_transition x)))
          then (Some (Bad_state (get_field peek (ex_stateColumn x))), w)
          else
            (let guard = or_empty (guard_roles (ex_transition x)) in
             case decide_roles pdp x (''workflow.transition:'' @ tr_name (ex_transition x)) guard (env 0 w) of
               (Inl e, w1) \<Rightarrow> (Some e, w1)
             | (Inr d, w1) \<Rightarrow>
                 if \<not> pd_allow d then (Some (Forbidden_role guard), w1)
                 else (case checkGuardPredicates dstr parse_date (ex_transition x) (ex_model x) peek of
                    Some e \<Rightarrow> (Some e, w1)
                  | None \<Rightarrow>
                      if tr_approval (ex_transition x) = None then (None, w1)
                      else (case decide_roles pdp x (''workflow.approve:'' @ tr_name (ex_transition x))
                                   (approval_roles (ex_transition x)) (env 1 w1) of
                              (Inl e, w2) \<Rightarrow> (Some e, w2)
                            | (Inr d2, w2) \<Rightarrow>
                                if pd_allow d2 then (None, w2)
                                else (Some (Forbidden_role (approval_roles (ex_transition x))), w2))))))"

subsection \<open>The transaction\<close>

text \<open>\<open>setState\<close>: the update, which must hit one row, and the end of the approval round.\<close>

definition setState :: "json \<Rightarrow> exec_input \<Rightarrow> world \<Rightarrow> wf_error + world" where
  "setState now x w =
     (if quoteIdent (ex_table x) = None \<or> quoteIdent (ex_stateColumn x) = None then Inl Sql_identifier
      else (case rows w (ex_key x) of
        None \<Rightarrow> Inl State_update_count
      | Some row \<Rightarrow>
          Inr (w\<lparr>rows := (rows w)(ex_key x \<mapsto>
                   map_set ''updated_at'' now (map_set (ex_stateColumn x) (JStr (tr_to (ex_transition x))) row)),
                 approvals := filter (\<lambda>(t, r, _, _). \<not> (t = ex_table x \<and> r = ex_recordId x)) (approvals w)\<rparr>)))"

definition tx_append :: "audit_input \<Rightarrow> world \<Rightarrow> wf_error + world" where
  "tx_append e w =
     (case sink_append e (audit_sink.truncate w) of
        (True, s) \<Rightarrow> Inr (w\<lparr>persisted := persisted s, outages := outages s\<rparr>)
      | (False, s) \<Rightarrow> Inl Tx_append_failed)"

definition transition_attrs :: "exec_input \<Rightarrow> fields" where
  "transition_attrs x =
     [(''workflow'', JStr (wf_name (ex_workflow x))), (''transition'', JStr (tr_name (ex_transition x)))]"

definition from_to_attrs :: "exec_input \<Rightarrow> fields" where
  "from_to_attrs x =
     [(''from'', JStr (tr_from (ex_transition x))), (''to'', JStr (tr_to (ex_transition x)))]"

definition count_attrs :: "nat \<Rightarrow> nat \<Rightarrow> fields" where
  "count_attrs n required = [(''approvals'', JNum (num_of_int (int n))), (''required'', JNum (num_of_int (int required)))]"

text \<open>Flip the state and append \<open>workflow.transition\<close> in the same transaction.\<close>

definition flip_state :: "json \<Rightarrow> exec_input \<Rightarrow> fields \<Rightarrow> world \<Rightarrow> wf_error + (world \<times> outcome)" where
  "flip_state now x attrs w =
     (case setState now x w of
        Inl e \<Rightarrow> Inl e
      | Inr w1 \<Rightarrow>
          (case tx_append (user_event x ''workflow.transition'' True attrs) w1 of
             Inl e \<Rightarrow> Inl e
           | Inr w2 \<Rightarrow> Inr (w2, Transitioned (tr_to (ex_transition x)))))"

text \<open>\<open>COUNT(DISTINCT approver_sub)\<close> for this record and transition.\<close>

definition approvers :: "exec_input \<Rightarrow> world \<Rightarrow> string list" where
  "approvers x w =
     remdups (map (\<lambda>(_, _, _, s). s)
       (filter (\<lambda>(t, r, n, _). t = ex_table x \<and> r = ex_recordId x \<and> n = tr_name (ex_transition x)) (approvals w)))"

definition approve_or_flip :: "json \<Rightarrow> exec_input \<Rightarrow> approval_rule \<Rightarrow> world \<Rightarrow> wf_error + (world \<times> outcome)" where
  "approve_or_flip now x rule w =
     (let new = (ex_table x, ex_recordId x, tr_name (ex_transition x), ex_sub x) in
      if List.member (approvals w) new then Inl Duplicate_approver
      else
        (let w1 = w\<lparr>approvals := approvals w @ [new]\<rparr>; n = length (approvers x w1); required = ap_count rule in
         if required \<le> n
         then flip_state now x (transition_attrs x @ from_to_attrs x @ count_attrs n required) w1
         else (case tx_append (user_event x ''workflow.approval_recorded'' True (transition_attrs x @ count_attrs n required)) w1 of
                 Inl e \<Rightarrow> Inl e
               | Inr w2 \<Rightarrow> Inr (w2, Pending n required))))"

definition transition_tx ::
  "(int \<Rightarrow> string) \<Rightarrow> (string \<Rightarrow> int option) \<Rightarrow> json \<Rightarrow> exec_input \<Rightarrow> world \<Rightarrow> wf_error + (world \<times> outcome)" where
  "transition_tx dstr parse_date now x w =
     (case rows w (ex_key x) of
        None \<Rightarrow> Inl Not_found
      | Some row \<Rightarrow>
          if \<not> strict_eq (get_field row (ex_stateColumn x)) (JStr (tr_from (ex_transition x)))
          then Inl (Bad_state (get_field row (ex_stateColumn x)))
          else (case checkGuardPredicates dstr parse_date (ex_transition x) (ex_model x) row of
              Some e \<Rightarrow> Inl e
            | None \<Rightarrow>
                (case tr_approval (ex_transition x) of
                   None \<Rightarrow> flip_state now x (transition_attrs x @ from_to_attrs x) w
                 | Some rule \<Rightarrow> approve_or_flip now x rule w)))"

subsection \<open>The whole request\<close>

text \<open>The rejection event that must survive the rollback.\<close>

definition independent_events :: "exec_input \<Rightarrow> wf_error tx_error + outcome \<Rightarrow> audit_input list" where
  "independent_events x res =
     (if res = Inl (Body_failed Duplicate_approver)
      then [user_event x ''workflow.duplicate_approver'' False (transition_attrs x)] else [])"

definition flush_independent :: "audit_input list \<Rightarrow> world \<Rightarrow> bool \<times> world" where
  "flush_independent es w =
     (case appendAllOrFail es (audit_sink.truncate w) of
        (ok, s) \<Rightarrow> (ok, w\<lparr>persisted := persisted s, outages := outages s, logged := logged s\<rparr>))"

fun body_error :: "wf_error tx_error \<Rightarrow> wf_error" where
  "body_error (Body_failed e) = e"
| "body_error _ = Database_error"

definition executeTransition ::
  "(int \<Rightarrow> string) \<Rightarrow> (string \<Rightarrow> int option) \<Rightarrow> (policy_input \<Rightarrow> policy_decision) \<Rightarrow> faults \<Rightarrow> bool \<Rightarrow> json \<Rightarrow>
   (nat \<Rightarrow> world \<Rightarrow> world) \<Rightarrow> exec_input \<Rightarrow> world \<Rightarrow> (wf_error + outcome) \<times> world" where
  "executeTransition dstr parse_date pdp txf landed now env x w =
     (case before_transaction dstr parse_date pdp env x w of
        (Some e, w1) \<Rightarrow> (Inl e, w1)
      | (None, w1) \<Rightarrow>
          (case transaction txf landed (env 2 w1) (transition_tx dstr parse_date now x) of
             (w2, res, _) \<Rightarrow>
               (case flush_independent (independent_events x res) (env 3 w2) of
                  (ok, w3) \<Rightarrow>
                    (if \<not> ok then Inl Audit_append_failed
                     else (case res of Inr out \<Rightarrow> Inr out | Inl e \<Rightarrow> Inl (body_error e)), w3))))"

datatype route_reply = Send_outcome outcome | Redirect_to string nat

text \<open>The handler of \<open>POST /api/<entity>/:id/transitions/<name>\<close>.\<close>

definition transition_route ::
  "(int \<Rightarrow> string) \<Rightarrow> (string \<Rightarrow> int option) \<Rightarrow> (policy_input \<Rightarrow> policy_decision) \<Rightarrow> faults \<Rightarrow> bool \<Rightarrow> json \<Rightarrow>
   (nat \<Rightarrow> world \<Rightarrow> world) \<Rightarrow> (string \<times> string list) option \<Rightarrow> string \<Rightarrow> page_def option \<Rightarrow>
   entity_model \<Rightarrow> workflow_def \<Rightarrow> transition_def \<Rightarrow> string \<Rightarrow> world \<Rightarrow> (wf_error + route_reply) \<times> world" where
  "transition_route dstr parse_date pdp txf landed now env session contentType detailPage model workflow transition recordId w =
     (case session of
        None \<Rightarrow> (Inl Unauthenticated, w)
      | Some (sub, roles) \<Rightarrow>
          if \<not> isUuid (JStr recordId) then (Inl Invalid_record_id, w)
          else (case executeTransition dstr parse_date pdp txf landed now env
                  \<lparr>ex_model = model, ex_workflow = workflow, ex_transition = transition, ex_recordId = recordId,
                   ex_sub = sub, ex_roles = roles\<rparr> w of
              (Inl e, w') \<Rightarrow> (Inl e, w')
            | (Inr out, w') \<Rightarrow>
                (Inr (case detailPage of
                   Some p \<Rightarrow> if contains_str contentType ''application/x-www-form-urlencoded''
                             then Redirect_to (''/p/'' @ pg_name p @ ''?id='' @ recordId) 303 else Send_outcome out
                 | None \<Rightarrow> Send_outcome out), w')))"

text \<open>The routes registered for a spec: API segment, transition and the model it runs on.\<close>

definition workflow_routes :: "app_spec \<Rightarrow> (string \<times> transition_def \<times> workflow_def \<times> entity_model) list option" where
  "workflow_routes spec =
     (let one = (\<lambda>w. map_option (\<lambda>e. let model = buildEntityModel spec e in
                   map (\<lambda>t. (''/api/'' @ em_apiSegment model @ ''/:id/transitions/'' @ tr_name t, t, w, model)) (wf_transitions w))
                 (List.find (\<lambda>e. en_name e = wf_entity w) (sp_entities spec)))
      in if list_all (\<lambda>w. one w \<noteq> None) (or_empty (sp_workflows spec))
         then Some (concat (map (\<lambda>w. the (one w)) (or_empty (sp_workflows spec)))) else None)"

subsection \<open>What each part does to the world\<close>

lemma truncate_sink [simp]:
  "persisted (audit_sink.truncate (w :: world)) = persisted w" "outages (audit_sink.truncate w) = outages w"
  "logged (audit_sink.truncate w) = logged w"
  by (simp_all add: audit_sink.defs)

lemma decide_roles_world:
  assumes "decide_roles pdp x action roles w = (r, w')"
  shows "rows w' = rows w" "approvals w' = approvals w"
    and "persisted w' = persisted w \<or> (\<exists>d. persisted w' = persisted w @ [decision_event x action roles d])"
  using assms by (auto simp: decide_roles_def sink_append_def Let_def split: if_splits)

lemma decide_roles_Inr:
  assumes "decide_roles pdp x action roles w = (Inr d, w')"
  shows "persisted w' = persisted w @ [decision_event x action roles d]"
    and "d = pdp \<lparr>pi_subject_id = ex_sub x, pi_subject_roles = ex_roles x, pi_action = action,
                   pi_type = ''workflow.transition'', pi_id = Some (ex_subject x), pi_allowedRoles = roles,
                   pi_context = None\<rparr>"
  using assms by (auto simp: decide_roles_def sink_append_def Let_def split: if_splits)

lemma tx_append_Inr:
  "tx_append e w = Inr w' \<Longrightarrow> rows w' = rows w \<and> approvals w' = approvals w \<and> persisted w' = persisted w @ [e]"
  by (auto simp: tx_append_def sink_append_def Let_def split: if_splits)

lemma setState_Inr:
  assumes "setState now x w = Inr w'"
  shows "persisted w' = persisted w"
    and "approvals w' = filter (\<lambda>(t, r, _, _). \<not> (t = ex_table x \<and> r = ex_recordId x)) (approvals w)"
    and "\<exists>row. rows w (ex_key x) = Some row \<and> rows w' = (rows w)(ex_key x \<mapsto>
           map_set ''updated_at'' now (map_set (ex_stateColumn x) (JStr (tr_to (ex_transition x))) row))"
  using assms by (auto simp: setState_def split: if_splits option.splits)

lemma flip_state_Inr:
  assumes "flip_state now x attrs w = Inr (w', out)"
  shows "out = Transitioned (tr_to (ex_transition x))"
    and "persisted w' = persisted w @ [user_event x ''workflow.transition'' True attrs]"
    and "approvals w' = filter (\<lambda>(t, r, _, _). \<not> (t = ex_table x \<and> r = ex_recordId x)) (approvals w)"
    and "\<exists>row. rows w (ex_key x) = Some row \<and> rows w' = (rows w)(ex_key x \<mapsto>
           map_set ''updated_at'' now (map_set (ex_stateColumn x) (JStr (tr_to (ex_transition x))) row))"
proof -
  obtain w1 where w1: "setState now x w = Inr w1" "tx_append (user_event x ''workflow.transition'' True attrs) w1 = Inr w'"
    and out: "out = Transitioned (tr_to (ex_transition x))"
    using assms by (auto simp: flip_state_def split: sum.splits)
  show "out = Transitioned (tr_to (ex_transition x))" by (rule out)
  show "persisted w' = persisted w @ [user_event x ''workflow.transition'' True attrs]"
    "approvals w' = filter (\<lambda>(t, r, _, _). \<not> (t = ex_table x \<and> r = ex_recordId x)) (approvals w)"
    "\<exists>row. rows w (ex_key x) = Some row \<and> rows w' = (rows w)(ex_key x \<mapsto>
           map_set ''updated_at'' now (map_set (ex_stateColumn x) (JStr (tr_to (ex_transition x))) row))"
    using setState_Inr[OF w1(1)] tx_append_Inr[OF w1(2)] by auto
qed

text \<open>The two ways a transaction that commits can have gone.\<close>

lemma transition_tx_cases:
  assumes "transition_tx dstr parse_date now x w = Inr (w', out)"
  obtains
    (flip) attrs w1 where "flip_state now x (transition_attrs x @ attrs) w1 = Inr (w', out)"
      "tr_approval (ex_transition x) = None \<and> w1 = w \<or>
       (\<exists>rule. tr_approval (ex_transition x) = Some rule \<and>
          (ex_table x, ex_recordId x, tr_name (ex_transition x), ex_sub x) \<notin> set (approvals w) \<and>
          w1 = w\<lparr>approvals := approvals w @ [(ex_table x, ex_recordId x, tr_name (ex_transition x), ex_sub x)]\<rparr> \<and>
          ap_count rule \<le> length (approvers x w1))"
  | (recorded) rule attrs where "tr_approval (ex_transition x) = Some rule"
      "(ex_table x, ex_recordId x, tr_name (ex_transition x), ex_sub x) \<notin> set (approvals w)"
      "approvals w' = approvals w @ [(ex_table x, ex_recordId x, tr_name (ex_transition x), ex_sub x)]"
      "persisted w' = persisted w @ [user_event x ''workflow.approval_recorded'' True (transition_attrs x @ attrs)]"
      "rows w' = rows w" "out = Pending (length (approvers x w')) (ap_count rule)"
      "length (approvers x w') < ap_count rule"
proof -
  obtain row where row: "rows w (ex_key x) = Some row"
    and rest: "(case tr_approval (ex_transition x) of
                   None \<Rightarrow> flip_state now x (transition_attrs x @ from_to_attrs x) w
                 | Some rule \<Rightarrow> approve_or_flip now x rule w) = Inr (w', out)"
    using assms by (auto simp: transition_tx_def split: option.splits if_splits)
  show thesis
  proof (cases "tr_approval (ex_transition x)")
    case None
    then show thesis using rest flip[of "from_to_attrs x" w] by simp
  next
    case (Some rule)
    let ?new = "(ex_table x, ex_recordId x, tr_name (ex_transition x), ex_sub x)"
    let ?w1 = "w\<lparr>approvals := approvals w @ [?new]\<rparr>"
    have new: "?new \<notin> set (approvals w)" using rest Some by (auto simp: approve_or_flip_def Let_def split: if_splits)
    show thesis
    proof (cases "ap_count rule \<le> length (approvers x ?w1)")
      case True
      then have "flip_state now x (transition_attrs x @ (from_to_attrs x @ count_attrs (length (approvers x ?w1)) (ap_count rule))) ?w1
          = Inr (w', out)"
        using rest Some new by (simp add: approve_or_flip_def Let_def)
      then show thesis using flip True Some new by blast
    next
      case False
      then obtain w2 where ap: "tx_append (user_event x ''workflow.approval_recorded'' True
            (transition_attrs x @ count_attrs (length (approvers x ?w1)) (ap_count rule))) ?w1 = Inr w2"
        and w2: "w' = w2" "out = Pending (length (approvers x ?w1)) (ap_count rule)"
        using rest Some new by (auto simp: approve_or_flip_def Let_def split: sum.splits)
      have same: "approvers x w' = approvers x ?w1" using tx_append_Inr[OF ap] w2(1) by (simp add: approvers_def)
      show thesis
        by (rule recorded[OF Some new, of "count_attrs (length (approvers x ?w1)) (ap_count rule)"])
          (use tx_append_Inr[OF ap] w2 same False in simp_all)
    qed
  qed
qed

end
