(* ===== verification/Workflow_Props.thy ===== *)
theory Workflow_Props
  imports Workflow
begin

text \<open>
  What workflow enforcement guarantees: authorization of every effect, atomicity of failures,
  and the n-eyes rule under arbitrary interleaving of requests, read off the audit log.
\<close>

subsection \<open>Authorization\<close>

lemma before_transaction_None:
  assumes "before_transaction dstr parse_date pdp env x w = (None, w')"
  shows "\<exists>w0 w1 d. decide_roles pdp x (''workflow.transition:'' @ tr_name (ex_transition x)) (or_empty (guard_roles (ex_transition x))) w0
      = (Inr d, w1) \<and> pd_allow d \<and>
      (tr_approval (ex_transition x) \<noteq> None \<longrightarrow>
        (\<exists>d2. decide_roles pdp x (''workflow.approve:'' @ tr_name (ex_transition x)) (approval_roles (ex_transition x)) (env 1 w1)
          = (Inr d2, w') \<and> pd_allow d2))"
  using assms
  by (auto simp: before_transaction_def Let_def split: if_splits option.splits prod.splits sum.splits)

definition may :: "exec_input \<Rightarrow> string list \<Rightarrow> bool" where
  "may x allowed \<longleftrightarrow> (if allowed = [] then ex_sub x \<noteq> [] else (\<exists>r \<in> set (ex_roles x). r \<in> set allowed))"

context decision_point begin

lemma decide_roles_entitled:
  assumes "decide_roles dec x action allowed w = (Inr d, w')" "pd_allow d"
  shows "may x allowed"
proof -
  have "entitled \<lparr>pi_subject_id = ex_sub x, pi_subject_roles = ex_roles x, pi_action = action,
      pi_type = ''workflow.transition'', pi_id = Some (ex_subject x), pi_allowedRoles = allowed, pi_context = None\<rparr>"
    using assms(2) unfolding decide_roles_Inr(2)[OF assms(1)] by (rule sound)
  then show ?thesis by (simp add: entitled_def may_def split: if_splits)
qed

end

lemma executeTransition_Inr:
  assumes "executeTransition dstr parse_date pdp txf landed now env x w = (Inr out, w')"
  shows "\<exists>w1 v w2. before_transaction dstr parse_date pdp env x w = (None, w1) \<and> v = env 2 w1 \<and>
     transition_tx dstr parse_date now x v = Inr (w2, out)"
proof -
  obtain w1 where before: "before_transaction dstr parse_date pdp env x w = (None, w1)"
    using assms by (auto simp: executeTransition_def split: prod.splits option.splits)
  obtain w2 res evs where tx: "transaction txf landed (env 2 w1) (transition_tx dstr parse_date now x) = (w2, res, evs)"
    by (metis prod_cases3)
  have "res = Inr out"
    using assms before tx by (auto simp: executeTransition_def split: prod.splits sum.splits if_splits)
  then have "transition_tx dstr parse_date now x (env 2 w1) = Inr (w2, out)"
    using transaction_ok[of txf landed "env 2 w1" "transition_tx dstr parse_date now x" out] tx by simp
  with before show ?thesis by blast
qed

lemma transition_tx_checked:
  "transition_tx dstr parse_date now x v = Inr r \<Longrightarrow>
   \<exists>row. rows v (ex_key x) = Some row \<and> get_field row (ex_stateColumn x) = JStr (tr_from (ex_transition x)) \<and>
     checkGuardPredicates dstr parse_date (ex_transition x) (ex_model x) row = None"
proof -
  assume ok: "transition_tx dstr parse_date now x v = Inr r"
  have eq: "strict_eq a (JStr s) \<longleftrightarrow> a = JStr s" for a s by (cases a) auto
  show ?thesis using ok by (auto simp: transition_tx_def eq split: option.splits if_splits)
qed


subsection \<open>Failures leave nothing behind\<close>

definition no_interference :: "nat \<Rightarrow> world \<Rightarrow> world" where
  "no_interference i w = w"

lemma before_transaction_world:
  assumes "before_transaction dstr parse_date pdp no_interference x w = (r, w')"
  shows "rows w' = rows w \<and> approvals w' = approvals w \<and>
    (\<exists>es. persisted w' = persisted w @ es \<and> (\<forall>e \<in> set es. au_event e = ''policy.decision''))"
proof -
  have step: "rows v' = rows v \<and> approvals v' = approvals v \<and>
      (\<exists>es. persisted v' = persisted v @ es \<and> (\<forall>e \<in> set es. au_event e = ''policy.decision''))"
    if "decide_roles pdp x a rs v = (q, v')" for a rs v q v'
    using decide_roles_world[OF that] by (auto simp: decision_event_def user_event_def)
  have two: "rows v2 = rows v \<and> approvals v2 = approvals v \<and>
      (\<exists>es. persisted v2 = persisted v @ es \<and> (\<forall>e \<in> set es. au_event e = ''policy.decision''))"
    if "decide_roles pdp x a rs v = (q, v1)" "decide_roles pdp x a' rs' v1 = (q', v2)" for a rs v q v1 a' rs' q' v2
    using step[OF that(1)] step[OF that(2)] by force
  show ?thesis
    using assms
    by (auto simp: before_transaction_def Let_def no_interference_def split: if_splits option.splits prod.splits sum.splits
        dest: step two intro: exI[of _ "[]"])
qed

lemma appendAllOrFail_events:
  "appendAllOrFail es s = (ok, s') \<Longrightarrow> \<exists>okay. persisted s' = persisted s @ okay \<and> set okay \<subseteq> set es"
proof -
  assume run: "appendAllOrFail es s = (ok, s')"
  obtain okay bad where "persisted s' = persisted s @ okay" "es \<in> shuffles okay bad"
    using batch_append_loses_no_event_aux[where es = es and s = s] run by auto
  then show ?thesis by (auto dest: set_shuffles)
qed

lemma flush_world:
  assumes "flush_independent es w = (ok, w')"
  shows "rows w' = rows w \<and> approvals w' = approvals w \<and> (\<exists>okay. persisted w' = persisted w @ okay \<and> set okay \<subseteq> set es)"
  using assms appendAllOrFail_events by (fastforce simp: flush_independent_def split: prod.splits)

lemma executeTransition_Inl:
  assumes "executeTransition dstr parse_date pdp txf False now no_interference x w = (Inl e, w')"
  shows "rows w' = rows w \<and> approvals w' = approvals w \<and>
    (\<exists>es. persisted w' = persisted w @ es \<and>
      (\<forall>ev \<in> set es. au_event ev = ''policy.decision'' \<or> au_event ev = ''workflow.duplicate_approver''))"
proof -
  obtain r w1 where before: "before_transaction dstr parse_date pdp no_interference x w = (r, w1)" by force
  from before_transaction_world[OF before] obtain es where
    w1: "rows w1 = rows w" "approvals w1 = approvals w" "persisted w1 = persisted w @ es"
      "\<forall>e \<in> set es. au_event e = ''policy.decision''" by blast
  show ?thesis
  proof (cases r)
    case (Some e')
    then have "w' = w1" using assms before by (simp add: executeTransition_def)
    then show ?thesis using w1 by auto
  next
    case None
    obtain w2 res evs where tx: "transaction txf False w1 (transition_tx dstr parse_date now x) = (w2, res, evs)"
      by (metis prod_cases3)
    obtain ok w3 where fl: "flush_independent (independent_events x res) w2 = (ok, w3)" by force
    have w': "w' = w3" and fail: "\<not> ok \<or> (\<exists>e. res = Inl e)"
      using assms before None tx fl by (auto simp: executeTransition_def no_interference_def split: sum.splits if_splits)
    have "\<exists>e. res = Inl e"
    proof (cases res)
      case (Inr out)
      then have "ok" using fl by (simp add: independent_events_def flush_independent_def appendAllOrFail_def)
      then show ?thesis using fail by simp
    qed simp
    then have "w2 = w1" using transaction_error[of txf False w1 "transition_tx dstr parse_date now x"] tx by auto
    moreover have "\<forall>ev \<in> set (independent_events x res). au_event ev = ''workflow.duplicate_approver''"
      by (auto simp: independent_events_def user_event_def)
    ultimately show ?thesis using flush_world[OF fl] w1 unfolding w' by fastforce
  qed
qed

text \<open>
  A refused or failed request changes no record and no approval: when \<open>executeTransition\<close>
  ends in an error (a refusal, a database failure, an audit failure), every row and every approval is as
  it was, and the only events it added to the log are policy decisions and the rejection of a duplicate
  approver.
\<close>

theorem failed_transition_changes_nothing:
  "executeTransition dstr parse_date pdp txf False now no_interference x w = (Inl e, w') \<Longrightarrow>
   rows w' = rows w \<and> approvals w' = approvals w \<and>
   (\<exists>es. persisted w' = persisted w @ es \<and>
      list_all (\<lambda>ev. au_event ev = ''policy.decision'' \<or> au_event ev = ''workflow.duplicate_approver'') es)"
  using executeTransition_Inl[of dstr parse_date pdp txf now x w e w'] by (auto simp: list_all_iff)

subsection \<open>The n-eyes rule\<close>

definition ev_transition :: "audit_input \<Rightarrow> json" where
  "ev_transition e = js_prop (au_attributes e) ''transition''"

text \<open>The events since the record last changed state, newest first.\<close>

definition flips :: "string \<Rightarrow> audit_input \<Rightarrow> bool" where
  "flips s e \<longleftrightarrow> au_event e = ''workflow.transition'' \<and> au_subject e = Some s"

definition current_round :: "string \<Rightarrow> audit_input list \<Rightarrow> audit_input list" where
  "current_round s log = takeWhile (\<lambda>e. \<not> flips s e) (rev log)"

definition recorded :: "string \<Rightarrow> string \<Rightarrow> audit_input list \<Rightarrow> string set" where
  "recorded s t log =
     au_actor ` {e \<in> set (current_round s log).
       au_event e = ''workflow.approval_recorded'' \<and> au_subject e = Some s \<and> ev_transition e = JStr t}"

text \<open>
  The rule on a log: each state change by a transition that needs \<open>n\<close> approvals was preceded, since the record
  last changed state, by recorded approvals of that transition which together with the final approver
  come from at least \<open>n\<close> different users.
\<close>

definition n_eyes_at :: "(string \<Rightarrow> string \<Rightarrow> nat option) \<Rightarrow> audit_input list \<Rightarrow> audit_input \<Rightarrow> bool" where
  "n_eyes_at req pre e \<longleftrightarrow>
     (\<forall>s t n. flips s e \<and> ev_transition e = JStr t \<and> req s t = Some n \<longrightarrow> n \<le> card (insert (au_actor e) (recorded s t pre)))"

definition n_eyes_log :: "(string \<Rightarrow> string \<Rightarrow> nat option) \<Rightarrow> audit_input list \<Rightarrow> bool" where
  "n_eyes_log req log \<longleftrightarrow> (\<forall>i < length log. n_eyes_at req (take i log) (log ! i))"

lemma n_eyes_snoc: "n_eyes_log req (log @ [e]) \<longleftrightarrow> n_eyes_log req log \<and> n_eyes_at req log e"
  by (auto simp: n_eyes_log_def less_Suc_eq nth_append)

lemma recorded_snoc:
  "recorded s t (log @ [e]) =
     (if flips s e then {}
      else if au_event e = ''workflow.approval_recorded'' \<and> au_subject e = Some s \<and> ev_transition e = JStr t
        then insert (au_actor e) (recorded s t log) else recorded s t log)"
  by (auto simp: recorded_def current_round_def)

lemma finite_recorded [simp]: "finite (recorded s t log)"
  by (simp add: recorded_def)

text \<open>
  The invariant: the approvals table holds exactly the approvals of each record's current round,
  as the log tells it, and the log obeys the rule.
\<close>

definition subject_of :: "string \<Rightarrow> string \<Rightarrow> string" where
  "subject_of table i = table @ '':'' @ i"

definition n_eyes_inv :: "(string \<Rightarrow> string \<Rightarrow> nat option) \<Rightarrow> world \<Rightarrow> bool" where
  "n_eyes_inv req w \<longleftrightarrow>
     n_eyes_log req (persisted w) \<and>
     (\<forall>t r n s. CHR '':'' \<notin> set t \<longrightarrow>
        (t, r, n, s) \<in> set (approvals w) \<longleftrightarrow> s \<in> recorded (subject_of t r) n (persisted w)) \<and>
     (\<forall>(t, r, n, s) \<in> set (approvals w). CHR '':'' \<notin> set t)"

text \<open>A request on one of the app's routes: the rule is the one its transition declares.\<close>

definition on_route :: "(string \<Rightarrow> string \<Rightarrow> nat option) \<Rightarrow> exec_input \<Rightarrow> bool" where
  "on_route req x \<longleftrightarrow>
     CHR '':'' \<notin> set (ex_table x) \<and>
     req (ex_subject x) (tr_name (ex_transition x)) = map_option ap_count (tr_approval (ex_transition x))"

lemma subject_inj:
  "CHR '':'' \<notin> set t \<Longrightarrow> CHR '':'' \<notin> set t' \<Longrightarrow> subject_of t r = subject_of t' r' \<longleftrightarrow> t = t' \<and> r = r'"
  by (auto simp: subject_of_def append_eq_append_conv2 Cons_eq_append_conv append_eq_Cons_conv)

lemma ex_subject_of: "ex_subject x = subject_of (ex_table x) (ex_recordId x)"
  by (simp add: ex_subject_def subject_of_def)

lemma user_event_fields [simp]:
  "au_event (user_event x ev al attrs) = ev" "au_actor (user_event x ev al attrs) = ex_sub x"
  "au_subject (user_event x ev al attrs) = Some (ex_subject x)" "au_attributes (user_event x ev al attrs) = JObj attrs"
  by (simp_all add: user_event_def)

lemma ev_transition_user [simp]:
  "ev_transition (user_event x ev al (transition_attrs x @ attrs)) = JStr (tr_name (ex_transition x))"
  by (simp add: ev_transition_def transition_attrs_def get_field_def)

lemma n_eyes_cong:
  "approvals w' = approvals w \<Longrightarrow> persisted w' = persisted w \<Longrightarrow> n_eyes_inv req w \<Longrightarrow> n_eyes_inv req w'"
  unfolding n_eyes_inv_def by (elim conjE, intro conjI) (simp_all only:)

lemma n_eyes_other_event:
  assumes inv: "n_eyes_inv req w" and "approvals w' = approvals w" "persisted w' = persisted w @ [e]"
    and "au_event e \<noteq> ''workflow.transition''" "au_event e \<noteq> ''workflow.approval_recorded''"
  shows "n_eyes_inv req w'"
proof -
  have "\<not> flips s e" for s using assms(4) by (simp add: flips_def)
  then show ?thesis using inv assms(2-5)
    by (simp add: n_eyes_inv_def n_eyes_snoc n_eyes_at_def recorded_snoc)
qed

lemma n_eyes_other_events:
  assumes "\<forall>e \<in> set es. au_event e \<noteq> ''workflow.transition'' \<and> au_event e \<noteq> ''workflow.approval_recorded''"
  shows "n_eyes_inv req w \<Longrightarrow> approvals w' = approvals w \<Longrightarrow> persisted w' = persisted w @ es \<Longrightarrow> n_eyes_inv req w'"
  using assms
proof (induction es arbitrary: w' rule: rev_induct)
  case Nil
  then show ?case by (simp add: n_eyes_inv_def)
next
  case (snoc e es)
  have "n_eyes_inv req (w'\<lparr>persisted := persisted w @ es\<rparr>)"
    by (rule snoc.IH) (use snoc.prems in simp_all)
  then show ?case by (rule n_eyes_other_event[where e = e]) (use snoc.prems in simp_all)
qed

lemma n_eyes_flip:
  assumes inv: "n_eyes_inv req w" and route: "on_route req x"
    and enough: "\<forall>n. map_option ap_count (tr_approval (ex_transition x)) = Some n \<longrightarrow>
      n \<le> card (insert (ex_sub x) (recorded (ex_subject x) (tr_name (ex_transition x)) (persisted w)))"
    and log: "persisted w' = persisted w @ [user_event x ''workflow.transition'' True (transition_attrs x @ attrs)]"
    and app: "approvals w' = filter (\<lambda>(t, r, _, _). \<not> (t = ex_table x \<and> r = ex_recordId x)) as"
    and as: "\<And>t r n s. (t, r, n, s) \<in> set as \<Longrightarrow> (t, r) \<noteq> (ex_table x, ex_recordId x) \<Longrightarrow> (t, r, n, s) \<in> set (approvals w)"
      "set (approvals w) \<subseteq> set as"
  shows "n_eyes_inv req w'"
proof -
  let ?e = "user_event x ''workflow.transition'' True (transition_attrs x @ attrs)"
  have colon: "CHR '':'' \<notin> set (ex_table x)" using route by (simp add: on_route_def)
  have fl: "flips s ?e \<longleftrightarrow> s = ex_subject x" for s by (auto simp: flips_def)
  have here: "n_eyes_at req (persisted w) ?e"
    using enough route by (auto simp: n_eyes_at_def fl on_route_def)
  have tab: "(t, r, n, s) \<in> set (approvals w') \<longleftrightarrow> (t, r, n, s) \<in> set (approvals w) \<and> (t, r) \<noteq> (ex_table x, ex_recordId x)" for t r n s
    unfolding app using as by auto
  have "(t, r, n, s) \<in> set (approvals w') \<longleftrightarrow> s \<in> recorded (subject_of t r) n (persisted w')" if "CHR '':'' \<notin> set t" for t r n s
    using inv that subject_inj[OF that colon] by (auto simp: tab log recorded_snoc fl n_eyes_inv_def ex_subject_of)
  moreover have "\<forall>(t, r, n, s) \<in> set (approvals w'). CHR '':'' \<notin> set t"
    using inv by (auto simp: tab n_eyes_inv_def)
  ultimately show ?thesis using inv here by (simp add: n_eyes_inv_def log n_eyes_snoc)
qed

lemma approvers_set:
  "set (approvers x w) = {s. (ex_table x, ex_recordId x, tr_name (ex_transition x), s) \<in> set (approvals w)}"
  by (force simp: approvers_def)

lemma approvers_card:
  "length (approvers x w) = card {s. (ex_table x, ex_recordId x, tr_name (ex_transition x), s) \<in> set (approvals w)}"
  unfolding approvers_set[symmetric] by (rule distinct_card[symmetric]) (simp add: approvers_def)

lemma n_eyes_tx:
  assumes inv: "n_eyes_inv req w" and route: "on_route req x" and tx: "transition_tx dstr parse_date now x w = Inr (w', out)"
  shows "n_eyes_inv req w'"
proof -
  have colon: "CHR '':'' \<notin> set (ex_table x)" using route by (simp add: on_route_def)
  let ?t = "tr_name (ex_transition x)"
  have app: "(ex_table x, ex_recordId x, ?t, s) \<in> set (approvals w) \<longleftrightarrow> s \<in> recorded (ex_subject x) ?t (persisted w)" for s
    using inv colon by (simp add: n_eyes_inv_def ex_subject_of)
  from tx show ?thesis
  proof (cases rule: transition_tx_cases)
    case (flip attrs w1)
    have logged: "persisted w1 = persisted w" "set (approvals w) \<subseteq> set (approvals w1)"
      "\<And>t r n s. (t, r, n, s) \<in> set (approvals w1) \<Longrightarrow> (t, r) \<noteq> (ex_table x, ex_recordId x) \<Longrightarrow> (t, r, n, s) \<in> set (approvals w)"
      using flip(2) by auto
    have "n \<le> card (insert (ex_sub x) (recorded (ex_subject x) ?t (persisted w)))"
      if n: "map_option ap_count (tr_approval (ex_transition x)) = Some n" for n
    proof -
      have "n \<le> length (approvers x w1)" and w1: "approvals w1 = approvals w @ [(ex_table x, ex_recordId x, ?t, ex_sub x)]"
        using flip(2) n by auto
      moreover have "{s. (ex_table x, ex_recordId x, ?t, s) \<in> set (approvals w1)} = insert (ex_sub x) (recorded (ex_subject x) ?t (persisted w))"
        using w1 app by auto
      ultimately show ?thesis by (simp add: approvers_card)
    qed
    then show ?thesis
      using n_eyes_flip[OF inv route _ _ flip_state_Inr(3)[OF flip(1)], of attrs] flip_state_Inr(2)[OF flip(1)] logged
      by simp
  next
    case (recorded rule attrs)
    let ?e = "user_event x ''workflow.approval_recorded'' True (transition_attrs x @ attrs)"
    have fl: "\<not> flips s ?e" for s by (simp add: flips_def)
    have "(t, r, n, s) \<in> set (approvals w') \<longleftrightarrow> s \<in> recorded (subject_of t r) n (persisted w')" if "CHR '':'' \<notin> set t" for t r n s
      using inv that subject_inj[OF that colon, of r "ex_recordId x"]
      by (auto simp: recorded(3,4) recorded_snoc fl n_eyes_inv_def ex_subject_of)
    moreover have "\<forall>(t, r, n, s) \<in> set (approvals w'). CHR '':'' \<notin> set t"
      using inv colon by (auto simp: recorded(3) n_eyes_inv_def)
    moreover have "n_eyes_at req (persisted w) ?e" by (simp add: n_eyes_at_def fl)
    ultimately show ?thesis using inv by (simp add: n_eyes_inv_def recorded(4) n_eyes_snoc)
  qed
qed

subsection \<open>Any interleaving\<close>

text \<open>
  The atomic steps of the running system that touch what the rule is about: a committed
  transition transaction of a request on one of the app's routes; the append of any other event
  (policy decisions, rejections, logins, agent records); and any change to rows (create, update),
  to the fault plan or to the log lines.
\<close>

inductive wf_step :: "(string \<Rightarrow> string \<Rightarrow> nat option) \<Rightarrow> world \<Rightarrow> world \<Rightarrow> bool"
  for req :: "string \<Rightarrow> string \<Rightarrow> nat option" where
  fire: "on_route req x \<Longrightarrow> transition_tx dstr parse_date now x w = Inr (w', out) \<Longrightarrow> wf_step req w w'"
| other_event: "au_event e \<noteq> ''workflow.transition'' \<Longrightarrow> au_event e \<noteq> ''workflow.approval_recorded'' \<Longrightarrow>
     wf_step req w (w\<lparr>persisted := persisted w @ [e]\<rparr>)"
| data_change: "wf_step req w (w\<lparr>rows := rs, outages := os, logged := ls\<rparr>)"

inductive wf_reachable :: "(string \<Rightarrow> string \<Rightarrow> nat option) \<Rightarrow> world \<Rightarrow> bool"
  for req :: "string \<Rightarrow> string \<Rightarrow> nat option" where
  start: "persisted w = [] \<Longrightarrow> approvals w = [] \<Longrightarrow> wf_reachable req w"
| step: "wf_reachable req w \<Longrightarrow> wf_step req w w' \<Longrightarrow> wf_reachable req w'"

lemma wf_step_inv: "wf_step req w w' \<Longrightarrow> n_eyes_inv req w \<Longrightarrow> n_eyes_inv req w'"
proof (induction rule: wf_step.induct)
  case (fire x dstr parse_date now w w' out)
  then show ?case by (blast intro: n_eyes_tx)
next
  case (other_event e w)
  show ?case by (rule n_eyes_other_event[OF other_event(3), where e = e]) (use other_event(1,2) in simp_all)
next
  case (data_change w rs os ls)
  show ?case by (rule n_eyes_cong[OF _ _ data_change]) simp_all
qed

lemma wf_reachable_inv: "wf_reachable req w \<Longrightarrow> n_eyes_inv req w"
proof (induction rule: wf_reachable.induct)
  case (start w)
  then show ?case by (simp add: n_eyes_inv_def n_eyes_log_def recorded_def current_round_def)
next
  case (step w w')
  then show ?case by (blast intro: wf_step_inv)
qed


definition demo_transition :: transition_def where
  "demo_transition = \<lparr>tr_name = ''approve'', tr_from = ''draft'', tr_to = ''approved'', tr_guard = None,
     tr_approval = Some \<lparr>ap_count = 2, ap_roles = None\<rparr>\<rparr>"

definition demo_exec :: "string \<Rightarrow> exec_input" where
  "demo_exec sub = \<lparr>ex_model = demo_model,
     ex_workflow = \<lparr>wf_name = ''review'', wf_entity = ''Vendor'', wf_stateField = ''status'', wf_initial = ''draft'',
        wf_transitions = [demo_transition]\<rparr>,
     ex_transition = demo_transition, ex_recordId = ''1'', ex_sub = sub, ex_roles = []\<rparr>"

definition demo_req :: "string \<Rightarrow> string \<Rightarrow> nat option" where
  "demo_req s t = (if t = ''approve'' then Some 2 else None)"

definition demo_world :: world where
  "demo_world = \<lparr>persisted = [], outages = [], logged = [],
     rows = (\<lambda>k. if k = (''vendor'', ''1'') then Some [(''status'', JStr ''draft'')] else None), approvals = []\<rparr>"

lemma demo_on_route: "on_route demo_req (demo_exec s)"
  by (simp add: on_route_def demo_exec_def demo_req_def demo_transition_def ex_table_def demo_model_def)

lemma demo_exec_simps [simp]:
  "ex_table (demo_exec s) = ''vendor''" "ex_recordId (demo_exec s) = ''1''" "ex_transition (demo_exec s) = demo_transition"
  "ex_sub (demo_exec s) = s" "ex_key (demo_exec s) = (''vendor'', ''1'')"
  by (simp_all add: demo_exec_def ex_table_def ex_key_def demo_model_def)

lemma demo_column [simp]: "ex_stateColumn (demo_exec s) = ''status''"
proof -
  have "toSnakeCase ''status'' = ''status''" by code_simp
  then show ?thesis by (simp add: demo_exec_def ex_stateColumn_def)
qed

lemma demo_quote [simp]: "quoteIdent ''vendor'' \<noteq> None" "quoteIdent ''status'' \<noteq> None"
  by code_simp+

lemma demo_first_approval:
  "\<exists>w'. transition_tx dstr pd JNull (demo_exec ''alice'') demo_world = Inr (w', Pending 1 2) \<and>
     rows w' = rows demo_world \<and> outages w' = [] \<and> approvals w' = [(''vendor'', ''1'', ''approve'', ''alice'')]"
  by (simp add: transition_tx_def demo_world_def checkGuardPredicates_def guard_require_def demo_transition_def get_field_def
      approve_or_flip_def approvers_def tx_append_def sink_append_def Let_def audit_sink.defs)

lemma demo_second_approval:
  assumes "rows w = rows demo_world" "outages w = []" "approvals w = [(''vendor'', ''1'', ''approve'', ''alice'')]"
  shows "\<exists>w'. transition_tx dstr pd JNull (demo_exec ''bob'') w = Inr (w', Transitioned ''approved'') \<and>
     persisted w' \<noteq> [] \<and> flips (ex_subject (demo_exec ''bob'')) (last (persisted w'))"
  using assms demo_quote
  by (auto simp: transition_tx_def demo_world_def checkGuardPredicates_def guard_require_def demo_transition_def get_field_def
      approve_or_flip_def approvers_def tx_append_def sink_append_def Let_def audit_sink.defs flip_state_def setState_def flips_def)


lemma before_transaction_shape:
  assumes "before_transaction dstr parse_date pdp env x w = (r, w')"
  shows "w' = w \<or> (\<exists>a rs q. decide_roles pdp x a rs (env 0 w) = (q, w')) \<or>
    (\<exists>a rs q v1 a' rs' q'. decide_roles pdp x a rs (env 0 w) = (q, v1) \<and> decide_roles pdp x a' rs' (env 1 v1) = (q', w'))"
proof (cases "rows w (ex_key x)")
  case (Some peek)
  obtain q v1 where d1: "decide_roles pdp x (''workflow.transition:'' @ tr_name (ex_transition x))
      (or_empty (guard_roles (ex_transition x))) (env 0 w) = (q, v1)" by force
  obtain q' v2 where d2: "decide_roles pdp x (''workflow.approve:'' @ tr_name (ex_transition x))
      (approval_roles (ex_transition x)) (env 1 v1) = (q', v2)" by force
  have "w' = w \<or> w' = v1 \<or> w' = v2"
    using assms d1 d2 Some
    by (simp add: before_transaction_def Let_def split: if_splits option.splits sum.splits)
  then show ?thesis using d1 d2 by blast
qed (use assms in \<open>auto simp: before_transaction_def split: if_splits\<close>)

lemma before_transaction_inv:
  assumes env: "\<And>i v. n_eyes_inv req v \<Longrightarrow> n_eyes_inv req (env i v)" and inv: "n_eyes_inv req w"
    and run: "before_transaction dstr parse_date pdp env x w = (r, w')"
  shows "n_eyes_inv req w'"
proof -
  have dec: "n_eyes_inv req v'" if hv: "n_eyes_inv req v" and hr: "decide_roles pdp x a rs v = (q, v')" for v v' a rs q
  proof -
    show ?thesis
    proof (cases "persisted v' = persisted v")
      case True
      then show ?thesis using hv decide_roles_world(2)[OF hr] by (intro n_eyes_cong[OF _ _ hv])
    next
      case False
      then obtain d where "persisted v' = persisted v @ [decision_event x a rs d]"
        using decide_roles_world(3)[OF hr] by auto
      then show ?thesis
        by (rule n_eyes_other_event[OF hv decide_roles_world(2)[OF hr]]) (simp_all add: decision_event_def)
    qed
  qed
  show ?thesis
    using before_transaction_shape[OF run] inv dec[OF env[OF inv]] dec[OF env[OF dec[OF env[OF inv]]]] by auto
qed

text \<open>
  A request preserves the rule whatever happens around it.  Run \<open>executeTransition\<close> on any of
  the app's routes, with any decision point, any database or audit failure (a COMMIT that fails
  after reaching the server included) and any interference of other requests that itself
  preserves the invariant: the approvals table still holds exactly the approvals of each
  record's current round as logged, and the log still obeys the n-eyes rule.
\<close>

theorem request_preserves_n_eyes:
  "n_eyes_inv req w \<Longrightarrow> on_route req x \<Longrightarrow> (\<And>i v. n_eyes_inv req v \<Longrightarrow> n_eyes_inv req (env i v)) \<Longrightarrow>
   n_eyes_inv req (snd (executeTransition dstr parse_date pdp txf landed now env x w))"
proof -
  assume inv: "n_eyes_inv req w" and route: "on_route req x"
    and env: "\<And>i v. n_eyes_inv req v \<Longrightarrow> n_eyes_inv req (env i v)"
  obtain r w1 where before: "before_transaction dstr parse_date pdp env x w = (r, w1)" by force
  have i1: "n_eyes_inv req w1" by (rule before_transaction_inv[OF env inv before])
  obtain w2 res evs where tx: "transaction txf landed (env 2 w1) (transition_tx dstr parse_date now x) = (w2, res, evs)"
    by (metis prod_cases3)
  have "w2 = env 2 w1 \<or> (\<exists>a. transition_tx dstr parse_date now x (env 2 w1) = Inr (w2, a))"
    using transaction_state[of txf landed "env 2 w1" "transition_tx dstr parse_date now x"] tx by simp
  then have i2: "n_eyes_inv req w2" using env[OF i1] n_eyes_tx[OF env[OF i1] route] by auto
  obtain ok w3 where fl: "flush_independent (independent_events x res) (env 3 w2) = (ok, w3)" by force
  obtain es where es: "approvals w3 = approvals (env 3 w2)" "persisted w3 = persisted (env 3 w2) @ es"
    "set es \<subseteq> set (independent_events x res)" using flush_world[OF fl] by blast
  have "n_eyes_inv req w3"
    by (rule n_eyes_other_events[OF _ env[OF i2] es(1,2)]) (use es(3) in \<open>auto simp: independent_events_def split: if_splits\<close>)
  then show ?thesis using i1 before tx fl
    by (cases r) (auto simp: executeTransition_def split: sum.splits)
qed

theorem request_preserves_n_eyes_witness:
  "n_eyes_inv demo_req (snd (executeTransition (\<lambda>_. []) (\<lambda>_. None) (decide (authz_evaluate (\<lambda>_. []))) no_faults False JNull
     no_interference (demo_exec ''alice'') demo_world))"
  by (rule request_preserves_n_eyes[OF wf_reachable_inv demo_on_route])
    (simp_all add: wf_reachable.start demo_world_def no_interference_def)

subsection \<open>Witnesses on the example app\<close>

lemma demo_decide:
  "\<exists>d w'. decide_roles (decide (authz_evaluate (\<lambda>_. []))) (demo_exec s) a [] w = (Inr d, w') \<and> (pd_allow d \<longleftrightarrow> s \<noteq> []) \<and>
     rows w' = rows w \<and> approvals w' = approvals w \<and> outages w' = []" if "outages w = []"
  using that by (simp add: decide_roles_def sink_append_def Let_def authz_decide entitled_def)

lemma demo_before:
  "\<exists>w'. before_transaction (\<lambda>_. []) (\<lambda>_. None) (decide (authz_evaluate (\<lambda>_. []))) no_interference (demo_exec s) demo_world =
     (if s = [] then Some (Forbidden_role []) else None, w') \<and>
     rows w' = rows demo_world \<and> approvals w' = approvals demo_world \<and> outages w' = []"
proof -
  let ?pdp = "decide (authz_evaluate (\<lambda>_. []))"
  have roles: "guard_roles demo_transition = None" "approval_roles demo_transition = []" "guard_require demo_transition = []"
    by (simp_all add: demo_transition_def guard_roles_def approval_roles_def guard_require_def)
  have o0: "outages demo_world = []" by (simp add: demo_world_def)
  obtain d w1 where d: "decide_roles ?pdp (demo_exec s) (''workflow.transition:'' @ tr_name demo_transition) [] demo_world = (Inr d, w1)"
    "pd_allow d \<longleftrightarrow> s \<noteq> []" "rows w1 = rows demo_world" "approvals w1 = approvals demo_world" "outages w1 = []"
    using demo_decide[OF o0] by blast
  obtain d' w2 where d': "decide_roles ?pdp (demo_exec s) (''workflow.approve:'' @ tr_name demo_transition) [] w1 = (Inr d', w2)"
    "pd_allow d' \<longleftrightarrow> s \<noteq> []" "rows w2 = rows demo_world" "approvals w2 = approvals demo_world" "outages w2 = []"
    using demo_decide[OF d(5), of s "''workflow.approve:'' @ tr_name demo_transition"] unfolding d(3,4) by blast
  have row: "rows demo_world (''vendor'', ''1'') = Some [(''status'', JStr ''draft'')]" by (simp add: demo_world_def)
  have tr: "tr_from demo_transition = ''draft''" "tr_approval demo_transition \<noteq> None" by (simp_all add: demo_transition_def)
  show ?thesis
    using d d' row tr
    by (auto simp: before_transaction_def no_interference_def roles checkGuardPredicates_def get_field_def)
qed


theorem failed_transition_changes_nothing_witness:
  "rows (snd (executeTransition (\<lambda>_. []) (\<lambda>_. None) (decide (authz_evaluate (\<lambda>_. []))) no_faults False JNull
     no_interference (demo_exec []) demo_world)) = rows demo_world"
proof -
  let ?run = "executeTransition (\<lambda>_. []) (\<lambda>_. None) (decide (authz_evaluate (\<lambda>_. []))) no_faults False JNull no_interference (demo_exec []) demo_world"
  obtain w' where "?run = (Inl (Forbidden_role []), w')"
    using demo_before[of "[]"] by (auto simp: executeTransition_def)
  with failed_transition_changes_nothing[OF this] show ?thesis by simp
qed

end
