(* ===== verification/Workflow_Live.thy ===== *)
theory Workflow_Live
  imports Workflow_Props
begin

text \<open>
  Enforcement does not block what it should let through: an approved transition happens.  A round of requests by
  entitled approvers, one after the other and with other requests on other records around them, is
  counted approval by approval, and the last one that is needed fires the transition.
\<close>

definition as_user :: "exec_input \<Rightarrow> string \<times> string list \<Rightarrow> exec_input" where
  "as_user x u = x\<lparr>ex_sub := fst u, ex_roles := snd u\<rparr>"

lemma as_user_simps [simp]:
  "ex_table (as_user x u) = ex_table x" "ex_recordId (as_user x u) = ex_recordId x" "ex_key (as_user x u) = ex_key x"
  "ex_transition (as_user x u) = ex_transition x" "ex_model (as_user x u) = ex_model x" "ex_stateColumn (as_user x u) = ex_stateColumn x"
  "ex_sub (as_user x u) = fst u"
  by (simp_all add: as_user_def ex_table_def ex_key_def ex_stateColumn_def)

text \<open>What of the world concerns the record: its row, and the approvals of its current round.\<close>

definition about :: "exec_input \<Rightarrow> approval \<Rightarrow> bool" where
  "about x = (\<lambda>(t, r, _, _). t = ex_table x \<and> r = ex_recordId x)"

definition signers :: "exec_input \<Rightarrow> approval list \<Rightarrow> string set" where
  "signers x as = {s. (ex_table x, ex_recordId x, tr_name (ex_transition x), s) \<in> set as}"

definition in_round :: "exec_input \<Rightarrow> fields \<Rightarrow> approval list \<Rightarrow> world \<Rightarrow> bool" where
  "in_round x row as w \<longleftrightarrow> outages w = [] \<and> rows w (ex_key x) = Some row \<and> filter (about x) (approvals w) = as"

text \<open>Other requests work on other records, and the audit log stays up.\<close>

definition elsewhere :: "exec_input \<Rightarrow> (nat \<Rightarrow> world \<Rightarrow> world) \<Rightarrow> bool" where
  "elsewhere x env \<longleftrightarrow> (\<forall>row as i w. in_round x row as w \<longrightarrow> in_round x row as (env i w))"

text \<open>The transition is open for the record: the row is in its state and satisfies its guard, and the names are usable.\<close>

definition open_for :: "(int \<Rightarrow> string) \<Rightarrow> (string \<Rightarrow> int option) \<Rightarrow> exec_input \<Rightarrow> fields \<Rightarrow> bool" where
  "open_for dstr parse_date x row \<longleftrightarrow>
     quoteIdent (ex_table x) \<noteq> None \<and> quoteIdent (ex_stateColumn x) \<noteq> None \<and>
     get_field row (ex_stateColumn x) = JStr (tr_from (ex_transition x)) \<and>
     checkGuardPredicates dstr parse_date (ex_transition x) (ex_model x) row = None"

definition entitled_user :: "exec_input \<Rightarrow> string \<times> string list \<Rightarrow> bool" where
  "entitled_user x u \<longleftrightarrow>
     may (as_user x u) (or_empty (guard_roles (ex_transition x))) \<and> may (as_user x u) (approval_roles (ex_transition x))"

subsection \<open>One request\<close>

lemma decide_lets_through:
  assumes "may x allowed" "in_round x row as w"
  obtains d w' where "decide_roles (decide (authz_evaluate show_v)) x action allowed w = (Inr d, w')" "pd_allow d" "in_round x row as w'"
  using assms
  by (auto simp: decide_roles_def sink_append_def Let_def authz_decide entitled_def may_def in_round_def split: if_splits)

lemma in_round_user [simp]: "in_round (as_user x u) = in_round x"
  by (intro ext) (simp add: in_round_def about_def)

lemma before_lets_through:
  assumes "open_for dstr parse_date x row" "entitled_user x u" "tr_approval (ex_transition x) = Some rule"
    and env: "elsewhere x env" and w: "in_round x row as w"
  obtains w' where "before_transaction dstr parse_date (decide (authz_evaluate show_v)) env (as_user x u) w = (None, w')" "in_round x row as w'"
proof -
  let ?pdp = "decide (authz_evaluate show_v)" and ?x = "as_user x u"
  have may: "may ?x (or_empty (guard_roles (ex_transition x)))" "may ?x (approval_roles (ex_transition x))"
    using assms(2) by (simp_all add: entitled_user_def)
  have away: "in_round ?x row as (env i v)" if "in_round ?x row as v" for i v using env that by (auto simp: elsewhere_def)
  obtain d w1 where d: "decide_roles ?pdp ?x (''workflow.transition:'' @ tr_name (ex_transition x)) (or_empty (guard_roles (ex_transition x))) (env 0 w)
      = (Inr d, w1)" "pd_allow d" "in_round ?x row as w1"
    using decide_lets_through[OF may(1) away] w by (metis in_round_user)
  obtain e w2 where e: "decide_roles ?pdp ?x (''workflow.approve:'' @ tr_name (ex_transition x)) (approval_roles (ex_transition x)) (env 1 w1)
      = (Inr e, w2)" "pd_allow e" "in_round ?x row as w2"
    using decide_lets_through[OF may(2) away[OF d(3)]] by metis
  have "before_transaction dstr parse_date ?pdp env ?x w = (None, w2)"
    using assms(1,3) w d e by (simp add: before_transaction_def open_for_def in_round_def)
  then show thesis using that e(3) by simp
qed

lemma signers_card: "length (approvers x w) = card (signers x (filter (about x) (approvals w)))"
  by (simp add: approvers_card signers_def about_def)

lemma signers_user [simp]: "signers (as_user x u) = signers x"
  by (intro ext) (simp add: signers_def)

definition approval_of :: "exec_input \<Rightarrow> string \<Rightarrow> approval" where
  "approval_of x s = (ex_table x, ex_recordId x, tr_name (ex_transition x), s)"

lemma signers_snoc [simp]: "signers x (as @ [approval_of x s]) = insert s (signers x as)"
  by (auto simp: signers_def approval_of_def)

lemma finite_signers [simp]: "finite (signers x as)"
proof -
  have "signers x as \<subseteq> (\<lambda>(_, _, _, s). s) ` set as" by (force simp: signers_def)
  then show ?thesis by (rule finite_subset) simp
qed

text \<open>The transaction of an approver who has not signed yet.\<close>

lemma transaction_counts:
  assumes "open_for dstr parse_date x row" "tr_approval (ex_transition x) = Some rule"
    and w: "in_round x row as w" and new: "fst u \<notin> signers x as"
  defines "n \<equiv> Suc (card (signers x as))"
  obtains w' where "transition_tx dstr parse_date now (as_user x u) w =
      Inr (w', if ap_count rule \<le> n then Transitioned (tr_to (ex_transition x)) else Pending n (ap_count rule))"
    "if ap_count rule \<le> n
     then in_round x (map_set ''updated_at'' now (map_set (ex_stateColumn x) (JStr (tr_to (ex_transition x))) row)) [] w'
     else in_round x row (as @ [approval_of x (fst u)]) w'"
proof -
  let ?x = "as_user x u" and ?w = "w\<lparr>approvals := approvals w @ [approval_of x (fst u)]\<rparr>"
  have fresh: "approval_of x (fst u) \<notin> set (approvals w)"
    using w new by (auto simp: in_round_def signers_def approval_of_def about_def)
  have count: "length (approvers ?x ?w) = n"
    using w new by (simp add: signers_card in_round_def n_def about_def approval_of_def)
      (simp add: approval_of_def[symmetric] about_def[symmetric])
  have enter: "transition_tx dstr parse_date now ?x w = approve_or_flip now ?x rule w"
    using assms(1,2) w by (simp add: transition_tx_def open_for_def in_round_def)
  have step: "approve_or_flip now ?x rule w =
      (if ap_count rule \<le> n
       then flip_state now ?x (transition_attrs ?x @ from_to_attrs ?x @ count_attrs n (ap_count rule)) ?w
       else (case tx_append (user_event ?x ''workflow.approval_recorded'' True (transition_attrs ?x @ count_attrs n (ap_count rule))) ?w of
               Inl e \<Rightarrow> Inl e | Inr w2 \<Rightarrow> Inr (w2, Pending n (ap_count rule))))"
    using fresh unfolding approve_or_flip_def Let_def as_user_simps approval_of_def[symmetric] count by (simp cong: sum.case_cong)
  show thesis
  proof (cases "ap_count rule \<le> n")
    case True
    have "\<exists>w'. flip_state now ?x (transition_attrs ?x @ from_to_attrs ?x @ count_attrs n (ap_count rule)) ?w
        = Inr (w', Transitioned (tr_to (ex_transition x))) \<and> outages w' = []"
      using assms(1) w by (auto simp: flip_state_def setState_def open_for_def in_round_def tx_append_def sink_append_def Let_def)
    then obtain w' where w': "flip_state now ?x (transition_attrs ?x @ from_to_attrs ?x @ count_attrs n (ap_count rule)) ?w
        = Inr (w', Transitioned (tr_to (ex_transition x)))" "outages w' = []" by blast
    have "in_round x (map_set ''updated_at'' now (map_set (ex_stateColumn x) (JStr (tr_to (ex_transition x))) row)) [] w'"
      using flip_state_Inr(3,4)[OF w'(1)] w'(2) w by (auto simp: in_round_def about_def filter_empty_conv)
    then show thesis using that enter step w'(1) True by simp
  next
    case False
    then show thesis using that enter step assms(1) w
      by (auto simp: in_round_def tx_append_def sink_append_def Let_def about_def approval_of_def)
  qed
qed

subsection \<open>A round of requests\<close>

text \<open>The requests of the users one after the other; \<open>env k\<close> is what happens during the \<open>k\<close>-th.\<close>

fun requests ::
  "(int \<Rightarrow> string) \<Rightarrow> (string \<Rightarrow> int option) \<Rightarrow> (policy_input \<Rightarrow> policy_decision) \<Rightarrow> json \<Rightarrow> (nat \<Rightarrow> nat \<Rightarrow> world \<Rightarrow> world) \<Rightarrow>
   exec_input \<Rightarrow> (string \<times> string list) list \<Rightarrow> world \<Rightarrow> (wf_error + outcome) list \<times> world" where
  "requests dstr parse_date pdp now env x [] w = ([], w)"
| "requests dstr parse_date pdp now env x (u # us) w =
     (case executeTransition dstr parse_date pdp no_faults False now (env 0) (as_user x u) w of
        (r, w1) \<Rightarrow> apfst (Cons r) (requests dstr parse_date pdp now (\<lambda>k. env (Suc k)) x us w1))"

lemma request_counts:
  assumes "open_for dstr parse_date x row" "tr_approval (ex_transition x) = Some rule" "entitled_user x u" "elsewhere x env"
    and w: "in_round x row as w" and new: "fst u \<notin> signers x as"
  defines "n \<equiv> Suc (card (signers x as))"
  obtains w' where "executeTransition dstr parse_date (decide (authz_evaluate show_v)) no_faults False now env (as_user x u) w =
      (Inr (if ap_count rule \<le> n then Transitioned (tr_to (ex_transition x)) else Pending n (ap_count rule)), w')"
    "if ap_count rule \<le> n
     then in_round x (map_set ''updated_at'' now (map_set (ex_stateColumn x) (JStr (tr_to (ex_transition x))) row)) [] w'
     else in_round x row (as @ [approval_of x (fst u)]) w'"
proof -
  have away: "in_round x row' as' (env i v)" if "in_round x row' as' v" for row' as' i v using assms(4) that by (auto simp: elsewhere_def)
  obtain w1 where w1: "before_transaction dstr parse_date (decide (authz_evaluate show_v)) env (as_user x u) w = (None, w1)" "in_round x row as w1"
    by (rule before_lets_through[OF assms(1,3,2,4) w])
  obtain w2 where w2: "transition_tx dstr parse_date now (as_user x u) (env 2 w1) =
      Inr (w2, if ap_count rule \<le> n then Transitioned (tr_to (ex_transition x)) else Pending n (ap_count rule))"
    "if ap_count rule \<le> n
     then in_round x (map_set ''updated_at'' now (map_set (ex_stateColumn x) (JStr (tr_to (ex_transition x))) row)) [] w2
     else in_round x row (as @ [approval_of x (fst u)]) w2"
    using transaction_counts[OF assms(1,2) away[OF w1(2)] new] unfolding n_def by metis
  have "executeTransition dstr parse_date (decide (authz_evaluate show_v)) no_faults False now env (as_user x u) w =
      (Inr (if ap_count rule \<le> n then Transitioned (tr_to (ex_transition x)) else Pending n (ap_count rule)), env 3 w2)"
    using w1(1) w2(1) by (simp add: executeTransition_def independent_events_def flush_independent_def appendAllOrFail_def)
  then show thesis by (rule that) (use w2(2) away in \<open>simp split: if_splits\<close>)
qed

lemma pending_counts:
  "map (\<lambda>i. f (c + i)) [1..<Suc (Suc n)] = f (Suc c) # map (\<lambda>i. f (Suc c + i)) [1..<Suc n]"
  by (simp add: upt_conv_Cons map_Suc_upt[symmetric] o_def del: upt_Suc)

lemma round_counts:
  assumes "open_for dstr parse_date x row" "tr_approval (ex_transition x) = Some rule"
    and "\<forall>u \<in> set us. entitled_user x u" "\<forall>k. elsewhere x (env k)" "in_round x row as w"
    and "distinct (map fst us)" "fst ` set us \<inter> signers x as = {}" "us \<noteq> []" "ap_count rule = card (signers x as) + length us"
  shows "\<exists>w'. requests dstr parse_date (decide (authz_evaluate show_v)) now env x us w =
      (map (\<lambda>i. Inr (Pending (card (signers x as) + i) (ap_count rule))) [1..<length us] @ [Inr (Transitioned (tr_to (ex_transition x)))], w') \<and>
     in_round x (map_set ''updated_at'' now (map_set (ex_stateColumn x) (JStr (tr_to (ex_transition x))) row)) [] w'"
  using assms(3-)
proof (induction us arbitrary: as w env)
  case (Cons u us)
  have new: "fst u \<notin> signers x as" using Cons.prems by auto
  obtain w1 where w1: "executeTransition dstr parse_date (decide (authz_evaluate show_v)) no_faults False now (env 0) (as_user x u) w =
      (Inr (if ap_count rule \<le> Suc (card (signers x as)) then Transitioned (tr_to (ex_transition x))
            else Pending (Suc (card (signers x as))) (ap_count rule)), w1)"
    "if ap_count rule \<le> Suc (card (signers x as))
     then in_round x (map_set ''updated_at'' now (map_set (ex_stateColumn x) (JStr (tr_to (ex_transition x))) row)) [] w1
     else in_round x row (as @ [approval_of x (fst u)]) w1"
    using request_counts[OF assms(1,2) _ _ Cons.prems(3) new, of "env 0"] Cons.prems(1,2) by (metis list.set_intros(1))
  show ?case
  proof (cases us)
    case Nil
    then show ?thesis using w1 Cons.prems(7) by simp
  next
    case (Cons v vs)
    let ?as = "as @ [approval_of x (fst u)]"
    have card: "card (signers x ?as) = Suc (card (signers x as))" using new by simp
    have more: "\<not> ap_count rule \<le> Suc (card (signers x as))" using Cons.prems(7) Cons by simp
    obtain w' where "requests dstr parse_date (decide (authz_evaluate show_v)) now (\<lambda>k. env (Suc k)) x us w1 =
        (map (\<lambda>i. Inr (Pending (card (signers x ?as) + i) (ap_count rule))) [1..<length us] @ [Inr (Transitioned (tr_to (ex_transition x)))], w')"
      "in_round x (map_set ''updated_at'' now (map_set (ex_stateColumn x) (JStr (tr_to (ex_transition x))) row)) [] w'"
      using Cons.IH[of "\<lambda>k. env (Suc k)" ?as w1] Cons.prems w1(2) more card Cons by auto
    then show ?thesis
      using w1(1) more Cons pending_counts[of "\<lambda>k. Inr (Pending k (ap_count rule)) :: wf_error + outcome" "card (signers x as)" "length vs"] unfolding card
      by (simp del: upt_Suc)
  qed
qed simp

text \<open>
  C20.  What enough people approve happens.  On an open transition, where the users who have signed in this round and the ones that
  now ask make up the required number, who are all different and entitled by the committed policy, every request is
  answered with the count it reached, the last one fires the transition, and the round is over; requests
  on other records may run at every point in between.
\<close>

theorem enough_approvers_complete_a_transition:
  assumes "open_for dstr parse_date x row" "tr_approval (ex_transition x) = Some rule"
    and "\<forall>u \<in> set us. entitled_user x u" "\<forall>k. elsewhere x (env k)" "in_round x row as w"
    and "distinct (map fst us)" "fst ` set us \<inter> signers x as = {}" "us \<noteq> []" "ap_count rule = card (signers x as) + length us"
  shows "\<exists>w'. requests dstr parse_date (decide (authz_evaluate show_v)) now env x us w =
      (map (\<lambda>i. Inr (Pending (card (signers x as) + i) (ap_count rule))) [1..<length us] @ [Inr (Transitioned (tr_to (ex_transition x)))], w') \<and>
     rows w' (ex_key x) = Some (map_set ''updated_at'' now (map_set (ex_stateColumn x) (JStr (tr_to (ex_transition x))) row)) \<and>
     filter (about x) (approvals w') = []"
  using round_counts[OF assms] by (auto simp: in_round_def)

theorem enough_approvers_complete_a_transition_witness:
  "\<exists>w'. requests (\<lambda>_. []) (\<lambda>_. None) (decide (authz_evaluate (\<lambda>_. []))) JNull (\<lambda>_. no_interference) (demo_exec [])
      [(''alice'', []), (''bob'', [])] demo_world = ([Inr (Pending 1 2), Inr (Transitioned ''approved'')], w') \<and>
     rows w' (''vendor'', ''1'') = Some [(''status'', JStr ''approved''), (''updated_at'', JNull)]"
proof -
  have tr: "tr_from demo_transition = ''draft''" "tr_to demo_transition = ''approved''" "tr_approval demo_transition = Some \<lparr>ap_count = 2, ap_roles = None\<rparr>"
    "guard_roles demo_transition = None" "guard_require demo_transition = []"
    by (simp_all add: demo_transition_def guard_roles_def guard_require_def)
  have none: "signers (demo_exec []) [] = {}" by (simp add: signers_def)
  have "\<exists>w'. requests (\<lambda>_. []) (\<lambda>_. None) (decide (authz_evaluate (\<lambda>_. []))) JNull (\<lambda>_. no_interference) (demo_exec [])
      [(''alice'', []), (''bob'', [])] demo_world =
        (map (\<lambda>i. Inr (Pending (card (signers (demo_exec []) []) + i) (ap_count \<lparr>ap_count = 2, ap_roles = None\<rparr>))) [1..<length [(''alice'', [] :: string list), (''bob'', [])]] @
          [Inr (Transitioned (tr_to (ex_transition (demo_exec []))))], w') \<and>
     rows w' (ex_key (demo_exec [])) = Some (map_set ''updated_at'' JNull (map_set (ex_stateColumn (demo_exec []))
       (JStr (tr_to (ex_transition (demo_exec [])))) [(''status'', JStr ''draft'')])) \<and>
     filter (about (demo_exec [])) (approvals w') = []"
    by (rule enough_approvers_complete_a_transition)
      (simp_all add: tr none open_for_def checkGuardPredicates_def get_field_def entitled_user_def may_def as_user_def approval_roles_def
        elsewhere_def no_interference_def in_round_def demo_world_def)
  then show ?thesis using tr none by (auto simp: upt_conv_Cons)
qed

end
