(* ===== verification/Encoding.thy ===== *)
theory Encoding
  imports Prelude
begin

text \<open>
  \<open>Buffer.from(s, "utf8")\<close>, \<open>buffer.toString("utf8")\<close>, and the two conversions to and from
  base64url, as the cookie and task-token code uses them.  Bytes are naturals below 256.  Only
  code units below 256 are modelled, so a character takes one or two bytes; a byte sequence
  that decodes to anything outside that range decodes to \<open>None\<close>.
\<close>

type_synonym bytes = "nat list"

abbreviation is_bytes :: "bytes \<Rightarrow> bool" where
  "is_bytes bs \<equiv> list_all (\<lambda>b. b < 256) bs"

subsection \<open>UTF-8\<close>

definition utf8_char :: "char \<Rightarrow> bytes" where
  "utf8_char c = (let n = of_char c in if n < 128 then [n] else [192 + n div 64, 128 + n mod 64])"

definition utf8_encode :: "string \<Rightarrow> bytes" where
  "utf8_encode s = concat (map utf8_char s)"

fun utf8_decode :: "bytes \<Rightarrow> string option" where
  "utf8_decode [] = Some []"
| "utf8_decode (b # bs) =
     (if b < 128 then map_option (Cons (char_of b)) (utf8_decode bs)
      else case bs of
          b' # bs' \<Rightarrow>
            if 194 \<le> b \<and> b < 196 \<and> 128 \<le> b' \<and> b' < 192
            then map_option (Cons (char_of ((b - 192) * 64 + (b' - 128)))) (utf8_decode bs') else None
        | [] \<Rightarrow> None)"

lemma utf8_decode_encode: "utf8_decode (utf8_encode s) = Some s"
proof (induction s)
  case (Cons c s)
  define n :: nat where "n = of_char c"
  have lt: "n < 256" by (simp add: n_def)
  have cn: "char_of n = c" by (simp add: n_def)
  show ?case
  proof (cases "n < 128")
    case True
    then show ?thesis using Cons cn by (simp add: utf8_encode_def utf8_char_def n_def[symmetric])
  next
    case False
    have "(192 + n div 64 - 192) * 64 + (128 + n mod 64 - 128) = n" by simp
    moreover have "2 \<le> n div 64 \<and> n div 64 < 4" using False lt by linarith
    ultimately show ?thesis
      using Cons cn False by (simp add: utf8_encode_def utf8_char_def n_def[symmetric])
  qed
qed (simp add: utf8_encode_def)

lemma utf8_encode_bytes: "is_bytes (utf8_encode s)"
proof (induction s)
  case (Cons c s)
  define n :: nat where "n = of_char c"
  have "n < 256" by (simp add: n_def)
  then have "n div 64 < 4" "n mod 64 < 64" by linarith simp
  then have "192 + n div 64 < 256" "128 + n mod 64 < 256" by linarith+
  moreover have "utf8_char c = (if n < 128 then [n] else [192 + n div 64, 128 + n mod 64])"
    by (simp only: utf8_char_def Let_def n_def)
  ultimately have "is_bytes (utf8_char c)" using \<open>n < 256\<close> by (simp del: add_less_cancel_left)
  then show ?case using Cons by (simp add: utf8_encode_def)
qed (simp add: utf8_encode_def)

lemma utf8_encode_inj: "utf8_encode a = utf8_encode b \<Longrightarrow> a = b"
  by (metis utf8_decode_encode option.inject)

text \<open>
  \<open>buffer.toString("utf8")\<close> where a text is needed for any bytes: bytes that do not decode to the
  modelled characters are read one character each, none of them ASCII where the byte is not.
\<close>

definition buffer_text :: "bytes \<Rightarrow> string" where
  "buffer_text bs = (case utf8_decode bs of Some s \<Rightarrow> s | None \<Rightarrow> map char_of bs)"

subsection \<open>base64url\<close>

definition b64_alphabet :: string where
  "b64_alphabet = ''ABCDEFGHIJKLMNOPQRSTUVWXYZabcdefghijklmnopqrstuvwxyz0123456789-_''"

definition b64_char :: "nat \<Rightarrow> char" where
  "b64_char n = b64_alphabet ! n"

text \<open>Decoding accepts the standard alphabet as well and skips every other character.\<close>

definition b64_val :: "char \<Rightarrow> nat option" where
  "b64_val c = (if c = CHR ''+'' then Some 62 else if c = CHR ''/'' then Some 63
     else find_index (\<lambda>a. a = c) b64_alphabet)"

fun b64_groups :: "bytes \<Rightarrow> nat list" where
  "b64_groups [] = []"
| "b64_groups [a] = [a div 4, (a mod 4) * 16]"
| "b64_groups [a, b] = [a div 4, (a mod 4) * 16 + b div 16, (b mod 16) * 4]"
| "b64_groups (a # b # c # bs) =
     a div 4 # ((a mod 4) * 16 + b div 16) # ((b mod 16) * 4 + c div 64) # (c mod 64) # b64_groups bs"

fun b64_bytes :: "nat list \<Rightarrow> bytes" where
  "b64_bytes (w # x # y # z # ns) =
     (w * 4 + x div 16) # ((x mod 16) * 16 + y div 4) # ((y mod 4) * 64 + z) # b64_bytes ns"
| "b64_bytes [w, x, y] = [w * 4 + x div 16, (x mod 16) * 16 + y div 4]"
| "b64_bytes [w, x] = [w * 4 + x div 16]"
| "b64_bytes _ = []"

definition b64url_encode :: "bytes \<Rightarrow> string" where
  "b64url_encode bs = map b64_char (b64_groups bs)"

definition b64url_decode :: "string \<Rightarrow> bytes" where
  "b64url_decode s = b64_bytes (List.map_filter b64_val s)"

lemma b64_table: "list_all (\<lambda>n. b64_val (b64_char n) = Some n \<and> b64_char n \<noteq> CHR ''.'') [0..<64]"
  by code_simp

lemma b64_val_char: "n < 64 \<Longrightarrow> b64_val (b64_char n) = Some n \<and> b64_char n \<noteq> CHR ''.''"
  using b64_table by (auto simp: list_all_iff)

lemma b64_groups_bound: "is_bytes bs \<Longrightarrow> \<forall>n \<in> set (b64_groups bs). n < 64"
  by (induction bs rule: b64_groups.induct) auto

lemma b64_bytes_groups: "is_bytes bs \<Longrightarrow> b64_bytes (b64_groups bs) = bs"
proof (induction bs rule: b64_groups.induct)
  case (4 a b c bs)
  have "((a mod 4) * 16 + b div 16) div 16 = a mod 4" "((a mod 4) * 16 + b div 16) mod 16 = b div 16"
    "((b mod 16) * 4 + c div 64) div 4 = b mod 16" "((b mod 16) * 4 + c div 64) mod 4 = c div 64"
  proof -
    have b: "b div 16 < 16" "c div 64 < 4" using 4(2) by simp_all linarith+
    show "((a mod 4) * 16 + b div 16) div 16 = a mod 4" "((a mod 4) * 16 + b div 16) mod 16 = b div 16"
      "((b mod 16) * 4 + c div 64) div 4 = b mod 16" "((b mod 16) * 4 + c div 64) mod 4 = c div 64"
      using b by simp_all
  qed
  then show ?case using 4 by simp
next
  case (3 a b)
  have "b div 16 < 16" using 3 by simp linarith
  then have "((a mod 4) * 16 + b div 16) div 16 = a mod 4" "((a mod 4) * 16 + b div 16) mod 16 = b div 16"
    "(b mod 16) * 4 div 4 = b mod 16" by simp_all
  then show ?case by simp
qed simp_all

lemma b64_decode_encode: "is_bytes bs \<Longrightarrow> b64url_decode (b64url_encode bs) = bs"
proof -
  assume bs: "is_bytes bs"
  have "List.map_filter b64_val (map b64_char ns) = ns" if "\<forall>n \<in> set ns. n < 64" for ns
    using that by (induction ns) (auto simp: map_filter_simps b64_val_char)
  then show ?thesis
    using b64_groups_bound[OF bs] b64_bytes_groups[OF bs] by (simp add: b64url_encode_def b64url_decode_def)
qed

lemma b64_no_dot: "is_bytes bs \<Longrightarrow> CHR ''.'' \<notin> set (b64url_encode bs)"
  using b64_groups_bound[of bs] b64_val_char by (fastforce simp: b64url_encode_def)

lemma b64_encode_Nil: "b64url_encode bs = [] \<longleftrightarrow> bs = []"
  by (cases bs rule: b64_groups.cases) (simp_all add: b64url_encode_def)

lemma b64_encode_inj: "is_bytes a \<Longrightarrow> is_bytes b \<Longrightarrow> b64url_encode a = b64url_encode b \<Longrightarrow> a = b"
  using b64_decode_encode by metis

subsection \<open>Percent encoding\<close>

definition uri_unreserved :: "char \<Rightarrow> bool" where
  "uri_unreserved c \<longleftrightarrow> is_lower c \<or> is_upper c \<or> is_digit c \<or> c \<in> set ''-_.!~*()'' \<or> c = char_of (39 :: nat)"

definition upper_hex :: "nat \<Rightarrow> char" where
  "upper_hex n = ''0123456789ABCDEF'' ! n"

definition encodeURIComponent :: "string \<Rightarrow> string" where
  "encodeURIComponent s =
     concat (map (\<lambda>c. if uri_unreserved c then [c]
       else concat (map (\<lambda>b. [CHR ''%'', upper_hex (b div 16), upper_hex (b mod 16)]) (utf8_char c))) s)"

end
