(* ===== verification/Session.thy ===== *)
theory Session
  imports Encoding Js_Json
begin

text \<open>
  Signed, stateless cookies (\<open>runtime/src/session.ts\<close>): \<open>v1.<body>.<mac>\<close> with a purpose bound
  into the MAC.  HMAC-SHA256 is a parameter \<open>hmac key message\<close> on bytes; a theorem about forgery
  ends in "or a MAC the server never made" instead of assuming that there is none.
\<close>

datatype cookie_purpose = Session_purpose | Txn_purpose

fun purpose_text :: "cookie_purpose \<Rightarrow> string" where
  "purpose_text Session_purpose = ''session''"
| "purpose_text Txn_purpose = ''txn''"

definition FORMAT_VERSION :: string where
  "FORMAT_VERSION = ''v1''"

definition RESERVED_IDENTITY_PREFIXES :: "string list" where
  "RESERVED_IDENTITY_PREFIXES = [''agent:'', ''a2a:'']"

definition hasReservedIdentityPrefix :: "string \<Rightarrow> bool" where
  "hasReservedIdentityPrefix sub = list_ex (\<lambda>p. starts_with sub p) RESERVED_IDENTITY_PREFIXES"

definition SESSION_TTL_SECONDS :: int where
  "SESSION_TTL_SECONDS = 8 * 60 * 60"

definition AUTH_TXN_TTL_SECONDS :: int where
  "AUTH_TXN_TTL_SECONDS = 10 * 60"

record session_data =
  se_sub :: string
  se_email :: "string option"
  se_roles :: "string list"
  se_iat :: int
  se_exp :: int

type_synonym hmac = "bytes \<Rightarrow> bytes \<Rightarrow> bytes"

definition mac :: "hmac \<Rightarrow> string \<Rightarrow> string \<Rightarrow> bytes" where
  "mac hmac data secret = hmac (utf8_encode secret) (utf8_encode data)"

definition macInput :: "cookie_purpose \<Rightarrow> string \<Rightarrow> string" where
  "macInput purpose body = FORMAT_VERSION @ ''.'' @ purpose_text purpose @ ''.'' @ body"

definition payload_body :: "(int \<Rightarrow> string) \<Rightarrow> json \<Rightarrow> string" where
  "payload_body fmt payload = b64url_encode (utf8_encode (stringify_val fmt payload))"

definition signPayload :: "hmac \<Rightarrow> (int \<Rightarrow> string) \<Rightarrow> json \<Rightarrow> string \<Rightarrow> cookie_purpose \<Rightarrow> string" where
  "signPayload hmac fmt payload secret purpose =
     (let body = payload_body fmt payload; signature = b64url_encode (mac hmac (macInput purpose body) secret)
      in FORMAT_VERSION @ ''.'' @ body @ ''.'' @ signature)"

datatype cookie_failure = Malformed | Bad_signature | Expired

definition cookie_payload :: "string \<Rightarrow> json option" where
  "cookie_payload body = Option.bind (utf8_decode (b64url_decode body)) json_parse"

definition verifyPayload :: "hmac \<Rightarrow> string \<Rightarrow> string \<Rightarrow> cookie_purpose \<Rightarrow> int \<Rightarrow> cookie_failure + json" where
  "verifyPayload hmac token secret purpose nowSeconds =
     (case split_on CHR ''.'' token of
        [version, body, signature] \<Rightarrow>
          if version \<noteq> FORMAT_VERSION \<or> body = [] \<or> signature = [] then Inl Malformed
          else if b64url_decode signature \<noteq> mac hmac (macInput purpose body) secret then Inl Bad_signature
          else (case cookie_payload body of
              None \<Rightarrow> Inl Malformed
            | Some payload \<Rightarrow>
                (case js_prop payload ''exp'' of
                   JNum e \<Rightarrow> if num_leq e (JsInt nowSeconds) then Inl Expired else Inr payload
                 | _ \<Rightarrow> Inl Malformed))
      | _ \<Rightarrow> Inl Malformed)"

definition isSessionData :: "json \<Rightarrow> bool" where
  "isSessionData payload \<longleftrightarrow>
     is_str (js_prop payload ''sub'') \<and> js_prop payload ''sub'' \<noteq> JStr [] \<and>
     (case js_prop payload ''roles'' of JArr rs \<Rightarrow> list_all is_str rs | _ \<Rightarrow> False) \<and>
     is_num (js_prop payload ''exp'')"

definition createSession :: "string \<Rightarrow> string option \<Rightarrow> string list \<Rightarrow> int \<Rightarrow> int \<Rightarrow> session_data" where
  "createSession sub email roles nowSeconds ttlSeconds =
     \<lparr>se_sub = sub, se_email = email, se_roles = roles, se_iat = nowSeconds, se_exp = nowSeconds + ttlSeconds\<rparr>"

text \<open>The object a session is as a JavaScript value, members in the order they are assigned.\<close>

definition session_json :: "session_data \<Rightarrow> json" where
  "session_json s = JObj
     ([(''sub'', JStr (se_sub s)), (''roles'', JArr (map JStr (se_roles s))),
       (''iat'', JNum (num_of_int (se_iat s))), (''exp'', JNum (num_of_int (se_exp s)))]
      @ (case se_email s of None \<Rightarrow> [] | Some m \<Rightarrow> [(''email'', JStr m)]))"

record cookie_options =
  co_httpOnly :: bool
  co_sameSite :: string
  co_secure :: bool
  co_path :: string
  co_maxAge :: int

definition cookieOptions :: "bool \<Rightarrow> int \<Rightarrow> cookie_options" where
  "cookieOptions devMode maxAgeSeconds =
     \<lparr>co_httpOnly = True, co_sameSite = ''lax'', co_secure = (\<not> devMode), co_path = ''/'', co_maxAge = maxAgeSeconds\<rparr>"

subsection \<open>Signing and verifying\<close>

text \<open>What is assumed of HMAC-SHA256 here: its output is 32 bytes.\<close>

definition digest_ok :: "hmac \<Rightarrow> bool" where
  "digest_ok hmac \<longleftrightarrow> (\<forall>k d. is_bytes (hmac k d) \<and> length (hmac k d) = 32)"

lemma payload_body_props: "CHR ''.'' \<notin> set (payload_body fmt v)"
  by (simp add: payload_body_def b64_no_dot utf8_encode_bytes)

lemma utf8_encode_Nil: "utf8_encode s = [] \<longleftrightarrow> s = []"
  by (cases s) (simp_all add: utf8_encode_def utf8_char_def Let_def)

lemma payload_body_nonempty: "json_ok v \<Longrightarrow> payload_body fmt v \<noteq> []"
  using jtext_head[of v] by (simp add: payload_body_def stringify_val_def stringify_jtext b64_encode_Nil utf8_encode_Nil)

lemma cookie_payload_body: "json_ok v \<Longrightarrow> cookie_payload (payload_body fmt v) = Some v"
  by (simp add: cookie_payload_def payload_body_def b64_decode_encode utf8_encode_bytes utf8_decode_encode
      stringify_val_def stringify_jtext json_parse_jtext)

lemma split_token:
  "CHR ''.'' \<notin> set b \<Longrightarrow> CHR ''.'' \<notin> set s \<Longrightarrow>
   split_on CHR ''.'' (FORMAT_VERSION @ ''.'' @ b @ ''.'' @ s) = [FORMAT_VERSION, b, s]"
  using split_on_append[of "CHR ''.''" FORMAT_VERSION] split_on_append[of "CHR ''.''" b] split_on_no_sep[of "CHR ''.''" s]
  by (simp add: FORMAT_VERSION_def)

lemma verify_signed:
  assumes hmac: "digest_ok hmac" and v: "json_ok v"
  shows "verifyPayload hmac (signPayload hmac fmt v secret q) secret p now =
    (if hmac (utf8_encode secret) (utf8_encode (macInput q (payload_body fmt v)))
        \<noteq> hmac (utf8_encode secret) (utf8_encode (macInput p (payload_body fmt v))) then Inl Bad_signature
     else case js_prop v ''exp'' of JNum e \<Rightarrow> if num_leq e (JsInt now) then Inl Expired else Inr v | _ \<Rightarrow> Inl Malformed)"
proof -
  let ?tag = "mac hmac (macInput q (payload_body fmt v)) secret"
  have len: "length ?tag = 32" and tag: "is_bytes ?tag" using hmac by (simp_all add: digest_ok_def mac_def)
  then have ne: "?tag \<noteq> []" by auto
  have "split_on CHR ''.'' (signPayload hmac fmt v secret q) = [FORMAT_VERSION, payload_body fmt v, b64url_encode ?tag]"
    unfolding signPayload_def Let_def by (rule split_token) (simp_all add: payload_body_props b64_no_dot tag)
  then show ?thesis
    using tag ne payload_body_nonempty[OF v] cookie_payload_body[OF v]
    by (simp add: verifyPayload_def b64_decode_encode b64_encode_Nil mac_def)
qed

lemma verifyPayload_Inr:
  assumes "verifyPayload hmac token secret p now = Inr payload"
  obtains body sig e where "split_on CHR ''.'' token = [FORMAT_VERSION, body, sig]"
    "b64url_decode sig = mac hmac (macInput p body) secret" "cookie_payload body = Some payload"
    "js_prop payload ''exp'' = JNum e" "\<not> num_leq e (JsInt now)"
  using assms by (auto simp: verifyPayload_def split: list.splits if_splits option.splits json.splits)

subsection \<open>Forgery\<close>

text \<open>
  \<open>forged\<close>: the token carries a correct MAC of a message that is not the MAC input of any payload
  the server has signed, which is what an attacker without the key cannot make.
\<close>

definition signed_inputs :: "(int \<Rightarrow> string) \<Rightarrow> (json \<times> cookie_purpose) list \<Rightarrow> bytes list" where
  "signed_inputs fmt issued = map (\<lambda>(r, q). utf8_encode (macInput q (payload_body fmt r))) issued"

definition forged :: "hmac \<Rightarrow> (int \<Rightarrow> string) \<Rightarrow> string \<Rightarrow> (json \<times> cookie_purpose) list \<Rightarrow> string \<Rightarrow> bool" where
  "forged hmac fmt secret issued token \<longleftrightarrow>
     (\<exists>msg. msg \<notin> set (signed_inputs fmt issued) \<and>
        b64url_decode (last (split_on CHR ''.'' token)) = hmac (utf8_encode secret) msg)"

lemma macInput_inj: "macInput p b = macInput q c \<longleftrightarrow> p = q \<and> b = c"
  by (cases p; cases q) (auto simp: macInput_def)

lemma accepted_payload_origin:
  "verifyPayload hmac token secret p now = Inr payload \<Longrightarrow> (\<forall>(r, q) \<in> set issued. json_ok r) \<Longrightarrow>
   (payload, p) \<in> set issued \<or> forged hmac fmt secret issued token"
proof -
  assume acc: "verifyPayload hmac token secret p now = Inr payload" and ok: "\<forall>(r, q) \<in> set issued. json_ok r"
  obtain body sig e where tok: "split_on CHR ''.'' token = [FORMAT_VERSION, body, sig]"
    "b64url_decode sig = mac hmac (macInput p body) secret" "cookie_payload body = Some payload"
    by (rule verifyPayload_Inr[OF acc])
  let ?msg = "utf8_encode (macInput p body)"
  have "(payload, p) \<in> set issued" if m: "?msg \<in> set (signed_inputs fmt issued)"
  proof -
    obtain r q where r: "(r, q) \<in> set issued" "?msg = utf8_encode (macInput q (payload_body fmt r))"
      using m by (auto simp: signed_inputs_def)
    then have same: "p = q" "body = payload_body fmt r" using utf8_encode_inj macInput_inj by metis+
    have "json_ok r" using ok r(1) by auto
    then have "payload = r" using tok(3) cookie_payload_body[of r fmt] same(2) by simp
    then show ?thesis using r(1) same(1) by simp
  qed
  moreover have "forged hmac fmt secret issued token" if "?msg \<notin> set (signed_inputs fmt issued)"
    unfolding forged_def using that tok(1,2) by (intro exI[of _ ?msg]) (simp add: mac_def)
  ultimately show ?thesis by blast
qed

text \<open>
  C5.  A cookie is accepted for a purpose only if the server issued that very payload for that very
  purpose and it has not expired, or else the cookie is a forgery: it carries a correct MAC of a
  message the server never signed.  In particular a login-transaction cookie never passes as a
  session.
\<close>

theorem accepted_cookie_was_issued:
  "verifyPayload hmac token secret p now = Inr payload \<Longrightarrow> (\<forall>(r, q) \<in> set issued. json_ok r) \<Longrightarrow>
   (\<exists>e. js_prop payload ''exp'' = JNum e \<and> \<not> num_leq e (JsInt now)) \<and>
   ((payload, p) \<in> set issued \<or> forged hmac fmt secret issued token)"
  using accepted_payload_origin verifyPayload_Inr by metis

lemma session_json_ok: "\<bar>se_iat x\<bar> < 2 ^ 53 \<Longrightarrow> \<bar>se_exp x\<bar> < 2 ^ 53 \<Longrightarrow> json_ok (session_json x)"
proof -
  assume a: "\<bar>se_iat x\<bar> < 2 ^ 53" "\<bar>se_exp x\<bar> < 2 ^ 53"
  have keys: "\<not> is_index_key ''sub''" "\<not> is_index_key ''roles''" "\<not> is_index_key ''iat''"
    "\<not> is_index_key ''exp''" "\<not> is_index_key ''email''"
    by (simp_all add: is_index_key_def is_digit_def less_eq_char_def)
  have "\<bar>se_iat x\<bar> < 9007199254740992" "\<bar>se_exp x\<bar> < 9007199254740992" using a by simp_all
  from this[THEN num_of_int_ok] show ?thesis
    by (auto simp: session_json_def js_order_def keys split: option.splits)
qed

text \<open>
  A session cookie round trips: signed for a session and read back as a session with the same
  secret, it yields exactly the session while it has not expired, and \<open>expired\<close> from the second
  its lifetime of eight hours ends.
\<close>

theorem session_cookie_round_trip:
  "digest_ok hmac \<Longrightarrow> \<bar>now\<bar> < 2 ^ 52 \<Longrightarrow>
   verifyPayload hmac
     (signPayload hmac fmt (session_json (createSession sub email roles now SESSION_TTL_SECONDS)) secret Session_purpose)
     secret Session_purpose t =
   (if t < now + 28800 then Inr (session_json (createSession sub email roles now SESSION_TTL_SECONDS)) else Inl Expired)"
proof -
  assume hmac: "digest_ok hmac" and now: "\<bar>now\<bar> < 2 ^ 52"
  let ?s = "session_json (createSession sub email roles now SESSION_TTL_SECONDS)"
  have ok: "json_ok ?s" using now by (intro session_json_ok) (simp_all add: createSession_def SESSION_TTL_SECONDS_def)
  have "js_prop ?s ''exp'' = JNum (num_of_int (now + 28800))"
    by (simp add: session_json_def createSession_def SESSION_TTL_SECONDS_def get_field_def)
  then show ?thesis
    using verify_signed[OF hmac ok, of fmt secret Session_purpose Session_purpose t] by simp
qed

subsection \<open>Witnesses\<close>

definition toy_hmac :: hmac where
  "toy_hmac k d = replicate 32 (length d mod 256)"

lemma toy_hmac_ok: "digest_ok toy_hmac"
  by (simp add: digest_ok_def toy_hmac_def list_all_iff)

definition demo_session :: json where
  "demo_session = JObj [(''sub'', JStr ''alice''), (''roles'', JArr []), (''iat'', JNum (Dec 1 0)), (''exp'', JNum (Dec 9 0))]"

lemma demo_session_ok: "json_ok demo_session"
  by (simp add: demo_session_def norm_num_def dec_overflows_def max_double_bound_def js_order_def is_index_key_def is_digit_def
      less_eq_char_def)

theorem accepted_cookie_was_issued_witness:
  "(\<exists>e. js_prop demo_session ''exp'' = JNum e \<and> \<not> num_leq e (JsInt 5)) \<and>
   ((demo_session, Session_purpose) \<in> set [(demo_session, Session_purpose)] \<or>
    forged toy_hmac (\<lambda>_. []) ''key'' [(demo_session, Session_purpose)]
      (signPayload toy_hmac (\<lambda>_. []) demo_session ''key'' Session_purpose))"
proof -
  have "verifyPayload toy_hmac (signPayload toy_hmac (\<lambda>_. []) demo_session ''key'' Session_purpose) ''key'' Session_purpose 5
      = Inr demo_session"
    by (simp add: verify_signed[OF toy_hmac_ok demo_session_ok])
      (simp add: demo_session_def get_field_def num_leq_def scale_def)
  from accepted_cookie_was_issued[OF this, of "[(demo_session, Session_purpose)]" "\<lambda>_. []"] show ?thesis
    using demo_session_ok by simp
qed

theorem session_cookie_round_trip_witness:
  "verifyPayload toy_hmac
     (signPayload toy_hmac (\<lambda>_. []) (session_json (createSession ''alice'' None [''admin''] 1000 SESSION_TTL_SECONDS)) ''key'' Session_purpose)
     ''key'' Session_purpose 29799 = Inr (session_json (createSession ''alice'' None [''admin''] 1000 SESSION_TTL_SECONDS))"
  using session_cookie_round_trip[OF toy_hmac_ok, of 1000] by simp

end
