(* ===== verification/Rate_Limit.thy ===== *)
theory Rate_Limit
  imports Prelude
begin

text \<open>
  The limiters that bound how often a rejected credential is audited:
  \<open>createRejectedCookieLimiter\<close> (\<open>runtime/src/auth.ts\<close>) and its port
  \<open>createRejectedTokenLimiter\<close> (\<open>mcp/src/rate-limit.ts\<close>).  The closure's variables are the
  record \<open>limiter\<close>; SHA-256 and the clock reading of each call are parameters.
\<close>

record limiter_options =
  dedupTtlMs :: int
  dedupMaxEntries :: nat
  windowMs :: int
  windowMaxAppends :: nat

definition default_limits :: limiter_options where
  "default_limits = \<lparr>dedupTtlMs = 5 * 60000, dedupMaxEntries = 500, windowMs = 60000, windowMaxAppends = 20\<rparr>"

text \<open>\<open>seen\<close> is the \<open>Map\<close> in insertion order.\<close>

record limiter =
  seen :: "(string \<times> int) list"
  windowStart :: int
  windowCount :: nat

definition createLimiter :: "int \<Rightarrow> limiter" where
  "createLimiter t = \<lparr>seen = [], windowStart = t, windowCount = 0\<rparr>"

text \<open>The window after the time has passed, and the cache after its oldest entry made room.\<close>

definition roll_window :: "limiter_options \<Rightarrow> int \<Rightarrow> limiter \<Rightarrow> limiter" where
  "roll_window o' t s = (if windowMs o' \<le> t - windowStart s then s\<lparr>windowStart := t, windowCount := 0\<rparr> else s)"

definition make_room :: "limiter_options \<Rightarrow> limiter \<Rightarrow> (string \<times> int) list" where
  "make_room o' s = (if dedupMaxEntries o' \<le> length (seen s) then tl (seen s) else seen s)"

definition shouldAppend :: "(string \<Rightarrow> string) \<Rightarrow> limiter_options \<Rightarrow> int \<Rightarrow> string \<Rightarrow> limiter \<Rightarrow> bool \<times> limiter" where
  "shouldAppend sha256 o' t value s =
     (let hash = sha256 value in
      if (case map_of (seen s) hash of Some expiry \<Rightarrow> t < expiry | None \<Rightarrow> False) then (False, s)
      else
        (let s1 = roll_window o' t s in
         if windowMaxAppends o' \<le> windowCount s1 then (False, s1)
         else (True, s1\<lparr>windowCount := windowCount s1 + 1, seen := map_set hash (t + dedupTtlMs o') (make_room o' s1)\<rparr>)))"

text \<open>The port in the MCP package: the same statements over bearer values.\<close>

definition mcp_shouldAppend :: "(string \<Rightarrow> string) \<Rightarrow> limiter_options \<Rightarrow> int \<Rightarrow> string \<Rightarrow> limiter \<Rightarrow> bool \<times> limiter" where
  "mcp_shouldAppend sha256 o' t bearerValue s =
     (let hash = sha256 bearerValue; expiry = map_of (seen s) hash in
      if expiry \<noteq> None \<and> t < the expiry then (False, s)
      else
        (let s1 = roll_window o' t s in
         if windowCount s1 \<ge> windowMaxAppends o' then (False, s1)
         else (let s2 = s1\<lparr>windowCount := Suc (windowCount s1)\<rparr> in
               (True, s2\<lparr>seen := map_set hash (t + dedupTtlMs o') (make_room o' s2)\<rparr>))))"

text \<open>A sequence of calls, each with its clock reading.\<close>

fun serve :: "(string \<Rightarrow> string) \<Rightarrow> limiter_options \<Rightarrow> (int \<times> string) list \<Rightarrow> limiter \<Rightarrow> bool list \<times> limiter" where
  "serve sha256 o' [] s = ([], s)"
| "serve sha256 o' ((t, v) # calls) s =
     (case shouldAppend sha256 o' t v s of
        (b, s1) \<Rightarrow> (case serve sha256 o' calls s1 of (bs, s2) \<Rightarrow> (b # bs, s2)))"

abbreviation grants :: "bool list \<Rightarrow> nat" where
  "grants bs \<equiv> length (filter (\<lambda>b. b) bs)"

lemma mcp_limiter_same: "mcp_shouldAppend = shouldAppend"
  by (intro ext) (auto simp: mcp_shouldAppend_def shouldAppend_def make_room_def Let_def split: option.splits)

subsection \<open>Bounds\<close>

definition within_limits :: "limiter_options \<Rightarrow> limiter \<Rightarrow> bool" where
  "within_limits o' s \<longleftrightarrow> windowCount s \<le> windowMaxAppends o' \<and> length (seen s) \<le> max 1 (dedupMaxEntries o')"

lemma length_map_set: "length (map_set k v m) \<le> Suc (length m)"
  by (induction m rule: map_set.induct) auto

lemma make_room_size: "length (seen s) \<le> max 1 (dedupMaxEntries o') \<Longrightarrow> length (make_room o' s) < max 1 (dedupMaxEntries o')"
  by (cases "seen s") (auto simp: make_room_def)

lemma roll_window_simps [simp]:
  "seen (roll_window o' t s) = seen s"
  "windowStart (roll_window o' t s) = (if windowMs o' \<le> t - windowStart s then t else windowStart s)"
  "windowCount (roll_window o' t s) = (if windowMs o' \<le> t - windowStart s then 0 else windowCount s)"
  by (simp_all add: roll_window_def)

lemma shouldAppend_limits: "within_limits o' s \<Longrightarrow> within_limits o' (snd (shouldAppend sha256 o' t v s))"
  using make_room_size[of "roll_window o' t s" o'] le_less_trans[OF length_map_set]
  by (fastforce simp: within_limits_def shouldAppend_def Let_def intro: order.trans[OF length_map_set] split: option.splits)

lemma serve_limits: "within_limits o' s \<Longrightarrow> within_limits o' (snd (serve sha256 o' calls s))"
  by (induction sha256 o' calls s rule: serve.induct)
    (auto dest: shouldAppend_limits split: prod.splits, metis shouldAppend_limits snd_conv)

text \<open>Until the next reset a window grants what is left of its quota; after it, one quota more.\<close>

lemma grants_in_window:
  "within_limits o' s \<Longrightarrow> a \<le> windowStart s \<Longrightarrow> \<forall>(t, v) \<in> set calls. t < a + windowMs o' \<Longrightarrow>
   grants (fst (serve sha256 o' calls s)) + windowCount s \<le> windowMaxAppends o'"
proof (induction sha256 o' calls s rule: serve.induct)
  case (2 sha256 o' t v calls s)
  obtain b s1 where call: "shouldAppend sha256 o' t v s = (b, s1)" by force
  have lim: "within_limits o' s1" using shouldAppend_limits[OF 2(2), of sha256 t v] call by simp
  have "windowStart s1 = windowStart s \<and> windowCount s1 = windowCount s + of_bool b"
    using call 2(3,4) by (auto simp: shouldAppend_def Let_def split: if_splits option.splits)
  then show ?case using 2(1)[OF call[symmetric] lim] 2(3,4) call by (auto split: prod.splits)
qed (simp add: within_limits_def)

lemma grants_over_reset:
  "within_limits o' s \<Longrightarrow> \<forall>(t, v) \<in> set calls. a \<le> t \<and> t < a + windowMs o' \<Longrightarrow>
   grants (fst (serve sha256 o' calls s)) + windowCount s \<le> 2 * windowMaxAppends o'"
proof (induction sha256 o' calls s rule: serve.induct)
  case (2 sha256 o' t v calls s)
  obtain b s1 where call: "shouldAppend sha256 o' t v s = (b, s1)" by force
  have lim: "within_limits o' s1" using shouldAppend_limits[OF 2(2), of sha256 t v] call by simp
  show ?case
  proof (cases "windowStart s1 = t")
    case True
    have "windowCount s1 = of_bool b \<or> windowCount s1 = windowCount s + of_bool b"
      using call by (auto simp: shouldAppend_def Let_def split: if_splits option.splits)
    moreover have "grants (fst (serve sha256 o' calls s1)) + windowCount s1 \<le> windowMaxAppends o'"
      by (rule grants_in_window[OF lim, of a]) (use True 2(3) in auto)
    ultimately show ?thesis using call 2(2) by (auto simp: within_limits_def split: prod.splits)
  next
    case False
    then have "windowCount s1 = windowCount s + of_bool b"
      using call by (auto simp: shouldAppend_def Let_def split: if_splits option.splits)
    then show ?thesis using 2(1)[OF call[symmetric] lim] 2(3) call by (auto split: prod.splits)
  qed
qed (simp add: within_limits_def)

text \<open>
  C23.  An attacker cannot flood the audit log with rejected credentials.  From a fresh limiter,
  after any calls whatsoever, the calls of any interval of one window length together get at most
  twice the window's quota of audit appends, and the memory of seen credentials never exceeds its
  bound.
\<close>

theorem rejected_appends_are_bounded:
  "s = snd (serve sha256 o' earlier (createLimiter t0)) \<Longrightarrow>
   (\<forall>(t, v) \<in> set calls. a \<le> t \<and> t < a + windowMs o') \<Longrightarrow>
   grants (fst (serve sha256 o' calls s)) \<le> 2 * windowMaxAppends o' \<and>
   length (seen (snd (serve sha256 o' calls s))) \<le> max 1 (dedupMaxEntries o')"
proof -
  assume s: "s = snd (serve sha256 o' earlier (createLimiter t0))"
    and calls: "\<forall>(t, v) \<in> set calls. a \<le> t \<and> t < a + windowMs o'"
  have lim: "within_limits o' s"
    unfolding s by (rule serve_limits) (simp add: within_limits_def createLimiter_def)
  show ?thesis
    using grants_over_reset[OF lim calls, of sha256] serve_limits[OF lim, of sha256 calls]
    by (simp add: within_limits_def)
qed

definition tight_limits :: limiter_options where
  "tight_limits = \<lparr>dedupTtlMs = 50, dedupMaxEntries = 2, windowMs = 10, windowMaxAppends = 1\<rparr>"

theorem rejected_appends_are_bounded_witness:
  "fst (serve id tight_limits [(9, ''b''), (10, ''c''), (12, ''d'')] (snd (serve id tight_limits [(0, ''a'')] (createLimiter (-5)))))
     = [True, False, False] \<and>
   grants (fst (serve id tight_limits [(9, ''b''), (10, ''c''), (12, ''d'')] (snd (serve id tight_limits [(0, ''a'')] (createLimiter (-5)))))) \<le> 2"
proof -
  have "fst (serve id tight_limits [(9, ''b''), (10, ''c''), (12, ''d'')] (snd (serve id tight_limits [(0, ''a'')] (createLimiter (-5)))))
     = [True, False, False]"
    by code_simp
  moreover have "grants (fst (serve id tight_limits [(9, ''b''), (10, ''c''), (12, ''d'')]
      (snd (serve id tight_limits [(0, ''a'')] (createLimiter (-5)))))) \<le> 2"
    using rejected_appends_are_bounded[OF refl, of "[(9, ''b''), (10, ''c''), (12, ''d'')]" 9 tight_limits id "[(0, ''a'')]" "- 5"]
    by (simp add: tight_limits_def)
  ultimately show ?thesis by blast
qed

text \<open>
  A credential is audited again within its time to live only if it has been evicted: while it is in
  the cache and unexpired, every call for it is refused.
\<close>

lemma seen_credential_is_refused:
  "map_of (seen s) (sha256 v) = Some expiry \<Longrightarrow> t < expiry \<Longrightarrow> shouldAppend sha256 o' t v s = (False, s)"
  by (simp add: shouldAppend_def Let_def)

end
