(* ===== verification/Auth.thy ===== *)
theory Auth
  imports Session Rate_Limit Runtime_Audit
begin

text \<open>
  Authentication (\<open>runtime/src/auth.ts\<close>): the session gate in front of every route, and the login,
  callback and logout handlers.  The OIDC client library is a parameter: whether discovery works,
  the authorization URL it builds, and the claims (or failure) of the code exchange.  HMAC and
  SHA-256, the clock reading (milliseconds) and the random values of a request are parameters.
\<close>

subsection \<open>Requests\<close>

record request =
  rq_url :: "string option"
  rq_cookies :: "(string \<times> string) list"
  rq_accept :: "string option"
  rq_contentType :: "string option"

definition SESSION_COOKIE_NAME :: string where
  "SESSION_COOKIE_NAME = ''openrupiv_session''"

definition AUTH_TXN_COOKIE_NAME :: string where
  "AUTH_TXN_COOKIE_NAME = ''openrupiv_auth_txn''"

definition isPublicPath :: "string \<Rightarrow> bool" where
  "isPublicPath p \<longleftrightarrow> p = ''/healthz'' \<or> starts_with p ''/auth/'' \<or> p = ''/mcp'' \<or> p = ''/a2a/v1'' \<or>
     p = ''/.well-known/agent-card.json''"

definition wantsHtml :: "request \<Rightarrow> bool" where
  "wantsHtml rq = (case rq_accept rq of Some a \<Rightarrow> contains_str a ''text/html'' | None \<Rightarrow> False)"

definition url_of :: "request \<Rightarrow> string" where
  "url_of rq = (case rq_url rq of Some u \<Rightarrow> u | None \<Rightarrow> ''/'')"

definition pathnameOf :: "request \<Rightarrow> string" where
  "pathnameOf rq = takeWhile (\<lambda>c. c \<noteq> CHR ''?'') (url_of rq)"

definition control_char :: "char \<Rightarrow> bool" where
  "control_char c \<longleftrightarrow> (of_char c :: nat) < 32 \<or> (of_char c :: nat) = 127"

definition sanitizeReturnTo :: "json \<Rightarrow> string" where
  "sanitizeReturnTo v =
     (case v of
        JStr s \<Rightarrow>
          if \<not> list_ex control_char s \<and> starts_with s ''/'' \<and> \<not> starts_with s ''//'' \<and> \<not> starts_with s [CHR ''/'', CHR 0x5C]
          then s else ''/''
      | _ \<Rightarrow> ''/'')"

definition extractRoles :: "json \<Rightarrow> string list" where
  "extractRoles v =
     (case v of
        JArr vs \<Rightarrow> List.map_filter (\<lambda>x. case x of JStr s \<Rightarrow> Some s | _ \<Rightarrow> None) vs
      | JStr s \<Rightarrow> if s \<noteq> [] then [s] else []
      | _ \<Rightarrow> [])"

subsection \<open>Configuration and state\<close>

record auth_config =
  ac_secret :: string
  ac_baseUrl :: string
  ac_devMode :: bool
  ac_rolesClaim :: string
  ac_appRoles :: "string list"
  ac_audited :: bool

record auth_state =
  as_sink :: "audit_input audit_sink"
  as_limiter :: limiter

definition seconds :: "int \<Rightarrow> int" where
  "seconds t = t div 1000"

definition auth_event :: "string \<Rightarrow> string \<Rightarrow> string \<Rightarrow> json \<Rightarrow> audit_input" where
  "auth_event event actor actorType attributes =
     \<lparr>au_event = event, au_actor = actor, au_actorType = actorType, au_subject = None, au_decision = None,
      au_attributes = attributes\<rparr>"

definition record_event :: "auth_config \<Rightarrow> audit_input \<Rightarrow> auth_state \<Rightarrow> auth_state" where
  "record_event cfg e s = (if ac_audited cfg then s\<lparr>as_sink := snd (auditBestEffort e (as_sink s))\<rparr> else s)"

subsection \<open>The session gate\<close>

datatype gate_verdict = Pass "json option" | To_login string | Send_401

record gate_reply =
  gr_verdict :: gate_verdict
  gr_clear :: "(string \<times> cookie_options) option"

fun failure_reason :: "cookie_failure \<Rightarrow> string" where
  "failure_reason Malformed = ''malformed''"
| "failure_reason Bad_signature = ''bad_signature''"
| "failure_reason Expired = ''expired''"

text \<open>The session of a cookie value, or the reason it is rejected.\<close>

definition cookie_session :: "hmac \<Rightarrow> auth_config \<Rightarrow> int \<Rightarrow> string \<Rightarrow> string + json" where
  "cookie_session hmac cfg t rawCookie =
     (case verifyPayload hmac rawCookie (ac_secret cfg) Session_purpose (seconds t) of
        Inr p \<Rightarrow> if isSessionData p then Inr p else Inl ''not_session_data''
      | Inl f \<Rightarrow> Inl (failure_reason f))"

definition reject_cookie ::
  "(string \<Rightarrow> string) \<Rightarrow> auth_config \<Rightarrow> int \<Rightarrow> string \<Rightarrow> string \<Rightarrow> string \<Rightarrow> auth_state \<Rightarrow> auth_state" where
  "reject_cookie sha256 cfg t pathname rawCookie reason s =
     (if isPublicPath pathname then s
      else (case shouldAppend sha256 default_limits t rawCookie (as_limiter s) of
          (ok, l) \<Rightarrow>
            (let s1 = s\<lparr>as_limiter := l\<rparr> in
             if ok then record_event cfg
                 (auth_event ''auth.session_rejected'' ''system'' ''system'' (JObj [(''reason'', JStr reason)])) s1
             else s1)))"

definition gate_verdict_of :: "request \<Rightarrow> json option \<Rightarrow> gate_verdict" where
  "gate_verdict_of rq session =
     (if isPublicPath (pathnameOf rq) then Pass session
      else (case session of
          Some p \<Rightarrow> Pass (Some p)
        | None \<Rightarrow>
            if wantsHtml rq then To_login (''/auth/login?returnTo='' @ encodeURIComponent (url_of rq)) else Send_401))"

definition session_gate ::
  "hmac \<Rightarrow> (string \<Rightarrow> string) \<Rightarrow> auth_config \<Rightarrow> int \<Rightarrow> request \<Rightarrow> auth_state \<Rightarrow> gate_reply \<times> auth_state" where
  "session_gate hmac sha256 cfg t rq s =
     (case map_of (rq_cookies rq) SESSION_COOKIE_NAME of
        Some (c # cs) \<Rightarrow>
          (case cookie_session hmac cfg t (c # cs) of
             Inr p \<Rightarrow> (\<lparr>gr_verdict = gate_verdict_of rq (Some p), gr_clear = None\<rparr>, s)
           | Inl reason \<Rightarrow>
               (\<lparr>gr_verdict = gate_verdict_of rq None,
                 gr_clear = Some (SESSION_COOKIE_NAME, cookieOptions (ac_devMode cfg) 0)\<rparr>,
                reject_cookie sha256 cfg t (pathnameOf rq) (c # cs) reason s))
      | _ \<Rightarrow> (\<lparr>gr_verdict = gate_verdict_of rq None, gr_clear = None\<rparr>, s))"

subsection \<open>Discovery\<close>

datatype auth_error =
    Oidc_discovery | Oidc_callback nat | Reserved_identity_prefix

text \<open>Plain-http issuers are contacted only in dev mode.\<close>

definition insecure_requests :: "bool \<Rightarrow> string \<Rightarrow> bool" where
  "insecure_requests devMode issuerProtocol \<longleftrightarrow> devMode \<and> issuerProtocol = ''http:''"

text \<open>The cached provider: one successful discovery serves every later call, a failure is not kept.\<close>

definition getConfiguration :: "'c option \<Rightarrow> 'c option \<Rightarrow> (auth_error + 'c) \<times> 'c option" where
  "getConfiguration cached discovery =
     (case cached of
        Some c \<Rightarrow> (Inr c, Some c)
      | None \<Rightarrow> (case discovery of Some c \<Rightarrow> (Inr c, Some c) | None \<Rightarrow> (Inl Oidc_discovery, None)))"

subsection \<open>Login\<close>

record login_txn =
  lt_state :: string
  lt_nonce :: string
  lt_codeVerifier :: string
  lt_returnTo :: string
  lt_iat :: int
  lt_exp :: int

definition txn_json :: "login_txn \<Rightarrow> json" where
  "txn_json x = JObj [(''state'', JStr (lt_state x)), (''nonce'', JStr (lt_nonce x)), (''codeVerifier'', JStr (lt_codeVerifier x)),
     (''returnTo'', JStr (lt_returnTo x)), (''iat'', JNum (num_of_int (lt_iat x))), (''exp'', JNum (num_of_int (lt_exp x)))]"

text \<open>The arguments handed to the client library for the authorization URL.\<close>

record authorization_params =
  ap_redirect_uri :: string
  ap_scope :: string
  ap_state :: string
  ap_nonce :: string
  ap_code_challenge :: string

definition redirectUri :: "auth_config \<Rightarrow> string" where
  "redirectUri cfg = rev (dropWhile (\<lambda>c. c = CHR ''/'') (rev (ac_baseUrl cfg))) @ ''/auth/callback''"

definition login_request :: "int \<Rightarrow> json \<Rightarrow> string \<Rightarrow> string \<Rightarrow> string \<Rightarrow> login_txn" where
  "login_request t returnTo state nonce codeVerifier =
     \<lparr>lt_state = state, lt_nonce = nonce, lt_codeVerifier = codeVerifier, lt_returnTo = sanitizeReturnTo returnTo,
      lt_iat = seconds t, lt_exp = seconds t + AUTH_TXN_TTL_SECONDS\<rparr>"

type_synonym set_cookie = "string \<times> string \<times> cookie_options"

definition login ::
  "hmac \<Rightarrow> (int \<Rightarrow> string) \<Rightarrow> (string \<Rightarrow> string) \<Rightarrow> auth_config \<Rightarrow> bool \<Rightarrow> int \<Rightarrow> json \<Rightarrow> string \<Rightarrow> string \<Rightarrow> string \<Rightarrow>
   auth_error + (set_cookie \<times> authorization_params)" where
  "login hmac fmt challenge cfg discovered t returnTo state nonce codeVerifier =
     (if \<not> discovered then Inl Oidc_discovery
      else Inr
        ((AUTH_TXN_COOKIE_NAME,
          signPayload hmac fmt (txn_json (login_request t returnTo state nonce codeVerifier)) (ac_secret cfg) Txn_purpose,
          cookieOptions (ac_devMode cfg) AUTH_TXN_TTL_SECONDS),
         \<lparr>ap_redirect_uri = redirectUri cfg,
          ap_scope = join_with '' '' ([''openid'', ''profile'', ''email''] @ (if ac_rolesClaim cfg = ''groups'' then [''groups''] else [])),
          ap_state = state, ap_nonce = nonce, ap_code_challenge = challenge codeVerifier\<rparr>))"

subsection \<open>Callback\<close>

text \<open>
  The code exchange of the client library: from the verifier, the expected state and the expected
  nonce (whatever the transaction holds) to the claims of the validated ID token, or failure.
\<close>

type_synonym exchange = "json \<Rightarrow> json \<Rightarrow> json \<Rightarrow> json option"

datatype callback_reply = Logged_in session_data "set_cookie" json

definition session_roles :: "auth_config \<Rightarrow> json \<Rightarrow> string list" where
  "session_roles cfg claims =
     (let roles = extractRoles (js_prop claims (ac_rolesClaim cfg)) in
      if roles = [] \<and> ac_devMode cfg \<and> ac_appRoles cfg \<noteq> [] then ac_appRoles cfg else roles)"

definition dev_granted :: "auth_config \<Rightarrow> json \<Rightarrow> bool" where
  "dev_granted cfg claims \<longleftrightarrow> extractRoles (js_prop claims (ac_rolesClaim cfg)) = [] \<and> ac_devMode cfg \<and> ac_appRoles cfg \<noteq> []"

definition claims_email :: "json \<Rightarrow> string option" where
  "claims_email claims = (case js_prop claims ''email'' of JStr m \<Rightarrow> Some m | _ \<Rightarrow> None)"

definition roles_attr :: "string list \<Rightarrow> json" where
  "roles_attr roles = JObj [(''roles'', JArr (map JStr roles))]"

definition finish_login ::
  "hmac \<Rightarrow> (int \<Rightarrow> string) \<Rightarrow> auth_config \<Rightarrow> int \<Rightarrow> json \<Rightarrow> json \<Rightarrow> string \<Rightarrow> auth_state \<Rightarrow> (auth_error + callback_reply) \<times> auth_state" where
  "finish_login hmac fmt cfg t returnTo claims sub s =
     (if hasReservedIdentityPrefix sub
      then (Inl Reserved_identity_prefix,
            record_event cfg (auth_event ''auth.reserved_identity_rejected'' sub ''system''
              (JObj [(''reason'', JStr ''reserved_prefix'')])) s)
      else
        (let roles = session_roles cfg claims;
             s1 = (if dev_granted cfg claims
                   then record_event cfg (auth_event ''auth.dev_role_grant'' sub ''human'' (roles_attr roles)) s else s);
             session = createSession sub (claims_email claims) roles (seconds t) SESSION_TTL_SECONDS
         in (Inr (Logged_in session
               (SESSION_COOKIE_NAME, signPayload hmac fmt (session_json session) (ac_secret cfg) Session_purpose,
                cookieOptions (ac_devMode cfg) SESSION_TTL_SECONDS) returnTo),
             record_event cfg (auth_event ''auth.login'' sub ''human'' (roles_attr roles)) s1)))"

definition callback ::
  "hmac \<Rightarrow> (int \<Rightarrow> string) \<Rightarrow> auth_config \<Rightarrow> bool \<Rightarrow> exchange \<Rightarrow> int \<Rightarrow> request \<Rightarrow> auth_state \<Rightarrow>
   (auth_error + callback_reply) \<times> auth_state" where
  "callback hmac fmt cfg discovered exch t rq s =
     (case map_of (rq_cookies rq) AUTH_TXN_COOKIE_NAME of
        Some (c # cs) \<Rightarrow>
          (case verifyPayload hmac (c # cs) (ac_secret cfg) Txn_purpose (seconds t) of
             Inl _ \<Rightarrow> (Inl (Oidc_callback 400), s)
           | Inr txn \<Rightarrow>
               if \<not> discovered then (Inl Oidc_discovery, s)
               else (case exch (js_prop txn ''codeVerifier'') (js_prop txn ''state'') (js_prop txn ''nonce'') of
                   None \<Rightarrow> (Inl (Oidc_callback 401), s)
                 | Some claims \<Rightarrow>
                     (case js_prop claims ''sub'' of
                        JStr (a # as) \<Rightarrow> finish_login hmac fmt cfg t (js_prop txn ''returnTo'') claims (a # as) s
                      | _ \<Rightarrow> (Inl (Oidc_callback 401), s))))
      | _ \<Rightarrow> (Inl (Oidc_callback 400), s))"

subsection \<open>Logout\<close>

datatype logout_reply = Logout_redirect | Logout_ok

definition logout :: "auth_config \<Rightarrow> json option \<Rightarrow> request \<Rightarrow> auth_state \<Rightarrow> logout_reply \<times> auth_state" where
  "logout cfg session rq s =
     ((case rq_contentType rq of
         Some ct \<Rightarrow> if contains_str ct ''application/x-www-form-urlencoded'' then Logout_redirect else Logout_ok
       | None \<Rightarrow> Logout_ok),
      (case session of
         None \<Rightarrow> s
       | Some p \<Rightarrow>
           record_event cfg (auth_event ''auth.logout'' (case js_prop p ''sub'' of JStr u \<Rightarrow> u | _ \<Rightarrow> []) ''human'' JUndef) s))"

end
