(* ===== verification/Auth_Props.thy ===== *)
theory Auth_Props
  imports Auth
begin

text \<open>
  What the authentication handlers guarantee together: a system of gate, login, callback and
  logout requests in any order, with the payloads the server has signed so far, and the invariant
  of what it ever signs.
\<close>

subsection \<open>Post-login destinations\<close>

text \<open>A browser drops tabs and line breaks from a URL before it resolves it.\<close>

definition browser_strip :: "string \<Rightarrow> string" where
  "browser_strip u = filter (\<lambda>c. (of_char c :: nat) \<notin> {9, 10, 13}) u"

definition same_site :: "string \<Rightarrow> bool" where
  "same_site u \<longleftrightarrow>
     (\<exists>r. browser_strip u = CHR ''/'' # r \<and> (r = [] \<or> hd r \<noteq> CHR ''/'' \<and> hd r \<noteq> CHR 0x5C))"

lemma same_site_sanitized: "same_site (sanitizeReturnTo v)"
proof -
  have root: "same_site ''/''" by (simp add: same_site_def browser_strip_def)
  have ok: "same_site s" if clean: "\<not> list_ex control_char s" and pre: "starts_with s ''/''" "\<not> starts_with s ''//''"
    "\<not> starts_with s [CHR ''/'', CHR 0x5C]" for s
  proof -
    have "browser_strip s = s"
      unfolding browser_strip_def using clean by (intro filter_True) (auto simp: list_ex_iff control_char_def)
    moreover obtain r where "s = CHR ''/'' # r" using pre(1) by (auto simp: prefix_def)
    ultimately show ?thesis using pre(2,3) by (cases r) (auto simp: same_site_def)
  qed
  show ?thesis by (auto simp: sanitizeReturnTo_def root ok split: json.splits)
qed

subsection \<open>The system\<close>

record auth_sys =
  ay_issued :: "(json \<times> cookie_purpose) list"
  ay_state :: auth_state

text \<open>Clock readings are time values of the language: at most 8.64e15 ms away from the epoch.\<close>

definition clock_reading :: "int \<Rightarrow> bool" where
  "clock_reading t \<longleftrightarrow> \<bar>t\<bar> \<le> 8640000000000000"

fun newly_signed :: "auth_error + callback_reply \<Rightarrow> (json \<times> cookie_purpose) list" where
  "newly_signed (Inr (Logged_in se _ _)) = [(session_json se, Session_purpose)]"
| "newly_signed (Inl _) = []"

inductive auth_step :: "hmac \<Rightarrow> (int \<Rightarrow> string) \<Rightarrow> (string \<Rightarrow> string) \<Rightarrow> auth_config \<Rightarrow> auth_sys \<Rightarrow> auth_sys \<Rightarrow> bool"
  for hmac fmt sha256 cfg where
  gate: "clock_reading t \<Longrightarrow> session_gate hmac sha256 cfg t rq s = (r, s') \<Longrightarrow>
    auth_step hmac fmt sha256 cfg \<lparr>ay_issued = i, ay_state = s\<rparr> \<lparr>ay_issued = i, ay_state = s'\<rparr>"
| login: "clock_reading t \<Longrightarrow> login hmac fmt challenge cfg discovered t returnTo st nonce verifier = Inr reply \<Longrightarrow>
    auth_step hmac fmt sha256 cfg \<lparr>ay_issued = i, ay_state = s\<rparr>
      \<lparr>ay_issued = i @ [(txn_json (login_request t returnTo st nonce verifier), Txn_purpose)], ay_state = s\<rparr>"
| callback: "clock_reading t \<Longrightarrow> callback hmac fmt cfg discovered exch t rq s = (r, s') \<Longrightarrow>
    auth_step hmac fmt sha256 cfg \<lparr>ay_issued = i, ay_state = s\<rparr> \<lparr>ay_issued = i @ newly_signed r, ay_state = s'\<rparr>"
| logout: "logout cfg session rq s = (r, s') \<Longrightarrow>
    auth_step hmac fmt sha256 cfg \<lparr>ay_issued = i, ay_state = s\<rparr> \<lparr>ay_issued = i, ay_state = s'\<rparr>"

inductive auth_reachable :: "hmac \<Rightarrow> (int \<Rightarrow> string) \<Rightarrow> (string \<Rightarrow> string) \<Rightarrow> auth_config \<Rightarrow> auth_sys \<Rightarrow> bool"
  for hmac fmt sha256 cfg where
  start: "auth_reachable hmac fmt sha256 cfg \<lparr>ay_issued = [], ay_state = s\<rparr>"
| step: "auth_reachable hmac fmt sha256 cfg y \<Longrightarrow> auth_step hmac fmt sha256 cfg y y' \<Longrightarrow> auth_reachable hmac fmt sha256 cfg y'"

text \<open>What the server ever signs.\<close>

fun signed_ok :: "json \<times> cookie_purpose \<Rightarrow> bool" where
  "signed_ok (r, Session_purpose) \<longleftrightarrow>
     json_ok r \<and> (\<exists>se. r = session_json se \<and> se_sub se \<noteq> [] \<and> \<not> hasReservedIdentityPrefix (se_sub se))"
| "signed_ok (r, Txn_purpose) \<longleftrightarrow> json_ok r \<and> (\<exists>x. r = txn_json x \<and> same_site (lt_returnTo x))"

lemma signed_ok_json: "signed_ok rq \<Longrightarrow> json_ok (fst rq)"
  by (cases rq rule: signed_ok.cases) auto

lemma seconds_bound: "clock_reading t \<Longrightarrow> \<bar>seconds t\<bar> < 2 ^ 52"
  by (auto simp: clock_reading_def seconds_def abs_le_iff abs_less_iff)

lemma txn_json_ok: "\<bar>lt_iat x\<bar> < 2 ^ 53 \<Longrightarrow> \<bar>lt_exp x\<bar> < 2 ^ 53 \<Longrightarrow> json_ok (txn_json x)"
proof -
  assume a: "\<bar>lt_iat x\<bar> < 2 ^ 53" "\<bar>lt_exp x\<bar> < 2 ^ 53"
  have keys: "\<not> is_index_key ''state''" "\<not> is_index_key ''nonce''" "\<not> is_index_key ''codeVerifier''"
    "\<not> is_index_key ''returnTo''" "\<not> is_index_key ''iat''" "\<not> is_index_key ''exp''"
    by (simp_all add: is_index_key_def is_digit_def less_eq_char_def)
  have "\<bar>lt_iat x\<bar> < 9007199254740992" "\<bar>lt_exp x\<bar> < 9007199254740992" using a by simp_all
  from this[THEN num_of_int_ok] show ?thesis
    by (auto simp: txn_json_def js_order_def keys)
qed

lemma callback_Inr:
  assumes "callback hmac fmt cfg discovered exch t rq s = (Inr (Logged_in se ck returnTo), s')"
  obtains raw txn where "map_of (rq_cookies rq) AUTH_TXN_COOKIE_NAME = Some raw"
    "verifyPayload hmac raw (ac_secret cfg) Txn_purpose (seconds t) = Inr txn" "returnTo = js_prop txn ''returnTo''"
    "se_sub se \<noteq> []" "\<not> hasReservedIdentityPrefix (se_sub se)" "se_iat se = seconds t" "se_exp se = seconds t + SESSION_TTL_SECONDS"
  using assms
  by (auto simp: callback_def finish_login_def createSession_def Let_def split: option.splits list.splits sum.splits if_splits json.splits)

lemma auth_step_signed: "auth_step hmac fmt sha256 cfg y y' \<Longrightarrow> list_all signed_ok (ay_issued y) \<Longrightarrow> list_all signed_ok (ay_issued y')"
proof (induction rule: auth_step.induct)
  case (login t challenge discovered returnTo st nonce verifier reply i s)
  have "signed_ok (txn_json (login_request t returnTo st nonce verifier), Txn_purpose)"
    using seconds_bound[OF login(1)]
    by (auto simp: login_request_def AUTH_TXN_TTL_SECONDS_def same_site_sanitized intro!: txn_json_ok exI[of _ "login_request t returnTo st nonce verifier"])
  then show ?case using login by simp
next
  case (callback t discovered exch rq s r s' i)
  show ?case
  proof (cases r)
    case (Inr a)
    obtain se ck returnTo where a: "a = Logged_in se ck returnTo" by (cases a)
    from callback(2)[unfolded Inr a] have "signed_ok (session_json se, Session_purpose)"
      using seconds_bound[OF callback(1)]
      by (elim callback_Inr) (auto simp: SESSION_TTL_SECONDS_def intro!: session_json_ok)
    then show ?thesis using callback(3) Inr a by simp
  qed (use callback in simp)
qed simp_all

lemma reachable_signed: "auth_reachable hmac fmt sha256 cfg y \<Longrightarrow> list_all signed_ok (ay_issued y)"
  by (induction rule: auth_reachable.induct) (auto intro: auth_step_signed)

text \<open>A cookie accepted in a reachable state holds a payload the server signed, or is forged.\<close>

lemma accepted_in_system:
  assumes reach: "auth_reachable hmac fmt sha256 cfg y"
    and acc: "verifyPayload hmac token (ac_secret cfg) p now = Inr payload"
  shows "signed_ok (payload, p) \<or> forged hmac fmt (ac_secret cfg) (ay_issued y) token"
proof -
  have ok: "\<forall>x \<in> set (ay_issued y). signed_ok x" using reachable_signed[OF reach] by (simp add: list_all_iff)
  then have "\<forall>(r, q) \<in> set (ay_issued y). json_ok r" using signed_ok_json by fastforce
  from accepted_payload_origin[OF acc this] show ?thesis using ok by blast
qed

subsection \<open>Properties\<close>


text \<open>
  No open redirect.  Whatever \<open>returnTo\<close> anyone sent to the login handler, the destination of
  a completed login is a path on this site, also after a browser has dropped tabs and line breaks
  from it, unless the transaction cookie is forged.
\<close>

theorem login_redirects_stay_on_site:
  "auth_reachable hmac fmt sha256 cfg y \<Longrightarrow>
   fst (callback hmac fmt cfg discovered exch t rq (ay_state y)) = Inr (Logged_in se ck returnTo) \<Longrightarrow>
   (\<exists>u. returnTo = JStr u \<and> same_site u) \<or>
   (\<exists>cookie. map_of (rq_cookies rq) AUTH_TXN_COOKIE_NAME = Some cookie \<and>
      forged hmac fmt (ac_secret cfg) (ay_issued y) cookie)"
proof -
  assume reach: "auth_reachable hmac fmt sha256 cfg y"
    and res: "fst (callback hmac fmt cfg discovered exch t rq (ay_state y)) = Inr (Logged_in se ck returnTo)"
  then obtain s' where cb: "callback hmac fmt cfg discovered exch t rq (ay_state y) = (Inr (Logged_in se ck returnTo), s')"
    by (metis prod.collapse)
  obtain raw txn where raw: "map_of (rq_cookies rq) AUTH_TXN_COOKIE_NAME = Some raw"
    "verifyPayload hmac raw (ac_secret cfg) Txn_purpose (seconds t) = Inr txn" "returnTo = js_prop txn ''returnTo''"
    using cb by (rule callback_Inr)
  show ?thesis
    using accepted_in_system[OF reach raw(2)] raw(1,3) by (auto simp: txn_json_def get_field_def)
qed

subsection \<open>Witnesses\<close>

definition demo_config :: auth_config where
  "demo_config = \<lparr>ac_secret = ''key'', ac_baseUrl = ''http://localhost'', ac_devMode = False, ac_rolesClaim = ''roles'',
     ac_appRoles = [], ac_audited = True\<rparr>"

definition demo_state :: auth_state where
  "demo_state = \<lparr>as_sink = \<lparr>persisted = [], outages = [], logged = []\<rparr>, as_limiter = createLimiter 0\<rparr>"

definition demo_claims :: json where
  "demo_claims = JObj [(''sub'', JStr ''alice''), (''roles'', JArr [JStr ''admin''])]"

definition demo_txn :: json where
  "demo_txn = txn_json (login_request 0 (JStr ''/p/vendors'') ''s'' ''n'' ''v'')"

abbreviation demo_fmt :: "int \<Rightarrow> string" where
  "demo_fmt \<equiv> \<lambda>_. []"

definition demo_login_sys :: auth_sys where
  "demo_login_sys = \<lparr>ay_issued = [(demo_txn, Txn_purpose)], ay_state = demo_state\<rparr>"

definition demo_return :: request where
  "demo_return = \<lparr>rq_url = Some ''/auth/callback'', rq_cookies = [(AUTH_TXN_COOKIE_NAME,
     signPayload toy_hmac demo_fmt demo_txn ''key'' Txn_purpose)], rq_accept = None, rq_contentType = None\<rparr>"

definition demo_user :: session_data where
  "demo_user = createSession ''alice'' None [''admin''] 1 SESSION_TTL_SECONDS"

lemma demo_login_reachable: "auth_reachable toy_hmac demo_fmt id demo_config demo_login_sys"
proof -
  obtain reply where l: "login toy_hmac demo_fmt id demo_config True 0 (JStr ''/p/vendors'') ''s'' ''n'' ''v'' = Inr reply"
    by (simp add: login_def)
  have "auth_step toy_hmac demo_fmt id demo_config \<lparr>ay_issued = [], ay_state = demo_state\<rparr> demo_login_sys"
    using auth_step.login[OF _ l, where i = "[]" and s = demo_state] by (simp add: clock_reading_def demo_login_sys_def demo_txn_def)
  then show ?thesis using auth_reachable.intros by blast
qed

lemma nonempty_token: "\<exists>c cs. signPayload hmac fmt v secret q = c # cs"
  by (simp add: signPayload_def FORMAT_VERSION_def Let_def)

lemma demo_txn_verifies:
  "verifyPayload toy_hmac (signPayload toy_hmac demo_fmt demo_txn ''key'' Txn_purpose) ''key'' Txn_purpose 1 = Inr demo_txn"
proof -
  have ok: "json_ok demo_txn"
    unfolding demo_txn_def by (rule txn_json_ok) (simp_all add: login_request_def seconds_def AUTH_TXN_TTL_SECONDS_def)
  have "js_prop demo_txn ''exp'' = JNum (num_of_int 600)"
    by (simp add: demo_txn_def txn_json_def login_request_def seconds_def AUTH_TXN_TTL_SECONDS_def get_field_def)
  then show ?thesis by (simp add: verify_signed[OF toy_hmac_ok ok])
qed

lemma demo_callback:
  "\<exists>ck s'. callback toy_hmac demo_fmt demo_config True (\<lambda>_ _ _. Some demo_claims) 1000 demo_return demo_state =
     (Inr (Logged_in demo_user ck (JStr ''/p/vendors'')), s')"
proof -
  obtain c cs where tok: "signPayload toy_hmac demo_fmt demo_txn ''key'' Txn_purpose = c # cs" using nonempty_token by blast
  have cookie: "map_of (rq_cookies demo_return) AUTH_TXN_COOKIE_NAME = Some (c # cs)" by (simp add: demo_return_def tok)
  have ver: "verifyPayload toy_hmac (c # cs) (ac_secret demo_config) Txn_purpose (seconds 1000) = Inr demo_txn"
    using demo_txn_verifies unfolding tok by (simp add: demo_config_def seconds_def)
  have sub: "js_prop demo_claims ''sub'' = JStr ''alice''" "session_roles demo_config demo_claims = [''admin'']"
    "claims_email demo_claims = None" "\<not> hasReservedIdentityPrefix ''alice''"
    by (simp_all add: demo_claims_def get_field_def session_roles_def demo_config_def extractRoles_def claims_email_def
        map_filter_simps hasReservedIdentityPrefix_def RESERVED_IDENTITY_PREFIXES_def)
  have dest: "js_prop demo_txn ''returnTo'' = JStr ''/p/vendors''"
    by (simp add: demo_txn_def txn_json_def login_request_def get_field_def sanitizeReturnTo_def control_char_def)
  show ?thesis
    using cookie ver sub dest
    by (simp add: callback_def finish_login_def Let_def demo_user_def seconds_def)
qed

theorem login_redirects_stay_on_site_witness:
  "(\<exists>u. JStr ''/p/vendors'' = JStr u \<and> same_site u) \<or>
   (\<exists>cookie. map_of (rq_cookies demo_return) AUTH_TXN_COOKIE_NAME = Some cookie \<and>
      forged toy_hmac demo_fmt ''key'' [(demo_txn, Txn_purpose)] cookie)"
proof -
  obtain ck s' where "callback toy_hmac demo_fmt demo_config True (\<lambda>_ _ _. Some demo_claims) 1000 demo_return demo_state =
     (Inr (Logged_in demo_user ck (JStr ''/p/vendors'')), s')" using demo_callback by blast
  then have "fst (callback toy_hmac demo_fmt demo_config True (\<lambda>_ _ _. Some demo_claims) 1000 demo_return (ay_state demo_login_sys)) =
     Inr (Logged_in demo_user ck (JStr ''/p/vendors''))" by (simp add: demo_login_sys_def)
  from login_redirects_stay_on_site[OF demo_login_reachable this] show ?thesis
    by (simp add: demo_config_def demo_login_sys_def)
qed

definition demo_page :: request where
  "demo_page = \<lparr>rq_url = Some ''/p/vendors?id=1'', rq_cookies = [(SESSION_COOKIE_NAME,
     signPayload toy_hmac demo_fmt (session_json demo_user) ''key'' Session_purpose)], rq_accept = None, rq_contentType = None\<rparr>"


end
