(* ===== verification/Jail.thy ===== *)
theory Jail
  imports Encoding Js_Json
begin

text \<open>
  One jailed tool run (\<open>sandbox/src/jail-executor.ts\<close>, \<open>bwrap-argv.ts\<close>, \<open>run-id.ts\<close>,
  \<open>entrypoint.ts\<close>, \<open>canary.ts\<close>, \<open>config.ts\<close>).  The child process is a sequence of events in
  the order the supervisor's event loop delivers them: output chunks, the wall-clock timer, and
  the \<open>exit\<close> or \<open>error\<close> event.  Message texts and durations are not modelled.
\<close>

subsection \<open>Run ids\<close>

definition hex_run :: "nat \<Rightarrow> string \<Rightarrow> bool" where
  "hex_run n s \<longleftrightarrow> length s = n \<and> list_all is_hex s"

definition isValidRunId :: "string \<Rightarrow> bool" where
  "isValidRunId v =
     (case split_on CHR ''-'' v of
        [a, b, c, d, e] \<Rightarrow>
          hex_run 8 a \<and> hex_run 4 b \<and> hex_run 4 c \<and> hd c = CHR ''4'' \<and>
          hex_run 4 d \<and> lower_char (hd d) \<in> set ''89ab'' \<and> hex_run 12 e
      | _ \<Rightarrow> False)"

definition extractRunId :: "string \<Rightarrow> string option" where
  "extractRunId workspaceDir =
     (let segments = filter (\<lambda>s. s \<noteq> []) (split_on CHR ''/'' workspaceDir) in
      if segments = [] then None else if isValidRunId (last segments) then Some (last segments) else None)"

subsection \<open>Tool entrypoints\<close>

datatype entrypoint_error = Null_byte | Not_bare_name | Does_not_exist | Not_canonicalizable | Escapes_tool_root | Missing_tool

text \<open>
  \<open>path.relative\<close> on canonical absolute paths given by their segments.
\<close>

fun relative_segments :: "string list \<Rightarrow> string list \<Rightarrow> string list" where
  "relative_segments (a # as) (b # bs) =
     (if a = b then relative_segments as bs else replicate (Suc (length as)) ''..'' @ b # bs)"
| "relative_segments [] bs = bs"
| "relative_segments (a # as) [] = replicate (Suc (length as)) ''..''"

definition relative_path :: "string list \<Rightarrow> string list \<Rightarrow> string" where
  "relative_path root p = join_with ''/'' (relative_segments root p)"

definition bare_name :: "string \<Rightarrow> bool" where
  "bare_name s \<longleftrightarrow> s \<noteq> [] \<and> list_all (\<lambda>c. is_lower c \<or> is_upper c \<or> is_digit c \<or> c = CHR ''_'' \<or> c = CHR ''-'') s"

text \<open>
  The file system is two functions: which candidate files exist, and the canonical path of a path
  (\<^term>\<open>None\<close> when \<open>realpathSync\<close> throws).
\<close>

definition resolveEntrypoint ::
  "(string list \<Rightarrow> bool) \<Rightarrow> (string list \<Rightarrow> string list option) \<Rightarrow> string list \<Rightarrow> string \<Rightarrow> entrypoint_error + string list" where
  "resolveEntrypoint exists real toolRoot entrypoint =
     (if CHR 0x00 \<in> set entrypoint then Inl Null_byte
      else if \<not> bare_name entrypoint then Inl Not_bare_name
      else
        (let candidate = toolRoot @ [entrypoint, ''main.py''] in
         if \<not> exists candidate then Inl Does_not_exist
         else (case (real toolRoot, real candidate) of
             (Some realToolRoot, Some realCandidate) \<Rightarrow>
               (let relative = relative_path realToolRoot realCandidate in
                if starts_with relative ''..'' \<or> starts_with relative ''/'' then Inl Escapes_tool_root
                else Inr realCandidate)
           | _ \<Rightarrow> Inl Not_canonicalizable)))"

subsection \<open>The jail's command line\<close>

record bwrap_options =
  bw_workspaceHostPath :: string
  bw_pythonRoot :: string
  bw_toolRoot :: string
  bw_seccompFd :: nat
  bw_entrypointPath :: string

definition buildBwrapArgv :: "bwrap_options \<Rightarrow> string list" where
  "buildBwrapArgv opts =
     [''--unshare-user'', ''--unshare-pid'', ''--unshare-net'', ''--unshare-ipc'', ''--unshare-uts'',
      ''--die-with-parent'', ''--new-session'', ''--clearenv'',
      ''--setenv'', ''PATH'', ''/usr/bin:/bin'',
      ''--setenv'', ''HOME'', ''/tmp'',
      ''--setenv'', ''PYTHONDONTWRITEBYTECODE'', ''1'',
      ''--ro-bind'', bw_pythonRoot opts, bw_pythonRoot opts,
      ''--ro-bind'', bw_toolRoot opts, bw_toolRoot opts,
      ''--bind'', bw_workspaceHostPath opts, ''/workspace'',
      ''--chdir'', ''/workspace'',
      ''--symlink'', ''usr/lib'', ''/lib'',
      ''--symlink'', ''usr/lib64'', ''/lib64'',
      ''--symlink'', ''usr/bin'', ''/bin'',
      ''--symlink'', ''usr/sbin'', ''/sbin'',
      ''--proc'', ''/proc'',
      ''--ro-bind'', ''/dev/null'', ''/proc/kcore'',
      ''--ro-bind'', ''/dev/null'', ''/proc/keys'',
      ''--ro-bind'', ''/dev/null'', ''/proc/timer_list'',
      ''--ro-bind'', ''/dev/null'', ''/proc/sysrq-trigger'',
      ''--tmpfs'', ''/proc/scsi'',
      ''--tmpfs'', ''/tmp'',
      ''--seccomp'', nat_str (bw_seccompFd opts),
      ''--'', bw_pythonRoot opts @ ''/bin/python3'', bw_entrypointPath opts]"

record jail_limits =
  jl_wallClockMs :: jsnum
  jl_memoryBytes :: jsnum
  jl_maxOutputBytes :: jsnum

definition RLIMIT_NPROC :: nat where "RLIMIT_NPROC = 256"
definition RLIMIT_CPU_SECONDS :: nat where "RLIMIT_CPU_SECONDS = 30"
definition RLIMIT_FSIZE_BYTES :: nat where "RLIMIT_FSIZE_BYTES = 67108864"
definition RLIMIT_NOFILE :: nat where "RLIMIT_NOFILE = 256"
definition SIGSYS_EXIT_CODE :: int where "SIGSYS_EXIT_CODE = 128 + 31"
definition SIGXCPU_EXIT_CODE :: int where "SIGXCPU_EXIT_CODE = 128 + 24"
definition SIGXFSZ_EXIT_CODE :: int where "SIGXFSZ_EXIT_CODE = 128 + 25"

definition prlimit_args :: "jail_limits \<Rightarrow> bwrap_options \<Rightarrow> string list" where
  "prlimit_args limits opts =
     [''--as='' @ num_str (jl_memoryBytes limits), ''--nproc='' @ nat_str RLIMIT_NPROC, ''--nofile='' @ nat_str RLIMIT_NOFILE,
      ''--fsize='' @ nat_str RLIMIT_FSIZE_BYTES, ''--cpu='' @ nat_str RLIMIT_CPU_SECONDS, ''--'', ''bwrap'']
     @ buildBwrapArgv opts"

subsection \<open>Outcomes\<close>

datatype violation = Network_egress | Fs_escape
datatype limit = Wall_clock | Memory | Output_size

datatype jail_outcome =
    Jail_ok json
  | Jail_violation violation
  | Jail_limit limit
  | Jail_tool_error

text \<open>Does the pattern match somewhere, given the character before the current position?\<close>

fun search :: "(char option \<Rightarrow> string \<Rightarrow> bool) \<Rightarrow> char option \<Rightarrow> string \<Rightarrow> bool" where
  "search p prev [] = p prev []"
| "search p prev (c # cs) = (p prev (c # cs) \<or> search p (Some c) cs)"

definition at_word_end :: "string \<Rightarrow> bool" where
  "at_word_end s \<longleftrightarrow> s = [] \<or> \<not> is_word_char (hd s)"

text \<open>\<open>/read-only file system|errno 30\b|\berofs\b/i\<close>\<close>

definition looksLikeFsEscape :: "string \<Rightarrow> bool" where
  "looksLikeFsEscape stderrText =
     search (\<lambda>prev s. starts_with s ''read-only file system'' \<or>
        (starts_with s ''errno 30'' \<and> at_word_end (drop 8 s)) \<or>
        ((case prev of Some c \<Rightarrow> \<not> is_word_char c | None \<Rightarrow> True) \<and> starts_with s ''erofs'' \<and> at_word_end (drop 5 s)))
       None (to_lower stderrText)"

subsection \<open>The supervisor's event handlers\<close>

datatype jail_event = Timer | Stdout bytes | Stderr bytes | Exit "int option" "string option" | Spawn_error

record jail =
  stdoutBytes :: bytes
  stderrBytes :: bytes
  outputCapped :: bool
  timedOut :: bool
  settled :: bool
  killed :: bool
  resolved :: "jail_outcome option"

definition jail_start :: jail where
  "jail_start = \<lparr>stdoutBytes = [], stderrBytes = [], outputCapped = False, timedOut = False, settled = False,
     killed = False, resolved = None\<rparr>"

definition cap_reached :: "jsnum \<Rightarrow> bytes \<Rightarrow> bool" where
  "cap_reached cap bs \<longleftrightarrow> num_leq cap (JsInt (int (length bs)))"

definition stdout_json :: "bytes \<Rightarrow> json" where
  "stdout_json bs =
     (let t = trim (buffer_text bs) in
      if t = [] then JNull else (case json_parse t of Some v \<Rightarrow> v | None \<Rightarrow> JStr t))"

definition classify :: "jail \<Rightarrow> int option \<Rightarrow> string option \<Rightarrow> jail_outcome" where
  "classify j code signal =
     (if signal = Some ''SIGSYS'' \<or> code = Some SIGSYS_EXIT_CODE then Jail_violation Network_egress
      else if code = Some SIGXCPU_EXIT_CODE then Jail_limit Wall_clock
      else if code = Some SIGXFSZ_EXIT_CODE then Jail_limit Output_size
      else if timedOut j then Jail_limit Wall_clock
      else if outputCapped j then Jail_limit Output_size
      else if signal = Some ''SIGKILL'' \<and> code = None then Jail_tool_error
      else if code = Some 0 then Jail_ok (stdout_json (stdoutBytes j))
      else if contains_str (buffer_text (stderrBytes j)) ''MemoryError'' then Jail_limit Memory
      else if looksLikeFsEscape (buffer_text (stderrBytes j)) then Jail_violation Fs_escape
      else Jail_tool_error)"

text \<open>The timer is cleared when the run settles, so a later \<open>Timer\<close> event does nothing.\<close>

definition on_event :: "jail_limits \<Rightarrow> jail \<Rightarrow> jail_event \<Rightarrow> jail" where
  "on_event limits j e =
     (case e of
        Timer \<Rightarrow> if settled j then j else j\<lparr>timedOut := True, killed := True\<rparr>
      | Stdout chunk \<Rightarrow>
          if cap_reached (jl_maxOutputBytes limits) (stdoutBytes j) then j\<lparr>outputCapped := True\<rparr>
          else (let bs = take (nat (num_floor (jl_maxOutputBytes limits))) (stdoutBytes j @ chunk) in
                j\<lparr>stdoutBytes := bs, outputCapped := outputCapped j \<or> cap_reached (jl_maxOutputBytes limits) bs\<rparr>)
      | Stderr chunk \<Rightarrow> j\<lparr>stderrBytes := take 4096 (stderrBytes j @ chunk)\<rparr>
      | Exit code signal \<Rightarrow>
          if settled j then j else j\<lparr>settled := True, resolved := Some (classify j code signal)\<rparr>
      | Spawn_error \<Rightarrow> if settled j then j else j\<lparr>settled := True, resolved := Some Jail_tool_error\<rparr>)"

definition runJail :: "jail_limits \<Rightarrow> jail_event list \<Rightarrow> jail" where
  "runJail limits evs = foldl (on_event limits) jail_start evs"

subsection \<open>The boot canary\<close>

definition EXPECTED_ASSERTION_NAMES :: "string list" where
  "EXPECTED_ASSERTION_NAMES =
     [''no_network_interface'', ''toolchain_ro'', ''host_path_absent'', ''rlimits_applied'', ''af_inet_socket_killed_by_sigsys'',
      ''no_new_privs'', ''nested_userns_killed'', ''clone3_returns_enosys'', ''sensitive_proc_masked'']"

record canary_result =
  cr_ok :: bool
  cr_assertions :: "(string \<times> bool) list"

definition canary_failure :: canary_result where
  "canary_failure = \<lparr>cr_ok = False, cr_assertions = [(''canary_jail_execution'', False)]\<rparr>"

definition runBootCanary :: "string \<Rightarrow> int option \<Rightarrow> canary_result" where
  "runBootCanary stdout exitCode =
     (if exitCode \<noteq> Some 0 then canary_failure
      else (case json_parse stdout of
          None \<Rightarrow> canary_failure
        | Some report \<Rightarrow>
            if \<not> is_object report then canary_failure
            else (let assertions = map (\<lambda>n. (n, js_prop report n = JBool True)) EXPECTED_ASSERTION_NAMES in
                  \<lparr>cr_ok = list_all snd assertions, cr_assertions = assertions\<rparr>)))"

subsection \<open>Configuration\<close>

record sandbox_config =
  sc_token :: string
  sc_workspaceRoot :: string
  sc_pythonRoot :: string
  sc_toolRoot :: string
  sc_seccompBpfPath :: string
  sc_port :: int

datatype sandbox_config_error = Token_too_short | Port_invalid

definition env_or :: "(string \<rightharpoonup> string) \<Rightarrow> string \<Rightarrow> string \<Rightarrow> string" where
  "env_or env name fallback = (case env name of Some v \<Rightarrow> v | None \<Rightarrow> fallback)"

definition sandboxConfigFromEnv :: "(string \<rightharpoonup> string) \<Rightarrow> sandbox_config_error + sandbox_config" where
  "sandboxConfigFromEnv env =
     (case env ''SANDBOX_TOKEN'' of
        None \<Rightarrow> Inl Token_too_short
      | Some token \<Rightarrow>
          if length token < 32 then Inl Token_too_short
          else (case int_of_num (str_to_num (env_or env ''PORT'' ''8443'')) of
              Some port \<Rightarrow>
                if port \<le> 0 then Inl Port_invalid
                else Inr \<lparr>sc_token = token, sc_workspaceRoot = env_or env ''SANDBOX_WORKSPACE_ROOT'' ''/workspaces'',
                       sc_pythonRoot = env_or env ''SANDBOX_PYTHON_ROOT'' ''/usr'',
                       sc_toolRoot = env_or env ''SANDBOX_TOOL_ROOT'' ''/opt/sandbox-tools'',
                       sc_seccompBpfPath = env_or env ''SANDBOX_SECCOMP_BPF_PATH'' ''/opt/sandbox/seccomp/tool.bpf'',
                       sc_port = port\<rparr>
            | None \<Rightarrow> Inl Port_invalid))"

subsection \<open>Whole-number limits\<close>

lemma int_num_leq:
  assumes "int_of_num a = Some n"
  shows "num_leq a (JsInt k) \<longleftrightarrow> n \<le> k" "num_floor a = n"
proof -
  obtain m e where a: "a = Dec m e" using assms by (cases a) auto
  have "(num_leq a (JsInt k) \<longleftrightarrow> n \<le> k) \<and> num_floor a = n"
  proof (cases "0 \<le> e")
    case True
    then show ?thesis using assms by (auto simp: a num_leq_def num_floor_def scale_def min_def)
  next
    case False
    then have dvd: "m mod 10 ^ nat (- e) = 0" "n = m div 10 ^ nat (- e)"
      using assms by (auto simp: a split: if_splits)
    then have m: "m = n * 10 ^ nat (- e)" by (metis mult.commute mult_div_mod_eq add.right_neutral)
    have mn: "min e 0 = e" using False by simp
    have sc: "scale m e e = n * 10 ^ nat (- e)" "scale k 0 e = k * 10 ^ nat (- e)" using m by (simp_all add: scale_def)
    have pos: "(0 :: int) < 10 ^ nat (- e)" by simp
    have "num_leq a (JsInt k) \<longleftrightarrow> n * 10 ^ nat (- e) < k * 10 ^ nat (- e) \<or> n * 10 ^ nat (- e) = k * 10 ^ nat (- e)"
      by (simp only: a num_leq_def num_less.simps num_eq.simps mn sc)
    also have "\<dots> \<longleftrightarrow> n \<le> k"
      using mult_less_cancel_right_pos[OF pos] pos by (simp add: order_le_less)
    finally show ?thesis using False dvd(2) by (simp add: a num_floor_def)
  qed
  then show "num_leq a (JsInt k) \<longleftrightarrow> n \<le> k" "num_floor a = n" by auto
qed

subsection \<open>The run settles once\<close>

definition terminal :: "jail_event \<Rightarrow> bool" where
  "terminal e = (case e of Exit _ _ \<Rightarrow> True | Spawn_error \<Rightarrow> True | _ \<Rightarrow> False)"

fun stdout_of :: "jail_event list \<Rightarrow> bytes" where
  "stdout_of [] = []"
| "stdout_of (Stdout c # evs) = c @ stdout_of evs"
| "stdout_of (_ # evs) = stdout_of evs"

lemma stdout_of_append [simp]: "stdout_of (a @ b) = stdout_of a @ stdout_of b"
  by (induction a rule: stdout_of.induct) auto

lemma runJail_snoc: "runJail limits (evs @ [e]) = on_event limits (runJail limits evs) e"
  by (simp add: runJail_def)

lemma runJail_append: "runJail limits (a @ b) = foldl (on_event limits) (runJail limits a) b"
  by (simp add: runJail_def)

lemma settled_stays: "settled j \<Longrightarrow> settled (foldl (on_event limits) j evs) \<and> resolved (foldl (on_event limits) j evs) = resolved j"
  by (induction evs arbitrary: j) (auto simp: on_event_def Let_def split: jail_event.splits)

lemma runJail_pending:
  "\<forall>x \<in> set evs. \<not> terminal x \<Longrightarrow>
   \<not> settled (runJail limits evs) \<and> resolved (runJail limits evs) = None \<and> timedOut (runJail limits evs) = (Timer \<in> set evs)"
proof (induction evs rule: rev_induct)
  case Nil
  then show ?case by (simp add: runJail_def jail_start_def)
next
  case (snoc e evs)
  then show ?case by (auto simp: runJail_snoc on_event_def terminal_def Let_def split: jail_event.splits)
qed

lemma runJail_output:
  assumes cap: "int_of_num (jl_maxOutputBytes limits) = Some n" "0 < n"
  shows "\<forall>x \<in> set evs. \<not> terminal x \<Longrightarrow>
   stdoutBytes (runJail limits evs) = take (nat n) (stdout_of evs) \<and>
   outputCapped (runJail limits evs) = (n \<le> int (length (stdout_of evs)))"
proof (induction evs rule: rev_induct)
  case Nil
  then show ?case using cap(2) by (simp add: runJail_def jail_start_def)
next
  case (snoc e evs)
  then have IH: "stdoutBytes (runJail limits evs) = take (nat n) (stdout_of evs)"
    "outputCapped (runJail limits evs) = (n \<le> int (length (stdout_of evs)))" by auto
  have reached: "cap_reached (jl_maxOutputBytes limits) bs \<longleftrightarrow> nat n \<le> length bs" for bs
    unfolding cap_reached_def int_num_leq(1)[OF cap(1)] by (simp add: nat_le_iff)
  show ?case
  proof (cases e)
    case (Stdout chunk)
    then show ?thesis
      using IH cap(2) by (auto simp: runJail_snoc on_event_def Let_def reached int_num_leq(2)[OF cap(1)] min_def)
  qed (use IH snoc.prems in \<open>auto simp: runJail_snoc on_event_def terminal_def\<close>)
qed

lemma first_terminal:
  "\<exists>e \<in> set evs. terminal e \<Longrightarrow> \<exists>pre e post. evs = pre @ e # post \<and> terminal e \<and> (\<forall>x \<in> set pre. \<not> terminal x)"
  using split_list_first_prop[of evs terminal] by blast

lemma runJail_settles:
  assumes "evs = pre @ e # post" "terminal e" "\<forall>x \<in> set pre. \<not> terminal x"
  shows "resolved (runJail limits evs) =
    Some (case e of Exit code signal \<Rightarrow> classify (runJail limits pre) code signal | _ \<Rightarrow> Jail_tool_error)"
proof -
  have "resolved (on_event limits (runJail limits pre) e) =
      Some (case e of Exit code signal \<Rightarrow> classify (runJail limits pre) code signal | _ \<Rightarrow> Jail_tool_error)"
    and "settled (on_event limits (runJail limits pre) e)"
    using runJail_pending[OF assms(3), of limits] assms(2) by (auto simp: on_event_def terminal_def split: jail_event.splits)
  then show ?thesis
    using settled_stays[of "on_event limits (runJail limits pre) e" limits post] by (simp add: assms(1) runJail_append)
qed


definition demo_limits :: jail_limits where
  "demo_limits = \<lparr>jl_wallClockMs = JsInt 1000, jl_memoryBytes = JsInt 1000000, jl_maxOutputBytes = JsInt 5\<rparr>"


text \<open>
  A kernel kill by the seccomp filter is never masked by a timeout or a full output buffer: it is
  always reported as a violation.
\<close>

lemma seccomp_kill_is_reported:
  assumes "evs = pre @ Exit (Some 159) signal # post" "\<forall>x \<in> set pre. \<not> terminal x"
  shows "resolved (runJail limits evs) = Some (Jail_violation Network_egress)"
  using runJail_settles[OF assms(1) _ assms(2), of limits] by (simp add: terminal_def classify_def SIGSYS_EXIT_CODE_def)

text \<open>
  The supervisor settles on \<open>exit\<close>, which Node may deliver before the last output chunk: the rest of
  the output is then lost, and the run is still reported as a success.
\<close>

lemma late_output_is_lost:
  "resolved (runJail demo_limits [Exit (Some 0) None, Stdout [52, 50]]) = Some (Jail_ok JNull)"
  by code_simp

text \<open>A fractional cap is accepted by the server, truncates the output and never flags it.\<close>

lemma fractional_cap_truncates_silently:
  "resolved (runJail (demo_limits\<lparr>jl_maxOutputBytes := Dec 15 (-1)\<rparr>) [Stdout [52, 50, 55], Exit (Some 0) None]) =
     Some (Jail_ok (JNum (Dec 4 0)))"
  by code_simp

subsection \<open>Entrypoints\<close>

lemma join_starts: "join_with sep (x # xs) = x @ (if xs = [] then [] else sep @ join_with sep xs)"
  by (cases xs) auto

lemma relative_outside:
  "\<not> prefix root p \<Longrightarrow> starts_with (relative_path root p) ''..''"
proof (induction root p rule: relative_segments.induct)
  case (1 a as b bs)
  show ?case
  proof (cases "a = b")
    case True
    then show ?thesis using 1 by (simp add: relative_path_def)
  next
    case False
    then have "relative_path (a # as) (b # bs) = join_with ''/'' (''..'' # replicate (length as) ''..'' @ b # bs)"
      by (simp add: relative_path_def)
    then show ?thesis by (simp only: join_starts) (simp add: prefix_def)
  qed
next
  case (2 bs)
  then show ?case by simp
next
  case (3 a as)
  then show ?case by (simp add: relative_path_def join_starts del: join_with.simps)
qed

text \<open>
  An entrypoint that resolves is a bare name, and the canonical path that will be executed lies
  in the canonical tool root, whatever links the file system contains.
\<close>

theorem entrypoint_stays_in_tool_root:
  "resolveEntrypoint exists real toolRoot entrypoint = Inr p \<Longrightarrow>
   bare_name entrypoint \<and> (\<exists>root. real toolRoot = Some root \<and> prefix root p) \<and>
   real (toolRoot @ [entrypoint, ''main.py'']) = Some p \<and> exists (toolRoot @ [entrypoint, ''main.py''])"
  using relative_outside by (fastforce simp: resolveEntrypoint_def Let_def split: if_splits option.splits)

definition demo_real :: "string list \<Rightarrow> string list option" where
  "demo_real p = (if p = [''opt'', ''tools''] then Some [''srv'', ''tools''] else
     if p = [''opt'', ''tools'', ''scan'', ''main.py''] then Some [''srv'', ''tools'', ''v2'', ''main.py''] else
     if p = [''opt'', ''tools'', ''evil'', ''main.py''] then Some [''etc'', ''passwd''] else None)"

theorem entrypoint_stays_in_tool_root_witness:
  "bare_name ''scan'' \<and> prefix [''srv'', ''tools''] [''srv'', ''tools'', ''v2'', ''main.py''] \<and>
   resolveEntrypoint (\<lambda>_. True) demo_real [''opt'', ''tools''] ''evil'' = Inl Escapes_tool_root"
proof -
  have "resolveEntrypoint (\<lambda>_. True) demo_real [''opt'', ''tools''] ''scan'' = Inr [''srv'', ''tools'', ''v2'', ''main.py'']"
    by code_simp
  moreover have "resolveEntrypoint (\<lambda>_. True) demo_real [''opt'', ''tools''] ''evil'' = Inl Escapes_tool_root" by code_simp
  ultimately show ?thesis using entrypoint_stays_in_tool_root[of "\<lambda>_. True" demo_real] by (fastforce simp: demo_real_def)
qed

end
