(* ===== verification/Semaphore.thy ===== *)
theory Semaphore
  imports Prelude
begin

text \<open>
  The bounded concurrency gate of the sandbox supervisor (\<open>sandbox/src/concurrency.ts\<close>).  A call of
  \<open>acquire\<close> carries a ticket; the release function it is eventually given is the handle of the same
  number, and \<open>handles\<close> holds the \<open>released\<close> flag of each release function made so far.
\<close>

record semaphore =
  active :: nat
  queue :: "nat list"
  handles :: "(nat \<times> bool) list"

datatype ticket_result = Granted | Queued | At_capacity

definition makeRelease :: "nat \<Rightarrow> semaphore \<Rightarrow> semaphore" where
  "makeRelease i s = s\<lparr>handles := (i, False) # handles s\<rparr>"

definition new_semaphore :: "int \<Rightarrow> int \<Rightarrow> semaphore option" where
  "new_semaphore maxConcurrent maxQueueDepth =
     (if maxConcurrent < 1 \<or> maxQueueDepth < 0 then None else Some \<lparr>active = 0, queue = [], handles = []\<rparr>)"

definition acquire :: "nat \<Rightarrow> nat \<Rightarrow> nat \<Rightarrow> semaphore \<Rightarrow> ticket_result \<times> semaphore" where
  "acquire maxConcurrent maxQueueDepth i s =
     (if active s < maxConcurrent then (Granted, makeRelease i (s\<lparr>active := active s + 1\<rparr>))
      else if length (queue s) < maxQueueDepth then (Queued, s\<lparr>queue := queue s @ [i]\<rparr>)
      else (At_capacity, s))"

text \<open>Calling the release function \<open>i\<close>; the result names the waiter that gets the slot.\<close>

definition release :: "nat \<Rightarrow> semaphore \<Rightarrow> nat option \<times> semaphore" where
  "release i s =
     (if map_of (handles s) i \<noteq> Some False then (None, s)
      else
        (let s1 = s\<lparr>handles := map_set i True (handles s)\<rparr> in
         case queue s1 of
           next' # rest \<Rightarrow> (Some next', makeRelease next' (s1\<lparr>queue := rest\<rparr>))
         | [] \<Rightarrow> (None, s1\<lparr>active := active s1 - 1\<rparr>)))"

subsection \<open>The interface\<close>

text \<open>
  What a client of a bounded gate relies on: \<open>holders\<close> have a slot, \<open>waiting\<close> is the queue in
  order of arrival, and tickets are used once.
\<close>

locale bounded_gate =
  fixes acq :: "nat \<Rightarrow> 's \<Rightarrow> ticket_result \<times> 's"
    and rel :: "nat \<Rightarrow> 's \<Rightarrow> nat option \<times> 's"
    and holders :: "'s \<Rightarrow> nat set"
    and waiting :: "'s \<Rightarrow> nat list"
    and used :: "'s \<Rightarrow> nat set"
    and inv :: "'s \<Rightarrow> bool"
    and slots :: nat
    and depth :: nat
  assumes inv_bounds: "inv s \<Longrightarrow> finite (holders s) \<and> card (holders s) \<le> slots \<and> length (waiting s) \<le> depth"
    and inv_disjoint: "inv s \<Longrightarrow> distinct (waiting s) \<and> holders s \<inter> set (waiting s) = {} \<and>
          holders s \<subseteq> used s \<and> set (waiting s) \<subseteq> used s"
    and inv_busy: "inv s \<Longrightarrow> waiting s \<noteq> [] \<Longrightarrow> card (holders s) = slots"
    and acq_inv: "inv s \<Longrightarrow> i \<notin> used s \<Longrightarrow> inv (snd (acq i s))"
    and rel_inv: "inv s \<Longrightarrow> inv (snd (rel i s))"
    and acq_free: "inv s \<Longrightarrow> i \<notin> used s \<Longrightarrow> card (holders s) < slots \<Longrightarrow> acq i s = (r, s') \<Longrightarrow>
          r = Granted \<and> holders s' = insert i (holders s) \<and> waiting s' = waiting s \<and> used s' = insert i (used s)"
    and acq_queue: "inv s \<Longrightarrow> i \<notin> used s \<Longrightarrow> card (holders s) = slots \<Longrightarrow> length (waiting s) < depth \<Longrightarrow> acq i s = (r, s') \<Longrightarrow>
          r = Queued \<and> holders s' = holders s \<and> waiting s' = waiting s @ [i] \<and> used s' = insert i (used s)"
    and acq_full: "inv s \<Longrightarrow> i \<notin> used s \<Longrightarrow> card (holders s) = slots \<Longrightarrow> length (waiting s) = depth \<Longrightarrow> acq i s = (r, s') \<Longrightarrow>
          r = At_capacity \<and> s' = s"
    and rel_held: "inv s \<Longrightarrow> i \<in> holders s \<Longrightarrow> rel i s = (g, s') \<Longrightarrow>
          (case waiting s of
             [] \<Rightarrow> g = None \<and> holders s' = holders s - {i} \<and> waiting s' = []
           | w # ws \<Rightarrow> g = Some w \<and> holders s' = insert w (holders s - {i}) \<and> waiting s' = ws) \<and> used s' = used s"
    and rel_other: "inv s \<Longrightarrow> i \<notin> holders s \<Longrightarrow> rel i s = (None, s)"
begin

text \<open>The three outcomes are exhaustive.\<close>

lemma acq_cases:
  assumes "inv s" "i \<notin> used s" "acq i s = (r, s')"
  obtains "r = Granted" "holders s' = insert i (holders s)" "waiting s' = waiting s" "used s' = insert i (used s)"
  | "r = Queued" "holders s' = holders s" "waiting s' = waiting s @ [i]" "used s' = insert i (used s)"
  | "r = At_capacity" "s' = s"
  using acq_free[OF assms(1,2) _ assms(3)] acq_queue[OF assms(1,2) _ _ assms(3)] acq_full[OF assms(1,2) _ _ assms(3)]
    inv_bounds[OF assms(1)] by (metis le_neq_implies_less)

text \<open>A sequence of releases and the waiters it admits.\<close>

primrec release_each :: "nat list \<Rightarrow> 's \<Rightarrow> nat list \<times> 's" where
  "release_each [] s = ([], s)"
| "release_each (i # is) s =
     (case rel i s of (r, s1) \<Rightarrow> case release_each is s1 of (ws, s2) \<Rightarrow> ((case r of Some w \<Rightarrow> w # ws | None \<Rightarrow> ws), s2))"

text \<open>Each release was by a holder at its time.\<close>

primrec all_held :: "nat list \<Rightarrow> 's \<Rightarrow> bool" where
  "all_held [] s = True"
| "all_held (i # is) s = (i \<in> holders s \<and> all_held is (snd (rel i s)))"

lemma release_each_admits:
  "inv s \<Longrightarrow> all_held is s \<Longrightarrow> release_each is s = (ws, s') \<Longrightarrow>
   ws = take (length is) (waiting s) \<and> waiting s' = drop (length is) (waiting s) \<and> inv s'"
proof (induction "is" arbitrary: s ws s')
  case (Cons i "is")
  obtain r s1 where r: "rel i s = (r, s1)" by force
  obtain ws1 s2 where rest: "release_each is s1 = (ws1, s2)" by force
  have s1: "inv s1" "all_held is s1" using rel_inv[OF Cons.prems(1), of i] r Cons.prems(2) by simp_all
  note IH = Cons.IH[OF s1 rest]
  show ?case
    using rel_held[OF Cons.prems(1) _ r] Cons.prems(2,3) r rest IH by (auto split: list.splits)
qed simp

end

subsection \<open>The semaphore provides it\<close>

definition sem_holders :: "semaphore \<Rightarrow> nat set" where
  "sem_holders s = {i. map_of (handles s) i = Some False}"

definition sem_used :: "semaphore \<Rightarrow> nat set" where
  "sem_used s = fst ` set (handles s) \<union> set (queue s)"

definition sem_inv :: "nat \<Rightarrow> nat \<Rightarrow> semaphore \<Rightarrow> bool" where
  "sem_inv slots depth s \<longleftrightarrow>
     active s = card (sem_holders s) \<and> active s \<le> slots \<and> length (queue s) \<le> depth \<and>
     distinct (queue s) \<and> fst ` set (handles s) \<inter> set (queue s) = {} \<and> (queue s \<noteq> [] \<longrightarrow> active s = slots)"

lemma key_of_entry: "map_of m i = Some b \<Longrightarrow> i \<in> fst ` set m"
  by (metis domI dom_map_of_conv_image_fst)

lemma sem_holders_used: "sem_holders s \<subseteq> fst ` set (handles s)"
  by (auto simp: sem_holders_def intro: key_of_entry)

lemma finite_holders [simp]: "finite (sem_holders s)"
  by (rule finite_subset[OF sem_holders_used]) simp

lemma sem_holders_makeRelease [simp]: "sem_holders (makeRelease i s) = insert i (sem_holders s)"
  by (auto simp: sem_holders_def makeRelease_def)

lemma keys_map_set_image [simp]: "fst ` set (map_set i b m) = insert i (fst ` set m)"
  by (induction i b m rule: map_set.induct) auto

lemma sem_update_simps [simp]:
  "sem_holders (s\<lparr>active := n\<rparr>) = sem_holders s" "sem_holders (s\<lparr>queue := q\<rparr>) = sem_holders s"
  "sem_holders (s\<lparr>handles := map_set i True (handles s)\<rparr>) = sem_holders s - {i}"
  "active (makeRelease i s) = active s" "queue (makeRelease i s) = queue s" "handles (makeRelease i s) = (i, False) # handles s"
  by (auto simp: sem_holders_def makeRelease_def split: if_splits)

lemma held_key: "i \<in> sem_holders s \<Longrightarrow> insert i (fst ` set (handles s)) = fst ` set (handles s)"
  using sem_holders_used[of s] by blast

lemma acquire_inv:
  assumes "sem_inv slots depth s" "i \<notin> sem_used s"
  shows "sem_inv slots depth (snd (acquire slots depth i s))"
proof -
  have "i \<notin> sem_holders s" using assms(2) sem_holders_used[of s] by (auto simp: sem_used_def)
  then show ?thesis using assms by (auto simp: acquire_def sem_inv_def sem_used_def)
qed

lemma release_held:
  assumes "sem_inv slots depth s" "i \<in> sem_holders s"
  shows "release i s =
    (case queue s of
       w # ws \<Rightarrow> (Some w, makeRelease w (s\<lparr>handles := map_set i True (handles s), queue := ws\<rparr>))
     | [] \<Rightarrow> (None, s\<lparr>handles := map_set i True (handles s), active := active s - 1\<rparr>))"
  using assms(2) by (auto simp: release_def sem_holders_def Let_def split: list.splits)

lemma release_inv: "sem_inv slots depth s \<Longrightarrow> sem_inv slots depth (snd (release i s))"
proof (cases "i \<in> sem_holders s")
  case False
  then show "sem_inv slots depth s \<Longrightarrow> ?thesis" by (simp add: release_def sem_holders_def)
next
  case True
  assume inv: "sem_inv slots depth s"
  have key: "insert i (fst ` set (handles s)) = fst ` set (handles s)"
    by (rule held_key[OF True])
  show ?thesis
  proof (cases "queue s")
    case Nil
    then show ?thesis using inv True release_held[OF inv True] by (auto simp: sem_inv_def key)
  next
    case (Cons w ws)
    have w: "w \<notin> sem_holders s" using inv Cons sem_holders_used[of s] by (auto simp: sem_inv_def)
    have "0 < card (sem_holders s)" using True by (auto simp: card_gt_0_iff)
    then have "card (insert w (sem_holders s - {i})) = card (sem_holders s)"
      using True w by simp
    then show ?thesis using inv Cons release_held[OF inv True] by (auto simp: sem_inv_def key)
  qed
qed

interpretation sem: bounded_gate "acquire slots depth" release sem_holders queue sem_used "sem_inv slots depth" slots depth
  for slots depth
proof unfold_locales
  fix s i and r :: ticket_result and g s'
  assume inv: "sem_inv slots depth s"
  show "finite (sem_holders s) \<and> card (sem_holders s) \<le> slots \<and> length (queue s) \<le> depth"
    using inv by (simp add: sem_inv_def)
  show "distinct (queue s) \<and> sem_holders s \<inter> set (queue s) = {} \<and> sem_holders s \<subseteq> sem_used s \<and> set (queue s) \<subseteq> sem_used s"
    using inv sem_holders_used[of s] by (auto simp: sem_inv_def sem_used_def)
  show "queue s \<noteq> [] \<Longrightarrow> card (sem_holders s) = slots" using inv by (simp add: sem_inv_def)
  show "sem_inv slots depth (snd (release i s))" by (rule release_inv[OF inv])
  show "i \<notin> sem_holders s \<Longrightarrow> release i s = (None, s)" by (simp add: release_def sem_holders_def)
  show "i \<notin> sem_used s \<Longrightarrow> sem_inv slots depth (snd (acquire slots depth i s))" by (rule acquire_inv[OF inv])
  show "i \<notin> sem_used s \<Longrightarrow> card (sem_holders s) < slots \<Longrightarrow> acquire slots depth i s = (r, s') \<Longrightarrow>
      r = Granted \<and> sem_holders s' = insert i (sem_holders s) \<and> queue s' = queue s \<and> sem_used s' = insert i (sem_used s)"
    using inv by (auto simp: acquire_def sem_inv_def sem_used_def)
  show "i \<notin> sem_used s \<Longrightarrow> card (sem_holders s) = slots \<Longrightarrow> length (queue s) < depth \<Longrightarrow> acquire slots depth i s = (r, s') \<Longrightarrow>
      r = Queued \<and> sem_holders s' = sem_holders s \<and> queue s' = queue s @ [i] \<and> sem_used s' = insert i (sem_used s)"
    using inv by (auto simp: acquire_def sem_inv_def sem_used_def)
  show "i \<notin> sem_used s \<Longrightarrow> card (sem_holders s) = slots \<Longrightarrow> length (queue s) = depth \<Longrightarrow> acquire slots depth i s = (r, s') \<Longrightarrow>
      r = At_capacity \<and> s' = s"
    using inv by (auto simp: acquire_def sem_inv_def)
  assume held: "i \<in> sem_holders s" and rel: "release i s = (g, s')"
  have key: "insert i (fst ` set (handles s)) = fst ` set (handles s)"
    by (rule held_key[OF held])
  show "(case queue s of
        [] \<Rightarrow> g = None \<and> sem_holders s' = sem_holders s - {i} \<and> queue s' = []
      | w # ws \<Rightarrow> g = Some w \<and> sem_holders s' = insert w (sem_holders s - {i}) \<and> queue s' = ws) \<and> sem_used s' = sem_used s"
    using release_held[OF inv held] rel by (auto simp: sem_used_def key split: list.splits)
qed

subsection \<open>Every sequence of calls\<close>

inductive sem_reachable :: "nat \<Rightarrow> nat \<Rightarrow> semaphore \<Rightarrow> bool" for slots depth where
  start: "new_semaphore (int slots) (int depth) = Some s \<Longrightarrow> sem_reachable slots depth s"
| acquire: "sem_reachable slots depth s \<Longrightarrow> i \<notin> sem_used s \<Longrightarrow> sem_reachable slots depth (snd (acquire slots depth i s))"
| release: "sem_reachable slots depth s \<Longrightarrow> sem_reachable slots depth (snd (release i s))"

lemma sem_reachable_inv: "sem_reachable slots depth s \<Longrightarrow> sem_inv slots depth s"
proof (induction rule: sem_reachable.induct)
  case (start s)
  then show ?case by (auto simp: new_semaphore_def sem_inv_def sem_holders_def split: if_splits)
qed (auto intro: acquire_inv release_inv)

fun releases :: "nat list \<Rightarrow> semaphore \<Rightarrow> nat list \<times> semaphore" where
  "releases [] s = ([], s)"
| "releases (i # is) s =
     (case release i s of (g, s1) \<Rightarrow> case releases is s1 of (ws, s2) \<Rightarrow> ((case g of Some w \<Rightarrow> w # ws | None \<Rightarrow> ws), s2))"

fun held_in_turn :: "nat list \<Rightarrow> semaphore \<Rightarrow> bool" where
  "held_in_turn [] s = True"
| "held_in_turn (i # is) s = (i \<in> sem_holders s \<and> held_in_turn is (snd (release i s)))"

lemma releases_each: "releases is s = sem.release_each is s" "held_in_turn is s = sem.all_held is s"
  by (induction "is" arbitrary: s) (simp_all split: prod.splits option.splits)

text \<open>
  C36.  The gate bounds both the running and the waiting executions and nobody waits while a slot is
  free; a release function frees its slot once; and the waiters get the freed slots strictly in
  the order in which they arrived: after n releases by holders, exactly the first n waiters have
  been admitted.
\<close>

theorem semaphore_is_bounded_and_fair:
  "sem_reachable slots depth s \<Longrightarrow>
   card (sem_holders s) \<le> slots \<and> length (queue s) \<le> depth \<and> (queue s \<noteq> [] \<longrightarrow> card (sem_holders s) = slots) \<and>
   (\<forall>i. i \<notin> sem_holders s \<longrightarrow> release i s = (None, s)) \<and>
   (\<forall>is. held_in_turn is s \<longrightarrow>
      fst (releases is s) = take (length is) (queue s) \<and> queue (snd (releases is s)) = drop (length is) (queue s))"
proof -
  assume "sem_reachable slots depth s"
  then have inv: "sem_inv slots depth s" by (rule sem_reachable_inv)
  have "fst (releases is s) = take (length is) (queue s) \<and> queue (snd (releases is s)) = drop (length is) (queue s)"
    if "held_in_turn is s" for "is"
    using sem.release_each_admits[OF inv, of "is"] that by (metis prod.collapse releases_each)
  then show ?thesis using sem.inv_bounds[OF inv] sem.inv_busy[OF inv] sem.rel_other[OF inv] by blast
qed

definition two_waiters :: semaphore where
  "two_waiters = (let a = (\<lambda>i s. snd (acquire 1 2 i s)) in a 3 (a 2 (a 1 \<lparr>active = 0, queue = [], handles = []\<rparr>)))"

lemma two_waiters_reachable: "sem_reachable 1 2 two_waiters"
  unfolding two_waiters_def Let_def
  by (intro sem_reachable.acquire sem_reachable.start) (simp_all add: new_semaphore_def sem_used_def acquire_def makeRelease_def)

theorem semaphore_is_bounded_and_fair_witness:
  "held_in_turn [1, 2] two_waiters \<and> fst (releases [1, 2] two_waiters) = [2, 3] \<and> queue two_waiters = [2, 3]"
proof -
  have q: "queue two_waiters = [2, 3]" and h: "held_in_turn [1, 2] two_waiters"
    by (simp_all add: two_waiters_def acquire_def makeRelease_def release_def sem_holders_def)
  show ?thesis using semaphore_is_bounded_and_fair[OF two_waiters_reachable] q h by fastforce
qed

end
