(* ===== verification/Bearer.thy ===== *)
theory Bearer
  imports Encoding
begin

text \<open>
  Reading a bearer credential from an \<open>Authorization\<close> header and comparing it with the expected
  one, as \<open>sandbox/src/server.ts\<close>, \<open>sandbox/src/token-auth.ts\<close>, \<open>mcp/src/server.ts\<close> and
  \<open>runtime/src/a2a.ts\<close> do.  SHA-256 is a parameter.
\<close>

text \<open>\<open>/^Bearer\s+(.+)$/i\<close> on the trimmed header; the dot stops at line ends.\<close>

definition extractBearer :: "string option \<Rightarrow> string option" where
  "extractBearer header =
     (case header of
        None \<Rightarrow> None
      | Some h \<Rightarrow>
          (let v = trim h; rest = drop 6 v; cred = dropWhile is_space rest in
           if to_lower (take 6 v) = ''bearer'' \<and> rest \<noteq> cred \<and> cred \<noteq> [] \<and> list_all (\<lambda>c. c \<noteq> CHR 0x0A \<and> c \<noteq> CHR 0x0D) cred
           then Some (trim cred) else None))"

definition hashToken :: "(bytes \<Rightarrow> bytes) \<Rightarrow> string \<Rightarrow> bytes" where
  "hashToken sha256 token = sha256 (utf8_encode token)"

definition tokensMatch :: "(bytes \<Rightarrow> bytes) \<Rightarrow> string \<Rightarrow> string \<Rightarrow> bool" where
  "tokensMatch sha256 presented expected \<longleftrightarrow> hashToken sha256 presented = hashToken sha256 expected"

text \<open>Same length and same bytes.\<close>

definition constantTimeEquals :: "string \<Rightarrow> string \<Rightarrow> bool" where
  "constantTimeEquals a b \<longleftrightarrow>
     length (utf8_encode a) = length (utf8_encode b) \<and> utf8_encode a = utf8_encode b"

lemma constantTimeEquals_eq [simp]: "constantTimeEquals a b \<longleftrightarrow> a = b"
  using utf8_encode_inj by (auto simp: constantTimeEquals_def)

lemma tokensMatch_cases: "tokensMatch sha256 a b \<Longrightarrow> a = b \<or> (\<exists>x y. x \<noteq> y \<and> sha256 x = sha256 y)"
  using utf8_encode_inj unfolding tokensMatch_def hashToken_def by blast

end
