(* ===== verification/Sandbox.thy ===== *)
theory Sandbox
  imports Jail Semaphore Bearer
begin

text \<open>
  The sandbox sidecar: its HTTP server (\<open>sandbox/src/server.ts\<close>), the workspace directories
  (\<open>workspace.ts\<close>) and the client the runtime uses (\<open>client.ts\<close>).  Concurrent requests interleave
  at every \<open>await\<close>: a request is a phase, and each function below is the code between two awaits.
  The file system and the jail are inputs of the steps that use them.
\<close>

subsection \<open>Workspaces\<close>

datatype fs_entry = Missing | Symlink | Entry

datatype cleanup_action =
    Refuse_invalid | Nothing_to_do | Remove_link | Refuse_outside | Remove_tree "string list" | Cleanup_failed

definition createWorkspace :: "string set \<Rightarrow> bool \<Rightarrow> string \<Rightarrow> string + string set" where
  "createWorkspace dirs io_error runId =
     (if \<not> isValidRunId runId then Inl ''invalid''
      else if runId \<in> dirs then Inl ''EEXIST''
      else if io_error then Inl ''EIO'' else Inr (insert runId dirs))"

definition cleanupWorkspace ::
  "(string list \<Rightarrow> fs_entry) \<Rightarrow> (string list \<Rightarrow> string list option) \<Rightarrow> string list \<Rightarrow> string \<Rightarrow> cleanup_action" where
  "cleanupWorkspace lstat real root runId =
     (if \<not> isValidRunId runId then Refuse_invalid
      else (case lstat (root @ [runId]) of
          Missing \<Rightarrow> Nothing_to_do
        | Symlink \<Rightarrow> Remove_link
        | Entry \<Rightarrow>
            (case (real (root @ [runId]), real root) of
               (Some r, Some realRoot) \<Rightarrow>
                 if starts_with (relative_path realRoot r) ''..'' \<or> starts_with (relative_path realRoot r) ''/''
                 then Refuse_outside else Remove_tree r
             | _ \<Rightarrow> Cleanup_failed)))"

lemma cleanup_removes_only_below_root:
  "cleanupWorkspace lstat real root runId = Remove_tree p \<Longrightarrow>
   \<exists>realRoot. real root = Some realRoot \<and> prefix realRoot p \<and> lstat (root @ [runId]) = Entry"
  using relative_outside by (fastforce simp: cleanupWorkspace_def split: if_splits fs_entry.splits option.splits)

subsection \<open>Checking a request\<close>

datatype exec_reply =
    Unauthorized | Unhealthy | Bad_run_id | Bad_tool | Bad_limits | At_capacity_reply | Run_id_in_use | Input_write
  | Internal_error | Executed jail_outcome

fun exec_status :: "exec_reply \<Rightarrow> nat" where
  "exec_status Unauthorized = 401"
| "exec_status Unhealthy = 503"
| "exec_status Bad_run_id = 400"
| "exec_status Bad_tool = 400"
| "exec_status Bad_limits = 400"
| "exec_status At_capacity_reply = 503"
| "exec_status Run_id_in_use = 409"
| "exec_status Input_write = 500"
| "exec_status Internal_error = 500"
| "exec_status (Executed out) = 200"

record server_deps =
  sd_token :: string
  sd_toolRoot :: "string list"
  sd_canaryOk :: bool
  sd_slots :: nat
  sd_depth :: nat

record exec_request =
  er_authorization :: "string option"
  er_body :: json

record exec_plan =
  pl_runId :: string
  pl_entrypoint :: "string list"
  pl_limits :: jail_limits

definition healthz :: "server_deps \<Rightarrow> nat" where
  "healthz deps = (if sd_canaryOk deps then 200 else 503)"

definition isPositiveFiniteLimit :: "jsnum \<Rightarrow> bool" where
  "isPositiveFiniteLimit n \<longleftrightarrow> is_finite n \<and> num_less (JsInt 0) n"

definition body_limit :: "(int \<Rightarrow> string) \<Rightarrow> json \<Rightarrow> string \<Rightarrow> jsnum" where
  "body_limit dstr body name = js_number dstr (coalesce (js_prop (js_prop body ''limits'') name) (JNum (JsInt 0)))"

text \<open>Everything before the first await.\<close>

definition execute_checks ::
  "(bytes \<Rightarrow> bytes) \<Rightarrow> (int \<Rightarrow> string) \<Rightarrow> (string list \<Rightarrow> bool) \<Rightarrow> (string list \<Rightarrow> string list option) \<Rightarrow> server_deps \<Rightarrow>
   exec_request \<Rightarrow> exec_reply + exec_plan" where
  "execute_checks sha256 dstr exists real deps rq =
     (case extractBearer (er_authorization rq) of
        None \<Rightarrow> Inl Unauthorized
      | Some bearer \<Rightarrow>
          if \<not> tokensMatch sha256 bearer (sd_token deps) then Inl Unauthorized
          else if \<not> sd_canaryOk deps then Inl Unhealthy
          else if nullish (er_body rq) then Inl Internal_error
          else (case js_prop (er_body rq) ''runId'' of
              JStr s \<Rightarrow>
                (case extractRunId (''/'' @ s) of
                   None \<Rightarrow> Inl Bad_run_id
                 | Some runId \<Rightarrow>
                     (case js_prop (er_body rq) ''tool'' of
                        JStr tool \<Rightarrow>
                          (if tool = [] then Inl Bad_tool
                           else (case resolveEntrypoint exists real (sd_toolRoot deps) tool of
                               Inl _ \<Rightarrow> Inl Bad_tool
                             | Inr p \<Rightarrow>
                                 (let limits = \<lparr>jl_wallClockMs = body_limit dstr (er_body rq) ''wallClockMs'',
                                        jl_memoryBytes = body_limit dstr (er_body rq) ''memoryBytes'',
                                        jl_maxOutputBytes = body_limit dstr (er_body rq) ''maxOutputBytes''\<rparr> in
                                  if isPositiveFiniteLimit (jl_wallClockMs limits) \<and> isPositiveFiniteLimit (jl_memoryBytes limits) \<and>
                                     isPositiveFiniteLimit (jl_maxOutputBytes limits)
                                  then Inr \<lparr>pl_runId = runId, pl_entrypoint = p, pl_limits = limits\<rparr>
                                  else Inl Bad_limits)))
                      | _ \<Rightarrow> Inl Bad_tool))
            | _ \<Rightarrow> Inl Bad_run_id))"

subsection \<open>The life of a request\<close>

datatype phase =
    New
  | Waiting exec_plan
  | Admitted exec_plan
  | Owning exec_plan
  | Finished exec_plan exec_reply
  | Releasing exec_reply
  | Replied exec_reply

record sandbox =
  sb_sem :: semaphore
  sb_dirs :: "string set"
  sb_failed_cleanups :: "string set"
  sb_phase :: "nat \<Rightarrow> phase"

definition set_phase :: "nat \<Rightarrow> phase \<Rightarrow> sandbox \<Rightarrow> sandbox" where
  "set_phase i p y = y\<lparr>sb_phase := (sb_phase y)(i := p)\<rparr>"

definition arrive :: "server_deps \<Rightarrow> exec_reply + exec_plan \<Rightarrow> nat \<Rightarrow> sandbox \<Rightarrow> sandbox" where
  "arrive deps checked i y =
     (case checked of
        Inl r \<Rightarrow> set_phase i (Replied r) y
      | Inr plan \<Rightarrow>
          (case acquire (sd_slots deps) (sd_depth deps) i (sb_sem y) of
             (Granted, s) \<Rightarrow> set_phase i (Admitted plan) (y\<lparr>sb_sem := s\<rparr>)
           | (Queued, s) \<Rightarrow> set_phase i (Waiting plan) (y\<lparr>sb_sem := s\<rparr>)
           | (At_capacity, s) \<Rightarrow> set_phase i (Replied At_capacity_reply) (y\<lparr>sb_sem := s\<rparr>)))"

definition make_workspace :: "bool \<Rightarrow> exec_plan \<Rightarrow> nat \<Rightarrow> sandbox \<Rightarrow> sandbox" where
  "make_workspace io_error plan i y =
     (case createWorkspace (sb_dirs y) io_error (pl_runId plan) of
        Inl e \<Rightarrow> set_phase i (Releasing (if e = ''EEXIST'' then Run_id_in_use else Internal_error)) y
      | Inr dirs \<Rightarrow> set_phase i (Owning plan) (y\<lparr>sb_dirs := dirs\<rparr>))"

text \<open>Deliver the input and run the jail; \<^term>\<open>None\<close> is a call that throws.\<close>

definition run_tool :: "bool \<Rightarrow> jail_outcome option \<Rightarrow> exec_plan \<Rightarrow> nat \<Rightarrow> sandbox \<Rightarrow> sandbox" where
  "run_tool written outcome plan i y =
     set_phase i (Finished plan
       (if \<not> written then Input_write else case outcome of Some out \<Rightarrow> Executed out | None \<Rightarrow> Internal_error)) y"

definition clean_up :: "bool \<Rightarrow> exec_plan \<Rightarrow> exec_reply \<Rightarrow> nat \<Rightarrow> sandbox \<Rightarrow> sandbox" where
  "clean_up removed plan r i y =
     set_phase i (Releasing r)
       (if removed then y\<lparr>sb_dirs := sb_dirs y - {pl_runId plan}\<rparr>
        else y\<lparr>sb_failed_cleanups := insert (pl_runId plan) (sb_failed_cleanups y)\<rparr>)"

text \<open>The slot goes to the next waiter, whose request continues.\<close>

definition admit :: "nat option \<Rightarrow> sandbox \<Rightarrow> sandbox" where
  "admit g y =
     (case g of
        None \<Rightarrow> y
      | Some w \<Rightarrow> (case sb_phase y w of Waiting plan \<Rightarrow> set_phase w (Admitted plan) y | _ \<Rightarrow> y))"

definition give_back :: "exec_reply \<Rightarrow> nat \<Rightarrow> sandbox \<Rightarrow> sandbox" where
  "give_back r i y = (case release i (sb_sem y) of (g, s) \<Rightarrow> admit g (set_phase i (Replied r) (y\<lparr>sb_sem := s\<rparr>)))"

inductive sandbox_step :: "server_deps \<Rightarrow> sandbox \<Rightarrow> sandbox \<Rightarrow> bool" for deps where
  arrive: "sb_phase y i = New \<Longrightarrow> sandbox_step deps y (arrive deps (execute_checks sha256 dstr exists real deps rq) i y)"
| make: "sb_phase y i = Admitted plan \<Longrightarrow> sandbox_step deps y (make_workspace io_error plan i y)"
| run: "sb_phase y i = Owning plan \<Longrightarrow> sandbox_step deps y (run_tool written outcome plan i y)"
| clean: "sb_phase y i = Finished plan r \<Longrightarrow> sandbox_step deps y (clean_up removed plan r i y)"
| free: "sb_phase y i = Releasing r \<Longrightarrow> sandbox_step deps y (give_back r i y)"

inductive sandbox_reachable :: "server_deps \<Rightarrow> sandbox \<Rightarrow> bool" for deps where
  start: "new_semaphore (int (sd_slots deps)) (int (sd_depth deps)) = Some s \<Longrightarrow>
    sandbox_reachable deps \<lparr>sb_sem = s, sb_dirs = {}, sb_failed_cleanups = {}, sb_phase = (\<lambda>_. New)\<rparr>"
| step: "sandbox_reachable deps y \<Longrightarrow> sandbox_step deps y y' \<Longrightarrow> sandbox_reachable deps y'"

subsection \<open>The client\<close>

datatype fetch_result = Fetch_failed | Http nat "json option"

datatype client_result = Client_tool_error | Client_throws | Sidecar_result json

definition client_execute :: "string \<Rightarrow> fetch_result \<Rightarrow> client_result" where
  "client_execute workspaceDir response =
     (case extractRunId workspaceDir of
        None \<Rightarrow> Client_tool_error
      | Some runId \<Rightarrow>
          (case response of
             Fetch_failed \<Rightarrow> Client_tool_error
           | Http status body \<Rightarrow>
               if \<not> (200 \<le> status \<and> status < 300) then Client_tool_error
               else (case body of
                   None \<Rightarrow> Client_tool_error
                 | Some b \<Rightarrow>
                     if nullish b then Client_throws
                     else (case js_prop b ''ok'' of JBool _ \<Rightarrow> Sidecar_result b | _ \<Rightarrow> Client_tool_error))))"

text \<open>The run id on the wire is the validated last segment, never a path.\<close>

definition client_request :: "string \<Rightarrow> string \<Rightarrow> json \<Rightarrow> json \<Rightarrow> json option" where
  "client_request workspaceDir entrypoint input limits =
     map_option (\<lambda>runId. JObj [(''runId'', JStr runId), (''tool'', JStr entrypoint), (''input'', input), (''limits'', limits)])
       (extractRunId workspaceDir)"

lemma null_response_throws:
  "client_execute ''/workspaces/123e4567-e89b-42d3-a456-426614174000'' (Http 200 (Some JNull)) = Client_throws"
  by code_simp

subsection \<open>The invariant\<close>

fun has_slot :: "phase \<Rightarrow> bool" where
  "has_slot (Admitted p) = True"
| "has_slot (Owning p) = True"
| "has_slot (Finished p r) = True"
| "has_slot (Releasing r) = True"
| "has_slot _ = False"

fun is_waiting :: "phase \<Rightarrow> bool" where
  "is_waiting (Waiting p) = True"
| "is_waiting _ = False"

fun owned :: "phase \<Rightarrow> string option" where
  "owned (Owning p) = Some (pl_runId p)"
| "owned (Finished p r) = Some (pl_runId p)"
| "owned _ = None"

definition gate_inv :: "server_deps \<Rightarrow> sandbox \<Rightarrow> bool" where
  "gate_inv deps y \<longleftrightarrow>
     sem_inv (sd_slots deps) (sd_depth deps) (sb_sem y) \<and>
     sem_holders (sb_sem y) = {i. has_slot (sb_phase y i)} \<and> set (queue (sb_sem y)) = {i. is_waiting (sb_phase y i)} \<and>
     (\<forall>i \<in> sem_used (sb_sem y). sb_phase y i \<noteq> New)"

definition dirs_inv :: "sandbox \<Rightarrow> bool" where
  "dirs_inv y \<longleftrightarrow>
     (\<forall>i r. owned (sb_phase y i) = Some r \<longrightarrow> r \<in> sb_dirs y) \<and>
     (\<forall>i j r. owned (sb_phase y i) = Some r \<longrightarrow> owned (sb_phase y j) = Some r \<longrightarrow> i = j) \<and>
     (\<forall>r \<in> sb_dirs y. r \<in> sb_failed_cleanups y \<or> (\<exists>i. owned (sb_phase y i) = Some r))"

lemma set_phase_simps [simp]:
  "sb_sem (set_phase i p y) = sb_sem y" "sb_dirs (set_phase i p y) = sb_dirs y"
  "sb_failed_cleanups (set_phase i p y) = sb_failed_cleanups y" "sb_phase (set_phase i p y) = (sb_phase y)(i := p)"
  by (simp_all add: set_phase_def)

text \<open>A phase change that neither takes nor gives a slot.\<close>

lemma gate_inv_phase:
  "gate_inv deps y \<Longrightarrow> sb_sem y' = sb_sem y \<Longrightarrow> sb_phase y' = (sb_phase y)(i := p) \<Longrightarrow>
   has_slot p = has_slot (sb_phase y i) \<Longrightarrow> is_waiting p = is_waiting (sb_phase y i) \<Longrightarrow> p \<noteq> New \<Longrightarrow> gate_inv deps y'"
  by (auto simp: gate_inv_def)

lemma dirs_inv_phase:
  "dirs_inv y \<Longrightarrow> sb_dirs y' = sb_dirs y \<Longrightarrow> sb_failed_cleanups y' = sb_failed_cleanups y \<Longrightarrow>
   sb_phase y' = (sb_phase y)(i := p) \<Longrightarrow> owned p = owned (sb_phase y i) \<Longrightarrow> dirs_inv y'"
  unfolding dirs_inv_def by (auto split: if_splits)

lemma gate_inv_arrive:
  assumes inv: "gate_inv deps y" and new: "sb_phase y i = New"
  shows "gate_inv deps (arrive deps checked i y)"
proof (cases checked)
  case (Inl r)
  then show ?thesis using gate_inv_phase[OF inv, of "arrive deps checked i y" i "Replied r"] new by (simp add: arrive_def)
next
  case (Inr plan)
  have s: "sem_inv (sd_slots deps) (sd_depth deps) (sb_sem y)" and fresh: "i \<notin> sem_used (sb_sem y)"
    using inv new by (auto simp: gate_inv_def)
  obtain r s' where acq: "acquire (sd_slots deps) (sd_depth deps) i (sb_sem y) = (r, s')" by force
  have s': "sem_inv (sd_slots deps) (sd_depth deps) s'" using sem.acq_inv[OF s fresh] acq by simp
  from sem.acq_cases[OF s fresh acq] show ?thesis
  proof cases
    case 1
    then show ?thesis using inv new acq Inr s' by (auto simp: gate_inv_def arrive_def)
  next
    case 2
    then show ?thesis using inv new acq Inr s' by (auto simp: gate_inv_def arrive_def)
  next
    case 3
    then show ?thesis using inv new acq Inr by (auto simp: gate_inv_def arrive_def)
  qed
qed

lemma gate_inv_give_back:
  assumes inv: "gate_inv deps y" and rel: "sb_phase y i = Releasing r"
  shows "gate_inv deps (give_back r i y)"
proof -
  have s: "sem_inv (sd_slots deps) (sd_depth deps) (sb_sem y)" and held: "i \<in> sem_holders (sb_sem y)"
    and phases: "sem_holders (sb_sem y) = {i. has_slot (sb_phase y i)}" "set (queue (sb_sem y)) = {i. is_waiting (sb_phase y i)}"
    using inv rel by (auto simp: gate_inv_def)
  obtain g s' where g: "release i (sb_sem y) = (g, s')" by force
  have s': "sem_inv (sd_slots deps) (sd_depth deps) s'" using sem.rel_inv[OF s, of i] g by simp
  note law = sem.rel_held[OF s held g]
  show ?thesis
  proof (cases "queue (sb_sem y)")
    case Nil
    then show ?thesis using law inv rel s' phases g by (auto simp: gate_inv_def give_back_def admit_def)
  next
    case (Cons w ws)
    then have "is_waiting (sb_phase y w)" using phases(2) by auto
    then obtain plan where w: "sb_phase y w = Waiting plan" by (cases "sb_phase y w") auto
    have ws: "w \<notin> set ws" "w \<noteq> i" using Cons s w rel by (auto simp: sem_inv_def)
    have g': "g = Some w" "sem_holders s' = insert w (sem_holders (sb_sem y) - {i})" "queue s' = ws" "sem_used s' = sem_used (sb_sem y)"
      using law Cons by simp_all
    have y': "give_back r i y = set_phase w (Admitted plan) (set_phase i (Replied r) (y\<lparr>sb_sem := s'\<rparr>))"
      using g g'(1) w ws(2) by (simp add: give_back_def admit_def)
    have "set ws = {j. is_waiting (sb_phase y j)} - {w}" using phases(2) Cons ws(1) by auto
    then show ?thesis using inv s' g' phases(1) w ws rel unfolding y' gate_inv_def by auto
  qed
qed

lemma give_back_dirs: "sb_phase y i = Releasing r \<Longrightarrow> dirs_inv y \<Longrightarrow> dirs_inv (give_back r i y)"
proof -
  assume rel: "sb_phase y i = Releasing r" and inv: "dirs_inv y"
  obtain g s' where g: "release i (sb_sem y) = (g, s')" by force
  have one: "dirs_inv (set_phase i (Replied r) (y\<lparr>sb_sem := s'\<rparr>))"
    by (rule dirs_inv_phase[OF inv, of _ i "Replied r"]) (simp_all add: rel)
  have "dirs_inv (admit g y')" if "dirs_inv y'" for y'
    using that by (auto simp: admit_def intro: dirs_inv_phase[OF that] split: option.splits phase.splits)
  then show ?thesis using one g by (simp add: give_back_def)
qed

lemma dirs_inv_make: "sb_phase y i = Admitted plan \<Longrightarrow> dirs_inv y \<Longrightarrow> dirs_inv (make_workspace io_error plan i y)"
proof -
  assume ph: "sb_phase y i = Admitted plan" and inv: "dirs_inv y"
  show ?thesis
  proof (cases "createWorkspace (sb_dirs y) io_error (pl_runId plan)")
    case (Inl e)
    then show ?thesis using dirs_inv_phase[OF inv, of "make_workspace io_error plan i y" i] ph by (simp add: make_workspace_def)
  next
    case (Inr dirs)
    then have new: "pl_runId plan \<notin> sb_dirs y" "dirs = insert (pl_runId plan) (sb_dirs y)"
      by (auto simp: createWorkspace_def split: if_splits)
    have "\<forall>j. owned (sb_phase y j) \<noteq> Some (pl_runId plan)" using inv new(1) by (auto simp: dirs_inv_def)
    then have new': "owned (sb_phase y j) = Some r \<Longrightarrow> r \<noteq> pl_runId plan \<and> j \<noteq> i" for j r using ph by auto
    let ?y = "make_workspace io_error plan i y"
    have y': "sb_dirs ?y = insert (pl_runId plan) (sb_dirs y)" "sb_phase ?y = (sb_phase y)(i := Owning plan)"
      "sb_failed_cleanups ?y = sb_failed_cleanups y"
      using Inr new(2) by (simp_all add: make_workspace_def)
    have "r \<in> sb_failed_cleanups y \<or> (\<exists>j. owned (sb_phase ?y j) = Some r)" if r: "r \<in> sb_dirs ?y" for r
    proof (cases "r = pl_runId plan")
      case True
      then show ?thesis using y'(2) by (intro disjI2 exI[of _ i]) simp
    next
      case False
      then have "r \<in> sb_failed_cleanups y \<or> (\<exists>j. owned (sb_phase y j) = Some r)" using r y'(1) inv by (auto simp: dirs_inv_def)
      then show ?thesis using y'(2) new' by (metis fun_upd_other)
    qed
    then show ?thesis using inv new' y' unfolding dirs_inv_def by auto
  qed
qed

lemma dirs_inv_clean: "sb_phase y i = Finished plan r \<Longrightarrow> dirs_inv y \<Longrightarrow> dirs_inv (clean_up removed plan r i y)"
proof -
  assume ph: "sb_phase y i = Finished plan r" and inv: "dirs_inv y"
  have own: "owned (sb_phase y i) = Some (pl_runId plan)" using ph by simp
  then have only: "j = i" if "owned (sb_phase y j) = Some (pl_runId plan)" for j using that inv by (auto simp: dirs_inv_def)
  let ?y = "clean_up removed plan r i y"
  have y': "sb_phase ?y = (sb_phase y)(i := Releasing r)"
    "sb_dirs ?y = (if removed then sb_dirs y - {pl_runId plan} else sb_dirs y)"
    "sb_failed_cleanups ?y = (if removed then sb_failed_cleanups y else insert (pl_runId plan) (sb_failed_cleanups y))"
    by (simp_all add: clean_up_def)
  have "q \<in> sb_failed_cleanups ?y \<or> (\<exists>j. owned (sb_phase ?y j) = Some q)" if q: "q \<in> sb_dirs ?y" for q
  proof -
    have "q \<in> sb_failed_cleanups y \<or> (\<exists>j. owned (sb_phase y j) = Some q)" using q y'(2) inv by (auto simp: dirs_inv_def split: if_splits)
    then show ?thesis using q y' own by (metis Diff_iff fun_upd_other insert_iff option.inject)
  qed
  then show ?thesis using inv only y' unfolding dirs_inv_def by (auto split: if_splits)
qed

lemma arrive_phase:
  "\<exists>p. sb_phase (arrive deps c i y) = (sb_phase y)(i := p) \<and> owned p = None \<and>
     sb_dirs (arrive deps c i y) = sb_dirs y \<and> sb_failed_cleanups (arrive deps c i y) = sb_failed_cleanups y"
proof (cases c)
  case (Inr plan)
  obtain r s' where "acquire (sd_slots deps) (sd_depth deps) i (sb_sem y) = (r, s')" by force
  then show ?thesis using Inr by (cases r) (auto simp: arrive_def intro: exI[of _ "Admitted plan"] exI[of _ "Waiting plan"])
qed (auto simp: arrive_def)

lemma make_phase:
  "\<exists>p. sb_sem (make_workspace io_error plan i y) = sb_sem y \<and> sb_phase (make_workspace io_error plan i y) = (sb_phase y)(i := p) \<and>
     has_slot p \<and> \<not> is_waiting p \<and> p \<noteq> New"
  by (cases "createWorkspace (sb_dirs y) io_error (pl_runId plan)")
    (auto simp: make_workspace_def intro: exI[of _ "Releasing r" for r] exI[of _ "Owning plan"])

lemma sandbox_step_inv:
  "sandbox_step deps y y' \<Longrightarrow> gate_inv deps y \<Longrightarrow> dirs_inv y \<Longrightarrow> gate_inv deps y' \<and> dirs_inv y'"
proof (induction rule: sandbox_step.induct)
  case (arrive y i sha256 dstr exists real rq)
  let ?c = "execute_checks sha256 dstr exists real deps rq"
  obtain p where "sb_phase (arrive deps ?c i y) = (sb_phase y)(i := p)" "owned p = None"
    "sb_dirs (arrive deps ?c i y) = sb_dirs y" "sb_failed_cleanups (arrive deps ?c i y) = sb_failed_cleanups y"
    using arrive_phase by blast
  then have "dirs_inv (arrive deps ?c i y)" using dirs_inv_phase[OF arrive(3)] arrive(1) by simp
  then show ?case using gate_inv_arrive[OF arrive(2,1)] by simp
next
  case (make y i plan io_error)
  obtain p where "sb_sem (make_workspace io_error plan i y) = sb_sem y" "sb_phase (make_workspace io_error plan i y) = (sb_phase y)(i := p)"
    "has_slot p" "\<not> is_waiting p" "p \<noteq> New"
    using make_phase by blast
  then have "gate_inv deps (make_workspace io_error plan i y)" using make(1) by (intro gate_inv_phase[OF make(2)]) auto
  then show ?case using dirs_inv_make[OF make(1,3)] by simp
next
  case (run y i plan written outcome)
  obtain q where q: "run_tool written outcome plan i y = set_phase i (Finished plan q) y" by (simp add: run_tool_def)
  have "gate_inv deps (set_phase i (Finished plan q) y)"
    by (rule gate_inv_phase[OF run(2), of _ i "Finished plan q"]) (simp_all add: run(1))
  moreover have "dirs_inv (set_phase i (Finished plan q) y)"
    by (rule dirs_inv_phase[OF run(3), of _ i "Finished plan q"]) (simp_all add: run(1))
  ultimately show ?case by (simp add: q)
next
  case (clean y i plan r removed)
  have "gate_inv deps (clean_up removed plan r i y)"
    by (rule gate_inv_phase[OF clean(2), of _ i "Releasing r"]) (auto simp: clean_up_def clean(1))
  then show ?case using dirs_inv_clean[OF clean(1,3)] by simp
next
  case (free y i r)
  then show ?case using gate_inv_give_back[OF free(2,1)] give_back_dirs[OF free(1,3)] by simp
qed

lemma sandbox_reachable_inv: "sandbox_reachable deps y \<Longrightarrow> gate_inv deps y \<and> dirs_inv y"
proof (induction rule: sandbox_reachable.induct)
  case (start s)
  then show ?case
    by (auto simp: gate_inv_def dirs_inv_def new_semaphore_def sem_inv_def sem_holders_def sem_used_def split: if_splits)
next
  case (step y y')
  then show ?case using sandbox_step_inv by blast
qed

text \<open>
  C8.  However requests interleave and fail, the sidecar never has more executions under way than
  its slots nor more waiting than its queue; no two executions share a workspace, and each has its
  own on disk; and once every request has been answered, no slot is held, nobody waits, and the
  only workspaces left are those whose removal failed.
\<close>

theorem sandbox_isolates_and_leaks_nothing:
  "sandbox_reachable deps y \<Longrightarrow>
   card {i. has_slot (sb_phase y i)} \<le> sd_slots deps \<and> card {i. is_waiting (sb_phase y i)} \<le> sd_depth deps \<and>
   (\<forall>i j r. owned (sb_phase y i) = Some r \<longrightarrow> r \<in> sb_dirs y \<and> (owned (sb_phase y j) = Some r \<longrightarrow> i = j)) \<and>
   ((\<forall>i. sb_phase y i = New \<or> (\<exists>r. sb_phase y i = Replied r)) \<longrightarrow>
      active (sb_sem y) = 0 \<and> queue (sb_sem y) = [] \<and> sb_dirs y \<subseteq> sb_failed_cleanups y)"
proof -
  assume "sandbox_reachable deps y"
  then have g: "gate_inv deps y" and d: "dirs_inv y" using sandbox_reachable_inv by auto
  have s: "sem_inv (sd_slots deps) (sd_depth deps) (sb_sem y)" using g by (simp add: gate_inv_def)
  have "card {i. is_waiting (sb_phase y i)} = length (queue (sb_sem y))"
    using g sem.inv_disjoint[OF s] by (metis distinct_card gate_inv_def)
  then have bounds: "card {i. has_slot (sb_phase y i)} \<le> sd_slots deps" "card {i. is_waiting (sb_phase y i)} \<le> sd_depth deps"
    using sem.inv_bounds[OF s] g by (simp_all add: gate_inv_def)
  have quiet: "active (sb_sem y) = 0 \<and> queue (sb_sem y) = [] \<and> sb_dirs y \<subseteq> sb_failed_cleanups y"
    if all: "\<forall>i. sb_phase y i = New \<or> (\<exists>r. sb_phase y i = Replied r)"
  proof -
    have none: "\<not> has_slot (sb_phase y i) \<and> \<not> is_waiting (sb_phase y i) \<and> owned (sb_phase y i) = None" for i
      using all by (metis has_slot.simps(5,7) is_waiting.simps(2,7) owned.simps(3,7))
    then have "sem_holders (sb_sem y) = {}" "queue (sb_sem y) = []" using g by (auto simp: gate_inv_def)
    then show ?thesis using s d none by (auto simp: sem_inv_def dirs_inv_def)
  qed
  show ?thesis using bounds d quiet by (auto simp: dirs_inv_def)
qed

subsection \<open>Witness\<close>

definition demo_deps :: server_deps where
  "demo_deps = \<lparr>sd_token = ''tok'', sd_toolRoot = [''opt'', ''tools''], sd_canaryOk = True, sd_slots = 1, sd_depth = 1\<rparr>"

definition demo_exec_request :: exec_request where
  "demo_exec_request = \<lparr>er_authorization = Some ''Bearer tok'',
     er_body = JObj [(''runId'', JStr ''123e4567-e89b-42d3-a456-426614174000''), (''tool'', JStr ''scan''),
       (''limits'', JObj [(''wallClockMs'', JNum (JsInt 100)), (''memoryBytes'', JNum (JsInt 100)), (''maxOutputBytes'', JNum (JsInt 100))])]\<rparr>"

definition demo_plan :: exec_plan where
  "demo_plan = \<lparr>pl_runId = ''123e4567-e89b-42d3-a456-426614174000'', pl_entrypoint = [''srv'', ''tools'', ''v2'', ''main.py''],
     pl_limits = \<lparr>jl_wallClockMs = JsInt 100, jl_memoryBytes = JsInt 100, jl_maxOutputBytes = JsInt 100\<rparr>\<rparr>"

lemma demo_checked: "execute_checks id (\<lambda>_. []) (\<lambda>_. True) demo_real demo_deps demo_exec_request = Inr demo_plan"
  by code_simp

definition demo_sandbox_start :: sandbox where
  "demo_sandbox_start = \<lparr>sb_sem = \<lparr>active = 0, queue = [], handles = []\<rparr>, sb_dirs = {}, sb_failed_cleanups = {}, sb_phase = (\<lambda>_. New)\<rparr>"

text \<open>Two requests with the same run id: the first owns the workspace, the second waits for a slot.\<close>

definition demo_sandbox :: sandbox where
  "demo_sandbox = make_workspace False demo_plan 0
     (arrive demo_deps (Inr demo_plan) 1 (arrive demo_deps (Inr demo_plan) 0 demo_sandbox_start))"

lemma demo_sandbox_phases: "sb_phase demo_sandbox 0 = Owning demo_plan" "sb_phase demo_sandbox 1 = Waiting demo_plan"
proof -
  have "isValidRunId (pl_runId demo_plan)" by code_simp
  then show "sb_phase demo_sandbox 0 = Owning demo_plan" "sb_phase demo_sandbox 1 = Waiting demo_plan"
    by (simp_all add: demo_sandbox_def demo_sandbox_start_def arrive_def acquire_def makeRelease_def demo_deps_def
        make_workspace_def createWorkspace_def)
qed

lemma demo_sandbox_reachable: "sandbox_reachable demo_deps demo_sandbox"
proof -
  let ?a = "arrive demo_deps (Inr demo_plan) 0 demo_sandbox_start"
  let ?b = "arrive demo_deps (Inr demo_plan) 1 ?a"
  have r0: "sandbox_reachable demo_deps demo_sandbox_start"
    unfolding demo_sandbox_start_def by (rule sandbox_reachable.start) (simp add: new_semaphore_def demo_deps_def)
  have r1: "sandbox_reachable demo_deps ?a"
    using sandbox_step.arrive[of demo_sandbox_start 0 demo_deps id "\<lambda>_. []" "\<lambda>_. True" demo_real demo_exec_request]
    by (intro sandbox_reachable.step[OF r0]) (simp add: demo_checked demo_sandbox_start_def)
  have r2: "sandbox_reachable demo_deps ?b"
    using sandbox_step.arrive[of ?a 1 demo_deps id "\<lambda>_. []" "\<lambda>_. True" demo_real demo_exec_request]
    by (intro sandbox_reachable.step[OF r1])
      (simp add: demo_checked, simp add: demo_sandbox_start_def arrive_def acquire_def makeRelease_def demo_deps_def)
  have "sb_phase ?b 0 = Admitted demo_plan"
    by (simp add: demo_sandbox_start_def arrive_def acquire_def makeRelease_def demo_deps_def)
  then show ?thesis unfolding demo_sandbox_def using r2 sandbox_step.make sandbox_reachable.step by blast
qed

theorem sandbox_isolates_and_leaks_nothing_witness:
  "card {i. has_slot (sb_phase demo_sandbox i)} \<le> 1 \<and> sb_phase demo_sandbox 0 = Owning demo_plan \<and>
   sb_phase demo_sandbox 1 = Waiting demo_plan \<and> pl_runId demo_plan \<in> sb_dirs demo_sandbox"
proof -
  note all = sandbox_isolates_and_leaks_nothing[OF demo_sandbox_reachable]
  have own: "owned (sb_phase demo_sandbox 0) = Some (pl_runId demo_plan)" by (simp add: demo_sandbox_phases)
  have "pl_runId demo_plan \<in> sb_dirs demo_sandbox" using all own by blast
  moreover have "card {i. has_slot (sb_phase demo_sandbox i)} \<le> 1" using all by (simp add: demo_deps_def)
  ultimately show ?thesis using demo_sandbox_phases by blast
qed

end
