(* ===== verification/Agents.thy ===== *)
theory Agents
  imports Jail Runtime_Audit Policy App_Spec
begin

text \<open>
  Governed agent workers (\<open>agents/src/runtime.ts\<close>, \<open>hashing.ts\<close>): a task's only capabilities are
  \<open>callTool\<close>, \<open>propose\<close> and \<open>finish\<close>.  The policy engine, the JSON Schema validator, the sandbox,
  SHA-256, the clock and the random ids are parameters.  The state is the audit log, the
  \<open>agent_proposals\<close> table and, for the statements below, the sandbox calls made so far, each with
  the number of audit records that were in the log when it started.
\<close>

subsection \<open>Digests\<close>

fun canonicalizeValue :: "json \<Rightarrow> json" where
  "canonicalizeValue (JArr vs) = JArr (map canonicalizeValue vs)"
| "canonicalizeValue (JObj kvs) =
     JObj (obj_build (map (\<lambda>kv. (fst kv, canonicalizeValue (snd kv)))
       (filter (\<lambda>kv. snd kv \<noteq> JUndef) (sort_entries kvs))))"
| "canonicalizeValue (JDate d) = JObj []"
| "canonicalizeValue v = v"

definition digestValue :: "(string \<Rightarrow> string) \<Rightarrow> json \<Rightarrow> string \<times> nat" where
  "digestValue sha256 value =
     (let canonical = stringify_val (\<lambda>_. []) (canonicalizeValue (coalesce value JNull))
      in (sha256 canonical, length (utf8_encode canonical)))"

subsection \<open>Tasks, tools and identities\<close>

record registered_tool =
  rt_name :: string
  rt_inputSchema :: json
  rt_entrypoint :: string

record agent_identity =
  ai_id :: string
  ai_roles :: "string list"

record sandbox_call =
  sx_tool :: registered_tool
  sx_input :: json
  sx_workspaceDir :: string
  sx_limits :: jail_limits

datatype sandbox_result =
    Sandbox_ok json jsnum
  | Sandbox_violation violation string jsnum
  | Sandbox_limit limit string jsnum
  | Sandbox_tool_error string jsnum

datatype agent_error_code =
    ERR_TOOL_NOT_ALLOWED | ERR_TOOL_UNKNOWN | ERR_TOOL_INPUT | ERR_POLICY_DENIED | ERR_SANDBOX_VIOLATION
  | ERR_SANDBOX_LIMIT | ERR_TOOL_FAILED | ERR_AUDIT_UNAVAILABLE

datatype tool_result = Tool_ok json | Tool_error agent_error_code

record agent_proposal =
  ag_id :: string
  ag_agentId :: string
  ag_entityTable :: string
  ag_recordId :: string
  ag_workflow :: string
  ag_transition :: string
  ag_rationale :: string
  ag_createdAt :: string

record proposal_request =
  pr_entityTable :: string
  pr_recordId :: string
  pr_workflow :: string
  pr_transition :: string
  pr_rationale :: string

definition DEFAULT_SANDBOX_LIMITS :: jail_limits where
  "DEFAULT_SANDBOX_LIMITS = \<lparr>jl_wallClockMs = JsInt 30000, jl_memoryBytes = JsInt 268435456, jl_maxOutputBytes = JsInt 1048576\<rparr>"

record agent_deps =
  ad_pdp :: "policy_input \<Rightarrow> policy_decision"
  ad_valid :: "json \<Rightarrow> json \<Rightarrow> bool"
  ad_sha256 :: "string \<Rightarrow> string"
  ad_tools :: "registered_tool list"
  ad_workspaceRoot :: string
  ad_slug :: string
  ad_tasks :: "agent_task_def list"

record agent_world =
  ag_sink :: "audit_input audit_sink"
  ag_proposals :: "agent_proposal list"
  ag_executed :: "(nat \<times> sandbox_call) list"

definition toolsByName :: "agent_deps \<Rightarrow> (string \<times> registered_tool) list" where
  "toolsByName deps = map_from (map (\<lambda>t. (rt_name t, t)) (ad_tools deps))"

definition tasksByName :: "agent_deps \<Rightarrow> (string \<times> agent_task_def) list" where
  "tasksByName deps = map_from (map (\<lambda>t. (at_name t, t)) (ad_tasks deps))"

text \<open>Start-up: the first allowlisted tool that is not registered is an error.\<close>

definition unregistered_tool :: "agent_deps \<Rightarrow> (string \<times> string) option" where
  "unregistered_tool deps =
     List.find (\<lambda>(_, tool). \<not> map_has (toolsByName deps) tool)
       (concat (map (\<lambda>(_, t). map (\<lambda>tool. (at_name t, tool)) (or_empty (at_tools t))) (tasksByName deps)))"

definition ag_append :: "audit_input \<Rightarrow> agent_world \<Rightarrow> bool \<times> agent_world" where
  "ag_append e w = (case sink_append e (ag_sink w) of (ok, s) \<Rightarrow> (ok, w\<lparr>ag_sink := s\<rparr>))"

definition agent_event :: "string \<Rightarrow> agent_identity \<Rightarrow> string option \<Rightarrow> string option \<Rightarrow> fields \<Rightarrow> audit_input" where
  "agent_event event identity subject decision attributes =
     \<lparr>au_event = event, au_actor = ai_id identity, au_actorType = ''agent'', au_subject = subject,
      au_decision = decision, au_attributes = JObj attributes\<rparr>"

subsection \<open>Tool calls\<close>

fun mapSandboxResult :: "sandbox_result \<Rightarrow> tool_result" where
  "mapSandboxResult (Sandbox_ok out d) = Tool_ok out"
| "mapSandboxResult (Sandbox_violation v m d) = Tool_error ERR_SANDBOX_VIOLATION"
| "mapSandboxResult (Sandbox_limit l m d) = Tool_error ERR_SANDBOX_LIMIT"
| "mapSandboxResult (Sandbox_tool_error m d) = Tool_error ERR_TOOL_FAILED"

fun violation_text :: "violation \<Rightarrow> string" where
  "violation_text Network_egress = ''network_egress''"
| "violation_text Fs_escape = ''fs_escape''"

fun limit_text :: "limit \<Rightarrow> string" where
  "limit_text Wall_clock = ''wall_clock''"
| "limit_text Memory = ''memory''"
| "limit_text Output_size = ''output_size''"

fun outputForDigest :: "sandbox_result \<Rightarrow> json" where
  "outputForDigest (Sandbox_ok out d) = out"
| "outputForDigest (Sandbox_violation v m d) =
     JObj [(''reason'', JStr ''violation''), (''violation'', JStr (violation_text v)), (''message'', JStr m)]"
| "outputForDigest (Sandbox_limit l m d) = JObj [(''reason'', JStr ''limit''), (''limit'', JStr (limit_text l)), (''message'', JStr m)]"
| "outputForDigest (Sandbox_tool_error m d) = JObj [(''reason'', JStr ''tool_error''), (''message'', JStr m)]"

fun result_outcome :: "sandbox_result \<Rightarrow> string \<times> jsnum" where
  "result_outcome (Sandbox_ok out d) = (''ok'', d)"
| "result_outcome (Sandbox_violation v m d) = (''violation'', d)"
| "result_outcome (Sandbox_limit l m d) = (''limit'', d)"
| "result_outcome (Sandbox_tool_error m d) = (''tool_error'', d)"

definition tool_call_event :: "agent_deps \<Rightarrow> agent_identity \<Rightarrow> agent_task_def \<Rightarrow> string \<Rightarrow> json \<Rightarrow> policy_decision \<Rightarrow> audit_input" where
  "tool_call_event deps identity task tool input d =
     (case digestValue (ad_sha256 deps) input of
        (inputDigest, inputBytes) \<Rightarrow>
          agent_event ''agent.tool_call'' identity None (Some (if pd_allow d then ''allow'' else ''deny''))
            [(''task'', JStr (at_name task)), (''tool'', JStr tool), (''inputDigest'', JStr inputDigest),
             (''inputBytes'', JNum (num_of_int (int inputBytes))), (''policyReason'', JStr (pd_reason d)),
             (''policyId'', JStr (pd_policyId d))])"

definition tool_result_event :: "agent_deps \<Rightarrow> agent_identity \<Rightarrow> agent_task_def \<Rightarrow> string \<Rightarrow> sandbox_result \<Rightarrow> audit_input" where
  "tool_result_event deps identity task tool r =
     (case digestValue (ad_sha256 deps) (outputForDigest r) of
        (outputDigest, outputBytes) \<Rightarrow>
          agent_event ''agent.tool_result'' identity None
            (Some (if fst (result_outcome r) = ''ok'' then ''allow'' else ''deny''))
            [(''task'', JStr (at_name task)), (''tool'', JStr tool), (''outcome'', JStr (fst (result_outcome r))),
             (''durationMs'', JNum (snd (result_outcome r))), (''outputDigest'', JStr outputDigest),
             (''outputBytes'', JNum (num_of_int (int outputBytes)))])"

definition tool_decision :: "agent_deps \<Rightarrow> agent_identity \<Rightarrow> agent_task_def \<Rightarrow> string \<Rightarrow> policy_decision" where
  "tool_decision deps identity task tool =
     ad_pdp deps \<lparr>pi_subject_id = ai_id identity, pi_subject_roles = ai_roles identity, pi_action = ''agent.tool:'' @ tool,
       pi_type = ''agent.tool'', pi_id = Some tool, pi_allowedRoles = [], pi_context = Some [(''task'', JStr (at_name task))]\<rparr>"

text \<open>\<open>sandbox\<close> gives the result of the call, or \<^term>\<open>None\<close> when it throws, which escapes from \<open>callTool\<close>.\<close>

definition execute_tool ::
  "agent_deps \<Rightarrow> (sandbox_call \<Rightarrow> sandbox_result option) \<Rightarrow> string \<Rightarrow> agent_identity \<Rightarrow> agent_task_def \<Rightarrow>
   registered_tool \<Rightarrow> json \<Rightarrow> agent_world \<Rightarrow> tool_result option \<times> agent_world" where
  "execute_tool deps sandbox uuid identity task tool input w =
     (let call = \<lparr>sx_tool = tool, sx_input = input, sx_workspaceDir = ad_workspaceRoot deps @ ''/'' @ uuid,
                  sx_limits = DEFAULT_SANDBOX_LIMITS\<rparr>;
          w1 = w\<lparr>ag_executed := ag_executed w @ [(length (persisted (ag_sink w)), call)]\<rparr>
      in case sandbox call of
           None \<Rightarrow> (None, w1)
         | Some r \<Rightarrow>
             (Some (mapSandboxResult r), snd (ag_append (tool_result_event deps identity task (rt_name tool) r) w1)))"

definition callTool ::
  "agent_deps \<Rightarrow> (sandbox_call \<Rightarrow> sandbox_result option) \<Rightarrow> string \<Rightarrow> agent_identity \<Rightarrow> agent_task_def \<Rightarrow>
   string \<Rightarrow> json \<Rightarrow> agent_world \<Rightarrow> tool_result option \<times> agent_world" where
  "callTool deps sandbox uuid identity task toolName input w =
     (if toolName \<notin> set (or_empty (at_tools task)) then (Some (Tool_error ERR_TOOL_NOT_ALLOWED), w)
      else (case map_of (toolsByName deps) toolName of
          None \<Rightarrow> (Some (Tool_error ERR_TOOL_UNKNOWN), w)
        | Some tool \<Rightarrow>
            if \<not> ad_valid deps (rt_inputSchema tool) input then (Some (Tool_error ERR_TOOL_INPUT), w)
            else
              (let d = tool_decision deps identity task toolName in
               case ag_append (tool_call_event deps identity task toolName input d) w of
                 (False, w1) \<Rightarrow> (Some (Tool_error ERR_AUDIT_UNAVAILABLE), w1)
               | (True, w1) \<Rightarrow>
                   if \<not> pd_allow d then (Some (Tool_error ERR_POLICY_DENIED), w1)
                   else execute_tool deps sandbox uuid identity task tool input w1)))"

subsection \<open>Proposals\<close>

definition proposal_of :: "string \<Rightarrow> string \<Rightarrow> agent_identity \<Rightarrow> proposal_request \<Rightarrow> agent_proposal" where
  "proposal_of id' createdAt identity p =
     \<lparr>ag_id = id', ag_agentId = ai_id identity, ag_entityTable = pr_entityTable p, ag_recordId = pr_recordId p,
      ag_workflow = pr_workflow p, ag_transition = pr_transition p, ag_rationale = pr_rationale p, ag_createdAt = createdAt\<rparr>"

definition proposed_event :: "agent_identity \<Rightarrow> agent_task_def \<Rightarrow> agent_proposal \<Rightarrow> audit_input" where
  "proposed_event identity task p =
     agent_event ''agent.transition_proposed'' identity (Some (ag_entityTable p @ '':'' @ ag_recordId p)) None
       [(''task'', JStr (at_name task)), (''workflow'', JStr (ag_workflow p)), (''transition'', JStr (ag_transition p)),
        (''proposalId'', JStr (ag_id p))]"

datatype propose_error = Insert_refused | Append_refused

definition propose_tx :: "bool \<Rightarrow> agent_identity \<Rightarrow> agent_task_def \<Rightarrow> agent_proposal \<Rightarrow> agent_world \<Rightarrow> propose_error + (agent_world \<times> agent_proposal)" where
  "propose_tx insert_fails identity task p w =
     (if insert_fails then Inl Insert_refused
      else (case ag_append (proposed_event identity task p) (w\<lparr>ag_proposals := ag_proposals w @ [p]\<rparr>) of
          (True, w1) \<Rightarrow> Inr (w1, p)
        | (False, w1) \<Rightarrow> Inl Append_refused))"

definition propose ::
  "faults \<Rightarrow> bool \<Rightarrow> bool \<Rightarrow> string \<Rightarrow> string \<Rightarrow> agent_identity \<Rightarrow> agent_task_def \<Rightarrow> proposal_request \<Rightarrow> agent_world \<Rightarrow>
   (propose_error tx_error + agent_proposal) \<times> agent_world" where
  "propose txf landed insert_fails uuid now identity task p w =
     (case transaction txf landed w (propose_tx insert_fails identity task (proposal_of uuid now identity p)) of
        (w1, res, _) \<Rightarrow> (res, w1))"

subsection \<open>Lifecycle\<close>

definition finish :: "agent_identity \<Rightarrow> agent_task_def \<Rightarrow> string \<Rightarrow> json \<Rightarrow> agent_world \<Rightarrow> bool \<times> agent_world" where
  "finish identity task reason detail w =
     ag_append (agent_event ''agent.task_finished'' identity None None
       [(''task'', JStr (at_name task)), (''reason'', JStr reason), (''detail'', detail)]) w"

text \<open>The start record is fire-and-forget: whether it lands does not matter to the caller.\<close>

definition contextFor :: "agent_deps \<Rightarrow> string \<Rightarrow> agent_world \<Rightarrow> (agent_identity \<times> agent_task_def) option \<times> agent_world" where
  "contextFor deps taskName w =
     (case map_of (tasksByName deps) taskName of
        None \<Rightarrow> (None, w)
      | Some task \<Rightarrow>
          (let identity = \<lparr>ai_id = ''agent:'' @ taskName @ ''@'' @ ad_slug deps, ai_roles = []\<rparr> in
           (Some (identity, task),
            snd (ag_append (agent_event ''agent.task_started'' identity None None [(''task'', JStr taskName)]) w))))"

text \<open>
  The rows come back oldest first; equal times in the order of their ids.  Times are RFC 3339 texts
  of one fixed width, so text order is time order.
\<close>

definition rowToProposal :: "(int \<Rightarrow> string) \<Rightarrow> (int \<Rightarrow> string) \<Rightarrow> fields \<Rightarrow> agent_proposal" where
  "rowToProposal fmt dstr row =
     (let str = (\<lambda>c. js_string dstr (get_field row c)) in
      \<lparr>ag_id = str ''id'', ag_agentId = str ''agent_id'', ag_entityTable = str ''entity_table'', ag_recordId = str ''record_id'',
       ag_workflow = str ''workflow'', ag_transition = str ''transition'', ag_rationale = str ''rationale'',
       ag_createdAt = (case get_field row ''created_at'' of JDate d \<Rightarrow> fmt d | v \<Rightarrow> js_string dstr v)\<rparr>)"

definition proposal_row :: "agent_proposal \<Rightarrow> fields" where
  "proposal_row p =
     [(''id'', JStr (ag_id p)), (''agent_id'', JStr (ag_agentId p)), (''entity_table'', JStr (ag_entityTable p)),
      (''record_id'', JStr (ag_recordId p)), (''workflow'', JStr (ag_workflow p)), (''transition'', JStr (ag_transition p)),
      (''rationale'', JStr (ag_rationale p)), (''created_at'', JStr (ag_createdAt p))]"

definition listProposals ::
  "(int \<Rightarrow> string) \<Rightarrow> (int \<Rightarrow> string) \<Rightarrow> string option \<Rightarrow> string option \<Rightarrow> agent_world \<Rightarrow> agent_proposal list" where
  "listProposals fmt dstr workflow recordId w =
     map (rowToProposal fmt dstr)
       (map proposal_row
         (sort_key ag_createdAt (sort_key ag_id
           (filter (\<lambda>p. (workflow \<noteq> None \<longrightarrow> workflow = Some (ag_workflow p)) \<and> (recordId \<noteq> None \<longrightarrow> map_option to_lower recordId = Some (to_lower (ag_recordId p))))
             (ag_proposals w)))))"

end
