(* ===== verification/Agent_Endpoints.thy ===== *)
theory Agent_Endpoints
  imports Agents Rate_Limit Bearer Naming
begin

text \<open>
  What triggers agent tasks: the demo procedure (\<open>runtime/src/agent-tasks.ts\<close>), the admin routes
  (\<open>admin-agents.ts\<close>) and the A2A endpoint (\<open>a2a.ts\<close>).  A procedure is a function of its context and
  input on the world; \<^term>\<open>None\<close> is a procedure that throws.
\<close>

subsection \<open>Task procedures\<close>

record task_outcome =
  to_reason :: string
  to_detail :: json

type_synonym 'w procedure = "agent_identity \<Rightarrow> agent_task_def \<Rightarrow> json \<Rightarrow> 'w \<Rightarrow> task_outcome option \<times> 'w"

definition isSuccessOutcome :: "task_outcome \<Rightarrow> bool" where
  "isSuccessOutcome out \<longleftrightarrow> to_reason out = ''proposed''"

definition VENDOR_RISK_REVIEW_TASK :: string where
  "VENDOR_RISK_REVIEW_TASK = ''vendor-risk-review''"

definition READ_VENDOR_APPLICATION_TOOL :: registered_tool where
  "READ_VENDOR_APPLICATION_TOOL =
     \<lparr>rt_name = ''read-vendor-application'',
      rt_inputSchema = JObj
        [(''$schema'', JStr ''https://json-schema.org/draft/2020-12/schema''), (''type'', JStr ''object''),
         (''properties'', JObj
           [(''annualSpend'', JObj [(''type'', JArr [JStr ''number'', JStr ''null''])]),
            (''justification'', JObj [(''type'', JArr [JStr ''string'', JStr ''null''])]),
            (''status'', JObj [(''type'', JArr [JStr ''string'', JStr ''null''])])]),
         (''additionalProperties'', JBool False)],
      rt_entrypoint = ''read-vendor-application''\<rparr>"

definition VENDOR_APPLICATION_TABLE :: string where
  "VENDOR_APPLICATION_TABLE = ''vendor_application''"

text \<open>The environment of one run: sandbox, database, clock and ids.\<close>

record run_env =
  re_sandbox :: "sandbox_call \<Rightarrow> sandbox_result option"
  re_vendor :: "string \<Rightarrow> fields option"
  re_db_fails :: bool
  re_txf :: faults
  re_landed :: bool
  re_insert_fails :: bool
  re_call_uuid :: string
  re_proposal_uuid :: string
  re_now :: string

definition tool_input_of :: "fields \<Rightarrow> json" where
  "tool_input_of row = JObj
     [(''annualSpend'', coalesce (get_field row ''annual_spend'') JNull),
      (''justification'', coalesce (get_field row ''justification'') JNull),
      (''status'', coalesce (get_field row ''status'') JNull)]"

definition approve_request :: "string \<Rightarrow> proposal_request" where
  "approve_request recordId =
     \<lparr>pr_entityTable = VENDOR_APPLICATION_TABLE, pr_recordId = recordId, pr_workflow = ''vendor-approval'',
      pr_transition = ''approve'',
      pr_rationale = ''Automated risk review found no blocking signals; recommending approval for human sign-off.''\<rparr>"

definition fail_outcome :: "string \<Rightarrow> fields \<Rightarrow> task_outcome" where
  "fail_outcome reason detail = \<lparr>to_reason = reason, to_detail = JObj detail\<rparr>"

fun agent_code_text :: "agent_error_code \<Rightarrow> string" where
  "agent_code_text ERR_TOOL_NOT_ALLOWED = ''ERR_TOOL_NOT_ALLOWED''"
| "agent_code_text ERR_TOOL_UNKNOWN = ''ERR_TOOL_UNKNOWN''"
| "agent_code_text ERR_TOOL_INPUT = ''ERR_TOOL_INPUT''"
| "agent_code_text ERR_POLICY_DENIED = ''ERR_POLICY_DENIED''"
| "agent_code_text ERR_SANDBOX_VIOLATION = ''ERR_SANDBOX_VIOLATION''"
| "agent_code_text ERR_SANDBOX_LIMIT = ''ERR_SANDBOX_LIMIT''"
| "agent_code_text ERR_TOOL_FAILED = ''ERR_TOOL_FAILED''"
| "agent_code_text ERR_AUDIT_UNAVAILABLE = ''ERR_AUDIT_UNAVAILABLE''"

text \<open>The verdict and, when it is low, the proposal.\<close>

definition act_on_verdict :: "run_env \<Rightarrow> string \<Rightarrow> agent_identity \<Rightarrow> agent_task_def \<Rightarrow> json \<Rightarrow> agent_world \<Rightarrow> task_outcome option \<times> agent_world" where
  "act_on_verdict env recordId identity task output w =
     (let verdict = coalesce output (JObj []) in
      if \<not> strict_eq (js_prop verdict ''risk'') (JStr ''low'')
      then (Some (fail_outcome ''declined_high_risk''
              [(''risk'', coalesce (js_prop verdict ''risk'') JNull), (''reasons'', coalesce (js_prop verdict ''reasons'') JNull)]), w)
      else (case propose (re_txf env) (re_landed env) (re_insert_fails env) (re_proposal_uuid env) (re_now env) identity task
               (approve_request recordId) w of
            (Inl _, w1) \<Rightarrow> (None, w1)
          | (Inr p, w1) \<Rightarrow>
              (Some (fail_outcome ''proposed'' [(''proposalId'', JStr (ag_id p)), (''risk'', js_prop verdict ''risk'')]), w1)))"

definition vendorRiskReview :: "agent_deps \<Rightarrow> run_env \<Rightarrow> agent_world procedure" where
  "vendorRiskReview deps env identity task input w =
     (case js_prop input ''recordId'' of
        JStr recordId \<Rightarrow>
          if \<not> isUuid (JStr recordId) then (Some (fail_outcome ''invalid_input'' [(''message'', JStr ''recordId must be a UUID'')]), w)
          else if re_db_fails env then (None, w)
          else (case re_vendor env recordId of
              None \<Rightarrow>
                (Some (fail_outcome ''read_failed''
                  [(''message'', JStr (''no vendor_application record '' @ quote_str recordId))]), w)
            | Some row \<Rightarrow>
                (case callTool deps (re_sandbox env) (re_call_uuid env) identity task ''read-vendor-application'' (tool_input_of row) w of
                   (None, w1) \<Rightarrow> (None, w1)
                 | (Some (Tool_error code), w1) \<Rightarrow>
                     (Some (fail_outcome ''read_failed'' [(''code'', JStr (agent_code_text code))]), w1)
                 | (Some (Tool_ok output), w1) \<Rightarrow> act_on_verdict env recordId identity task output w1))
      | _ \<Rightarrow> (Some (fail_outcome ''invalid_input'' [(''message'', JStr ''recordId must be a UUID'')]), w))"

definition createDemoProcedures :: "agent_deps \<Rightarrow> run_env \<Rightarrow> string \<Rightarrow> agent_world procedure option" where
  "createDemoProcedures deps env name = (if name = VENDOR_RISK_REVIEW_TASK then Some (vendorRiskReview deps env) else None)"

subsection \<open>The admin routes\<close>

definition AGENT_TRIGGER_ROLES :: "string list" where
  "AGENT_TRIGGER_ROLES = [''admin'']"

datatype admin_error =
    Admin_unauthenticated | Admin_audit_failed | Admin_forbidden | Admin_not_found | Admin_validation
  | Admin_procedure_unregistered | Admin_failed

text \<open>Roles the app declares itself never count as platform roles.\<close>

definition platform_roles :: "string list \<Rightarrow> string list \<Rightarrow> string list" where
  "platform_roles appRoles roles = filter (\<lambda>r. r \<notin> set appRoles) roles"

definition trigger_event :: "string \<Rightarrow> string \<Rightarrow> policy_decision \<Rightarrow> audit_input" where
  "trigger_event sub taskName d =
     \<lparr>au_event = ''policy.decision'', au_actor = sub, au_actorType = ''human'', au_subject = Some (''agent_task:'' @ taskName),
      au_decision = Some (if pd_allow d then ''allow'' else ''deny''),
      au_attributes = JObj [(''action'', JStr ''agent.trigger''), (''allowedRoles'', str_list AGENT_TRIGGER_ROLES),
        (''policyId'', JStr (pd_policyId d)), (''reason'', JStr (pd_reason d))]\<rparr>"

definition trigger_decision :: "agent_deps \<Rightarrow> string list \<Rightarrow> string \<Rightarrow> string list \<Rightarrow> string \<Rightarrow> policy_decision" where
  "trigger_decision deps appRoles sub roles taskName =
     ad_pdp deps \<lparr>pi_subject_id = sub, pi_subject_roles = platform_roles appRoles roles, pi_action = ''agent.trigger'',
       pi_type = ''agent.task'', pi_id = Some taskName, pi_allowedRoles = AGENT_TRIGGER_ROLES, pi_context = None\<rparr>"

definition authorize ::
  "agent_deps \<Rightarrow> string list \<Rightarrow> (string \<times> string list) option \<Rightarrow> string \<Rightarrow> agent_world \<Rightarrow> admin_error option \<times> agent_world" where
  "authorize deps appRoles session taskName w =
     (case session of
        None \<Rightarrow> (Some Admin_unauthenticated, w)
      | Some (sub, roles) \<Rightarrow>
          (let d = trigger_decision deps appRoles sub roles taskName in
           case ag_append (trigger_event sub taskName d) w of
             (False, w1) \<Rightarrow> (Some Admin_audit_failed, w1)
           | (True, w1) \<Rightarrow> (if pd_allow d then None else Some Admin_forbidden, w1)))"

text \<open>Run a procedure and finish the run, whatever happens: the response is sent only after \<open>finish\<close>.\<close>

definition run_procedure ::
  "agent_world procedure option \<Rightarrow> agent_identity \<Rightarrow> agent_task_def \<Rightarrow> json \<Rightarrow> agent_world \<Rightarrow>
   (admin_error + task_outcome) \<times> agent_world" where
  "run_procedure procedure identity task input w =
     (case procedure of
        None \<Rightarrow>
          (case finish identity task ''error''
                 (JObj [(''message'', JStr (''no registered procedure for task '' @ quote_str (at_name task)))]) w of
             (ok, w1) \<Rightarrow> (Inl (if ok then Admin_procedure_unregistered else Admin_failed), w1))
      | Some proc \<Rightarrow>
          (case proc identity task input w of
             (None, w1) \<Rightarrow> (case finish identity task ''error'' (JObj []) w1 of (_, w2) \<Rightarrow> (Inl Admin_failed, w2))
           | (Some out, w1) \<Rightarrow>
               (case finish identity task (to_reason out) (to_detail out) w1 of
                  (ok, w2) \<Rightarrow> (if ok then Inr out else Inl Admin_failed, w2))))"

definition admin_run ::
  "agent_deps \<Rightarrow> (string \<Rightarrow> agent_world procedure option) \<Rightarrow> string list \<Rightarrow> (string \<times> string list) option \<Rightarrow> string \<Rightarrow> json \<Rightarrow>
   agent_world \<Rightarrow> (admin_error + (string \<times> task_outcome)) \<times> agent_world" where
  "admin_run deps procedures appRoles session taskName body w =
     (case authorize deps appRoles session taskName w of
        (Some e, w1) \<Rightarrow> (Inl e, w1)
      | (None, w1) \<Rightarrow>
          (case contextFor deps taskName w1 of
             (None, w2) \<Rightarrow> (Inl Admin_not_found, w2)
           | (Some (identity, task), w2) \<Rightarrow>
               (case run_procedure (procedures taskName) identity task (coalesce body (JObj [])) w2 of
                  (Inl e, w3) \<Rightarrow> (Inl e, w3)
                | (Inr out, w3) \<Rightarrow> (Inr (if isSuccessOutcome out then ''completed'' else ''failed'', out), w3))))"

definition admin_proposals ::
  "agent_deps \<Rightarrow> (int \<Rightarrow> string) \<Rightarrow> (int \<Rightarrow> string) \<Rightarrow> string list \<Rightarrow> (string \<times> string list) option \<Rightarrow> string option \<Rightarrow> string option \<Rightarrow>
   agent_world \<Rightarrow> (admin_error + agent_proposal list) \<times> agent_world" where
  "admin_proposals deps fmt dstr appRoles session workflow recordId w =
     (case authorize deps appRoles session ''*'' w of
        (Some e, w1) \<Rightarrow> (Inl e, w1)
      | (None, w1) \<Rightarrow>
          if (case recordId of Some r \<Rightarrow> \<not> isUuid (JStr r) | None \<Rightarrow> False) then (Inl Admin_validation, w1)
          else (Inr (listProposals fmt dstr workflow recordId w1), w1))"

subsection \<open>Runs and their lifecycle records\<close>

text \<open>The records appended between two worlds; a procedure leaves the lifecycle records to its caller.\<close>

definition lifecycle :: "audit_input \<Rightarrow> bool" where
  "lifecycle e \<longleftrightarrow> au_event e = ''agent.task_started'' \<or> au_event e = ''agent.task_finished''"

definition appended_since :: "agent_world \<Rightarrow> agent_world \<Rightarrow> audit_input list" where
  "appended_since w w' = drop (length (persisted (ag_sink w))) (persisted (ag_sink w'))"

definition grows :: "agent_world \<Rightarrow> agent_world \<Rightarrow> bool" where
  "grows w w' \<longleftrightarrow> prefix (persisted (ag_sink w)) (persisted (ag_sink w'))"

definition quiet_world :: "agent_world \<Rightarrow> agent_world \<Rightarrow> bool" where
  "quiet_world w w' \<longleftrightarrow> grows w w' \<and> list_all (\<lambda>e. \<not> lifecycle e) (appended_since w w')"

definition quiet :: "agent_world procedure \<Rightarrow> bool" where
  "quiet proc \<longleftrightarrow> (\<forall>identity task input w. quiet_world w (snd (proc identity task input w)))"

lemma quiet_world_iff:
  "quiet_world w w' \<longleftrightarrow>
   (\<exists>es. persisted (ag_sink w') = persisted (ag_sink w) @ es \<and> list_all (\<lambda>e. \<not> lifecycle e) es)"
  by (auto simp: quiet_world_def grows_def appended_since_def prefix_def)

lemma quiet_world_refl [simp]: "quiet_world w w"
  by (simp add: quiet_world_iff)

lemma quiet_world_trans: "quiet_world w1 w2 \<Longrightarrow> quiet_world w2 w3 \<Longrightarrow> quiet_world w1 w3"
  unfolding quiet_world_iff by fastforce

lemma quiet_world_append: "\<not> lifecycle e \<Longrightarrow> quiet_world w (snd (ag_append e w))"
  by (cases "ag_append e w") (auto simp: quiet_world_iff ag_append_def sink_append_def Let_def split: if_splits)

lemma lifecycle_agent_event [simp]:
  "lifecycle (agent_event ev identity s d a) \<longleftrightarrow> ev = ''agent.task_started'' \<or> ev = ''agent.task_finished''"
  by (simp add: lifecycle_def agent_event_def)

lemma lifecycle_tool [simp]:
  "\<not> lifecycle (tool_call_event deps identity task tool input d)" "\<not> lifecycle (tool_result_event deps identity task tool r)"
  "\<not> lifecycle (proposed_event identity task p)"
  by (simp_all add: tool_call_event_def tool_result_event_def proposed_event_def split: prod.splits)

lemma quiet_world_step: "ag_append e w = (ok, w') \<Longrightarrow> \<not> lifecycle e \<Longrightarrow> quiet_world w w'"
  using quiet_world_append[of e w] by simp

lemma quiet_execute: "quiet_world w (snd (execute_tool deps sandbox uuid identity task tool input w))"
proof -
  have "quiet_world w (w\<lparr>ag_executed := xs\<rparr>)" for xs by (simp add: quiet_world_iff)
  then show ?thesis
    using quiet_world_append quiet_world_trans
    by (auto simp: execute_tool_def Let_def split: option.splits) (metis lifecycle_tool(2))
qed

lemma quiet_callTool: "quiet_world w (snd (callTool deps sandbox uuid identity task tn input w))"
  using quiet_execute quiet_world_trans quiet_world_step[of "tool_call_event deps identity task tn input (tool_decision deps identity task tn)" w]
  by (fastforce simp: callTool_def Let_def split: option.splits bool.splits prod.splits)

lemma quiet_propose: "quiet_world w (snd (propose txf landed ins uuid now identity task p w))"
proof -
  let ?tx = "propose_tx ins identity task (proposal_of uuid now identity p)"
  have "quiet_world w v" if "?tx w = Inr (v, q)" for v q
    using that quiet_world_step[of "proposed_event identity task (proposal_of uuid now identity p)"]
    by (auto simp: propose_tx_def quiet_world_iff split: if_splits prod.splits bool.splits) fastforce
  then show ?thesis
    using transaction_state[of txf landed w ?tx] by (auto simp: propose_def split: prod.splits)
qed

end
