(* ===== verification/Agents_Props.thy ===== *)
theory Agents_Props
  imports Agents
begin

text \<open>
  Invariants of the agent runtime over any sequence of the operations of any contexts, with any
  failures of the audit log, the database and the sandbox, and with other writers appending to the
  same log in between.
\<close>

definition is_context :: "agent_deps \<Rightarrow> agent_identity \<Rightarrow> agent_task_def \<Rightarrow> bool" where
  "is_context deps identity task \<longleftrightarrow>
     map_of (tasksByName deps) (at_name task) = Some task \<and>
     identity = \<lparr>ai_id = ''agent:'' @ at_name task @ ''@'' @ ad_slug deps, ai_roles = []\<rparr>"

text \<open>Events that only this package writes.\<close>

definition agent_owned :: "audit_input \<Rightarrow> bool" where
  "agent_owned e \<longleftrightarrow> au_event e = ''agent.transition_proposed''"

inductive agent_step :: "agent_deps \<Rightarrow> agent_world \<Rightarrow> agent_world \<Rightarrow> bool" for deps where
  call: "is_context deps identity task \<Longrightarrow> agent_step deps w (snd (callTool deps sandbox uuid identity task tool input w))"
| propose: "is_context deps identity task \<Longrightarrow>
    agent_step deps w (snd (propose txf landed insert_fails uuid now identity task p w))"
| finish: "is_context deps identity task \<Longrightarrow> agent_step deps w (snd (finish identity task reason detail w))"
| context_for: "agent_step deps w (snd (contextFor deps name w))"
| other: "\<not> agent_owned e \<Longrightarrow> agent_step deps w (snd (ag_append e w))"

inductive agent_reachable :: "agent_deps \<Rightarrow> agent_world \<Rightarrow> bool" for deps where
  start: "agent_reachable deps \<lparr>ag_sink = \<lparr>persisted = [], outages = faults', logged = []\<rparr>, ag_proposals = [], ag_executed = []\<rparr>"
| step: "agent_reachable deps w \<Longrightarrow> agent_step deps w w' \<Longrightarrow> agent_reachable deps w'"

text \<open>A sandbox call that the log, the allowlist, the schema and the policy account for.\<close>

definition accounted_for :: "agent_deps \<Rightarrow> audit_input list \<Rightarrow> nat \<times> sandbox_call \<Rightarrow> bool" where
  "accounted_for deps log c \<longleftrightarrow>
     fst c \<le> length log \<and>
     (\<exists>identity task d. is_context deps identity task \<and>
        rt_name (sx_tool (snd c)) \<in> set (or_empty (at_tools task)) \<and>
        ad_valid deps (rt_inputSchema (sx_tool (snd c))) (sx_input (snd c)) \<and>
        d = tool_decision deps identity task (rt_name (sx_tool (snd c))) \<and> pd_allow d \<and>
        tool_call_event deps identity task (rt_name (sx_tool (snd c))) (sx_input (snd c)) d \<in> set (take (fst c) log))"

definition proposals_match :: "agent_deps \<Rightarrow> audit_input list \<Rightarrow> agent_proposal list \<Rightarrow> bool" where
  "proposals_match deps log ps \<longleftrightarrow>
     list_all2 (\<lambda>e p. \<exists>identity task. is_context deps identity task \<and> e = proposed_event identity task p \<and> ag_agentId p = ai_id identity)
       (filter agent_owned log) ps"

definition agents_inv :: "agent_deps \<Rightarrow> agent_world \<Rightarrow> bool" where
  "agents_inv deps w \<longleftrightarrow>
     list_all (accounted_for deps (persisted (ag_sink w))) (ag_executed w) \<and>
     proposals_match deps (persisted (ag_sink w)) (ag_proposals w)"

subsection \<open>What each operation does\<close>

lemma ag_append_cases:
  "ag_append e w = (ok, w') \<Longrightarrow>
     persisted (ag_sink w') = persisted (ag_sink w) @ (if ok then [e] else []) \<and>
     ag_proposals w' = ag_proposals w \<and> ag_executed w' = ag_executed w"
  by (auto simp: ag_append_def sink_append_def Let_def split: prod.splits if_splits)

lemma accounted_for_append: "accounted_for deps log c \<Longrightarrow> accounted_for deps (log @ es) c"
  unfolding accounted_for_def by auto

lemma inv_append_other:
  "agents_inv deps w \<Longrightarrow> \<not> agent_owned e \<Longrightarrow> agents_inv deps (snd (ag_append e w))"
proof -
  assume inv: "agents_inv deps w" and e: "\<not> agent_owned e"
  obtain ok w' where a: "ag_append e w = (ok, w')" by force
  show ?thesis using inv e ag_append_cases[OF a] a accounted_for_append
    by (auto simp: agents_inv_def proposals_match_def list_all_iff)
qed

lemma agent_event_owned [simp]:
  "agent_owned (agent_event ev identity s d a) \<longleftrightarrow> ev = ''agent.transition_proposed''"
  by (simp add: agent_owned_def agent_event_def)

lemma tool_events_not_owned [simp]:
  "\<not> agent_owned (tool_call_event deps identity task tool input d)" "\<not> agent_owned (tool_result_event deps identity task tool r)"
  by (simp_all add: tool_call_event_def tool_result_event_def split: prod.splits)

lemma tool_name: "map_of (toolsByName deps) n = Some tool \<Longrightarrow> rt_name tool = n"
  unfolding toolsByName_def by (rule map_from_keyed)

lemma callTool_inv:
  assumes ctx: "is_context deps identity task" and inv: "agents_inv deps w"
  shows "agents_inv deps (snd (callTool deps sandbox uuid identity task tn input w))"
proof -
  let ?d = "tool_decision deps identity task tn"
  let ?e = "tool_call_event deps identity task tn input ?d"
  obtain ok w1 where a: "ag_append ?e w = (ok, w1)" by force
  have w1: "agents_inv deps w1" using inv_append_other[OF inv, of ?e] a by simp
  note log = ag_append_cases[OF a]
  have exec: "agents_inv deps (snd (execute_tool deps sandbox uuid identity task tool input w1))"
    if ok and tool: "map_of (toolsByName deps) tn = Some tool" and allowed: "tn \<in> set (or_empty (at_tools task))"
      and valid: "ad_valid deps (rt_inputSchema tool) input" and allow: "pd_allow ?d" for tool
  proof -
    let ?call = "\<lparr>sx_tool = tool, sx_input = input, sx_workspaceDir = ad_workspaceRoot deps @ ''/'' @ uuid, sx_limits = DEFAULT_SANDBOX_LIMITS\<rparr>"
    let ?w2 = "w1\<lparr>ag_executed := ag_executed w1 @ [(length (persisted (ag_sink w1)), ?call)]\<rparr>"
    have "accounted_for deps (persisted (ag_sink w1)) (length (persisted (ag_sink w1)), ?call)"
      unfolding accounted_for_def using ctx valid allow allowed tool_name[OF tool] log \<open>ok\<close> by auto
    then have w2: "agents_inv deps ?w2" using w1 by (simp add: agents_inv_def)
    then show ?thesis
      using inv_append_other[OF w2] by (auto simp: execute_tool_def Let_def split: option.splits)
  qed
  show ?thesis
    using inv w1 exec a by (auto simp: callTool_def Let_def split: option.splits bool.splits)
qed

lemma propose_inv:
  assumes ctx: "is_context deps identity task" and inv: "agents_inv deps w"
  shows "agents_inv deps (snd (propose txf landed insert_fails uuid now identity task p w))"
proof -
  let ?p = "proposal_of uuid now identity p"
  let ?tx = "propose_tx insert_fails identity task ?p"
  obtain w1 res evs where run: "transaction txf landed w ?tx = (w1, res, evs)" by (metis prod_cases3)
  have body: "agents_inv deps v" if tx: "?tx w = Inr (v, q)" for v q
  proof -
    obtain w2 where a: "ag_append (proposed_event identity task ?p) (w\<lparr>ag_proposals := ag_proposals w @ [?p]\<rparr>) = (True, w2)" "v = w2"
      using tx by (auto simp: propose_tx_def split: if_splits prod.splits bool.splits)
    have owner: "ag_agentId ?p = ai_id identity" by (simp add: proposal_of_def)
    have own: "agent_owned (proposed_event identity task ?p)" by (simp add: proposed_event_def)
    let ?log = "persisted (ag_sink w)"
    have log: "persisted (ag_sink v) = ?log @ [proposed_event identity task ?p]" "ag_proposals v = ag_proposals w @ [?p]"
      "ag_executed v = ag_executed w"
      using ag_append_cases[OF a(1)] a(2) by simp_all
    have "proposals_match deps ?log (ag_proposals w)" using inv by (simp add: agents_inv_def)
    then have "proposals_match deps (persisted (ag_sink v)) (ag_proposals v)"
      unfolding proposals_match_def log using own owner ctx by (auto intro!: list_all2_appendI)
    moreover have "list_all (accounted_for deps (persisted (ag_sink v))) (ag_executed v)"
      using inv accounted_for_append unfolding log by (auto simp: agents_inv_def list_all_iff)
    ultimately show ?thesis by (simp add: agents_inv_def)
  qed
  have "w1 = w \<or> (\<exists>q. ?tx w = Inr (w1, q))" using transaction_state[of txf landed w ?tx] run by auto
  then show ?thesis using inv body run by (auto simp: propose_def)
qed

lemma agent_step_inv: "agent_step deps w w' \<Longrightarrow> agents_inv deps w \<Longrightarrow> agents_inv deps w'"
proof (induction rule: agent_step.induct)
  case (context_for w name)
  then show ?case
    by (auto simp: contextFor_def Let_def intro: inv_append_other split: option.splits)
qed (auto intro: callTool_inv propose_inv inv_append_other simp: finish_def)

lemma agent_reachable_inv: "agent_reachable deps w \<Longrightarrow> agents_inv deps w"
proof (induction rule: agent_reachable.induct)
  case (start faults')
  then show ?case by (simp add: agents_inv_def proposals_match_def)
next
  case (step w w')
  then show ?case using agent_step_inv by blast
qed

text \<open>
  C6.  Agents are governed.  In every reachable state each tool execution was preceded by a
  persisted \<open>agent.tool_call\<close> record of the same agent, task, tool and input digest, of a call that
  the task's allowlist, the tool's schema and the policy admitted; and the proposals are exactly
  those recorded as \<open>agent.transition_proposed\<close>, one by one in order, each under the identity of
  the agent that made it.
\<close>

theorem agents_act_only_on_the_record:
  "agent_reachable deps w \<Longrightarrow>
   (\<forall>c \<in> set (ag_executed w). accounted_for deps (persisted (ag_sink w)) c) \<and>
   proposals_match deps (persisted (ag_sink w)) (ag_proposals w)"
  using agent_reachable_inv by (auto simp: agents_inv_def list_all_iff)

subsection \<open>Identities\<close>

lemma contextFor_context:
  "contextFor deps name w = (Some (identity, task), w') \<Longrightarrow> is_context deps identity task"
proof -
  assume c: "contextFor deps name w = (Some (identity, task), w')"
  then have t: "map_of (tasksByName deps) name = Some task" by (auto simp: contextFor_def Let_def split: option.splits)
  then have "at_name task = name"
    unfolding tasksByName_def by (rule map_from_keyed)
  then show ?thesis using c t by (auto simp: contextFor_def Let_def is_context_def)
qed

text \<open>
  Nothing checks a proposal against the task's \<open>proposes\<close> list: a task that lists no transition
  (absent, or empty) can propose any.
\<close>

lemma propose_ignores_the_task_allowlist:
  "outages (ag_sink w) = [] \<Longrightarrow>
   fst (propose no_faults False False uuid now identity (task\<lparr>at_proposes := None\<rparr>) p w) = Inr (proposal_of uuid now identity p)"
  by (simp add: propose_def propose_tx_def transaction_def no_faults_def ag_append_def sink_append_def Let_def)

subsection \<open>Witness\<close>

definition demo_tool :: registered_tool where
  "demo_tool = \<lparr>rt_name = ''scan'', rt_inputSchema = JObj [], rt_entrypoint = ''scan''\<rparr>"

definition demo_task :: agent_task_def where
  "demo_task = \<lparr>at_name = ''review'', at_description = None, at_tools = Some [''scan''], at_proposes = None\<rparr>"

definition demo_agent_deps :: agent_deps where
  "demo_agent_deps = \<lparr>ad_pdp = decide (authz_evaluate (\<lambda>_. [])), ad_valid = (\<lambda>_ _. True), ad_sha256 = (\<lambda>s. s), ad_tools = [demo_tool],
     ad_workspaceRoot = ''/workspaces'', ad_slug = ''app'', ad_tasks = [demo_task]\<rparr>"

definition demo_identity :: agent_identity where
  "demo_identity = \<lparr>ai_id = ''agent:review@app'', ai_roles = []\<rparr>"

definition demo_agent_world :: agent_world where
  "demo_agent_world = \<lparr>ag_sink = \<lparr>persisted = [], outages = [False, True], logged = []\<rparr>, ag_proposals = [], ag_executed = []\<rparr>"

definition demo_after_call :: agent_world where
  "demo_after_call = snd (callTool demo_agent_deps (\<lambda>_. Some (Sandbox_tool_error [] (JsInt 1))) ''u'' demo_identity demo_task ''scan'' JNull demo_agent_world)"

lemma demo_is_context: "is_context demo_agent_deps demo_identity demo_task"
  by (simp add: is_context_def tasksByName_def demo_agent_deps_def demo_task_def demo_identity_def map_from_def)

lemma demo_tool_allowed: "pd_allow (tool_decision demo_agent_deps demo_identity demo_task ''scan'')"
  by (simp add: tool_decision_def demo_agent_deps_def demo_identity_def authz_decide entitled_def)

lemma demo_call_executed: "ag_executed demo_after_call \<noteq> [] \<and> fst (hd (ag_executed demo_after_call)) = 1"
  using demo_tool_allowed
  by (simp add: demo_after_call_def callTool_def execute_tool_def demo_task_def toolsByName_def demo_agent_deps_def map_from_def
      demo_tool_def ag_append_def sink_append_def demo_agent_world_def Let_def)

theorem agents_act_only_on_the_record_witness:
  "\<exists>c \<in> set (ag_executed demo_after_call). fst c = 1 \<and> accounted_for demo_agent_deps (persisted (ag_sink demo_after_call)) c"
proof -
  have "agent_reachable demo_agent_deps demo_after_call"
    unfolding demo_after_call_def demo_agent_world_def
    by (rule agent_reachable.step[OF agent_reachable.start agent_step.call[OF demo_is_context]])
  from agents_act_only_on_the_record[OF this] demo_call_executed show ?thesis
    by (metis hd_in_set)
qed

end
