(* ===== verification/Agent_Runs.thy ===== *)
theory Agent_Runs
  imports Agent_Endpoints Agents_Props
begin

text \<open>
  What a run of a task leaves behind: its lifecycle records, and the proposals of the demo
  procedure.
\<close>

subsection \<open>A run is finished once\<close>

definition finish_event :: "agent_identity \<Rightarrow> agent_task_def \<Rightarrow> string \<Rightarrow> json \<Rightarrow> audit_input" where
  "finish_event identity task reason detail =
     agent_event ''agent.task_finished'' identity None None
       [(''task'', JStr (at_name task)), (''reason'', JStr reason), (''detail'', detail)]"

lemma lifecycle_finish_event [simp]: "lifecycle (finish_event identity task reason detail)"
  by (simp add: finish_event_def)

lemma finish_cases:
  "finish identity task reason detail w = (ok, w') \<Longrightarrow>
   persisted (ag_sink w') = persisted (ag_sink w) @ (if ok then [finish_event identity task reason detail] else [])"
  by (auto simp: finish_def finish_event_def ag_append_def sink_append_def Let_def split: prod.splits if_splits)

lemma finish_quiet_log:
  "quiet_world w w1 \<Longrightarrow> finish identity task reason detail w1 = (ok, w2) \<Longrightarrow>
   grows w w2 \<and> filter lifecycle (appended_since w w2) = (if ok then [finish_event identity task reason detail] else [])"
  by (auto simp: quiet_world_iff grows_def appended_since_def filter_empty_conv list_all_iff dest!: finish_cases)

lemma run_procedure_finishes:
  assumes q: "\<And>proc. procedure = Some proc \<Longrightarrow> quiet proc"
    and run: "run_procedure procedure identity task input w = (res, w')"
  shows "grows w w' \<and>
    (case res of
       Inr out \<Rightarrow> filter lifecycle (appended_since w w') = [finish_event identity task (to_reason out) (to_detail out)]
     | Inl _ \<Rightarrow> filter lifecycle (appended_since w w') = [] \<or>
         (\<exists>d. filter lifecycle (appended_since w w') = [finish_event identity task ''error'' d]))"
proof (cases procedure)
  case None
  then show ?thesis
    using run by (auto simp: run_procedure_def split: prod.splits if_splits dest!: finish_quiet_log[OF quiet_world_refl])
next
  case (Some proc)
  obtain o' w1 where p: "proc identity task input w = (o', w1)" by force
  have "quiet_world w w1" using q[OF Some] p unfolding quiet_def by (metis snd_conv)
  note fin = finish_quiet_log[OF this]
  show ?thesis
    using run Some p by (auto simp: run_procedure_def split: option.splits prod.splits if_splits dest!: fin)
qed

definition start_event :: "agent_identity \<Rightarrow> string \<Rightarrow> audit_input" where
  "start_event identity taskName = agent_event ''agent.task_started'' identity None None [(''task'', JStr taskName)]"

lemma lifecycle_start_event [simp]: "lifecycle (start_event identity taskName)"
  by (simp add: start_event_def)

lemma contextFor_log:
  assumes c: "contextFor deps name w = (res, w')"
  shows "case res of
      None \<Rightarrow> w' = w
    | Some (identity, task) \<Rightarrow> at_name task = name \<and>
        (\<exists>started. persisted (ag_sink w') = persisted (ag_sink w) @ (if started then [start_event identity name] else []))"
proof (cases "map_of (tasksByName deps) name")
  case None
  then show ?thesis using c by (auto simp: contextFor_def)
next
  case (Some task)
  let ?i = "\<lparr>ai_id = ''agent:'' @ name @ ''@'' @ ad_slug deps, ai_roles = []\<rparr>"
  obtain ok w1 where a: "ag_append (start_event ?i name) w = (ok, w1)" by force
  have "res = Some (?i, task)" "w' = w1"
    using c Some a unfolding contextFor_def start_event_def by (simp_all add: Let_def)
  moreover have "at_name task = name"
    using Some unfolding tasksByName_def by (rule map_from_keyed)
  ultimately show ?thesis using ag_append_cases[OF a] by auto
qed

lemma trigger_event_quiet [simp]: "\<not> lifecycle (trigger_event sub taskName d)"
  by (simp add: lifecycle_def trigger_event_def)

lemma authorize_log: "authorize deps appRoles session taskName w = (res, w1) \<Longrightarrow> quiet_world w w1"
  using quiet_world_step[OF _ trigger_event_quiet]
  by (cases session) (auto simp: authorize_def Let_def split: prod.splits bool.splits if_splits)

text \<open>The same, from the request on: an admin run is authorised, started and finished once.\<close>

lemma contextFor_is_context:
  "contextFor deps name w = (Some (identity, task), w') \<Longrightarrow> is_context deps identity task \<and> at_name task = name"
  using contextFor_context contextFor_log by fastforce

lemma appended_since_quiet:
  "quiet_world w w1 \<Longrightarrow> persisted (ag_sink w2) = persisted (ag_sink w1) @ (if started then [e] else []) \<Longrightarrow> grows w2 w3 \<Longrightarrow>
   lifecycle e \<Longrightarrow>
   filter lifecycle (appended_since w w3) = (if started then [e] else []) @ filter lifecycle (appended_since w2 w3)"
  by (auto simp: quiet_world_iff grows_def appended_since_def prefix_def list_all_iff filter_empty_conv)

lemma authorize_admits:
  assumes "authorize deps appRoles session taskName w = (None, w1)"
  obtains sub roles where "session = Some (sub, roles)" "pd_allow (trigger_decision deps appRoles sub roles taskName)"
    "trigger_event sub taskName (trigger_decision deps appRoles sub roles taskName) \<in> set (persisted (ag_sink w1))"
  using assms by (auto simp: authorize_def Let_def dest!: ag_append_cases split: option.splits prod.splits bool.splits if_splits)

text \<open>A run was refused without a lifecycle record, or it was admitted and the procedure ran once.\<close>

lemma admin_run_cases:
  assumes quiet: "\<And>proc. procedures taskName = Some proc \<Longrightarrow> quiet proc"
    and run: "admin_run deps procedures appRoles session taskName body w = (res, w')"
  obtains (refused) e where "res = Inl e" "filter lifecycle (appended_since w w') = []"
    | (ran) sub roles identity task started r last where "session = Some (sub, roles)"
        "pd_allow (trigger_decision deps appRoles sub roles taskName)"
        "trigger_event sub taskName (trigger_decision deps appRoles sub roles taskName) \<in> set (persisted (ag_sink w'))"
        "is_context deps identity task" "at_name task = taskName"
        "res = (case r of Inl e \<Rightarrow> Inl e | Inr out \<Rightarrow> Inr (if isSuccessOutcome out then ''completed'' else ''failed'', out))"
        "filter lifecycle (appended_since w w') = (if started then [start_event identity taskName] else []) @ last"
        "case r of Inr out \<Rightarrow> last = [finish_event identity task (to_reason out) (to_detail out)]
           | Inl _ \<Rightarrow> last = [] \<or> (\<exists>d. last = [finish_event identity task ''error'' d])"
proof -
  obtain a w1 where auth: "authorize deps appRoles session taskName w = (a, w1)" by force
  note quiet1 = authorize_log[OF auth]
  obtain c w2 where ctx: "contextFor deps taskName w1 = (c, w2)" by force
  show thesis
  proof (cases "a = None \<and> c \<noteq> None")
    case False
    then have "w' = w1 \<and> (\<exists>e. res = Inl e)"
      using run auth ctx contextFor_log[OF ctx] by (cases a; cases c) (auto simp: admin_run_def)
    then show thesis using quiet1 refused by (auto simp: quiet_world_def list_all_iff filter_empty_conv)
  next
    case True
    then obtain identity task where c: "c = Some (identity, task)" by auto
    obtain started where log: "persisted (ag_sink w2) = persisted (ag_sink w1) @ (if started then [start_event identity taskName] else [])"
      using contextFor_log[OF ctx] c by auto
    obtain r w3 where proc: "run_procedure (procedures taskName) identity task (coalesce body (JObj [])) w2 = (r, w3)" by force
    note fin = run_procedure_finishes[OF quiet proc, simplified]
    have w': "w' = w3" and res: "res = (case r of Inl e \<Rightarrow> Inl e
        | Inr out \<Rightarrow> Inr (if isSuccessOutcome out then ''completed'' else ''failed'', out))"
      using run auth ctx True c proc by (cases r; simp add: admin_run_def)+
    have mono: "set (persisted (ag_sink w1)) \<subseteq> set (persisted (ag_sink w3))"
      using log fin by (auto simp: grows_def prefix_def)
    have split: "filter lifecycle (appended_since w w3) =
        (if started then [start_event identity taskName] else []) @ filter lifecycle (appended_since w2 w3)"
      using appended_since_quiet[OF quiet1 log] fin by simp
    have here: "is_context deps identity task" "at_name task = taskName" using contextFor_is_context ctx c by simp_all
    have "authorize deps appRoles session taskName w = (None, w1)" using auth True by simp
    then show thesis
    proof (rule authorize_admits)
      fix sub roles
      assume who: "session = Some (sub, roles)" "pd_allow (trigger_decision deps appRoles sub roles taskName)"
        "trigger_event sub taskName (trigger_decision deps appRoles sub roles taskName) \<in> set (persisted (ag_sink w1))"
      show thesis by (rule ran[OF who(1,2) _ here res]) (use who(3) mono w' split fin in \<open>auto split: sum.splits\<close>)
    qed
  qed
qed

text \<open>
  C31.  An agent task runs for an authorised caller only, and its outcome is on the record.  When
  the admin route reports an outcome, the session held a role that the policy admits after the
  app's own roles were taken away, the decision was recorded, and the lifecycle records the run
  left are at most one start followed by exactly one finish that states this very outcome; the
  status is \<open>completed\<close> exactly for a successful one.  When it reports an error the run left no
  record of success.  This holds for every registry of procedures that leave the lifecycle records
  to the runtime.
\<close>

theorem reported_run_is_on_the_record:
  assumes "\<And>proc. procedures taskName = Some proc \<Longrightarrow> quiet proc"
    and run: "admin_run deps procedures appRoles session taskName body w = (res, w')"
  shows "case res of
      Inr (status, out) \<Rightarrow>
        (\<exists>sub roles identity task started. session = Some (sub, roles) \<and>
           pd_allow (trigger_decision deps appRoles sub roles taskName) \<and>
           trigger_event sub taskName (trigger_decision deps appRoles sub roles taskName) \<in> set (persisted (ag_sink w')) \<and>
           is_context deps identity task \<and> at_name task = taskName \<and>
           filter lifecycle (appended_since w w') =
             (if started then [start_event identity taskName] else []) @
             [finish_event identity task (to_reason out) (to_detail out)]) \<and>
        (status = ''completed'' \<longleftrightarrow> isSuccessOutcome out)
    | Inl e \<Rightarrow>
        (\<exists>identity task started d. set (filter lifecycle (appended_since w w')) \<subseteq>
           {start_event identity taskName, finish_event identity task ''error'' d})"
proof (rule admin_run_cases[OF assms(1) run])
  fix e
  assume "res = Inl e" "filter lifecycle (appended_since w w') = []"
  then show ?thesis by simp
next
  fix sub roles identity task started r last
  assume who: "session = Some (sub, roles)" "pd_allow (trigger_decision deps appRoles sub roles taskName)"
      "trigger_event sub taskName (trigger_decision deps appRoles sub roles taskName) \<in> set (persisted (ag_sink w'))"
      "is_context deps identity task" "at_name task = taskName"
    and res: "res = (case r of Inl e \<Rightarrow> Inl e | Inr out \<Rightarrow> Inr (if isSuccessOutcome out then ''completed'' else ''failed'', out))"
    and log: "filter lifecycle (appended_since w w') = (if started then [start_event identity taskName] else []) @ last"
      "case r of Inr out \<Rightarrow> last = [finish_event identity task (to_reason out) (to_detail out)]
         | Inl _ \<Rightarrow> last = [] \<or> (\<exists>d. last = [finish_event identity task ''error'' d])"
  show ?thesis
  proof (cases r)
    case (Inl e)
    then obtain d where "set last \<subseteq> {finish_event identity task ''error'' d}" using log(2) by auto
    then have "set (filter lifecycle (appended_since w w')) \<subseteq> {start_event identity taskName, finish_event identity task ''error'' d}"
      using log(1) by (cases started) (simp_all del: set_filter, blast+)
    then show ?thesis unfolding res Inl by (simp only: sum.case) blast
  next
    case (Inr out)
    then have "filter lifecycle (appended_since w w') =
        (if started then [start_event identity taskName] else []) @ [finish_event identity task (to_reason out) (to_detail out)]"
      using log by simp
    then show ?thesis unfolding res Inr sum.case prod.case using who by (intro conjI) (blast, simp)
  qed
qed

subsection \<open>The risk review\<close>

lemma strict_eq_str [simp]: "strict_eq v (JStr s) \<longleftrightarrow> v = JStr s"
  by (cases v) auto

lemma callTool_world:
  assumes call: "callTool deps sandbox uuid identity task tn input w = (res, w')"
  shows "ag_proposals w' = ag_proposals w \<and>
    (\<forall>output. res = Some (Tool_ok output) \<longrightarrow>
       (\<exists>n c d. ag_executed w' = ag_executed w @ [(n, c)] \<and> rt_name (sx_tool c) = tn \<and> sx_input c = input \<and>
          sandbox c = Some (Sandbox_ok output d)))"
proof -
  let ?e = "tool_call_event deps identity task tn input (tool_decision deps identity task tn)"
  obtain ok w1 where a: "ag_append ?e w = (ok, w1)" by force
  note a1 = ag_append_cases[OF a]
  have exec: "ag_proposals v = ag_proposals w1 \<and>
      (\<forall>output. r = Some (Tool_ok output) \<longrightarrow>
       (\<exists>n c d. ag_executed v = ag_executed w1 @ [(n, c)] \<and> sx_tool c = tool \<and> sx_input c = input \<and> sandbox c = Some (Sandbox_ok output d)))"
    if x: "execute_tool deps sandbox uuid identity task tool input w1 = (r, v)" for r v tool
  proof -
    let ?c = "\<lparr>sx_tool = tool, sx_input = input, sx_workspaceDir = ad_workspaceRoot deps @ ''/'' @ uuid, sx_limits = DEFAULT_SANDBOX_LIMITS\<rparr>"
    let ?w = "w1\<lparr>ag_executed := ag_executed w1 @ [(length (persisted (ag_sink w1)), ?c)]\<rparr>"
    show ?thesis
    proof (cases "sandbox ?c")
      case None
      then show ?thesis using x by (auto simp: execute_tool_def)
    next
      case (Some q)
      obtain ok2 w2 where b: "ag_append (tool_result_event deps identity task (rt_name tool) q) ?w = (ok2, w2)" by force
      have rv: "r = Some (mapSandboxResult q)" "v = w2" using x Some b by (auto simp: execute_tool_def Let_def)
      then show ?thesis
        using ag_append_cases[OF b] rv Some by (cases q) (auto intro!: exI[of _ ?c])
    qed
  qed
  show ?thesis
    using call a a1 tool_name[of deps tn] exec
    by (auto simp: callTool_def Let_def split: if_splits option.splits bool.splits) (metis (no_types, lifting))+
qed

lemma propose_world:
  "propose txf landed ins uuid now identity task p w = (res, w') \<Longrightarrow>
   (ag_executed w' = ag_executed w) \<and>
   (ag_proposals w' = ag_proposals w \<and> (\<forall>q. res \<noteq> Inr q) \<or>
    ag_proposals w' = ag_proposals w @ [proposal_of uuid now identity p] \<and>
    (\<forall>q. res = Inr q \<longrightarrow> q = proposal_of uuid now identity p))"
proof -
  let ?q = "proposal_of uuid now identity p"
  let ?tx = "propose_tx ins identity task ?q"
  have body: "a = ?q \<and> ag_proposals v = ag_proposals w @ [?q] \<and> ag_executed v = ag_executed w" if "?tx w = Inr (v, a)" for v a
    using that by (auto simp: propose_tx_def split: if_splits prod.splits bool.splits dest!: ag_append_cases)
  assume "propose txf landed ins uuid now identity task p w = (res, w')"
  then obtain evs where run: "transaction txf landed w ?tx = (w', res, evs)" by (auto simp: propose_def split: prod.splits)
  then show ?thesis
    using transaction_state[of txf landed w ?tx] transaction_ok[of txf landed w ?tx] body by fastforce
qed

lemma act_on_verdict_world:
  assumes act: "act_on_verdict env rid identity task out w = (res, w')"
  shows "ag_executed w' = ag_executed w \<and>
    (ag_proposals w' = ag_proposals w \<and> (\<forall>o'. res = Some o' \<longrightarrow> \<not> isSuccessOutcome o') \<or>
     js_prop out ''risk'' = JStr ''low'' \<and>
     ag_proposals w' = ag_proposals w @ [proposal_of (re_proposal_uuid env) (re_now env) identity (approve_request rid)])"
proof (cases "js_prop (coalesce out (JObj [])) ''risk'' = JStr ''low''")
  case True
  then have "js_prop out ''risk'' = JStr ''low''"
    by (cases "nullish out") (simp_all add: coalesce_def get_field_def)
  moreover obtain r w1 where p: "propose (re_txf env) (re_landed env) (re_insert_fails env) (re_proposal_uuid env) (re_now env) identity task
      (approve_request rid) w = (r, w1)" by force
  ultimately show ?thesis
    using act True propose_world[OF p] by (cases r) (auto simp: act_on_verdict_def Let_def)
next
  case False
  then show ?thesis
    using act by (auto simp: act_on_verdict_def Let_def isSuccessOutcome_def fail_outcome_def)
qed

text \<open>
  C33.  The risk review recommends only what the sandboxed tool judged low.  A run either leaves the
  proposals as they are and does not end as a success, or the tool ran in the sandbox exactly once,
  on the fields of the stored record named in the input, its output says risk \<open>low\<close>, and the run
  added exactly one proposal: to approve that record, under the agent's own identity.
\<close>

theorem only_low_risk_is_recommended:
  assumes run: "vendorRiskReview deps env identity task input w = (res, w')"
  shows "(ag_proposals w' = ag_proposals w \<and> (\<forall>o'. res = Some o' \<longrightarrow> \<not> isSuccessOutcome o')) \<or>
    (\<exists>rid row n c out d. js_prop input ''recordId'' = JStr rid \<and> isUuid (JStr rid) \<and> re_vendor env rid = Some row \<and>
       ag_executed w' = ag_executed w @ [(n, c)] \<and> rt_name (sx_tool c) = ''read-vendor-application'' \<and>
       sx_input c = tool_input_of row \<and> re_sandbox env c = Some (Sandbox_ok out d) \<and> js_prop out ''risk'' = JStr ''low'' \<and>
       ag_proposals w' = ag_proposals w @ [proposal_of (re_proposal_uuid env) (re_now env) identity (approve_request rid)])"
proof (cases "\<exists>rid row. js_prop input ''recordId'' = JStr rid \<and> isUuid (JStr rid) \<and> \<not> re_db_fails env \<and> re_vendor env rid = Some row")
  case False
  then show ?thesis
    using run by (auto simp: vendorRiskReview_def isSuccessOutcome_def fail_outcome_def split: json.splits if_splits option.splits)
next
  case True
  then obtain rid row where r: "js_prop input ''recordId'' = JStr rid" "isUuid (JStr rid)" "\<not> re_db_fails env" "re_vendor env rid = Some row"
    by blast
  obtain t w1 where c: "callTool deps (re_sandbox env) (re_call_uuid env) identity task ''read-vendor-application'' (tool_input_of row) w = (t, w1)"
    by force
  show ?thesis
  proof (cases "\<exists>out. t = Some (Tool_ok out)")
    case True
    then obtain out where t: "t = Some (Tool_ok out)" by blast
    have "act_on_verdict env rid identity task out w1 = (res, w')" using run r c t by (simp add: vendorRiskReview_def)
    from act_on_verdict_world[OF this] callTool_world[OF c] t r show ?thesis by fastforce
  next
    case False
    have "ag_proposals w' = ag_proposals w \<and> (\<forall>o'. res = Some o' \<longrightarrow> \<not> isSuccessOutcome o')"
      using run r c False callTool_world[OF c]
      by (auto simp: vendorRiskReview_def isSuccessOutcome_def fail_outcome_def split: option.splits tool_result.splits)
    then show ?thesis by blast
  qed
qed

lemma quiet_act_on_verdict: "quiet_world w (snd (act_on_verdict env rid identity task out w))"
  using quiet_propose[of w "re_txf env" "re_landed env" "re_insert_fails env" "re_proposal_uuid env" "re_now env" identity task "approve_request rid"]
  by (auto simp: act_on_verdict_def Let_def split: prod.splits sum.splits)

lemma quiet_vendorRiskReview: "quiet (vendorRiskReview deps env)"
proof -
  have "quiet_world w w'" if run: "vendorRiskReview deps env identity task input w = (res, w')" for identity task input w res w'
  proof (cases "\<exists>rid row. js_prop input ''recordId'' = JStr rid \<and> isUuid (JStr rid) \<and> \<not> re_db_fails env \<and> re_vendor env rid = Some row")
    case False
    then have "w' = w" using run by (auto simp: vendorRiskReview_def split: json.splits if_splits option.splits)
    then show ?thesis by simp
  next
    case True
    then obtain rid row where r: "js_prop input ''recordId'' = JStr rid" "isUuid (JStr rid)" "\<not> re_db_fails env" "re_vendor env rid = Some row"
      by blast
    obtain t w1 where c: "callTool deps (re_sandbox env) (re_call_uuid env) identity task ''read-vendor-application'' (tool_input_of row) w = (t, w1)"
      by force
    then have w1: "quiet_world w w1" using quiet_callTool by (metis snd_conv)
    have "w' = w1 \<or> (\<exists>out. w' = snd (act_on_verdict env rid identity task out w1))"
      using run r c by (auto simp: vendorRiskReview_def split: option.splits tool_result.splits) (metis snd_conv)
    then show ?thesis using w1 quiet_act_on_verdict quiet_world_trans by blast
  qed
  then show ?thesis unfolding quiet_def by (metis prod.collapse)
qed

lemma demo_procedures_quiet: "createDemoProcedures deps env name = Some proc \<Longrightarrow> quiet proc"
  by (auto simp: createDemoProcedures_def quiet_vendorRiskReview split: if_splits)

subsection \<open>Witnesses\<close>

definition review_task :: agent_task_def where
  "review_task = \<lparr>at_name = ''vendor-risk-review'', at_description = None, at_tools = Some [''read-vendor-application''], at_proposes = None\<rparr>"

definition review_deps :: agent_deps where
  "review_deps = \<lparr>ad_pdp = decide (authz_evaluate (\<lambda>_. [])), ad_valid = (\<lambda>_ _. True), ad_sha256 = (\<lambda>s. s),
     ad_tools = [READ_VENDOR_APPLICATION_TOOL], ad_workspaceRoot = ''/workspaces'', ad_slug = ''app'', ad_tasks = [review_task]\<rparr>"

definition review_env :: run_env where
  "review_env = \<lparr>re_sandbox = (\<lambda>_. Some (Sandbox_ok (JObj [(''risk'', JStr ''low'')]) (JsInt 5))),
     re_vendor = (\<lambda>_. Some [(''annual_spend'', JNum (JsInt 10))]), re_db_fails = False, re_txf = no_faults, re_landed = False,
     re_insert_fails = False, re_call_uuid = ''c'', re_proposal_uuid = ''p'', re_now = ''t''\<rparr>"

definition review_uuid :: string where
  "review_uuid = ''00000000-0000-4000-8000-000000000000''"

definition review_input :: json where
  "review_input = JObj [(''recordId'', JStr review_uuid)]"

definition review_world :: agent_world where
  "review_world = \<lparr>ag_sink = \<lparr>persisted = [], outages = [], logged = []\<rparr>, ag_proposals = [], ag_executed = []\<rparr>"

definition review_run :: "(admin_error + (string \<times> task_outcome)) \<times> agent_world" where
  "review_run = admin_run review_deps (createDemoProcedures review_deps review_env) [''manager''] (Some (''u'', [''manager'', ''admin'']))
     ''vendor-risk-review'' review_input review_world"

lemma review_run_completes: "fst review_run = Inr (''completed'', fail_outcome ''proposed'' [(''proposalId'', JStr ''p''), (''risk'', JStr ''low'')])"
  by code_simp

theorem reported_run_is_on_the_record_witness:
  "\<exists>identity task. at_name task = ''vendor-risk-review'' \<and>
     finish_event identity task ''proposed'' (JObj [(''proposalId'', JStr ''p''), (''risk'', JStr ''low'')])
       \<in> set (filter lifecycle (appended_since review_world (snd review_run)))"
proof -
  have "admin_run review_deps (createDemoProcedures review_deps review_env) [''manager''] (Some (''u'', [''manager'', ''admin'']))
     ''vendor-risk-review'' review_input review_world = (fst review_run, snd review_run)"
    by (simp add: review_run_def)
  from reported_run_is_on_the_record[OF demo_procedures_quiet[of review_deps review_env "''vendor-risk-review''"] this]
  obtain identity task started where "at_name task = ''vendor-risk-review''"
    "filter lifecycle (appended_since review_world (snd review_run)) =
       (if started then [start_event identity ''vendor-risk-review''] else []) @
       [finish_event identity task ''proposed'' (JObj [(''proposalId'', JStr ''p''), (''risk'', JStr ''low'')])]"
    unfolding review_run_completes fail_outcome_def by fastforce
  then show ?thesis by (intro exI[of _ identity] exI[of _ task]) (simp del: set_filter)
qed

definition review_direct :: "task_outcome option \<times> agent_world" where
  "review_direct = vendorRiskReview review_deps review_env demo_identity review_task review_input review_world"

lemma review_direct_proposes: "length (ag_proposals (snd review_direct)) = 1 \<and> length (ag_executed (snd review_direct)) = 1"
  by code_simp

theorem only_low_risk_is_recommended_witness:
  "\<exists>n c. ag_executed (snd review_direct) = [(n, c)] \<and> rt_name (sx_tool c) = ''read-vendor-application'' \<and>
     ag_proposals (snd review_direct) = [proposal_of ''p'' ''t'' demo_identity (approve_request review_uuid)]"
proof -
  have "vendorRiskReview review_deps review_env demo_identity review_task review_input review_world
      = (fst review_direct, snd review_direct)" by (simp add: review_direct_def)
  from only_low_risk_is_recommended[OF this] review_direct_proposes show ?thesis
    by (auto simp: review_world_def review_env_def review_input_def get_field_def)
qed

end
