(* ===== verification/A2a.thy ===== *)
theory A2a
  imports Agent_Runs
begin

text \<open>
  The A2A endpoint (\<open>runtime/src/a2a.ts\<close>): agent card, \<open>SendMessage\<close> and \<open>GetTask\<close> behind a
  shared bearer secret per client.  The process environment, the clock and the task ids are
  parameters; the PostgreSQL \<open>jsonb\<close> column is a function from the text stored to the value read.
\<close>

subsection \<open>Requests, replies and state\<close>

definition A2A_PROTOCOL_VERSION :: string where
  "A2A_PROTOCOL_VERSION = ''1.0''"

record a2a_client =
  ac_clientId :: string
  ac_allowedSkills :: "string list"
  ac_bearerTokenEnv :: string

record a2a_deps =
  aa_agents :: agent_deps
  aa_clients :: "a2a_client list"
  aa_cardRequireAuth :: bool
  aa_environ :: "string \<Rightarrow> string option"
  aa_procedures :: "string \<Rightarrow> agent_world procedure option"
  aa_name :: string
  aa_description :: "string option"
  aa_version :: string

record a2a_task =
  tk_id :: string
  tk_clientId :: string
  tk_skill :: string
  tk_status :: string
  tk_result :: string

record a2a_world =
  aw_agents :: agent_world
  aw_limiter :: limiter
  aw_tasks :: "a2a_task list"

record a2a_request =
  rq_version :: "string option"
  rq_authorization :: "string option"
  rq_body :: json

text \<open>An answer: the HTTP status with a JSON-RPC error code or result; \<open>Rpc_throws\<close> is an exception that leaves the handler.\<close>

datatype rpc_reply = Rpc_error nat json int | Rpc_result json json | Rpc_throws

fun verifyA2aClient :: "(string \<Rightarrow> string option) \<Rightarrow> string \<Rightarrow> a2a_client list \<Rightarrow> a2a_client option" where
  "verifyA2aClient environ bearer [] = None"
| "verifyA2aClient environ bearer (client # clients) =
     (case environ (ac_bearerTokenEnv client) of
        Some secret \<Rightarrow>
          if secret \<noteq> [] \<and> constantTimeEquals bearer secret then Some client
          else verifyA2aClient environ bearer clients
      | None \<Rightarrow> verifyA2aClient environ bearer clients)"

definition rpcResult :: "json \<Rightarrow> json \<Rightarrow> rpc_reply" where
  "rpcResult id' result = Rpc_result (coalesce id' JNull) result"

definition rpcError :: "nat \<Rightarrow> json \<Rightarrow> int \<Rightarrow> rpc_reply" where
  "rpcError status id' code = Rpc_error status (coalesce id' JNull) code"

definition a2a_append :: "audit_input \<Rightarrow> a2a_world \<Rightarrow> bool \<times> a2a_world" where
  "a2a_append e w = (case ag_append e (aw_agents w) of (ok, a) \<Rightarrow> (ok, w\<lparr>aw_agents := a\<rparr>))"

definition authenticate_client :: "a2a_deps \<Rightarrow> string option \<Rightarrow> a2a_client option" where
  "authenticate_client deps header =
     (case extractBearer header of
        None \<Rightarrow> None
      | Some bearer \<Rightarrow> verifyA2aClient (aa_environ deps) bearer (aa_clients deps))"

subsection \<open>The agent card\<close>

text \<open>\<^term>\<open>None\<close> is the 401 reply.\<close>

definition agent_card :: "a2a_deps \<Rightarrow> string option \<Rightarrow> json option" where
  "agent_card deps authorization =
     (if aa_cardRequireAuth deps \<and> authenticate_client deps authorization = None then None
      else Some (JObj
        [(''name'', JStr (aa_name deps)), (''description'', JStr (case aa_description deps of None \<Rightarrow> [] | Some d \<Rightarrow> d)),
         (''version'', JStr (aa_version deps)),
         (''skills'', JArr (map (\<lambda>task. JObj
            [(''name'', JStr (at_name task)),
             (''description'', JStr (case at_description task of None \<Rightarrow> [] | Some d \<Rightarrow> d))]) (ad_tasks (aa_agents deps)))),
         (''securitySchemes'', JObj [(''bearerAuth'', JObj
            [(''type'', JStr ''http''), (''scheme'', JStr ''bearer''),
             (''description'', JStr ''Shared secret per registered client (interim; see this package's README \"Interim, PROPOSED bearer-verification choices\" section for the planned OAuth 2.0 client-credentials migration).'')])]),
         (''url'', JStr ''/a2a/v1'')]))"

subsection \<open>SendMessage\<close>

text \<open>
  \<open>parts.find((part) => part.kind === "data")\<close>: reading \<open>kind\<close> of a null element throws
  (\<^term>\<open>None\<close>).
\<close>

fun find_data_part :: "json list \<Rightarrow> json option" where
  "find_data_part [] = Some JUndef"
| "find_data_part (part # parts) =
     (if nullish part then None
      else if strict_eq (js_prop part ''kind'') (JStr ''data'') then Some part
      else find_data_part parts)"

definition message_input :: "json \<Rightarrow> json option" where
  "message_input p =
     (case find_data_part (case js_prop (js_prop p ''message'') ''parts'' of JArr parts \<Rightarrow> parts | _ \<Rightarrow> []) of
        None \<Rightarrow> None
      | Some part \<Rightarrow> Some (coalesce (js_prop part ''data'') (JObj [])))"

definition a2a_identity :: "a2a_client \<Rightarrow> string" where
  "a2a_identity client = ''a2a:'' @ ac_clientId client"

definition skill_denied_event :: "a2a_client \<Rightarrow> string option \<Rightarrow> audit_input" where
  "skill_denied_event client skill =
     \<lparr>au_event = ''a2a.call'', au_actor = a2a_identity client, au_actorType = ''agent'', au_subject = skill,
      au_decision = Some ''deny'',
      au_attributes = JObj [(''skill'', case skill of None \<Rightarrow> JNull | Some s \<Rightarrow> JStr s), (''reason'', JStr ''skill_not_allowed'')]\<rparr>"

definition skill_decision :: "agent_deps \<Rightarrow> a2a_client \<Rightarrow> string \<Rightarrow> policy_decision" where
  "skill_decision deps client skill =
     ad_pdp deps \<lparr>pi_subject_id = a2a_identity client, pi_subject_roles = [], pi_action = ''a2a.skill:'' @ skill,
       pi_type = ''a2a.skill'', pi_id = Some skill, pi_allowedRoles = [], pi_context = None\<rparr>"

definition a2a_call_event :: "a2a_client \<Rightarrow> string \<Rightarrow> policy_decision \<Rightarrow> audit_input" where
  "a2a_call_event client skill d =
     \<lparr>au_event = ''a2a.call'', au_actor = a2a_identity client, au_actorType = ''agent'', au_subject = Some skill,
      au_decision = Some (if pd_allow d then ''allow'' else ''deny''),
      au_attributes = JObj [(''skill'', JStr skill), (''reason'', JStr (pd_reason d)), (''policyId'', JStr (pd_policyId d))]\<rparr>"

definition a2a_result_event :: "a2a_client \<Rightarrow> string \<Rightarrow> string \<Rightarrow> string \<Rightarrow> audit_input" where
  "a2a_result_event client skill taskId status =
     \<lparr>au_event = ''a2a.result'', au_actor = a2a_identity client, au_actorType = ''agent'', au_subject = Some skill,
      au_decision = None, au_attributes = JObj [(''taskId'', JStr taskId), (''status'', JStr status)]\<rparr>"

definition message_obj :: "string \<Rightarrow> json" where
  "message_obj m = JObj [(''message'', JStr m)]"

definition outcome_json :: "task_outcome \<Rightarrow> json" where
  "outcome_json out = JObj [(''reason'', JStr (to_reason out)), (''detail'', to_detail out)]"

text \<open>
  Run the skill's procedure: the status and result to report, or \<^term>\<open>None\<close> when \<open>finish\<close>
  throws.  The procedure is looked up before the task.
\<close>

definition dispatch_skill :: "a2a_deps \<Rightarrow> string \<Rightarrow> json \<Rightarrow> agent_world \<Rightarrow> (string \<times> json) option \<times> agent_world" where
  "dispatch_skill deps skill input w =
     (case aa_procedures deps skill of
        None \<Rightarrow> (Some (''failed'', message_obj (''skill '' @ quote_str skill @ '' has no registered procedure on this deployment'')), w)
      | Some proc \<Rightarrow>
          (case contextFor (aa_agents deps) skill w of
             (None, w1) \<Rightarrow> (Some (''failed'', message_obj (''no agent task named '' @ quote_str skill)), w1)
           | (Some (identity, task), w1) \<Rightarrow>
               (case proc identity task input w1 of
                  (None, w2) \<Rightarrow>
                    (case finish identity task ''error'' (JObj []) w2 of
                       (ok, w3) \<Rightarrow> (if ok then Some (''failed'', message_obj ''task execution failed'') else None, w3))
                | (Some out, w2) \<Rightarrow>
                    (case finish identity task (to_reason out) (to_detail out) w2 of
                       (ok, w3) \<Rightarrow>
                         (if ok then Some (if isSuccessOutcome out then ''completed'' else ''failed'', outcome_json out) else None,
                          w3)))))"

definition store_task :: "a2a_task \<Rightarrow> bool \<Rightarrow> a2a_world \<Rightarrow> a2a_world option" where
  "store_task row insert_fails w = (if insert_fails then None else Some (w\<lparr>aw_tasks := aw_tasks w @ [row]\<rparr>))"

definition task_view :: "string \<Rightarrow> string \<Rightarrow> json \<Rightarrow> json" where
  "task_view taskId status result =
     JObj [(''id'', JStr taskId), (''status'', JObj [(''state'', JStr status)]), (''result'', result)]"

definition run_skill :: "a2a_deps \<Rightarrow> string \<Rightarrow> bool \<Rightarrow> a2a_client \<Rightarrow> string \<Rightarrow> json \<Rightarrow> json \<Rightarrow> a2a_world \<Rightarrow> rpc_reply \<times> a2a_world" where
  "run_skill deps taskId insert_fails client skill input id' w =
     (case dispatch_skill deps skill input (aw_agents w) of
        (None, a) \<Rightarrow> (Rpc_throws, w\<lparr>aw_agents := a\<rparr>)
      | (Some (status, result), a) \<Rightarrow>
          (case store_task \<lparr>tk_id = taskId, tk_clientId = ac_clientId client, tk_skill = skill, tk_status = status,
                  tk_result = stringify_val (\<lambda>_. []) result\<rparr> insert_fails (w\<lparr>aw_agents := a\<rparr>) of
             None \<Rightarrow> (Rpc_throws, w\<lparr>aw_agents := a\<rparr>)
           | Some w1 \<Rightarrow>
               (rpcResult id' (task_view taskId status result),
                snd (a2a_append (a2a_result_event client skill taskId status) w1))))"

definition handleSendMessage :: "a2a_deps \<Rightarrow> string \<Rightarrow> bool \<Rightarrow> json \<Rightarrow> json \<Rightarrow> a2a_client \<Rightarrow> a2a_world \<Rightarrow> rpc_reply \<times> a2a_world" where
  "handleSendMessage deps taskId insert_fails params id' client w =
     (let p = coalesce params (JObj []);
          skill = (case js_prop p ''skill'' of JStr s \<Rightarrow> Some s | _ \<Rightarrow> None)
      in case message_input p of
           None \<Rightarrow> (Rpc_throws, w)
         | Some input \<Rightarrow>
             if skill = None \<or> skill = Some [] \<or> the skill \<notin> set (ac_allowedSkills client)
             then (case a2a_append (skill_denied_event client skill) w of
                 (audited, w1) \<Rightarrow> (rpcError 200 id' (if audited then - 32602 else - 32000), w1))
             else
               (let s = the skill; d = skill_decision (aa_agents deps) client s in
                case a2a_append (a2a_call_event client s d) w of
                  (False, w1) \<Rightarrow> (rpcError 200 id' (- 32000), w1)
                | (True, w1) \<Rightarrow>
                    if \<not> pd_allow d then (rpcError 200 id' (- 32001), w1)
                    else run_skill deps taskId insert_fails client s input id' w1))"

subsection \<open>GetTask\<close>

definition lookup_task :: "string \<Rightarrow> a2a_client \<Rightarrow> a2a_world \<Rightarrow> a2a_task option" where
  "lookup_task taskId client w =
     List.find (\<lambda>t. tk_id t = to_lower taskId \<and> tk_clientId t = ac_clientId client) (aw_tasks w)"

definition task_reply :: "(string \<Rightarrow> json) \<Rightarrow> json \<Rightarrow> a2a_task \<Rightarrow> rpc_reply" where
  "task_reply jsonb id' row =
     (let stored = jsonb (tk_result row) in
      if is_str stored
      then (case stored of
          JStr t \<Rightarrow> (case json_parse t of None \<Rightarrow> Rpc_throws | Some v \<Rightarrow> rpcResult id' (task_view (tk_id row) (tk_status row) v))
        | _ \<Rightarrow> Rpc_throws)
      else rpcResult id' (task_view (tk_id row) (tk_status row) stored))"

text \<open>Ids are \<open>uuid\<close> values: PostgreSQL compares them without regard to case.\<close>

definition handleGetTask :: "(string \<Rightarrow> json) \<Rightarrow> json \<Rightarrow> json \<Rightarrow> a2a_client \<Rightarrow> a2a_world \<Rightarrow> rpc_reply" where
  "handleGetTask jsonb params id' client w =
     (case js_prop (coalesce params (JObj [])) ''id'' of
        JStr taskId \<Rightarrow>
          if taskId = [] then rpcError 200 id' (- 32602)
          else if \<not> isUuid (JStr taskId) then rpcError 200 id' (- 32602)
          else (case lookup_task taskId client w of
              None \<Rightarrow> rpcError 200 id' (- 32001)
            | Some row \<Rightarrow> task_reply jsonb id' row)
      | _ \<Rightarrow> rpcError 200 id' (- 32602))"

subsection \<open>The endpoint\<close>

definition auth_rejected_event :: "string \<Rightarrow> audit_input" where
  "auth_rejected_event reason =
     \<lparr>au_event = ''a2a.auth_rejected'', au_actor = ''system'', au_actorType = ''system'', au_subject = None, au_decision = None,
      au_attributes = JObj [(''reason'', JStr reason)]\<rparr>"

definition reject_client :: "a2a_deps \<Rightarrow> int \<Rightarrow> string option \<Rightarrow> a2a_world \<Rightarrow> a2a_world" where
  "reject_client deps now bearer w =
     (case shouldAppend (ad_sha256 (aa_agents deps)) default_limits now (case bearer of None \<Rightarrow> [] | Some b \<Rightarrow> b) (aw_limiter w) of
        (append', l) \<Rightarrow>
          (let w1 = w\<lparr>aw_limiter := l\<rparr> in
           if append' then snd (a2a_append (auth_rejected_event (if bearer = None then ''missing_token'' else ''invalid_token'')) w1) else w1))"

definition a2a_v1 ::
  "a2a_deps \<Rightarrow> (string \<Rightarrow> json) \<Rightarrow> int \<Rightarrow> string \<Rightarrow> bool \<Rightarrow> a2a_request \<Rightarrow> a2a_world \<Rightarrow> rpc_reply \<times> a2a_world" where
  "a2a_v1 deps jsonb now taskId insert_fails rq w =
     (let body = rq_body rq; id' = coalesce (js_prop body ''id'') JNull in
      if rq_version rq \<noteq> Some A2A_PROTOCOL_VERSION then (rpcError 400 id' (- 32000), w)
      else (case authenticate_client deps (rq_authorization rq) of
          None \<Rightarrow> (rpcError 401 id' (- 32001), reject_client deps now (extractBearer (rq_authorization rq)) w)
        | Some client \<Rightarrow>
            if \<not> truthy body \<or> \<not> strict_eq (js_prop body ''jsonrpc'') (JStr ''2.0'') \<or> \<not> is_str (js_prop body ''method'')
            then (rpcError 400 id' (- 32600), w)
            else if js_prop body ''method'' = JStr ''SendMessage''
            then handleSendMessage deps taskId insert_fails (js_prop body ''params'') id' client w
            else if js_prop body ''method'' = JStr ''GetTask''
            then (handleGetTask jsonb (js_prop body ''params'') id' client w, w)
            else (rpcError 200 id' (- 32601), w)))"

text \<open>With no registered client the routes do not exist.\<close>

definition registerA2aEndpoint ::
  "a2a_deps \<Rightarrow> (string \<Rightarrow> json) \<Rightarrow> int \<Rightarrow> string \<Rightarrow> bool \<Rightarrow> a2a_request \<Rightarrow> a2a_world \<Rightarrow> (rpc_reply \<times> a2a_world) option" where
  "registerA2aEndpoint deps jsonb now taskId insert_fails rq w =
     (if map_from (map (\<lambda>c. (ac_clientId c, c)) (aa_clients deps)) = [] then None
      else Some (a2a_v1 deps jsonb now taskId insert_fails rq w))"

end
