(* ===== verification/A2a_Props.thy ===== *)
theory A2a_Props
  imports A2a
begin

text \<open>What the A2A endpoint promises its callers, and what one caller can learn about another.\<close>

lemma a2a_append_cases:
  "a2a_append e w = (ok, w') \<Longrightarrow>
     aw_tasks w' = aw_tasks w \<and> aw_limiter w' = aw_limiter w \<and>
     persisted (ag_sink (aw_agents w')) = persisted (ag_sink (aw_agents w)) @ (if ok then [e] else []) \<and>
     ag_proposals (aw_agents w') = ag_proposals (aw_agents w) \<and> ag_executed (aw_agents w') = ag_executed (aw_agents w)"
  by (auto simp: a2a_append_def split: prod.splits dest!: ag_append_cases)

lemma grows_refl [simp]: "grows w w"
  by (simp add: grows_def)

lemma grows_trans: "grows a b \<Longrightarrow> grows b c \<Longrightarrow> grows a c"
  unfolding grows_def by (rule prefix_order.trans)

lemma grows_finish: "finish identity task reason detail w = (ok, w') \<Longrightarrow> grows w w'"
  by (drule finish_cases) (auto simp: grows_def)

lemma grows_context: "contextFor deps name w = (res, w') \<Longrightarrow> grows w w'"
  by (drule contextFor_log) (auto simp: grows_def split: option.splits)

lemma grows_quiet: "quiet proc \<Longrightarrow> proc identity task input w = (res, w') \<Longrightarrow> grows w w'"
  unfolding quiet_def quiet_world_def by (metis snd_conv)

definition quiet_skills :: "a2a_deps \<Rightarrow> bool" where
  "quiet_skills deps \<longleftrightarrow> (\<forall>skill proc. aa_procedures deps skill = Some proc \<longrightarrow> quiet proc)"

lemma dispatch_grows:
  assumes quiet: "quiet_skills deps"
    and d: "dispatch_skill deps skill input w = (r, w')"
  shows "grows w w'"
proof (cases "aa_procedures deps skill")
  case None
  then show ?thesis using d by (simp add: dispatch_skill_def)
next
  case (Some proc)
  have q: "quiet proc" using quiet Some by (simp add: quiet_skills_def)
  obtain c w1 where ctx: "contextFor (aa_agents deps) skill w = (c, w1)" by force
  show ?thesis
  proof (cases c)
    case None
    then show ?thesis using d Some ctx grows_context[OF ctx] by (simp add: dispatch_skill_def)
  next
    case (Some it)
    obtain identity task where it: "it = (identity, task)" by force
    obtain o' w2 where p: "proc identity task input w1 = (o', w2)" by force
    have "grows w w2" using grows_context[OF ctx] grows_quiet[OF q p] grows_trans by blast
    moreover have "grows w2 w'"
      using d \<open>aa_procedures deps skill = Some proc\<close> ctx Some it p
      by (cases o') (auto simp: dispatch_skill_def split: prod.splits if_splits intro: grows_finish)
    ultimately show ?thesis by (rule grows_trans)
  qed
qed

lemma run_skill_world:
  assumes quiet: "quiet_skills deps"
    and r: "run_skill deps taskId ins client skill input id' w = (reply, w')"
  shows "grows (aw_agents w) (aw_agents w') \<and> aw_limiter w' = aw_limiter w \<and>
    (\<exists>new. aw_tasks w' = aw_tasks w @ new \<and> length new \<le> 1 \<and> (\<forall>t \<in> set new. tk_clientId t = ac_clientId client \<and> tk_id t = taskId))"
proof -
  obtain q a where d: "dispatch_skill deps skill input (aw_agents w) = (q, a)" by force
  note g = dispatch_grows[OF quiet d]
  show ?thesis
  proof (cases "q = None \<or> ins")
    case True
    then have "w' = w\<lparr>aw_agents := a\<rparr>" using r d by (cases q) (auto simp: run_skill_def store_task_def)
    then show ?thesis using g by simp
  next
    case False
    then obtain status result where q: "q = Some (status, result)" by auto
    let ?row = "\<lparr>tk_id = taskId, tk_clientId = ac_clientId client, tk_skill = skill, tk_status = status, tk_result = stringify_val (\<lambda>_. []) result\<rparr>"
    let ?w1 = "w\<lparr>aw_agents := a, aw_tasks := aw_tasks w @ [?row]\<rparr>"
    obtain ok w2 where a2: "a2a_append (a2a_result_event client skill taskId status) ?w1 = (ok, w2)" by force
    have "w' = w2" using r d q False a2 by (simp add: run_skill_def store_task_def)
    then show ?thesis using a2a_append_cases[OF a2] g by (auto simp: grows_def prefix_def)
  qed
qed

definition skill_admitted :: "a2a_deps \<Rightarrow> a2a_client \<Rightarrow> string \<Rightarrow> audit_input list \<Rightarrow> bool" where
  "skill_admitted deps client skill log \<longleftrightarrow>
     skill \<in> set (ac_allowedSkills client) \<and> pd_allow (skill_decision (aa_agents deps) client skill) \<and>
     a2a_call_event client skill (skill_decision (aa_agents deps) client skill) \<in> set log"

definition untouched :: "a2a_world \<Rightarrow> a2a_world \<Rightarrow> bool" where
  "untouched w w' \<longleftrightarrow> aw_tasks w' = aw_tasks w \<and> ag_proposals (aw_agents w') = ag_proposals (aw_agents w) \<and>
     ag_executed (aw_agents w') = ag_executed (aw_agents w)"

lemma handleSendMessage_world:
  assumes quiet: "quiet_skills deps"
    and r: "handleSendMessage deps taskId ins params id' client w = (reply, w')"
  shows "(\<exists>new. aw_tasks w' = aw_tasks w @ new \<and> length new \<le> 1 \<and> (\<forall>t \<in> set new. tk_clientId t = ac_clientId client \<and> tk_id t = taskId)) \<and>
    (untouched w w' \<or> (\<exists>skill. skill_admitted deps client skill (persisted (ag_sink (aw_agents w')))))"
proof -
  let ?p = "coalesce params (JObj [])"
  let ?skill = "case js_prop ?p ''skill'' of JStr s \<Rightarrow> Some s | _ \<Rightarrow> None"
  consider (throws) "message_input ?p = None"
    | (denied) input where "message_input ?p = Some input" "?skill = None \<or> ?skill = Some [] \<or> the ?skill \<notin> set (ac_allowedSkills client)"
    | (asked) input s where "message_input ?p = Some input" "?skill = Some s" "s \<noteq> []" "s \<in> set (ac_allowedSkills client)"
    by fastforce
  then show ?thesis
  proof cases
    case throws
    then show ?thesis using r by (simp add: handleSendMessage_def untouched_def)
  next
    case denied
    obtain ok w1 where a: "a2a_append (skill_denied_event client ?skill) w = (ok, w1)" by force
    have "w' = w1" using r denied a by (simp add: handleSendMessage_def Let_def)
    then show ?thesis using a2a_append_cases[OF a] by (simp add: untouched_def)
  next
    case asked
    let ?d = "skill_decision (aa_agents deps) client s"
    obtain ok w1 where a: "a2a_append (a2a_call_event client s ?d) w = (ok, w1)" by force
    note a1 = a2a_append_cases[OF a]
    show ?thesis
    proof (cases "ok \<and> pd_allow ?d")
      case False
      then have "w' = w1" using r asked a by (auto simp: handleSendMessage_def Let_def split: if_splits bool.splits)
      then show ?thesis using a1 by (simp add: untouched_def)
    next
      case True
      then have "run_skill deps taskId ins client s input id' w1 = (reply, w')"
        using r asked a by (simp add: handleSendMessage_def Let_def)
      note rs = run_skill_world[OF quiet this]
      have "a2a_call_event client s ?d \<in> set (persisted (ag_sink (aw_agents w')))"
        using rs a1 True by (auto simp: grows_def prefix_def)
      then show ?thesis using rs a1 True asked by (auto simp: skill_admitted_def)
    qed
  qed
qed

lemma find_conj_filter: "List.find (\<lambda>x. P x \<and> Q x) xs = List.find P (filter Q xs)"
  by (induction xs) auto

definition own_tasks :: "a2a_client \<Rightarrow> a2a_world \<Rightarrow> a2a_task list" where
  "own_tasks client w = filter (\<lambda>t. tk_clientId t = ac_clientId client) (aw_tasks w)"

lemma lookup_task_own: "lookup_task i client w = List.find (\<lambda>t. tk_id t = to_lower i) (own_tasks client w)"
  unfolding lookup_task_def own_tasks_def by (rule find_conj_filter)

lemma handleGetTask_own:
  "own_tasks client w1 = own_tasks client w2 \<Longrightarrow> handleGetTask jsonb params id' client w1 = handleGetTask jsonb params id' client w2"
  unfolding handleGetTask_def lookup_task_own by (cases "js_prop (coalesce params (JObj [])) ''id''") simp_all

lemma reject_client_world:
  "untouched w (reject_client deps now bearer w) \<and>
   (\<exists>es. persisted (ag_sink (aw_agents (reject_client deps now bearer w))) = persisted (ag_sink (aw_agents w)) @ es \<and>
      length es \<le> 1 \<and> (\<forall>e \<in> set es. \<exists>reason. e = auth_rejected_event reason))"
proof -
  let ?v = "case bearer of None \<Rightarrow> [] | Some b \<Rightarrow> b"
  let ?e = "auth_rejected_event (if bearer = None then ''missing_token'' else ''invalid_token'')"
  obtain app l where s: "shouldAppend (ad_sha256 (aa_agents deps)) default_limits now ?v (aw_limiter w) = (app, l)" by force
  obtain ok w1 where a: "a2a_append ?e (w\<lparr>aw_limiter := l\<rparr>) = (ok, w1)" by force
  have "reject_client deps now bearer w = (if app then w1 else w\<lparr>aw_limiter := l\<rparr>)"
    using s a by (simp add: reject_client_def Let_def)
  then show ?thesis using a2a_append_cases[OF a] by (auto simp: untouched_def)
qed


subsection \<open>Round trip\<close>

lemma dispatch_result_object: "dispatch_skill deps skill input w = (Some (status, result), w') \<Longrightarrow> \<exists>kvs. result = JObj kvs"
  by (auto simp: dispatch_skill_def message_obj_def outcome_json_def split: option.splits prod.splits if_splits)

lemma run_skill_stores:
  assumes "run_skill deps taskId ins client skill input id' w = (Rpc_result i view, w')"
  shows "\<exists>status kvs. i = coalesce id' JNull \<and> view = task_view taskId status (JObj kvs) \<and>
    aw_tasks w' = aw_tasks w @ [\<lparr>tk_id = taskId, tk_clientId = ac_clientId client, tk_skill = skill, tk_status = status,
      tk_result = stringify_val (\<lambda>_. []) (JObj kvs)\<rparr>]"
proof -
  obtain q a where d: "dispatch_skill deps skill input (aw_agents w) = (q, a)" by force
  obtain status result where q: "q = Some (status, result)" "\<not> ins"
    using assms d by (cases q) (auto simp: run_skill_def store_task_def split: if_splits)
  then obtain kvs where k: "result = JObj kvs" using dispatch_result_object d by blast
  let ?row = "\<lparr>tk_id = taskId, tk_clientId = ac_clientId client, tk_skill = skill, tk_status = status,
      tk_result = stringify_val (\<lambda>_. []) result\<rparr>"
  obtain ok w2 where a2: "a2a_append (a2a_result_event client skill taskId status) (w\<lparr>aw_agents := a, aw_tasks := aw_tasks w @ [?row]\<rparr>) = (ok, w2)"
    by force
  have "w' = w2" "i = coalesce id' JNull" "view = task_view taskId status result"
    using assms d q a2 by (simp_all add: run_skill_def store_task_def rpcResult_def)
  then show ?thesis using a2a_append_cases[OF a2] k by auto
qed

lemma sendMessage_stores:
  assumes "handleSendMessage deps taskId ins params id' client w = (Rpc_result i view, w')"
  shows "\<exists>skill status kvs. view = task_view taskId status (JObj kvs) \<and>
    aw_tasks w' = aw_tasks w @ [\<lparr>tk_id = taskId, tk_clientId = ac_clientId client, tk_skill = skill, tk_status = status,
      tk_result = stringify_val (\<lambda>_. []) (JObj kvs)\<rparr>]"
proof -
  obtain input skill w1 where "run_skill deps taskId ins client skill input id' w1 = (Rpc_result i view, w')" "aw_tasks w1 = aw_tasks w"
    using assms
    by (auto simp: handleSendMessage_def Let_def rpcError_def split: option.splits prod.splits if_splits bool.splits
        dest!: a2a_append_cases)
  then show ?thesis using run_skill_stores by fastforce
qed

text \<open>
  A task can be read back by its owner and by nobody else.  After \<open>SendMessage\<close> answered with
  a task, \<open>GetTask\<close> with its id answers the same client with the same id and status and the stored
  result, and every other client with \<open>task not found\<close>.  Assumed of PostgreSQL: reading a \<open>jsonb\<close>
  column that was written as an object gives an object.
\<close>

theorem a2a_task_round_trip:
  assumes sent: "handleSendMessage deps taskId ins params id' client w = (Rpc_result i view, w')"
    and fresh: "\<And>t. t \<in> set (aw_tasks w) \<Longrightarrow> tk_id t \<noteq> taskId"
    and uuid: "isUuid (JStr taskId)" "to_lower taskId = taskId"
    and jsonb: "\<And>kvs. \<exists>kvs'. jsonb (stringify_val (\<lambda>_. []) (JObj kvs)) = JObj kvs'"
  shows "\<exists>status kvs. view = task_view taskId status (JObj kvs) \<and>
    handleGetTask jsonb (JObj [(''id'', JStr taskId)]) id2 client w' =
      rpcResult id2 (task_view taskId status (jsonb (stringify_val (\<lambda>_. []) (JObj kvs)))) \<and>
    (\<forall>other. ac_clientId other \<noteq> ac_clientId client \<longrightarrow>
       handleGetTask jsonb (JObj [(''id'', JStr taskId)]) id2 other w' = rpcError 200 id2 (- 32001))"
proof -
  obtain skill status kvs where v: "view = task_view taskId status (JObj kvs)"
    and t: "aw_tasks w' = aw_tasks w @ [\<lparr>tk_id = taskId, tk_clientId = ac_clientId client, tk_skill = skill, tk_status = status,
      tk_result = stringify_val (\<lambda>_. []) (JObj kvs)\<rparr>]" (is "_ = _ @ [?row]")
    using sendMessage_stores[OF sent] by blast
  obtain kvs' where k: "jsonb (stringify_val (\<lambda>_. []) (JObj kvs)) = JObj kvs'" using jsonb by blast
  have none: "List.find (\<lambda>t. tk_id t = taskId \<and> tk_clientId t = c) (aw_tasks w) = None" for c
    using fresh by (auto simp: find_None_iff)
  have find_append: "List.find P (xs @ [x]) = (if P x then Some x else None)" if "List.find P xs = None"
    for P and xs :: "a2a_task list" and x
    using that by (induction xs) (auto split: if_splits)
  have "lookup_task taskId c w' = (if ac_clientId c = ac_clientId client then Some ?row else None)" for c
    unfolding lookup_task_def uuid(2) t using find_append[OF none] by simp
  moreover have "taskId \<noteq> []" using uuid(1) by (auto simp: isUuid_def uuid_text_def)
  ultimately show ?thesis
    using v k uuid(1)
    by (intro exI[of _ status] exI[of _ kvs]) (simp add: handleGetTask_def coalesce_def get_field_def task_reply_def Let_def)
qed

text \<open>
  A message whose parts hold a null before the data part makes \<open>SendMessage\<close> throw: the route
  answers with a plain 500 and nothing is recorded, although the caller is an authenticated client.
\<close>

lemma null_part_throws:
  "handleSendMessage deps taskId ins (JObj [(''skill'', JStr s), (''message'', JObj [(''parts'', JArr (JNull # parts))])]) id' client w
     = (Rpc_throws, w)"
  by (simp add: handleSendMessage_def message_input_def coalesce_def get_field_def Let_def)

subsection \<open>Witnesses\<close>

definition demo_client :: a2a_client where
  "demo_client = \<lparr>ac_clientId = ''partner'', ac_allowedSkills = [''vendor-risk-review''], ac_bearerTokenEnv = ''TOKEN''\<rparr>"

definition demo_a2a :: a2a_deps where
  "demo_a2a = \<lparr>aa_agents = review_deps, aa_clients = [demo_client], aa_cardRequireAuth = True,
     aa_environ = (\<lambda>n. if n = ''TOKEN'' then Some ''secret'' else None), aa_procedures = createDemoProcedures review_deps review_env,
     aa_name = ''app'', aa_description = None, aa_version = ''1''\<rparr>"

definition demo_jsonb :: "string \<Rightarrow> json" where
  "demo_jsonb t = (case json_parse t of Some v \<Rightarrow> (case v of JObj kvs \<Rightarrow> JObj kvs | _ \<Rightarrow> JObj []) | None \<Rightarrow> JObj [])"

definition demo_params :: json where
  "demo_params = JObj [(''skill'', JStr ''vendor-risk-review''),
     (''message'', JObj [(''parts'', JArr [JObj [(''kind'', JStr ''data''), (''data'', review_input)]])])]"

definition demo_rq :: a2a_request where
  "demo_rq = \<lparr>rq_version = Some ''1.0'', rq_authorization = Some ''Bearer secret'',
     rq_body = JObj [(''jsonrpc'', JStr ''2.0''), (''method'', JStr ''SendMessage''), (''params'', demo_params)]\<rparr>"

definition demo_a2a_world :: a2a_world where
  "demo_a2a_world = \<lparr>aw_agents = review_world, aw_limiter = createLimiter 0, aw_tasks = []\<rparr>"

lemma demo_quiet: "quiet_skills demo_a2a"
  by (auto simp: quiet_skills_def demo_a2a_def dest: demo_procedures_quiet)

definition demo_sent :: "rpc_reply \<times> a2a_world" where
  "demo_sent = handleSendMessage demo_a2a review_uuid False demo_params JNull demo_client demo_a2a_world"

definition demo_served :: "rpc_reply \<times> a2a_world" where
  "demo_served = a2a_v1 demo_a2a demo_jsonb 0 review_uuid False demo_rq demo_a2a_world"

definition demo_view :: json where
  "demo_view = task_view review_uuid ''completed''
     (JObj [(''reason'', JStr ''proposed''), (''detail'', JObj [(''proposalId'', JStr ''p''), (''risk'', JStr ''low'')])])"

lemma demo_sent_reply: "fst demo_sent = Rpc_result JNull demo_view"
  by code_simp

lemma demo_served_changes: "length (aw_tasks (snd demo_served)) = 1 \<and> authenticate_client demo_a2a (rq_authorization demo_rq) = Some demo_client"
  by code_simp


theorem a2a_task_round_trip_witness:
  "handleGetTask demo_jsonb (JObj [(''id'', JStr review_uuid)]) JNull (demo_client\<lparr>ac_clientId := ''other''\<rparr>) (snd demo_sent)
     = rpcError 200 JNull (- 32001) \<and>
   (\<exists>v. handleGetTask demo_jsonb (JObj [(''id'', JStr review_uuid)]) JNull demo_client (snd demo_sent) = rpcResult JNull v)"
proof -
  have "handleSendMessage demo_a2a review_uuid False demo_params JNull demo_client demo_a2a_world
      = (Rpc_result JNull demo_view, snd demo_sent)"
    using demo_sent_reply by (simp add: demo_sent_def[symmetric] prod_eq_iff)
  moreover have "tk_id t \<noteq> review_uuid" if "t \<in> set (aw_tasks demo_a2a_world)" for t
    using that by (simp add: demo_a2a_world_def)
  moreover have "isUuid (JStr review_uuid)" "to_lower review_uuid = review_uuid" by code_simp+
  moreover have "\<exists>kvs'. demo_jsonb t = JObj kvs'" for t
    by (auto simp: demo_jsonb_def split: option.splits json.splits)
  ultimately show ?thesis
    using a2a_task_round_trip[of demo_a2a review_uuid False demo_params JNull demo_client demo_a2a_world JNull demo_view "snd demo_sent" demo_jsonb JNull]
    by (auto simp: demo_client_def)
qed

end
