(* ===== verification/Accounted.thy ===== *)
theory Accounted
  imports Prelude
begin

text \<open>
  The common shape of the governed components: a state with an append-only log and a list of the
  effects performed so far, each with the length the log had when it was performed.  The interface
  asks of single steps that a new effect is justified by the log before it; the client's result is
  that this holds of every effect of every run.
\<close>

definition accounted_acts :: "('e list \<Rightarrow> 'a \<Rightarrow> bool) \<Rightarrow> 'e list \<Rightarrow> (nat \<times> 'a) list \<Rightarrow> bool" where
  "accounted_acts justified log acts \<longleftrightarrow> (\<forall>(n, a) \<in> set acts. n \<le> length log \<and> justified (take n log) a)"

lemma accounted_acts_mono: "accounted_acts j l as \<Longrightarrow> prefix l l' \<Longrightarrow> accounted_acts j l' as"
  by (fastforce simp: accounted_acts_def prefix_def)

lemma accounted_acts_append [simp]: "accounted_acts j l (xs @ ys) \<longleftrightarrow> accounted_acts j l xs \<and> accounted_acts j l ys"
  by (auto simp: accounted_acts_def)

lemma accounted_acts_simps [simp]:
  "accounted_acts j l []" "accounted_acts j l [(n, a)] \<longleftrightarrow> n \<le> length l \<and> j (take n l) a"
  by (auto simp: accounted_acts_def)

locale record_before_act =
  fixes log :: "'s \<Rightarrow> 'e list" and acts :: "'s \<Rightarrow> (nat \<times> 'a) list" and step :: "'s \<Rightarrow> 's \<Rightarrow> bool"
    and justified :: "'e list \<Rightarrow> 'a \<Rightarrow> bool"
  assumes log_grows: "step s t \<Longrightarrow> prefix (log s) (log t)"
    and new_acts: "step s t \<Longrightarrow> \<exists>new. acts t = acts s @ new \<and> accounted_acts justified (log t) new"
begin

lemma step_keeps: "step s t \<Longrightarrow> accounted_acts justified (log s) (acts s) \<Longrightarrow> accounted_acts justified (log t) (acts t)"
  using log_grows new_acts accounted_acts_mono by fastforce

lemma run_keeps: "step\<^sup>*\<^sup>* s t \<Longrightarrow> accounted_acts justified (log s) (acts s) \<Longrightarrow> accounted_acts justified (log t) (acts t)"
  by (induction rule: rtranclp_induct) (auto intro: step_keeps)

lemma run_log: "step\<^sup>*\<^sup>* s t \<Longrightarrow> prefix (log s) (log t)"
  by (induction rule: rtranclp_induct) (auto dest: log_grows intro: prefix_order.trans)

lemma every_act_was_recorded:
  "step\<^sup>*\<^sup>* s t \<Longrightarrow> acts s = [] \<Longrightarrow> (n, a) \<in> set (acts t) \<Longrightarrow> n \<le> length (log t) \<and> justified (take n (log t)) a"
  using run_keeps[of s t] by (auto simp: accounted_acts_def)

end

end
