(* ===== verification/Mcp_Client.thy ===== *)
theory Mcp_Client
  imports Accounted Agents
begin

text \<open>
  The MCP client (\<open>mcp/src/client.ts\<close>, \<open>digest.ts\<close>): static egress to configured servers only.  The
  MCP SDK, the network, URL parsing and the process environment are parameters.  The state is the
  audit log, the connection cache and, for the statements, the connections opened (with the revision
  they negotiated) and closed, and the tool calls that went over the wire, each with the log length at that moment.
\<close>

subsection \<open>Digests\<close>

fun canon :: "json \<Rightarrow> json" where
  "canon (JArr vs) = JArr (map canon vs)"
| "canon (JObj kvs) =
     JObj (obj_build (map (\<lambda>kv. (fst kv, canon (snd kv))) (filter (\<lambda>kv. snd kv \<noteq> JUndef) (sort_entries kvs))))"
| "canon (JDate d) = JObj []"
| "canon v = v"

definition canonicalJson :: "json \<Rightarrow> string" where
  "canonicalJson value = stringify_val (\<lambda>_. []) (canon (coalesce value JNull))"

definition mcp_digestValue :: "(string \<Rightarrow> string) \<Rightarrow> json \<Rightarrow> string \<times> nat" where
  "mcp_digestValue sha256 value =
     (let j = canonicalJson value in (sha256 j, length (utf8_encode j)))"

lemma canon_same: "canon v = canonicalizeValue v"
proof (induction v rule: json_induct)
  case (Obj kvs)
  then have "map (\<lambda>kv. (fst kv, canon (snd kv))) (filter (\<lambda>kv. snd kv \<noteq> JUndef) (sort_entries kvs)) =
      map (\<lambda>kv. (fst kv, canonicalizeValue (snd kv))) (filter (\<lambda>kv. snd kv \<noteq> JUndef) (sort_entries kvs))"
    by (auto simp: sort_entries_def)
  then show ?case by (simp only: canon.simps canonicalizeValue.simps)
qed simp_all

subsection \<open>Redirects\<close>

text \<open>A response: status and \<open>Location\<close>.  The fetch gets the URL and the \<open>Authorization\<close> header.\<close>

record fetch_response =
  fr_status :: int
  fr_location :: "string option"

datatype fetch_error = Too_many_redirects | Cross_origin_redirect | Invalid_location | Fetch_failed

definition authorization_for :: "(string \<Rightarrow> string option) \<Rightarrow> string option \<Rightarrow> string option \<Rightarrow> string option" where
  "authorization_for environ tokenEnv own =
     (case tokenEnv of
        None \<Rightarrow> own
      | Some name \<Rightarrow>
          if name = [] then own
          else (case environ name of Some token \<Rightarrow> if token = [] then own else Some (''Bearer '' @ token) | None \<Rightarrow> own))"

text \<open>
  The loop; \<open>base i\<close> answers the \<open>i\<close>-th request (\<^term>\<open>None\<close> throws), \<open>resolve\<close> is
  \<open>new URL(location, base)\<close>.  The requests made are returned with the outcome.
\<close>

function follow ::
  "('u \<Rightarrow> string) \<Rightarrow> (string \<Rightarrow> 'u \<Rightarrow> 'u option) \<Rightarrow> (nat \<Rightarrow> 'u \<Rightarrow> string option \<Rightarrow> fetch_response option) \<Rightarrow>
   'u \<Rightarrow> string option \<Rightarrow> nat \<Rightarrow> 'u \<Rightarrow> (fetch_error + fetch_response) \<times> ('u \<times> string option) list" where
  "follow origin resolve base requestUrl auth redirects currentUrl =
     (case base redirects currentUrl auth of
        None \<Rightarrow> (Inl Fetch_failed, [(currentUrl, auth)])
      | Some response \<Rightarrow>
          (let location = (if 300 \<le> fr_status response \<and> fr_status response < 400 then fr_location response else None) in
           if location = None \<or> location = Some [] then (Inr response, [(currentUrl, auth)])
           else if 5 \<le> redirects then (Inl Too_many_redirects, [(currentUrl, auth)])
           else (case resolve (the location) currentUrl of
               None \<Rightarrow> (Inl Invalid_location, [(currentUrl, auth)])
             | Some nextUrl \<Rightarrow>
                 if origin nextUrl \<noteq> origin requestUrl then (Inl Cross_origin_redirect, [(currentUrl, auth)])
                 else (case follow origin resolve base requestUrl auth (redirects + 1) nextUrl of
                     (res, sent) \<Rightarrow> (res, (currentUrl, auth) # sent)))))"
  by pat_completeness auto
termination
  by (relation "measure (\<lambda>(_, _, _, _, _, redirects, _). 5 - redirects)") auto

declare follow.simps [simp del]

definition makeSafeFetch where
  "makeSafeFetch environ tokenEnv origin resolve base url own =
     follow origin resolve base url (authorization_for environ tokenEnv own) 0 url"

subsection \<open>Servers and connections\<close>

definition SUPPORTED_MCP_REVISIONS :: "string list" where
  "SUPPORTED_MCP_REVISIONS = [''2025-11-25'', ''2025-06-18'']"

datatype mcp_transport = Stdio string "string list" | Http string "string option"

record mcp_entry =
  me_name :: string
  me_transport :: mcp_transport
  me_allowedTools :: "string list"

datatype mcp_code =
    ERR_MCP_SERVER_UNKNOWN | ERR_MCP_TOOL_NOT_ALLOWED | ERR_MCP_POLICY_DENIED | ERR_MCP_PROTOCOL | ERR_MCP_UPSTREAM
  | ERR_MCP_AUDIT_UNAVAILABLE

datatype mcp_result = Mcp_ok json | Mcp_error mcp_code string

fun mcp_code_text :: "mcp_code \<Rightarrow> string" where
  "mcp_code_text ERR_MCP_SERVER_UNKNOWN = ''ERR_MCP_SERVER_UNKNOWN''"
| "mcp_code_text ERR_MCP_TOOL_NOT_ALLOWED = ''ERR_MCP_TOOL_NOT_ALLOWED''"
| "mcp_code_text ERR_MCP_POLICY_DENIED = ''ERR_MCP_POLICY_DENIED''"
| "mcp_code_text ERR_MCP_PROTOCOL = ''ERR_MCP_PROTOCOL''"
| "mcp_code_text ERR_MCP_UPSTREAM = ''ERR_MCP_UPSTREAM''"
| "mcp_code_text ERR_MCP_AUDIT_UNAVAILABLE = ''ERR_MCP_AUDIT_UNAVAILABLE''"

text \<open>What the SDK does on \<open>connect\<close>: throw, or open a connection after announcing a revision.\<close>

datatype sdk_connect = Sdk_threw string | Sdk_connected "string option" nat

datatype sdk_call = Call_threw string | Call_result json json

datatype connect_outcome = Conn_ok nat | Conn_error mcp_code string

record wire_call =
  wc_handle :: nat
  wc_server :: string
  wc_tool :: string
  wc_args :: json
  wc_subject :: "string \<times> string list"
  wc_actorType :: string

record mcp_world =
  mw_sink :: "audit_input audit_sink"
  mw_connections :: "(string \<times> nat) list"
  mw_opened :: "(nat \<times> string) list"
  mw_closed :: "nat list"
  mw_calls :: "(nat \<times> wire_call) list"

record mcp_deps =
  md_servers :: "mcp_entry list"
  md_pdp :: "policy_input \<Rightarrow> policy_decision"
  md_sha256 :: "string \<Rightarrow> string"

definition mcp_servers :: "mcp_deps \<Rightarrow> (string \<times> mcp_entry) list" where
  "mcp_servers deps = map_from (map (\<lambda>s. (me_name s, s)) (md_servers deps))"

definition mcp_append :: "audit_input \<Rightarrow> mcp_world \<Rightarrow> bool \<times> mcp_world" where
  "mcp_append e w = (case sink_append e (mw_sink w) of (ok, s) \<Rightarrow> (ok, w\<lparr>mw_sink := s\<rparr>))"

definition isProtocolNegotiationError :: "string \<Rightarrow> bool" where
  "isProtocolNegotiationError message \<longleftrightarrow> contains_str (to_lower message) ''protocol version''"

text \<open>An SDK connection that negotiated an unsupported revision is closed again.\<close>

definition connectServer :: "(mcp_entry \<Rightarrow> sdk_connect) \<Rightarrow> mcp_entry \<Rightarrow> mcp_world \<Rightarrow> connect_outcome \<times> mcp_world" where
  "connectServer connect entry w =
     (case connect entry of
        Sdk_threw err \<Rightarrow>
          (if isProtocolNegotiationError err then Conn_error ERR_MCP_PROTOCOL (''MCP protocol negotiation failed: '' @ err)
           else Conn_error ERR_MCP_UPSTREAM (''MCP connect failed: '' @ err), w)
      | Sdk_connected negotiated h \<Rightarrow>
          (case negotiated of
             None \<Rightarrow> (Conn_error ERR_MCP_PROTOCOL ''unsupported MCP protocol revision negotiated: unknown'', w)
           | Some v \<Rightarrow>
               if v = [] \<or> v \<notin> set SUPPORTED_MCP_REVISIONS
               then (Conn_error ERR_MCP_PROTOCOL (''unsupported MCP protocol revision negotiated: '' @ v), w)
               else (Conn_ok h, w\<lparr>mw_opened := mw_opened w @ [(h, v)]\<rparr>)))"

text \<open>Other calls may run while this one waits for \<open>connect\<close>: \<open>others\<close>.\<close>

definition getConnection :: "(mcp_world \<Rightarrow> mcp_world) \<Rightarrow> (mcp_entry \<Rightarrow> sdk_connect) \<Rightarrow> mcp_entry \<Rightarrow> mcp_world \<Rightarrow> connect_outcome \<times> mcp_world" where
  "getConnection others connect entry w =
     (case map_of (mw_connections w) (me_name entry) of
        Some h \<Rightarrow> (Conn_ok h, w)
      | None \<Rightarrow>
          (case connectServer connect entry (others w) of
             (Conn_ok h, w1) \<Rightarrow> (Conn_ok h, w1\<lparr>mw_connections := map_set (me_name entry) h (mw_connections w1)\<rparr>)
           | (Conn_error code m, w1) \<Rightarrow> (Conn_error code m, w1)))"

definition mcp_close :: "mcp_world \<Rightarrow> mcp_world" where
  "mcp_close w = w\<lparr>mw_closed := mw_closed w @ map snd (mw_connections w), mw_connections := []\<rparr>"

text \<open>A block with \<open>type: "text"\<close> and a string; elements that are no objects are skipped.\<close>

definition block_text :: "json \<Rightarrow> string option" where
  "block_text block =
     (if strict_eq (js_prop block ''type'') (JStr ''text'')
      then (case js_prop block ''text'' of JStr t \<Rightarrow> Some t | _ \<Rightarrow> None) else None)"

definition extractErrorText :: "json \<Rightarrow> string option" where
  "extractErrorText content =
     (case content of
        JArr blocks \<Rightarrow>
          (let texts = map the (filter (\<lambda>t. t \<noteq> None) (map block_text (filter is_object blocks))) in
           if texts = [] then None else Some (join_with newline texts))
      | _ \<Rightarrow> None)"

subsection \<open>Tool calls\<close>

record mcp_request =
  mr_server :: string
  mr_tool :: string
  mr_args :: json
  mr_subject :: "string \<times> string list"
  mr_actorType :: string

definition tool_id :: "mcp_request \<Rightarrow> string" where
  "tool_id rq = mr_server rq @ ''/'' @ mr_tool rq"

definition mcp_tool_decision :: "mcp_deps \<Rightarrow> mcp_request \<Rightarrow> policy_decision" where
  "mcp_tool_decision deps rq =
     md_pdp deps \<lparr>pi_subject_id = fst (mr_subject rq), pi_subject_roles = snd (mr_subject rq), pi_action = ''mcp.tool:'' @ tool_id rq,
       pi_type = ''mcp.tool'', pi_id = Some (tool_id rq), pi_allowedRoles = [], pi_context = None\<rparr>"

text \<open>The three checks: \<^term>\<open>None\<close> allows; else the code, the message and the policy's reason.\<close>

definition mcp_check :: "mcp_deps \<Rightarrow> mcp_request \<Rightarrow> (mcp_code \<times> string \<times> string option) option" where
  "mcp_check deps rq =
     (case map_of (mcp_servers deps) (mr_server rq) of
        None \<Rightarrow> Some (ERR_MCP_SERVER_UNKNOWN, ''unknown MCP server \"'' @ mr_server rq @ ''\"'', None)
      | Some entry \<Rightarrow>
          if mr_tool rq \<notin> set (me_allowedTools entry)
          then Some (ERR_MCP_TOOL_NOT_ALLOWED,
            ''tool \"'' @ mr_tool rq @ ''\" is not on server \"'' @ mr_server rq @ ''\"'' @ [CHR 0x27] @ ''s allowedTools'', None)
          else (let pd = mcp_tool_decision deps rq in
            if pd_allow pd then None
            else Some (ERR_MCP_POLICY_DENIED, ''policy denied mcp.tool:'' @ tool_id rq @ '': '' @ pd_reason pd, Some (pd_reason pd))))"

definition mcp_call_event :: "mcp_deps \<Rightarrow> mcp_request \<Rightarrow> audit_input" where
  "mcp_call_event deps rq =
     (case mcp_digestValue (md_sha256 deps) (mr_args rq) of
        (digest, bytes) \<Rightarrow>
          \<lparr>au_event = ''mcp.tool_call'', au_actor = fst (mr_subject rq), au_actorType = mr_actorType rq, au_subject = Some (tool_id rq),
           au_decision = Some (if mcp_check deps rq = None then ''allow'' else ''deny''),
           au_attributes = JObj
             ([(''server'', JStr (mr_server rq)), (''tool'', JStr (mr_tool rq)), (''action'', JStr (''mcp.tool:'' @ tool_id rq))]
              @ (case mcp_check deps rq of None \<Rightarrow> [] | Some (code, _, reason) \<Rightarrow>
                   (''code'', JStr (mcp_code_text code)) # (case reason of None \<Rightarrow> [] | Some r \<Rightarrow> [(''policyReason'', JStr r)]))
              @ [(''argsDigest'', JStr digest), (''argsBytes'', JNum (num_of_int (int bytes)))])\<rparr>)"

definition mcp_result_event :: "mcp_deps \<Rightarrow> int \<Rightarrow> mcp_request \<Rightarrow> mcp_result \<Rightarrow> audit_input" where
  "mcp_result_event deps duration rq result =
     (case mcp_digestValue (md_sha256 deps)
        (case result of Mcp_ok content \<Rightarrow> content | Mcp_error code m \<Rightarrow> JObj [(''code'', JStr (mcp_code_text code)), (''message'', JStr m)]) of
        (digest, bytes) \<Rightarrow>
          \<lparr>au_event = ''mcp.tool_result'', au_actor = fst (mr_subject rq), au_actorType = mr_actorType rq, au_subject = Some (tool_id rq),
           au_decision = None,
           au_attributes = JObj
             ([(''server'', JStr (mr_server rq)), (''tool'', JStr (mr_tool rq)),
               (''outcome'', JStr (case result of Mcp_ok _ \<Rightarrow> ''ok'' | Mcp_error _ _ \<Rightarrow> ''error'')),
               (''durationMs'', JNum (num_of_int duration))]
              @ (case result of Mcp_ok _ \<Rightarrow> [] | Mcp_error code _ \<Rightarrow> [(''code'', JStr (mcp_code_text code))])
              @ [(''contentDigest'', JStr digest), (''contentBytes'', JNum (num_of_int (int bytes)))])\<rparr>)"

definition call_outcome :: "sdk_call \<Rightarrow> mcp_result" where
  "call_outcome c =
     (case c of
        Call_threw err \<Rightarrow> Mcp_error ERR_MCP_UPSTREAM (''MCP tool call failed: '' @ err)
      | Call_result isError content \<Rightarrow>
          if truthy isError
          then Mcp_error ERR_MCP_UPSTREAM (case extractErrorText content of Some t \<Rightarrow> t | None \<Rightarrow> ''MCP tool call returned an error result'')
          else Mcp_ok content)"

definition invoke_tool ::
  "(mcp_world \<Rightarrow> mcp_world) \<Rightarrow> (mcp_entry \<Rightarrow> sdk_connect) \<Rightarrow> (wire_call \<Rightarrow> sdk_call) \<Rightarrow> mcp_entry \<Rightarrow> mcp_request \<Rightarrow> mcp_world \<Rightarrow>
   mcp_result \<times> mcp_world" where
  "invoke_tool others connect wire entry rq w =
     (case getConnection others connect entry w of
        (Conn_error code m, w1) \<Rightarrow> (Mcp_error code m, w1)
      | (Conn_ok h, w1) \<Rightarrow>
          (let c = \<lparr>wc_handle = h, wc_server = mr_server rq, wc_tool = mr_tool rq, wc_args = mr_args rq, wc_subject = mr_subject rq,
                    wc_actorType = mr_actorType rq\<rparr> in
           (call_outcome (wire c), w1\<lparr>mw_calls := mw_calls w1 @ [(length (persisted (mw_sink w1)), c)]\<rparr>)))"

text \<open>The audit error's own text is left out.\<close>

definition mcp_callTool ::
  "mcp_deps \<Rightarrow> (mcp_world \<Rightarrow> mcp_world) \<Rightarrow> (mcp_entry \<Rightarrow> sdk_connect) \<Rightarrow> (wire_call \<Rightarrow> sdk_call) \<Rightarrow> int \<Rightarrow> mcp_request \<Rightarrow> mcp_world \<Rightarrow>
   mcp_result \<times> mcp_world" where
  "mcp_callTool deps others connect wire duration rq w =
     (case mcp_append (mcp_call_event deps rq) w of
        (False, w1) \<Rightarrow> (Mcp_error ERR_MCP_AUDIT_UNAVAILABLE [], w1)
      | (True, w1) \<Rightarrow>
          (case mcp_check deps rq of
             Some (code, m, _) \<Rightarrow> (Mcp_error code m, w1)
           | None \<Rightarrow>
               (case invoke_tool others connect wire (the (map_of (mcp_servers deps) (mr_server rq))) rq w1 of
                  (result, w2) \<Rightarrow> (result, snd (mcp_append (mcp_result_event deps duration rq result) w2)))))"

text \<open>\<open>listTools\<close>: \<^term>\<open>None\<close> throws; \<open>listed\<close> is what the server answers.\<close>

definition mcp_listTools ::
  "mcp_deps \<Rightarrow> (mcp_world \<Rightarrow> mcp_world) \<Rightarrow> (mcp_entry \<Rightarrow> sdk_connect) \<Rightarrow> (nat \<Rightarrow> (string \<times> string option) list option) \<Rightarrow> string \<Rightarrow>
   mcp_world \<Rightarrow> (string \<times> string option) list option \<times> mcp_world" where
  "mcp_listTools deps others connect listed server w =
     (case map_of (mcp_servers deps) server of
        None \<Rightarrow> (None, w)
      | Some entry \<Rightarrow>
          (case getConnection others connect entry w of
             (Conn_error _ _, w1) \<Rightarrow> (None, w1)
           | (Conn_ok h, w1) \<Rightarrow> (map_option (filter (\<lambda>(n, _). n \<in> set (me_allowedTools entry))) (listed h), w1)))"

end
