(* ===== verification/Mcp_Client_Props.thy ===== *)
theory Mcp_Client_Props
  imports Mcp_Client
begin

text \<open>
  Calls of the MCP client run interleaved with other calls of the same client and with other writers
  of the log.  The interference is described by what it keeps (\<open>mcp_rely\<close>), and every operation of
  the client is shown to keep it too.
\<close>

definition request_of :: "wire_call \<Rightarrow> mcp_request" where
  "request_of c = \<lparr>mr_server = wc_server c, mr_tool = wc_tool c, mr_args = wc_args c, mr_subject = wc_subject c, mr_actorType = wc_actorType c\<rparr>"

definition call_justified :: "mcp_deps \<Rightarrow> audit_input list \<Rightarrow> wire_call \<Rightarrow> bool" where
  "call_justified deps log c \<longleftrightarrow> mcp_check deps (request_of c) = None \<and> mcp_call_event deps (request_of c) \<in> set log"

definition negotiated :: "mcp_world \<Rightarrow> nat \<Rightarrow> bool" where
  "negotiated w h \<longleftrightarrow> (\<exists>v \<in> set SUPPORTED_MCP_REVISIONS. (h, v) \<in> set (mw_opened w))"

definition connections_ok :: "mcp_world \<Rightarrow> bool" where
  "connections_ok w \<longleftrightarrow> (\<forall>(_, h) \<in> set (mw_connections w). negotiated w h) \<and> (\<forall>(_, c) \<in> set (mw_calls w). negotiated w (wc_handle c))"

abbreviation mw_log :: "mcp_world \<Rightarrow> audit_input list" where
  "mw_log w \<equiv> persisted (mw_sink w)"

definition mcp_rely :: "mcp_deps \<Rightarrow> mcp_world \<Rightarrow> mcp_world \<Rightarrow> bool" where
  "mcp_rely deps s t \<longleftrightarrow>
     prefix (mw_log s) (mw_log t) \<and> prefix (mw_opened s) (mw_opened t) \<and>
     (\<exists>new. mw_calls t = mw_calls s @ new \<and> accounted_acts (call_justified deps) (mw_log t) new) \<and>
     (connections_ok s \<longrightarrow> connections_ok t)"

lemma mcp_rely_refl [simp]: "mcp_rely deps s s"
  by (simp add: mcp_rely_def)

lemma mcp_rely_trans: "mcp_rely deps s t \<Longrightarrow> mcp_rely deps t u \<Longrightarrow> mcp_rely deps s u"
  unfolding mcp_rely_def
  by (elim conjE exE, intro conjI) (auto intro: prefix_order.trans accounted_acts_mono)

lemma mcp_append_cases:
  "mcp_append e w = (ok, w') \<Longrightarrow>
     mw_log w' = mw_log w @ (if ok then [e] else []) \<and> mw_connections w' = mw_connections w \<and> mw_opened w' = mw_opened w \<and>
     mw_closed w' = mw_closed w \<and> mw_calls w' = mw_calls w"
  by (auto simp: mcp_append_def sink_append_def Let_def split: prod.splits if_splits)

lemma connections_ok_same:
  "mw_connections t = mw_connections s \<Longrightarrow> mw_opened t = mw_opened s \<Longrightarrow> mw_calls t = mw_calls s \<Longrightarrow>
   connections_ok t = connections_ok s"
  by (simp add: connections_ok_def negotiated_def)

lemma mcp_append_rely: "mcp_append e w = (ok, w') \<Longrightarrow> mcp_rely deps w w'"
  using mcp_append_cases[of e w ok w'] connections_ok_same[of w' w] by (simp add: mcp_rely_def)

lemma connectServer_cases:
  "connectServer connect entry w = (c, w') \<Longrightarrow>
   (case c of Conn_ok h \<Rightarrow> (\<exists>v \<in> set SUPPORTED_MCP_REVISIONS. w' = w\<lparr>mw_opened := mw_opened w @ [(h, v)]\<rparr>)
    | Conn_error _ _ \<Rightarrow> w' = w)"
  by (auto simp: connectServer_def split: sdk_connect.splits option.splits if_splits)

lemma negotiated_more: "negotiated w h \<Longrightarrow> prefix (mw_opened w) (mw_opened w') \<Longrightarrow> negotiated w' h"
  by (auto simp: negotiated_def prefix_def)

lemma getConnection_rely:
  assumes others: "\<And>v. mcp_rely deps v (others v)" and get: "getConnection others connect entry w = (c, w')"
  shows "mcp_rely deps w w' \<and> (connections_ok w \<longrightarrow> (\<forall>h. c = Conn_ok h \<longrightarrow> negotiated w' h))"
proof (cases "map_of (mw_connections w) (me_name entry)")
  case (Some h)
  then show ?thesis using get map_of_SomeD[OF Some] by (auto simp: getConnection_def connections_ok_def)
next
  case None
  obtain d v where con: "connectServer connect entry (others w) = (d, v)" by force
  show ?thesis
  proof (cases d)
    case (Conn_error code m)
    then show ?thesis using get None con connectServer_cases[OF con] others[of w] by (auto simp: getConnection_def)
  next
    case (Conn_ok h)
    then obtain r where r: "r \<in> set SUPPORTED_MCP_REVISIONS" "v = (others w)\<lparr>mw_opened := mw_opened (others w) @ [(h, r)]\<rparr>"
      using connectServer_cases[OF con] by auto
    have w': "c = Conn_ok h" "w' = v\<lparr>mw_connections := map_set (me_name entry) h (mw_connections v)\<rparr>"
      using get None con Conn_ok by (auto simp: getConnection_def)
    have more: "prefix (mw_opened (others w)) (mw_opened w')" "negotiated w' h" using r w' by (auto simp: negotiated_def)
    have "connections_ok (others w) \<Longrightarrow> connections_ok w'"
      using more negotiated_more[OF _ more(1)] set_map_set[of "me_name entry" h "mw_connections v"] r(2) w'(2)
      by (fastforce simp: connections_ok_def)
    then have "mcp_rely deps (others w) w'" using more(1) r(2) w'(2) by (auto simp: mcp_rely_def)
    then show ?thesis using mcp_rely_trans[OF others] more(2) w'(1) by blast
  qed
qed

lemma request_of_call [simp]:
  "request_of \<lparr>wc_handle = h, wc_server = mr_server rq, wc_tool = mr_tool rq, wc_args = mr_args rq, wc_subject = mr_subject rq,
     wc_actorType = mr_actorType rq\<rparr> = rq"
  by (simp add: request_of_def)

lemma invoke_tool_rely:
  assumes others: "\<And>v. mcp_rely deps v (others v)" and check: "mcp_check deps rq = None"
    and rec: "mcp_call_event deps rq \<in> set (mw_log w)" and inv: "invoke_tool others connect wire entry rq w = (r, w')"
  shows "mcp_rely deps w w'"
proof -
  obtain c v where get: "getConnection others connect entry w = (c, v)" by force
  note rely = getConnection_rely[OF others get]
  show ?thesis
  proof (cases c)
    case (Conn_error code m)
    then show ?thesis using inv get rely by (auto simp: invoke_tool_def)
  next
    case (Conn_ok h)
    let ?c = "\<lparr>wc_handle = h, wc_server = mr_server rq, wc_tool = mr_tool rq, wc_args = mr_args rq, wc_subject = mr_subject rq,
       wc_actorType = mr_actorType rq\<rparr>"
    have w': "w' = v\<lparr>mw_calls := mw_calls v @ [(length (mw_log v), ?c)]\<rparr>"
      using inv get Conn_ok by (simp add: invoke_tool_def Let_def)
    have "call_justified deps (mw_log v) ?c"
      using rely rec check by (auto simp: call_justified_def mcp_rely_def prefix_def)
    moreover have "connections_ok w \<Longrightarrow> connections_ok w'"
      using rely Conn_ok w' by (auto simp: mcp_rely_def connections_ok_def negotiated_def)
    ultimately show ?thesis
      using rely w' by (auto simp: mcp_rely_def intro: accounted_acts_mono)
  qed
qed

lemma callTool_rely:
  assumes others: "\<And>v. mcp_rely deps v (others v)"
  shows "mcp_rely deps w (snd (mcp_callTool deps others connect wire duration rq w))"
proof -
  obtain ok w1 where a: "mcp_append (mcp_call_event deps rq) w = (ok, w1)" by force
  note rely1 = mcp_append_rely[OF a, of deps]
  show ?thesis
  proof (cases "ok \<and> mcp_check deps rq = None")
    case False
    then show ?thesis using a rely1 by (auto simp: mcp_callTool_def split: bool.splits option.splits)
  next
    case True
    let ?entry = "the (map_of (mcp_servers deps) (mr_server rq))"
    obtain r w2 where inv: "invoke_tool others connect wire ?entry rq w1 = (r, w2)" by force
    obtain ok3 w3 where b: "mcp_append (mcp_result_event deps duration rq r) w2 = (ok3, w3)" by force
    have "mcp_call_event deps rq \<in> set (mw_log w1)" using mcp_append_cases[OF a] True by simp
    from invoke_tool_rely[OF others _ this inv] True have "mcp_rely deps w1 w2" by simp
    moreover have "snd (mcp_callTool deps others connect wire duration rq w) = w3"
      using a b inv True by (simp add: mcp_callTool_def)
    ultimately show ?thesis using rely1 mcp_append_rely[OF b, of deps] mcp_rely_trans by metis
  qed
qed

lemma listTools_rely:
  assumes others: "\<And>v. mcp_rely deps v (others v)"
  shows "mcp_rely deps w (snd (mcp_listTools deps others connect listed server w))"
proof (cases "map_of (mcp_servers deps) server")
  case (Some entry)
  obtain c v where get: "getConnection others connect entry w = (c, v)" by force
  then show ?thesis using getConnection_rely[OF others get] Some by (cases c) (auto simp: mcp_listTools_def)
qed (simp add: mcp_listTools_def)

lemma close_rely: "mcp_rely deps w (mcp_close w)"
  by (auto simp: mcp_rely_def mcp_close_def connections_ok_def negotiated_def)

subsection \<open>Every call on the wire was admitted and recorded\<close>

inductive mcp_step :: "mcp_deps \<Rightarrow> mcp_world \<Rightarrow> mcp_world \<Rightarrow> bool" for deps where
  call: "(\<And>v. mcp_rely deps v (others v)) \<Longrightarrow> mcp_step deps w (snd (mcp_callTool deps others connect wire duration rq w))"
| tools: "(\<And>v. mcp_rely deps v (others v)) \<Longrightarrow> mcp_step deps w (snd (mcp_listTools deps others connect listed server w))"
| close: "mcp_step deps w (mcp_close w)"
| other: "mcp_step deps w (snd (mcp_append e w))"

lemma mcp_step_rely: "mcp_step deps w w' \<Longrightarrow> mcp_rely deps w w'"
  by (induction rule: mcp_step.induct) (auto intro: callTool_rely listTools_rely close_rely mcp_append_rely prod.collapse[symmetric])

interpretation mcp: record_before_act mw_log mw_calls "mcp_step deps" "call_justified deps" for deps
  using mcp_step_rely by unfold_locales (auto simp: mcp_rely_def)

lemma mcp_run_connections: "(mcp_step deps)\<^sup>*\<^sup>* s t \<Longrightarrow> connections_ok s \<Longrightarrow> connections_ok t"
  by (induction rule: rtranclp_induct) (auto dest: mcp_step_rely simp: mcp_rely_def)

lemma mcp_check_none:
  "mcp_check deps rq = None \<longleftrightarrow>
   (\<exists>entry. map_of (mcp_servers deps) (mr_server rq) = Some entry \<and> mr_tool rq \<in> set (me_allowedTools entry)) \<and>
   pd_allow (mcp_tool_decision deps rq)"
  by (auto simp: mcp_check_def Let_def split: option.splits)


text \<open>
  Two first calls to the same server that overlap both connect; the cache keeps only one of the two
  connections, and \<open>close\<close> never closes the other.
\<close>

lemma overlapping_connects_leak:
  "c1 entry = Sdk_connected (Some ''2025-11-25'') 1 \<Longrightarrow> c2 entry = Sdk_connected (Some ''2025-11-25'') 2 \<Longrightarrow>
   mw_connections w = [] \<Longrightarrow> mw_opened w = [] \<Longrightarrow> mw_closed w = [] \<Longrightarrow>
   w' = mcp_close (snd (getConnection (\<lambda>v. snd (getConnection (\<lambda>u. u) c2 entry v)) c1 entry w)) \<Longrightarrow>
   map fst (mw_opened w') = [2, 1] \<and> mw_closed w' = [1]"
  by (simp add: getConnection_def connectServer_def SUPPORTED_MCP_REVISIONS_def mcp_close_def)

subsection \<open>Redirects\<close>

lemma follow_stays:
  "redirects \<le> 5 \<Longrightarrow> origin cur = origin url \<Longrightarrow> follow origin resolve base url auth redirects cur = (res, sent) \<Longrightarrow>
   sent \<noteq> [] \<and> length sent \<le> 6 - redirects \<and> (\<forall>(u, a) \<in> set sent. origin u = origin url \<and> a = auth)"
proof (induction origin resolve base url auth redirects cur arbitrary: res sent rule: follow.induct)
  case (1 origin resolve base url auth redirects cur)
  show ?case
  proof (cases "\<exists>response l next. base redirects cur auth = Some response \<and>
      (if 300 \<le> fr_status response \<and> fr_status response < 400 then fr_location response else None) = Some l \<and> l \<noteq> [] \<and>
      redirects < 5 \<and> resolve l cur = Some next \<and> origin next = origin url")
    case False
    then have "sent = [(cur, auth)]"
      using 1(4) by (subst (asm) follow.simps) (auto simp: Let_def split: option.splits if_splits)
    then show ?thesis using 1(2,3) by simp
  next
    case True
    then obtain response l nxt where r: "base redirects cur auth = Some response"
      "(if 300 \<le> fr_status response \<and> fr_status response < 400 then fr_location response else None) = Some l" "l \<noteq> []"
      "redirects < 5" "resolve l cur = Some nxt" "origin nxt = origin url" by blast
    obtain res' sent' where f: "follow origin resolve base url auth (redirects + 1) nxt = (res', sent')" by force
    have "sent' \<noteq> [] \<and> length sent' \<le> 6 - (redirects + 1) \<and> (\<forall>(u, a) \<in> set sent'. origin u = origin url \<and> a = auth)"
      using 1(1)[OF r(1) refl] r f by (simp split: if_splits)
    moreover have "sent = (cur, auth) # sent'"
      using 1(4) r f by (subst (asm) follow.simps) (auto simp: Let_def split: if_splits)
    ultimately show ?thesis using r(4) 1(3) by auto
  qed
qed

text \<open>
  The bearer secret of an MCP server never leaves that server's origin.  Whatever the server
  answers, a request makes at most six fetches, all of them to the origin of the requested URL and
  all with the same authorization; the loop always ends.
\<close>

theorem bearer_stays_on_its_origin:
  "makeSafeFetch environ tokenEnv origin resolve base url own = (res, sent) \<Longrightarrow>
   1 \<le> length sent \<and> length sent \<le> 6 \<and>
   (\<forall>(u, a) \<in> set sent. origin u = origin url \<and> a = authorization_for environ tokenEnv own)"
  unfolding makeSafeFetch_def using follow_stays[of 0 origin url url resolve base "authorization_for environ tokenEnv own" res sent]
  by (cases sent) auto

subsection \<open>Witnesses\<close>

definition demo_mcp_deps :: mcp_deps where
  "demo_mcp_deps = \<lparr>md_servers = [\<lparr>me_name = ''crm'', me_transport = Http ''https://crm.example'' (Some ''CRM_TOKEN''), me_allowedTools = [''lookup'']\<rparr>],
     md_pdp = decide (authz_evaluate (\<lambda>_. [])), md_sha256 = (\<lambda>s. s)\<rparr>"

definition demo_mcp_rq :: mcp_request where
  "demo_mcp_rq = \<lparr>mr_server = ''crm'', mr_tool = ''lookup'', mr_args = JObj [(''id'', JStr ''7'')], mr_subject = (''u'', []), mr_actorType = ''human''\<rparr>"

definition demo_mcp_start :: mcp_world where
  "demo_mcp_start = \<lparr>mw_sink = \<lparr>persisted = [], outages = [], logged = []\<rparr>, mw_connections = [], mw_opened = [], mw_closed = [], mw_calls = []\<rparr>"

definition demo_mcp_end :: mcp_world where
  "demo_mcp_end = snd (mcp_callTool demo_mcp_deps (\<lambda>v. v) (\<lambda>_. Sdk_connected (Some ''2025-06-18'') 1)
     (\<lambda>_. Call_result JUndef (JArr [])) 3 demo_mcp_rq demo_mcp_start)"

lemma demo_mcp_called: "map (\<lambda>(n, c). (n, wc_handle c, wc_server c)) (mw_calls demo_mcp_end) = [(1, 1, ''crm'')]"
  by code_simp


text \<open>URLs as pairs of origin and path; the server redirects every request to itself, then elsewhere.\<close>

definition demo_redirects :: "nat \<Rightarrow> string \<times> string \<Rightarrow> string option \<Rightarrow> fetch_response option" where
  "demo_redirects i url auth = Some \<lparr>fr_status = 307, fr_location = Some (if i < 2 then ''/next'' else ''https://evil.example'')\<rparr>"

definition demo_resolve :: "string \<Rightarrow> string \<times> string \<Rightarrow> (string \<times> string) option" where
  "demo_resolve l base = Some (if prefix ''/'' l then (fst base, l) else (l, ''/''))"

definition demo_fetch :: "(fetch_error + fetch_response) \<times> ((string \<times> string) \<times> string option) list" where
  "demo_fetch = makeSafeFetch (\<lambda>_. Some ''t'') (Some ''CRM_TOKEN'') fst demo_resolve demo_redirects (''https://crm.example'', ''/mcp'') None"

lemma demo_fetch_refused: "fst demo_fetch = Inl Cross_origin_redirect \<and> length (snd demo_fetch) = 3"
  by code_simp

theorem bearer_stays_on_its_origin_witness:
  "list_all (\<lambda>(u, a). fst u = ''https://crm.example'' \<and> a = authorization_for (\<lambda>_. Some ''t'') (Some ''CRM_TOKEN'') None)
     (snd demo_fetch)"
proof -
  have "makeSafeFetch (\<lambda>_. Some ''t'') (Some ''CRM_TOKEN'') fst demo_resolve demo_redirects (''https://crm.example'', ''/mcp'') None
      = (fst demo_fetch, snd demo_fetch)" by (simp add: demo_fetch_def)
  from bearer_stays_on_its_origin[OF this] show ?thesis by (simp add: list_all_iff)
qed

end
