(* ===== verification/Mcp_Server.thy ===== *)
theory Mcp_Server
  imports Mcp_Client Rate_Limit Bearer Records
begin

text \<open>
  The MCP server (\<open>mcp/src/server.ts\<close>) and the one capability the runtime exposes through it
  (\<open>runtime/src/mcp-capabilities.ts\<close>).  Token verification, the policy engine, the clock and the
  capabilities' handlers are parameters; the state is the audit log, the limiter and, for the
  statements, the handler runs so far, each with the log length when it started.
\<close>

type_synonym policy_subject = "string \<times> string list"

record exposed_capability =
  ec_name :: string
  ec_description :: string
  ec_inputSchema :: json
  ec_allowedRoles :: "string list"
  ec_handler :: "json \<Rightarrow> policy_subject \<Rightarrow> string + json"

record mcps_deps =
  sd_capabilities :: "exposed_capability list"
  sd_pdp :: "policy_input \<Rightarrow> policy_decision"
  sd_verifyToken :: "string \<Rightarrow> policy_subject option option"
  sd_sha256 :: "string \<Rightarrow> string"
  sd_iso :: "int \<Rightarrow> string"
  sd_dstr :: "int \<Rightarrow> string"

record handler_run =
  hr_capability :: string
  hr_subject :: policy_subject
  hr_args :: json

record mcps_world =
  sw_sink :: "audit_input audit_sink"
  sw_limiter :: limiter
  sw_runs :: "(nat \<times> handler_run) list"

text \<open>HTTP status with a JSON-RPC result, an error (code and the code in its data), an empty reply, or an exception.\<close>

datatype jsonrpc_reply = Jr_result nat json json | Jr_error nat json int "string option" | Jr_empty nat | Jr_throws

definition isJsonRpcRequest :: "json \<Rightarrow> bool" where
  "isJsonRpcRequest body \<longleftrightarrow>
     (case body of JObj kvs \<Rightarrow> strict_eq (get_field kvs ''jsonrpc'') (JStr ''2.0'') \<and> is_str (get_field kvs ''method'') | _ \<Rightarrow> False)"

definition text_content :: "string \<Rightarrow> string \<times> json" where
  "text_content t = (''content'', JArr [JObj [(''type'', JStr ''text''), (''text'', JStr t)]])"

definition toCallToolResult :: "(int \<Rightarrow> string) \<Rightarrow> json \<Rightarrow> json" where
  "toCallToolResult fmt out =
     (let t = (case out of JStr s \<Rightarrow> s | _ \<Rightarrow> stringify_val fmt (coalesce out JNull));
          isStructured = (is_object out \<and> (case out of JArr _ \<Rightarrow> False | _ \<Rightarrow> True))
      in JObj (text_content t # (if isStructured then [(''structuredContent'', out)] else [])))"

definition toErrorCallToolResult :: "string \<Rightarrow> json" where
  "toErrorCallToolResult m = JObj [text_content m, (''isError'', JBool True)]"

definition safeAudit :: "audit_input \<Rightarrow> mcps_world \<Rightarrow> bool \<times> mcps_world" where
  "safeAudit e w = (case sink_append e (sw_sink w) of (ok, s) \<Rightarrow> (ok, w\<lparr>sw_sink := s\<rparr>))"

definition serve_event :: "string \<Rightarrow> policy_subject \<Rightarrow> string option \<Rightarrow> string option \<Rightarrow> fields \<Rightarrow> audit_input" where
  "serve_event event subject about decision attrs =
     \<lparr>au_event = event, au_actor = fst subject, au_actorType = ''human'', au_subject = about, au_decision = decision, au_attributes = JObj attrs\<rparr>"

definition capsByName :: "mcps_deps \<Rightarrow> (string \<times> exposed_capability) list" where
  "capsByName deps = map_from (map (\<lambda>c. (ec_name c, c)) (sd_capabilities deps))"

subsection \<open>initialize\<close>

definition handleInitialize :: "mcps_deps \<Rightarrow> json \<Rightarrow> json \<Rightarrow> policy_subject \<Rightarrow> mcps_world \<Rightarrow> jsonrpc_reply \<times> mcps_world" where
  "handleInitialize deps params id' subject w =
     (let requestedVersion = js_prop params ''protocolVersion'' in
      case requestedVersion of
        JStr v \<Rightarrow>
          if v \<in> set SUPPORTED_MCP_REVISIONS
          then (Jr_result 200 id' (JObj
            [(''protocolVersion'', JStr v), (''capabilities'', JObj [(''tools'', JObj [])]),
             (''serverInfo'', JObj [(''name'', JStr ''openrupiv-mcp-server''), (''version'', JStr ''0.1.0'')])]), w)
          else (Jr_error 400 id' (- 32000) (Some ''ERR_MCP_PROTOCOL''),
            snd (safeAudit (serve_event ''mcp.serve_rejected'' subject None None
              [(''reason'', JStr ''unsupported_protocol_version''), (''channel'', JStr ''mcp''), (''requestedVersion'', JStr v)]) w))
      | _ \<Rightarrow> (Jr_error 400 id' (- 32000) (Some ''ERR_MCP_PROTOCOL''),
            snd (safeAudit (serve_event ''mcp.serve_rejected'' subject None None
              [(''reason'', JStr ''unsupported_protocol_version''), (''channel'', JStr ''mcp''),
               (''requestedVersion'', JStr (js_string (sd_dstr deps) requestedVersion))]) w)))"

subsection \<open>tools/list\<close>

definition serve_decision :: "mcps_deps \<Rightarrow> policy_subject \<Rightarrow> exposed_capability \<Rightarrow> policy_decision" where
  "serve_decision deps subject cap =
     sd_pdp deps \<lparr>pi_subject_id = fst subject, pi_subject_roles = snd subject, pi_action = ''mcp.serve:'' @ ec_name cap,
       pi_type = ''mcp.capability'', pi_id = Some (ec_name cap), pi_allowedRoles = ec_allowedRoles cap, pi_context = None\<rparr>"

definition visible_capabilities :: "mcps_deps \<Rightarrow> policy_subject \<Rightarrow> exposed_capability list" where
  "visible_capabilities deps subject = filter (\<lambda>cap. pd_allow (serve_decision deps subject cap)) (map snd (capsByName deps))"

definition handleToolsList :: "mcps_deps \<Rightarrow> json \<Rightarrow> policy_subject \<Rightarrow> mcps_world \<Rightarrow> jsonrpc_reply \<times> mcps_world" where
  "handleToolsList deps id' subject w =
     (let visible = visible_capabilities deps subject in
      (Jr_result 200 id' (JObj [(''tools'', JArr (map (\<lambda>v. JObj
         [(''name'', JStr (ec_name v)), (''description'', JStr (ec_description v)), (''inputSchema'', ec_inputSchema v)]) visible))]),
       snd (safeAudit (serve_event ''mcp.serve_list'' subject None None
         [(''channel'', JStr ''mcp''), (''totalCapabilities'', JNum (num_of_int (int (length (capsByName deps))))),
          (''visibleCount'', JNum (num_of_int (int (length visible)))), (''visible'', str_list (map ec_name visible))]) w)))"

subsection \<open>tools/call\<close>

definition unknown_tool_event :: "policy_subject \<Rightarrow> string option \<Rightarrow> audit_input" where
  "unknown_tool_event subject name =
     (let n = (case name of None \<Rightarrow> ''unknown'' | Some n \<Rightarrow> n) in
      serve_event ''mcp.serve_call'' subject (Some n) (Some ''deny'')
        [(''capability'', JStr n), (''code'', JStr ''capability_unknown''), (''channel'', JStr ''mcp'')])"

definition serve_call_event :: "mcps_deps \<Rightarrow> policy_subject \<Rightarrow> exposed_capability \<Rightarrow> json \<Rightarrow> audit_input" where
  "serve_call_event deps subject cap args =
     (let d = serve_decision deps subject cap; dg = mcp_digestValue (sd_sha256 deps) args in
      serve_event ''mcp.serve_call'' subject (Some (ec_name cap)) (Some (if pd_allow d then ''allow'' else ''deny''))
        ([(''capability'', JStr (ec_name cap)), (''action'', JStr (''mcp.serve:'' @ ec_name cap)), (''channel'', JStr ''mcp'')]
         @ (if pd_allow d then [] else [(''reason'', JStr (pd_reason d))])
         @ [(''argsDigest'', JStr (fst dg)), (''argsBytes'', JNum (num_of_int (int (snd dg))))]))"

definition serve_result_event :: "mcps_deps \<Rightarrow> int \<Rightarrow> policy_subject \<Rightarrow> exposed_capability \<Rightarrow> string + json \<Rightarrow> audit_input" where
  "serve_result_event deps duration subject cap r =
     (let dg = mcp_digestValue (sd_sha256 deps) (case r of Inr out \<Rightarrow> out | Inl m \<Rightarrow> JObj [(''message'', JStr m)]) in
      serve_event ''mcp.serve_result'' subject (Some (ec_name cap)) None
        [(''capability'', JStr (ec_name cap)), (''channel'', JStr ''mcp''),
         (''outcome'', JStr (case r of Inr _ \<Rightarrow> ''ok'' | Inl _ \<Rightarrow> ''error'')), (''durationMs'', JNum (num_of_int duration)),
         (''contentDigest'', JStr (fst dg)), (''contentBytes'', JNum (num_of_int (int (snd dg))))])"

definition run_handler :: "mcps_deps \<Rightarrow> int \<Rightarrow> policy_subject \<Rightarrow> exposed_capability \<Rightarrow> json \<Rightarrow> json \<Rightarrow> mcps_world \<Rightarrow> jsonrpc_reply \<times> mcps_world" where
  "run_handler deps duration subject cap args id' w =
     (let w1 = w\<lparr>sw_runs := sw_runs w @
                [(length (persisted (sw_sink w)), \<lparr>hr_capability = ec_name cap, hr_subject = subject, hr_args = args\<rparr>)]\<rparr>;
          r = ec_handler cap args subject;
          w2 = snd (safeAudit (serve_result_event deps duration subject cap r) w1)
      in (Jr_result 200 id' (case r of Inr out \<Rightarrow> toCallToolResult (sd_iso deps) out | Inl m \<Rightarrow> toErrorCallToolResult m), w2))"

definition call_args :: "json \<Rightarrow> json" where
  "call_args params = (let a = js_prop params ''arguments'' in if is_object a then a else JObj [])"

definition handleToolsCall :: "mcps_deps \<Rightarrow> int \<Rightarrow> json \<Rightarrow> json \<Rightarrow> policy_subject \<Rightarrow> mcps_world \<Rightarrow> jsonrpc_reply \<times> mcps_world" where
  "handleToolsCall deps duration params id' subject w =
     (let name = (case js_prop params ''name'' of JStr n \<Rightarrow> Some n | _ \<Rightarrow> None);
          cap = (if name = None \<or> name = Some [] then None else map_of (capsByName deps) (the name))
      in case cap of
           None \<Rightarrow>
             (case safeAudit (unknown_tool_event subject name) w of
                (ok, w1) \<Rightarrow> (if ok then Jr_error 200 id' (- 32602) None else Jr_error 500 id' (- 32000) (Some ''ERR_MCP_AUDIT_UNAVAILABLE''), w1))
         | Some c \<Rightarrow>
             (case safeAudit (serve_call_event deps subject c (call_args params)) w of
                (False, w1) \<Rightarrow> (Jr_error 500 id' (- 32000) (Some ''ERR_MCP_AUDIT_UNAVAILABLE''), w1)
              | (True, w1) \<Rightarrow>
                  if \<not> pd_allow (serve_decision deps subject c) then (Jr_error 200 id' (- 32001) (Some ''ERR_MCP_POLICY_DENIED''), w1)
                  else run_handler deps duration subject c (call_args params) id' w1))"

subsection \<open>The endpoint\<close>

definition serve_rejected_event :: "string \<Rightarrow> audit_input" where
  "serve_rejected_event reason =
     \<lparr>au_event = ''mcp.serve_rejected'', au_actor = ''system'', au_actorType = ''system'', au_subject = None, au_decision = None,
      au_attributes = JObj [(''reason'', JStr reason), (''channel'', JStr ''mcp'')]\<rparr>"

definition request_id :: "json \<Rightarrow> json" where
  "request_id body = (case body of JObj kvs \<Rightarrow> (case map_of kvs ''id'' of Some v \<Rightarrow> v | None \<Rightarrow> JNull) | _ \<Rightarrow> JNull)"

definition reject_mcp :: "mcps_deps \<Rightarrow> int \<Rightarrow> string option \<Rightarrow> mcps_world \<Rightarrow> mcps_world" where
  "reject_mcp deps now bearer w =
     (case mcp_shouldAppend (sd_sha256 deps) default_limits now (case bearer of None \<Rightarrow> [] | Some b \<Rightarrow> b) (sw_limiter w) of
        (append', l) \<Rightarrow>
          (let w1 = w\<lparr>sw_limiter := l\<rparr> in
           if append' then snd (safeAudit (serve_rejected_event (if bearer = None then ''missing_token'' else ''invalid_token'')) w1) else w1))"

text \<open>The verified caller: \<^term>\<open>None\<close> when \<open>verifyToken\<close> throws, \<^term>\<open>Some None\<close> when there is none.\<close>

definition mcp_caller :: "mcps_deps \<Rightarrow> string option \<Rightarrow> policy_subject option option" where
  "mcp_caller deps authorization =
     (case extractBearer authorization of None \<Rightarrow> Some None | Some bearer \<Rightarrow> sd_verifyToken deps bearer)"

definition post_mcp :: "mcps_deps \<Rightarrow> int \<Rightarrow> int \<Rightarrow> string option \<Rightarrow> json \<Rightarrow> mcps_world \<Rightarrow> jsonrpc_reply \<times> mcps_world" where
  "post_mcp deps now duration authorization body w =
     (case mcp_caller deps authorization of
        None \<Rightarrow> (Jr_throws, w)
      | Some None \<Rightarrow> (Jr_error 401 (request_id body) (- 32001) None, reject_mcp deps now (extractBearer authorization) w)
      | Some (Some subject) \<Rightarrow>
          if \<not> isJsonRpcRequest body then (Jr_error 400 JNull (- 32600) None, w)
          else (let id' = coalesce (js_prop body ''id'') JNull; method = js_prop body ''method''; params = js_prop body ''params'' in
            if method = JStr ''initialize'' then handleInitialize deps params id' subject w
            else if method = JStr ''notifications/initialized'' then (Jr_empty 202, w)
            else if method = JStr ''tools/list'' then handleToolsList deps id' subject w
            else if method = JStr ''tools/call'' then handleToolsCall deps duration params id' subject w
            else (Jr_error 200 id' (- 32601) None, w)))"

subsection \<open>The exposed capability\<close>

definition workflow_tables :: "app_spec \<Rightarrow> (string \<times> entity_model) list" where
  "workflow_tables spec =
     map_from (map (\<lambda>m. (em_table m, m)) (filter (\<lambda>m. em_workflows m \<noteq> []) (map snd (buildEntityModels spec))))"

text \<open>\<open>lookup\<close> is the query by table and id: \<^term>\<open>None\<close> fails, \<^term>\<open>Some None\<close> finds no row.\<close>

definition instance_status ::
  "app_spec \<Rightarrow> (int \<Rightarrow> string) \<Rightarrow> (int \<Rightarrow> string) \<Rightarrow> (string \<Rightarrow> string \<Rightarrow> fields option option) \<Rightarrow> json \<Rightarrow> policy_subject \<Rightarrow> string + json" where
  "instance_status spec fmt dstr lookup args subject =
     (let entityTable = js_string dstr (coalesce (js_prop args ''entityTable'') (JStr []));
          id' = js_string dstr (coalesce (js_prop args ''id'') (JStr []))
      in case map_of (workflow_tables spec) entityTable of
           None \<Rightarrow> Inl (''unknown or non-workflow entity table '' @ quote_str entityTable)
         | Some model \<Rightarrow>
             if \<not> isUuid (JStr id') then Inl ''id must be a UUID''
             else (case lookup entityTable id' of
                 None \<Rightarrow> Inl []
               | Some None \<Rightarrow> Inl (''no record '' @ id' @ '' in '' @ entityTable)
               | Some (Some row) \<Rightarrow>
                   Inr (JObj [(''entityTable'', JStr entityTable), (''id'', JStr id'),
                     (''status'', case em_workflows model of
                        flow # _ \<Rightarrow> if wf_stateField flow = [] then JNull else get_field (row_to_record fmt model row) (wf_stateField flow)
                      | [] \<Rightarrow> JNull)])))"

definition workflowInstanceStatusCapability ::
  "app_spec \<Rightarrow> (int \<Rightarrow> string) \<Rightarrow> (int \<Rightarrow> string) \<Rightarrow> (string \<Rightarrow> string \<Rightarrow> fields option option) \<Rightarrow> exposed_capability" where
  "workflowInstanceStatusCapability spec fmt dstr lookup =
     \<lparr>ec_name = ''workflow-instance-status'',
      ec_description = ''Read-only: current workflow state of an entity record, by table + id.'',
      ec_inputSchema = JObj
        [(''$schema'', JStr ''https://json-schema.org/draft/2020-12/schema''), (''type'', JStr ''object''),
         (''properties'', JObj [(''entityTable'', JObj [(''type'', JStr ''string'')]), (''id'', JObj [(''type'', JStr ''string'')])]),
         (''required'', JArr [JStr ''entityTable'', JStr ''id'']), (''additionalProperties'', JBool False)],
      ec_allowedRoles = [],
      ec_handler = instance_status spec fmt dstr lookup\<rparr>"

end
