(* ===== verification/Mcp_Server_Props.thy ===== *)
theory Mcp_Server_Props
  imports Mcp_Server
begin

text \<open>What the MCP server serves, and to whom.\<close>

abbreviation sw_log :: "mcps_world \<Rightarrow> audit_input list" where
  "sw_log w \<equiv> persisted (sw_sink w)"

lemma safeAudit_cases:
  "safeAudit e w = (ok, w') \<Longrightarrow> sw_log w' = sw_log w @ (if ok then [e] else []) \<and> sw_runs w' = sw_runs w \<and> sw_limiter w' = sw_limiter w"
  by (auto simp: safeAudit_def sink_append_def Let_def split: prod.splits if_splits)

lemma safeAudit_snd:
  "prefix (sw_log w) (sw_log (snd (safeAudit e w))) \<and> sw_runs (snd (safeAudit e w)) = sw_runs w"
  using safeAudit_cases[of e w] by (cases "safeAudit e w") auto

definition run_justified :: "mcps_deps \<Rightarrow> audit_input list \<Rightarrow> handler_run \<Rightarrow> bool" where
  "run_justified deps log r \<longleftrightarrow>
     (\<exists>cap bearer. map_of (capsByName deps) (hr_capability r) = Some cap \<and>
        sd_verifyToken deps bearer = Some (Some (hr_subject r)) \<and> pd_allow (serve_decision deps (hr_subject r) cap) \<and>
        serve_call_event deps (hr_subject r) cap (hr_args r) \<in> set log)"

definition served :: "mcps_deps \<Rightarrow> mcps_world \<Rightarrow> mcps_world \<Rightarrow> bool" where
  "served deps s t \<longleftrightarrow> prefix (sw_log s) (sw_log t) \<and>
     (\<exists>new. sw_runs t = sw_runs s @ new \<and> accounted_acts (run_justified deps) (sw_log t) new)"

lemma served_no_run: "prefix (sw_log s) (sw_log t) \<Longrightarrow> sw_runs t = sw_runs s \<Longrightarrow> served deps s t"
  by (simp add: served_def)

lemma served_audit [simp]: "served deps w (snd (safeAudit e w))"
  using safeAudit_snd by (simp add: served_no_run)

lemma cap_name: "map_of (capsByName deps) n = Some cap \<Longrightarrow> ec_name cap = n"
  unfolding capsByName_def by (rule map_from_keyed)

lemma run_handler_world:
  "fst (run_handler deps duration subject cap args id' w) = Jr_result 200 id'
     (case ec_handler cap args subject of Inr out \<Rightarrow> toCallToolResult (sd_iso deps) out | Inl m \<Rightarrow> toErrorCallToolResult m) \<and>
   prefix (sw_log w) (sw_log (snd (run_handler deps duration subject cap args id' w))) \<and>
   sw_runs (snd (run_handler deps duration subject cap args id' w)) = sw_runs w @
     [(length (sw_log w), \<lparr>hr_capability = ec_name cap, hr_subject = subject, hr_args = args\<rparr>)]"
proof -
  let ?w1 = "w\<lparr>sw_runs := sw_runs w @ [(length (sw_log w), \<lparr>hr_capability = ec_name cap, hr_subject = subject, hr_args = args\<rparr>)]\<rparr>"
  show ?thesis
    using safeAudit_snd[of ?w1 "serve_result_event deps duration subject cap (ec_handler cap args subject)"]
    by (simp add: run_handler_def Let_def)
qed

lemma handleToolsCall_cases:
  fixes params :: json
  defines "name \<equiv> (case js_prop params ''name'' of JStr n \<Rightarrow> Some n | _ \<Rightarrow> None)"
  shows "(sw_runs (snd (handleToolsCall deps duration params id' subject w)) = sw_runs w \<and>
      prefix (sw_log w) (sw_log (snd (handleToolsCall deps duration params id' subject w))) \<and>
      (\<exists>status code data. fst (handleToolsCall deps duration params id' subject w) = Jr_error status id' code data)) \<or>
    (\<exists>n cap w1. name = Some n \<and> n \<noteq> [] \<and> map_of (capsByName deps) n = Some cap \<and> pd_allow (serve_decision deps subject cap) \<and>
      safeAudit (serve_call_event deps subject cap (call_args params)) w = (True, w1) \<and>
      handleToolsCall deps duration params id' subject w = run_handler deps duration subject cap (call_args params) id' w1)"
proof -
  consider (unknown) "name = None \<or> name = Some [] \<or> map_of (capsByName deps) (the name) = None"
    | (known) n cap where "name = Some n" "n \<noteq> []" "map_of (capsByName deps) n = Some cap"
    by (cases name) auto
  then show ?thesis
  proof cases
    case unknown
    obtain ok w1 where a: "safeAudit (unknown_tool_event subject name) w = (ok, w1)" by force
    have "handleToolsCall deps duration params id' subject w =
        (if ok then Jr_error 200 id' (- 32602) None else Jr_error 500 id' (- 32000) (Some ''ERR_MCP_AUDIT_UNAVAILABLE''), w1)"
      using unknown a unfolding name_def handleToolsCall_def by (auto simp: Let_def split: option.splits)
    then show ?thesis using safeAudit_cases[OF a] by simp
  next
    case known
    obtain ok w1 where a: "safeAudit (serve_call_event deps subject cap (call_args params)) w = (ok, w1)" by force
    show ?thesis
      using known a safeAudit_cases[OF a] unfolding name_def
      by (cases ok; cases "pd_allow (serve_decision deps subject cap)") (simp_all add: handleToolsCall_def Let_def)
  qed
qed

lemma handleToolsCall_served:
  "sd_verifyToken deps bearer = Some (Some subject) \<Longrightarrow> served deps w (snd (handleToolsCall deps duration params id' subject w))"
  using handleToolsCall_cases[of deps duration params id' subject w]
proof (elim disjE exE conjE)
  assume "sw_runs (snd (handleToolsCall deps duration params id' subject w)) = sw_runs w"
    "prefix (sw_log w) (sw_log (snd (handleToolsCall deps duration params id' subject w)))"
  then show ?thesis by (intro served_no_run)
next
  fix n cap w1
  assume v: "sd_verifyToken deps bearer = Some (Some subject)" and c: "map_of (capsByName deps) n = Some cap"
    and p: "pd_allow (serve_decision deps subject cap)"
    and a: "safeAudit (serve_call_event deps subject cap (call_args params)) w = (True, w1)"
    and r: "handleToolsCall deps duration params id' subject w = run_handler deps duration subject cap (call_args params) id' w1"
  let ?r = "\<lparr>hr_capability = ec_name cap, hr_subject = subject, hr_args = call_args params\<rparr>"
  have "run_justified deps (sw_log w1) ?r"
    using v c p cap_name[OF c] safeAudit_cases[OF a] unfolding run_justified_def by auto
  then have "accounted_acts (run_justified deps) (sw_log w1) [(length (sw_log w1), ?r)]" by simp
  then show ?thesis
    using run_handler_world[of deps duration subject cap "call_args params" id' w1] safeAudit_cases[OF a] accounted_acts_mono
    unfolding served_def r by (auto simp: prefix_def)
qed

lemma post_mcp_served: "served deps w (snd (post_mcp deps now duration authorization body w))"
proof (cases "mcp_caller deps authorization")
  case (Some c)
  show ?thesis
  proof (cases c)
    case None
    have "served deps w (reject_mcp deps now bearer w)" for bearer
      using safeAudit_snd[of "w\<lparr>sw_limiter := _\<rparr>"]
      by (auto simp: reject_mcp_def Let_def intro!: served_no_run split: prod.splits)
    then show ?thesis using Some None by (simp add: post_mcp_def)
  next
    case subj: (Some subject)
    then obtain bearer where b: "sd_verifyToken deps bearer = Some (Some subject)"
      using Some by (auto simp: mcp_caller_def split: option.splits)
    have init: "served deps w (snd (handleInitialize deps params id' subject w))" for params id'
      by (auto simp: handleInitialize_def Let_def intro: served_no_run split: json.splits)
    have list: "served deps w (snd (handleToolsList deps id' subject w))" for id'
      by (simp add: handleToolsList_def Let_def)
    have refl: "served deps w w" by (simp add: served_no_run)
    show ?thesis
      using Some subj init list refl handleToolsCall_served[OF b] by (simp add: post_mcp_def Let_def)
  qed
qed (simp add: post_mcp_def served_no_run)

inductive mcps_step :: "mcps_deps \<Rightarrow> mcps_world \<Rightarrow> mcps_world \<Rightarrow> bool" for deps where
  request: "mcps_step deps w (snd (post_mcp deps now duration authorization body w))"
| other: "mcps_step deps w (snd (safeAudit e w))"

interpretation mcp_server: record_before_act sw_log sw_runs "mcps_step deps" "run_justified deps" for deps
proof unfold_locales
  fix s t assume "mcps_step deps s t"
  then have "served deps s t" by (cases rule: mcps_step.cases) (auto intro: post_mcp_served)
  then show "prefix (sw_log s) (sw_log t)" "\<exists>new. sw_runs t = sw_runs s @ new \<and> accounted_acts (run_justified deps) (sw_log t) new"
    by (auto simp: served_def)
qed

text \<open>
  C10.  The MCP server runs a capability only for a verified caller, by policy and on the record.  In
  every run of the server, each handler execution is of a registered capability, for a subject that
  \<open>verifyToken\<close> returned for some bearer, allowed by the policy, and came after its
  \<open>mcp.serve_call\<close> record with the digest of its arguments was persisted.
\<close>

theorem mcp_serves_verified_callers_only:
  "(mcps_step deps)\<^sup>*\<^sup>* w0 w \<Longrightarrow> sw_runs w0 = [] \<Longrightarrow> (n, r) \<in> set (sw_runs w) \<Longrightarrow>
   \<exists>cap bearer. map_of (capsByName deps) (hr_capability r) = Some cap \<and>
     sd_verifyToken deps bearer = Some (Some (hr_subject r)) \<and> pd_allow (serve_decision deps (hr_subject r) cap) \<and>
     serve_call_event deps (hr_subject r) cap (hr_args r) \<in> set (take n (sw_log w))"
  using mcp_server.every_act_was_recorded[of deps w0 w n r] unfolding run_justified_def by blast

text \<open>
  What \<open>tools/list\<close> shows is what \<open>tools/call\<close> runs.  For every subject and every name that is
  not empty, a capability of that name is in the listing exactly when a call of it, with the audit
  log available, executes its handler; otherwise the call is an error and nothing runs.
\<close>

theorem listed_tools_are_the_callable_ones:
  assumes "outages (sw_sink w) = []" and name: "js_prop params ''name'' = JStr n" "n \<noteq> []"
  shows "(n \<in> set (map ec_name (visible_capabilities deps subject)) \<longrightarrow>
      (\<exists>args. sw_runs (snd (handleToolsCall deps duration params id' subject w)) =
         sw_runs w @ [(Suc (length (sw_log w)), \<lparr>hr_capability = n, hr_subject = subject, hr_args = args\<rparr>)])) \<and>
    (n \<notin> set (map ec_name (visible_capabilities deps subject)) \<longrightarrow>
      sw_runs (snd (handleToolsCall deps duration params id' subject w)) = sw_runs w \<and>
      (\<exists>status code data. fst (handleToolsCall deps duration params id' subject w) = Jr_error status id' code data))"
proof -
  have dist: "distinct (map fst (capsByName deps))" unfolding capsByName_def by (rule distinct_map_from)
  have vis: "n \<in> set (map ec_name (visible_capabilities deps subject)) \<longleftrightarrow>
      (\<exists>cap. map_of (capsByName deps) n = Some cap \<and> pd_allow (serve_decision deps subject cap))"
  proof
    assume "n \<in> set (map ec_name (visible_capabilities deps subject))"
    then obtain k cap where "(k, cap) \<in> set (capsByName deps)" "ec_name cap = n" "pd_allow (serve_decision deps subject cap)"
      by (auto simp: visible_capabilities_def)
    moreover from this(1) have "map_of (capsByName deps) k = Some cap" by (rule map_of_is_SomeI[OF dist])
    ultimately show "\<exists>cap. map_of (capsByName deps) n = Some cap \<and> pd_allow (serve_decision deps subject cap)"
      using cap_name by auto
  next
    assume "\<exists>cap. map_of (capsByName deps) n = Some cap \<and> pd_allow (serve_decision deps subject cap)"
    then obtain cap where cap: "map_of (capsByName deps) n = Some cap" "pd_allow (serve_decision deps subject cap)" by blast
    then have "cap \<in> set (visible_capabilities deps subject)"
      using map_of_SomeD[OF cap(1)] by (auto simp: visible_capabilities_def image_iff intro!: bexI[of _ "(n, cap)"])
    then show "n \<in> set (map ec_name (visible_capabilities deps subject))" using cap_name[OF cap(1)] by auto
  qed
  have ok: "fst (safeAudit e w)" for e using assms(1) by (simp add: safeAudit_def sink_append_def Let_def)
  show ?thesis
  proof (cases "\<exists>cap. map_of (capsByName deps) n = Some cap \<and> pd_allow (serve_decision deps subject cap)")
    case True
    then obtain cap where cap: "map_of (capsByName deps) n = Some cap" "pd_allow (serve_decision deps subject cap)" by blast
    obtain w1 where a: "safeAudit (serve_call_event deps subject cap (call_args params)) w = (True, w1)"
      using ok by (metis prod.collapse)
    have "handleToolsCall deps duration params id' subject w = run_handler deps duration subject cap (call_args params) id' w1"
      using name cap a by (simp add: handleToolsCall_def Let_def)
    then show ?thesis
      using vis True run_handler_world[of deps duration subject cap "call_args params" id' w1] safeAudit_cases[OF a] cap_name[OF cap(1)]
      by simp
  next
    case False
    then show ?thesis
      using vis name handleToolsCall_cases[of deps duration params id' subject w] by auto
  qed
qed

subsection \<open>Witnesses\<close>

definition echo_capability :: exposed_capability where
  "echo_capability = \<lparr>ec_name = ''echo'', ec_description = [], ec_inputSchema = JObj [], ec_allowedRoles = [''reader''],
     ec_handler = (\<lambda>args _. Inr args)\<rparr>"

definition demo_mcps :: mcps_deps where
  "demo_mcps = \<lparr>sd_capabilities = [echo_capability], sd_pdp = decide (authz_evaluate (\<lambda>_. [])),
     sd_verifyToken = (\<lambda>t. Some (if t = ''good'' then Some (''u'', [''reader'']) else None)), sd_sha256 = (\<lambda>s. s),
     sd_iso = (\<lambda>_. []), sd_dstr = (\<lambda>_. [])\<rparr>"

definition demo_mcps_start :: mcps_world where
  "demo_mcps_start = \<lparr>sw_sink = \<lparr>persisted = [], outages = [], logged = []\<rparr>, sw_limiter = createLimiter 0, sw_runs = []\<rparr>"

definition demo_mcps_end :: mcps_world where
  "demo_mcps_end = snd (post_mcp demo_mcps 1 2 (Some ''Bearer good'')
     (JObj [(''jsonrpc'', JStr ''2.0''), (''method'', JStr ''tools/call''), (''params'', JObj [(''name'', JStr ''echo'')])]) demo_mcps_start)"

lemma demo_mcps_ran: "map fst (sw_runs demo_mcps_end) = [1]"
  by code_simp

theorem mcp_serves_verified_callers_only_witness:
  "\<exists>r bearer. sw_runs demo_mcps_end = [(1, r)] \<and> sd_verifyToken demo_mcps bearer = Some (Some (hr_subject r))"
proof -
  have run: "(mcps_step demo_mcps)\<^sup>*\<^sup>* demo_mcps_start demo_mcps_end"
    unfolding demo_mcps_end_def by (rule r_into_rtranclp, rule mcps_step.request)
  have start: "sw_runs demo_mcps_start = []" by (simp add: demo_mcps_start_def)
  obtain r where r: "sw_runs demo_mcps_end = [(1, r)]" using demo_mcps_ran by (cases "sw_runs demo_mcps_end") auto
  then have "(1, r) \<in> set (sw_runs demo_mcps_end)" by simp
  from mcp_serves_verified_callers_only[OF run start this] r show ?thesis by blast
qed

theorem listed_tools_are_the_callable_ones_witness:
  "visible_capabilities demo_mcps (''v'', []) = [] \<and>
   sw_runs (snd (handleToolsCall demo_mcps 0 (JObj [(''name'', JStr ''echo'')]) JNull (''v'', []) demo_mcps_start)) = []"
proof -
  have v: "visible_capabilities demo_mcps (''v'', []) = []" by code_simp
  have "outages (sw_sink demo_mcps_start) = []" "js_prop (JObj [(''name'', JStr ''echo'')]) ''name'' = JStr ''echo''" "''echo'' \<noteq> []"
    by (simp_all add: demo_mcps_start_def get_field_def)
  from listed_tools_are_the_callable_ones[OF this] v show ?thesis by (simp add: demo_mcps_start_def)
qed

end
