(* ===== verification/Validate.thy ===== *)
theory Validate
  imports App_Spec
begin

text \<open>
  The validator of app specs (\<open>packages/spec/src/validate.ts\<close>): every error of the semantic pass, in
  the order the code reports them.  The JSON Schema validator (ajv) is the parameter
  \<open>structural\<close>, the instance paths of its errors; \<open>typed\<close> is the reading of an accepted JSON value at
  the type \<^typ>\<open>app_spec\<close>, which the code does by a cast.  Messages are not modelled.
\<close>

datatype spec_code =
    ERR_SPEC_VERSION | ERR_SCHEMA | ERR_DUPLICATE_NAME | ERR_UNKNOWN_ENTITY | ERR_UNKNOWN_FIELD | ERR_BAD_REFERENCE
  | ERR_BAD_ENUM | ERR_BAD_DEFAULT | ERR_BAD_PREDICATE | ERR_WORKFLOW_STATE_FIELD | ERR_WORKFLOW_STATE | ERR_UNKNOWN_ROLE
  | ERR_AGENTS_REQUIRE_V0_2 | ERR_UNKNOWN_WORKFLOW | ERR_UNKNOWN_TRANSITION | ERR_AGENT_PROPOSAL_UNGATED

type_synonym spec_errors = "(spec_code \<times> string) list"

definition err_if :: "bool \<Rightarrow> spec_code \<Rightarrow> string \<Rightarrow> spec_errors" where
  "err_if b code path = (if b then [(code, path)] else [])"

lemma err_if_empty [simp]: "err_if b code path = [] \<longleftrightarrow> \<not> b"
  by (simp add: err_if_def)

text \<open>The errors of a loop \<open>for (const [i, x] of xs.entries())\<close> whose turns share no state.\<close>

definition each :: "string \<Rightarrow> (string \<Rightarrow> 'a \<Rightarrow> spec_errors) \<Rightarrow> 'a list \<Rightarrow> spec_errors" where
  "each path check xs = concat (map (\<lambda>(i, x). check (path @ ''/'' @ nat_str i) x) (enumerate 0 xs))"

lemma each_none:
  assumes "\<And>p x. check p x = [] \<longleftrightarrow> P x"
  shows "each path check xs = [] \<longleftrightarrow> (\<forall>x \<in> set xs. P x)"
proof -
  have "set xs = snd ` set (enumerate 0 xs)" by (metis list.set_map map_snd_enumerate)
  then show ?thesis by (auto simp: each_def assms)
qed

subsection \<open>Entities\<close>

definition text_missing :: "string option \<Rightarrow> bool" where
  "text_missing s = (case s of None \<Rightarrow> True | Some cs \<Rightarrow> cs = [])"

definition enum_check :: "string \<Rightarrow> field_def \<Rightarrow> spec_errors" where
  "enum_check path field =
     (if fd_type field = FEnum then err_if (fd_values field = None) ERR_BAD_ENUM path
      else err_if (fd_values field \<noteq> None) ERR_BAD_ENUM (path @ ''/values''))"

definition reference_check :: "string list \<Rightarrow> string \<Rightarrow> field_def \<Rightarrow> spec_errors" where
  "reference_check entityNames path field =
     (if fd_type field = FReference then
        (if text_missing (fd_entity field) then [(ERR_BAD_REFERENCE, path)]
         else err_if (the (fd_entity field) \<notin> set entityNames) ERR_BAD_REFERENCE (path @ ''/entity''))
      else err_if (\<not> text_missing (fd_entity field)) ERR_BAD_REFERENCE (path @ ''/entity''))"

fun is_str :: "json \<Rightarrow> bool" where
  "is_str (JStr s) = True" | "is_str _ = False"

fun is_num :: "json \<Rightarrow> bool" where
  "is_num (JNum n) = True" | "is_num _ = False"

fun is_bool :: "json \<Rightarrow> bool" where
  "is_bool (JBool b) = True" | "is_bool _ = False"

text \<open>\<open>typeof v === "string" && (field.values ?? []).includes(v)\<close>\<close>

fun is_value :: "field_def \<Rightarrow> json \<Rightarrow> bool" where
  "is_value field (JStr s) = List.member (or_empty (fd_values field)) s"
| "is_value field _ = False"

definition default_check :: "string \<Rightarrow> field_def \<Rightarrow> spec_errors" where
  "default_check path field =
     (case fd_default field of
        None \<Rightarrow> []
      | Some d \<Rightarrow>
          err_if (case fd_type field of
              FString \<Rightarrow> \<not> is_str d
            | FText \<Rightarrow> \<not> is_str d
            | FNumber \<Rightarrow> \<not> is_num d
            | FBoolean \<Rightarrow> \<not> is_bool d
            | FEnum \<Rightarrow> \<not> is_value field d
            | FDate \<Rightarrow> True
            | FDatetime \<Rightarrow> True
            | FReference \<Rightarrow> True) ERR_BAD_DEFAULT (path @ ''/default''))"

fun check_field_defs :: "string list \<Rightarrow> string \<Rightarrow> nat \<Rightarrow> string list \<Rightarrow> field_def list \<Rightarrow> spec_errors" where
  "check_field_defs entityNames path j memberNames [] = []"
| "check_field_defs entityNames path j memberNames (field # rest) =
     (let p = path @ ''/fields/'' @ nat_str j in
      err_if (fd_name field \<in> set memberNames) ERR_DUPLICATE_NAME (p @ ''/name'')
      @ enum_check p field @ reference_check entityNames p field @ default_check p field
      @ check_field_defs entityNames path (Suc j) (fd_name field # memberNames) rest)"

fun check_relation_defs :: "string list \<Rightarrow> string \<Rightarrow> nat \<Rightarrow> string list \<Rightarrow> relation_def list \<Rightarrow> spec_errors" where
  "check_relation_defs entityNames path j memberNames [] = []"
| "check_relation_defs entityNames path j memberNames (relation # rest) =
     (let p = path @ ''/relations/'' @ nat_str j in
      err_if (rd_name relation \<in> set memberNames) ERR_DUPLICATE_NAME (p @ ''/name'')
      @ err_if (rd_to relation \<notin> set entityNames) ERR_UNKNOWN_ENTITY (p @ ''/to'')
      @ check_relation_defs entityNames path (Suc j) (rd_name relation # memberNames) rest)"

definition check_entity :: "string list \<Rightarrow> string \<Rightarrow> entity_def \<Rightarrow> spec_errors" where
  "check_entity entityNames path entity =
     check_field_defs entityNames path 0 [] (en_fields entity)
     @ check_relation_defs entityNames path 0 (map fd_name (en_fields entity)) (or_empty (en_relations entity))"

fun check_entity_names :: "nat \<Rightarrow> string list \<Rightarrow> entity_def list \<Rightarrow> spec_errors" where
  "check_entity_names i seen [] = []"
| "check_entity_names i seen (entity # rest) =
     err_if (en_name entity \<in> set seen) ERR_DUPLICATE_NAME (''/entities/'' @ nat_str i @ ''/name'')
     @ check_entity_names (Suc i) (en_name entity # seen) rest"

text \<open>\<open>entityByName.get\<close>: the first entity of the name.\<close>

definition entity_named :: "app_spec \<Rightarrow> string \<Rightarrow> entity_def option" where
  "entity_named spec name = List.find (\<lambda>e. en_name e = name) (sp_entities spec)"

subsection \<open>Pages\<close>

definition page_fields_check :: "string \<Rightarrow> entity_def \<Rightarrow> page_def \<Rightarrow> spec_errors" where
  "page_fields_check path entity page =
     each (path @ ''/fields'') (\<lambda>p name. err_if (name \<notin> fd_name ` set (en_fields entity)) ERR_UNKNOWN_FIELD p)
       (or_empty (pg_fields page))"

fun check_pages :: "app_spec \<Rightarrow> nat \<Rightarrow> string list \<Rightarrow> page_def list \<Rightarrow> spec_errors" where
  "check_pages spec i pageNames [] = []"
| "check_pages spec i pageNames (page # rest) =
     (let path = ''/pages/'' @ nat_str i in
      err_if (pg_name page \<in> set pageNames) ERR_DUPLICATE_NAME (path @ ''/name'')
      @ (case entity_named spec (pg_entity page) of
           None \<Rightarrow> [(ERR_UNKNOWN_ENTITY, path @ ''/entity'')]
         | Some entity \<Rightarrow> page_fields_check path entity page)
      @ check_pages spec (Suc i) (pg_name page # pageNames) rest)"

subsection \<open>Workflows\<close>

definition checkRoles :: "app_spec \<Rightarrow> string \<Rightarrow> string list \<Rightarrow> spec_errors" where
  "checkRoles spec path names =
     each path (\<lambda>p role. err_if (role \<notin> set (or_empty (am_roles (sp_app spec)))) ERR_UNKNOWN_ROLE p) names"

definition ordered_type :: "field_type \<Rightarrow> bool" where
  "ordered_type t = List.member [FNumber, FDate, FDatetime] t"

definition comparison_op :: "predicate_op \<Rightarrow> bool" where
  "comparison_op op' = List.member [Op_gt, Op_gte, Op_lt, Op_lte] op'"

definition value_check :: "string \<Rightarrow> field_def \<Rightarrow> json \<Rightarrow> spec_errors" where
  "value_check path field v =
     err_if (case fd_type field of
         FEnum \<Rightarrow> \<not> is_value field v
       | FBoolean \<Rightarrow> \<not> is_bool v
       | FNumber \<Rightarrow> \<not> is_num v
       | FReference \<Rightarrow> False
       | _ \<Rightarrow> \<not> is_str v) ERR_BAD_PREDICATE (path @ ''/value'')"

definition checkPredicate :: "(string \<times> field_def) list \<Rightarrow> string \<Rightarrow> field_predicate \<Rightarrow> spec_errors" where
  "checkPredicate fieldByName path predicate =
     (case map_of fieldByName (fp_field predicate) of
        None \<Rightarrow> [(ERR_UNKNOWN_FIELD, path @ ''/field'')]
      | Some field \<Rightarrow>
          if fd_type field = FReference then [(ERR_BAD_PREDICATE, path)]
          else if fp_op predicate \<in> {Op_set, Op_notSet} then err_if (fp_value predicate \<noteq> None) ERR_BAD_PREDICATE (path @ ''/value'')
          else (case fp_value predicate of
              None \<Rightarrow> [(ERR_BAD_PREDICATE, path)]
            | Some v \<Rightarrow>
                if comparison_op (fp_op predicate) \<and> \<not> ordered_type (fd_type field) then [(ERR_BAD_PREDICATE, path @ ''/op'')]
                else value_check path field v))"

definition check_transition ::
  "app_spec \<Rightarrow> (string \<times> field_def) list \<Rightarrow> string list \<Rightarrow> string \<Rightarrow> transition_def \<Rightarrow> spec_errors" where
  "check_transition spec fieldByName states path t =
     err_if (tr_from t \<notin> set states) ERR_WORKFLOW_STATE (path @ ''/from'')
     @ err_if (tr_to t \<notin> set states) ERR_WORKFLOW_STATE (path @ ''/to'')
     @ checkRoles spec (path @ ''/guard/roles'') (or_empty (guard_roles t))
     @ each (path @ ''/guard/require'') (checkPredicate fieldByName) (guard_require t)
     @ (case tr_approval t of None \<Rightarrow> [] | Some rule \<Rightarrow> checkRoles spec (path @ ''/approval/roles'') (or_empty (ap_roles rule)))"

fun check_transitions ::
  "app_spec \<Rightarrow> (string \<times> field_def) list \<Rightarrow> string list \<Rightarrow> string \<Rightarrow> nat \<Rightarrow> string list \<Rightarrow> transition_def list \<Rightarrow> spec_errors" where
  "check_transitions spec fieldByName states path j transitionNames [] = []"
| "check_transitions spec fieldByName states path j transitionNames (t # rest) =
     (let p = path @ ''/transitions/'' @ nat_str j in
      err_if (tr_name t \<in> set transitionNames) ERR_DUPLICATE_NAME (p @ ''/name'')
      @ check_transition spec fieldByName states p t
      @ check_transitions spec fieldByName states path (Suc j) (tr_name t # transitionNames) rest)"

definition fields_by_name :: "entity_def \<Rightarrow> (string \<times> field_def) list" where
  "fields_by_name entity = map_from (map (\<lambda>f. (fd_name f, f)) (en_fields entity))"

definition check_workflow :: "app_spec \<Rightarrow> string \<Rightarrow> workflow_def \<Rightarrow> spec_errors" where
  "check_workflow spec path w =
     (case entity_named spec (wf_entity w) of
        None \<Rightarrow> [(ERR_UNKNOWN_ENTITY, path @ ''/entity'')]
      | Some entity \<Rightarrow>
          (case map_of (fields_by_name entity) (wf_stateField w) of
             None \<Rightarrow> [(ERR_WORKFLOW_STATE_FIELD, path @ ''/stateField'')]
           | Some stateField \<Rightarrow>
               if fd_type stateField \<noteq> FEnum \<or> fd_values stateField = None
               then [(ERR_WORKFLOW_STATE_FIELD, path @ ''/stateField'')]
               else (let states = or_empty (fd_values stateField) in
                     err_if (wf_initial w \<notin> set states) ERR_WORKFLOW_STATE (path @ ''/initial'')
                     @ check_transitions spec (fields_by_name entity) states path 0 [] (wf_transitions w))))"

fun check_workflows :: "app_spec \<Rightarrow> nat \<Rightarrow> string list \<Rightarrow> workflow_def list \<Rightarrow> spec_errors" where
  "check_workflows spec i workflowNames [] = []"
| "check_workflows spec i workflowNames (w # rest) =
     (let path = ''/workflows/'' @ nat_str i in
      err_if (wf_name w \<in> set workflowNames) ERR_DUPLICATE_NAME (path @ ''/name'')
      @ check_workflow spec path w @ check_workflows spec (Suc i) (wf_name w # workflowNames) rest)"

subsection \<open>Agent tasks\<close>

definition check_proposal :: "app_spec \<Rightarrow> string \<Rightarrow> agent_proposal_ref \<Rightarrow> spec_errors" where
  "check_proposal spec path ref =
     (case List.find (\<lambda>w. wf_name w = ar_workflow ref) (or_empty (sp_workflows spec)) of
        None \<Rightarrow> [(ERR_UNKNOWN_WORKFLOW, path @ ''/workflow'')]
      | Some w \<Rightarrow>
          (case List.find (\<lambda>t. tr_name t = ar_transition ref) (wf_transitions w) of
             None \<Rightarrow> [(ERR_UNKNOWN_TRANSITION, path @ ''/transition'')]
           | Some t \<Rightarrow> err_if (tr_approval t = None) ERR_AGENT_PROPOSAL_UNGATED path))"

fun check_tasks :: "app_spec \<Rightarrow> nat \<Rightarrow> string list \<Rightarrow> agent_task_def list \<Rightarrow> spec_errors" where
  "check_tasks spec i agentNames [] = []"
| "check_tasks spec i agentNames (task # rest) =
     (let path = ''/agents/'' @ nat_str i in
      err_if (at_name task \<in> set agentNames) ERR_DUPLICATE_NAME (path @ ''/name'')
      @ each (path @ ''/proposes'') (check_proposal spec) (or_empty (at_proposes task))
      @ check_tasks spec (Suc i) (at_name task # agentNames) rest)"

subsection \<open>The whole validator\<close>

definition semantic_errors :: "app_spec \<Rightarrow> spec_errors" where
  "semantic_errors spec =
     check_entity_names 0 [] (sp_entities spec)
     @ each ''/entities'' (check_entity (map en_name (sp_entities spec))) (sp_entities spec)
     @ check_pages spec 0 [] (or_empty (sp_pages spec))
     @ check_workflows spec 0 [] (or_empty (sp_workflows spec))
     @ check_tasks spec 0 [] (or_empty (sp_agents spec))
     @ err_if (or_empty (sp_agents spec) \<noteq> [] \<and> sp_specVersion spec \<noteq> ''0.2'') ERR_AGENTS_REQUIRE_V0_2 ''/agents''"

definition validateSpec :: "(json \<Rightarrow> string list option) \<Rightarrow> (json \<Rightarrow> app_spec) \<Rightarrow> json \<Rightarrow> spec_errors + app_spec" where
  "validateSpec structural typed input =
     (case input of
        JObj kvs \<Rightarrow>
          if get_field kvs ''specVersion'' \<noteq> JStr ''0.1'' \<and> get_field kvs ''specVersion'' \<noteq> JStr ''0.2''
          then Inl [(ERR_SPEC_VERSION, ''/specVersion'')]
          else (case structural input of
              Some paths \<Rightarrow> Inl (map (\<lambda>p. (ERR_SCHEMA, p)) paths)
            | None \<Rightarrow>
                (let errors = semantic_errors (typed input) in if errors = [] then Inr (typed input) else Inl errors))
      | _ \<Rightarrow> Inl [(ERR_SPEC_VERSION, [])])"

end
