(* ===== verification/Validate_Props.thy ===== *)
theory Validate_Props
  imports Validate
begin

text \<open>
  What a valid spec is, said without the loops, and the proof that the semantic pass accepts
  exactly these.
\<close>

subsection \<open>Valid specs\<close>

text \<open>A literal of the spec that a field of the given type takes.\<close>

definition literal_ok :: "field_def \<Rightarrow> json \<Rightarrow> bool" where
  "literal_ok f v \<longleftrightarrow>
     (case fd_type f of
        FNumber \<Rightarrow> is_num v
      | FBoolean \<Rightarrow> is_bool v
      | FEnum \<Rightarrow> is_value f v
      | FReference \<Rightarrow> False
      | _ \<Rightarrow> is_str v)"

definition field_ok :: "string list \<Rightarrow> field_def \<Rightarrow> bool" where
  "field_ok names f \<longleftrightarrow>
     (fd_type f = FEnum \<longleftrightarrow> fd_values f \<noteq> None) \<and>
     (if fd_type f = FReference then (\<exists>e \<in> set names. e \<noteq> [] \<and> fd_entity f = Some e) else text_missing (fd_entity f)) \<and>
     (\<forall>d. fd_default f = Some d \<longrightarrow> literal_ok f d \<and> fd_type f \<notin> {FDate, FDatetime})"

definition entity_ok :: "string list \<Rightarrow> entity_def \<Rightarrow> bool" where
  "entity_ok names e \<longleftrightarrow>
     distinct (map fd_name (en_fields e) @ map rd_name (or_empty (en_relations e))) \<and>
     (\<forall>f \<in> set (en_fields e). field_ok names f) \<and> (\<forall>r \<in> set (or_empty (en_relations e)). rd_to r \<in> set names)"

definition page_ok :: "app_spec \<Rightarrow> page_def \<Rightarrow> bool" where
  "page_ok spec p \<longleftrightarrow>
     (\<exists>e \<in> set (sp_entities spec). en_name e = pg_entity p \<and> set (or_empty (pg_fields p)) \<subseteq> fd_name ` set (en_fields e))"

definition roles_ok :: "app_spec \<Rightarrow> string list \<Rightarrow> bool" where
  "roles_ok spec roles \<longleftrightarrow> set roles \<subseteq> set (or_empty (am_roles (sp_app spec)))"

definition predicate_ok :: "entity_def \<Rightarrow> field_predicate \<Rightarrow> bool" where
  "predicate_ok e p \<longleftrightarrow>
     (\<exists>f \<in> set (en_fields e). fd_name f = fp_field p \<and> fd_type f \<noteq> FReference \<and>
        (if fp_op p \<in> {Op_set, Op_notSet} then fp_value p = None
         else (comparison_op (fp_op p) \<longrightarrow> ordered_type (fd_type f)) \<and> (\<exists>v. fp_value p = Some v \<and> literal_ok f v)))"

definition transition_ok :: "app_spec \<Rightarrow> entity_def \<Rightarrow> string list \<Rightarrow> transition_def \<Rightarrow> bool" where
  "transition_ok spec e states t \<longleftrightarrow>
     tr_from t \<in> set states \<and> tr_to t \<in> set states \<and> roles_ok spec (or_empty (guard_roles t)) \<and>
     (\<forall>p \<in> set (guard_require t). predicate_ok e p) \<and>
     (\<forall>rule. tr_approval t = Some rule \<longrightarrow> roles_ok spec (or_empty (ap_roles rule)))"

definition workflow_ok :: "app_spec \<Rightarrow> workflow_def \<Rightarrow> bool" where
  "workflow_ok spec w \<longleftrightarrow>
     (\<exists>e \<in> set (sp_entities spec). en_name e = wf_entity w \<and>
       (\<exists>f \<in> set (en_fields e). fd_name f = wf_stateField w \<and> fd_type f = FEnum \<and>
         (\<exists>states. fd_values f = Some states \<and> wf_initial w \<in> set states \<and>
            distinct (map tr_name (wf_transitions w)) \<and> (\<forall>t \<in> set (wf_transitions w). transition_ok spec e states t))))"

text \<open>An agent task may only propose transitions that a human must approve.\<close>

definition proposal_ok :: "app_spec \<Rightarrow> agent_proposal_ref \<Rightarrow> bool" where
  "proposal_ok spec r \<longleftrightarrow>
     (\<exists>w \<in> set (or_empty (sp_workflows spec)). wf_name w = ar_workflow r \<and>
       (\<exists>t \<in> set (wf_transitions w). tr_name t = ar_transition r \<and> tr_approval t \<noteq> None))"

definition spec_ok :: "app_spec \<Rightarrow> bool" where
  "spec_ok spec \<longleftrightarrow>
     distinct (map en_name (sp_entities spec)) \<and> distinct (map pg_name (or_empty (sp_pages spec))) \<and>
     distinct (map wf_name (or_empty (sp_workflows spec))) \<and> distinct (map at_name (or_empty (sp_agents spec))) \<and>
     (\<forall>e \<in> set (sp_entities spec). entity_ok (map en_name (sp_entities spec)) e) \<and>
     (\<forall>p \<in> set (or_empty (sp_pages spec)). page_ok spec p) \<and>
     (\<forall>w \<in> set (or_empty (sp_workflows spec)). workflow_ok spec w) \<and>
     (\<forall>a \<in> set (or_empty (sp_agents spec)). \<forall>r \<in> set (or_empty (at_proposes a)). proposal_ok spec r) \<and>
     (or_empty (sp_agents spec) = [] \<or> sp_specVersion spec = ''0.2'')"

subsection \<open>The loops\<close>

lemma list_find_unique:
  "distinct (map f xs) \<Longrightarrow> List.find (\<lambda>x. f x = k) xs = Some x \<longleftrightarrow> x \<in> set xs \<and> f x = k"
  by (induction xs) auto

lemma list_find_the:
  "distinct (map f xs) \<Longrightarrow> List.find (\<lambda>x. f x = k) xs = Some y \<Longrightarrow> x \<in> set xs \<and> f x = k \<longleftrightarrow> x = y"
  using list_find_unique[of f xs k x] by auto

lemma bex_the: "(\<And>x. x \<in> A \<and> f x = k \<longleftrightarrow> x = y) \<Longrightarrow> (\<exists>x \<in> A. f x = k \<and> P x) \<longleftrightarrow> P y"
  by metis

lemma list_find_none: "List.find (\<lambda>x. f x = k) xs = None \<longleftrightarrow> k \<notin> f ` set xs"
  by (auto simp: find_None_iff)

lemma fields_by_name_none: "map_of (fields_by_name e) n = None \<longleftrightarrow> n \<notin> fd_name ` set (en_fields e)"
  by (force simp: fields_by_name_def map_of_map_from map_of_eq_None_iff)

lemma fields_by_name_some:
  assumes "distinct (map fd_name (en_fields e))"
  shows "map_of (fields_by_name e) n = Some f \<longleftrightarrow> f \<in> set (en_fields e) \<and> fd_name f = n"
proof -
  have "distinct (map fst (rev (map (\<lambda>f. (fd_name f, f)) (en_fields e))))"
    using assms by (simp add: rev_map[symmetric] o_def)
  then show ?thesis by (auto simp: fields_by_name_def map_of_map_from)
qed

lemma fields_by_name_the:
  "distinct (map fd_name (en_fields e)) \<Longrightarrow> map_of (fields_by_name e) n = Some f \<Longrightarrow>
   g \<in> set (en_fields e) \<and> fd_name g = n \<longleftrightarrow> g = f"
  using fields_by_name_some[of e n g] by auto

lemma check_entity_names_none:
  "check_entity_names i seen es = [] \<longleftrightarrow> distinct (map en_name es) \<and> set seen \<inter> en_name ` set es = {}"
  by (induction es arbitrary: i seen) auto

lemma field_checks_none:
  "enum_check p f @ reference_check names p f @ default_check p f = [] \<longleftrightarrow> field_ok names f"
  by (auto simp: enum_check_def reference_check_def default_check_def field_ok_def literal_ok_def text_missing_def
      split: option.splits field_type.splits)

lemma check_field_defs_none:
  "check_field_defs names path j seen fs = [] \<longleftrightarrow>
     distinct (map fd_name fs) \<and> set seen \<inter> fd_name ` set fs = {} \<and> (\<forall>f \<in> set fs. field_ok names f)"
proof (induction fs arbitrary: j seen)
  case (Cons f fs)
  show ?case using field_checks_none[of _ f names] Cons by (auto simp: Let_def)
qed simp

lemma check_relation_defs_none:
  "check_relation_defs names path j seen rs = [] \<longleftrightarrow>
     distinct (map rd_name rs) \<and> set seen \<inter> rd_name ` set rs = {} \<and> (\<forall>r \<in> set rs. rd_to r \<in> set names)"
  by (induction rs arbitrary: j seen) (auto simp: Let_def)

lemma check_entity_none: "check_entity names path e = [] \<longleftrightarrow> entity_ok names e"
  by (auto simp: check_entity_def check_field_defs_none check_relation_defs_none entity_ok_def)

lemma checkRoles_none: "checkRoles spec path roles = [] \<longleftrightarrow> roles_ok spec roles"
  unfolding checkRoles_def roles_ok_def by (subst each_none[where P = "\<lambda>r. r \<in> set (or_empty (am_roles (sp_app spec)))"]) auto

lemma page_none:
  assumes "distinct (map en_name (sp_entities spec))"
  shows "(case entity_named spec (pg_entity p) of None \<Rightarrow> [(ERR_UNKNOWN_ENTITY, q)] | Some e \<Rightarrow> page_fields_check path e p) = []
    \<longleftrightarrow> page_ok spec p"
proof -
  have "page_fields_check path e p = [] \<longleftrightarrow> set (or_empty (pg_fields p)) \<subseteq> fd_name ` set (en_fields e)" for e
    unfolding page_fields_check_def by (subst each_none[where P = "\<lambda>n. n \<in> fd_name ` set (en_fields e)"]) auto
  note fs = this
  show ?thesis
  proof (cases "entity_named spec (pg_entity p)")
    case None
    then have "pg_entity p \<notin> en_name ` set (sp_entities spec)" unfolding entity_named_def list_find_none .
    then have "\<not> page_ok spec p" unfolding page_ok_def by (metis imageI)
    then show ?thesis using None by simp
  next
    case (Some e)
    then have "x \<in> set (sp_entities spec) \<and> en_name x = pg_entity p \<longleftrightarrow> x = e" for x
      unfolding entity_named_def by (rule list_find_the[OF assms])
    then have "page_ok spec p \<longleftrightarrow> set (or_empty (pg_fields p)) \<subseteq> fd_name ` set (en_fields e)"
      unfolding page_ok_def by (rule bex_the)
    then show ?thesis using Some fs by simp
  qed
qed

lemma check_pages_none:
  assumes "distinct (map en_name (sp_entities spec))"
  shows "check_pages spec i seen ps = [] \<longleftrightarrow>
    distinct (map pg_name ps) \<and> set seen \<inter> pg_name ` set ps = {} \<and> (\<forall>p \<in> set ps. page_ok spec p)"
proof (induction ps arbitrary: i seen)
  case (Cons p ps)
  show ?case using page_none[OF assms] Cons by (auto simp: Let_def)
qed simp

lemma checkPredicate_none:
  assumes d: "distinct (map fd_name (en_fields e))"
  shows "checkPredicate (fields_by_name e) path p = [] \<longleftrightarrow> predicate_ok e p"
proof (cases "map_of (fields_by_name e) (fp_field p)")
  case None
  then have "fp_field p \<notin> fd_name ` set (en_fields e)" unfolding fields_by_name_none .
  then have "\<not> predicate_ok e p" unfolding predicate_ok_def by (metis imageI)
  then show ?thesis using None by (simp add: checkPredicate_def)
next
  case (Some f)
  then have f: "g \<in> set (en_fields e) \<and> fd_name g = fp_field p \<longleftrightarrow> g = f" for g
    by (rule fields_by_name_the[OF d])
  then have "predicate_ok e p \<longleftrightarrow> fd_type f \<noteq> FReference \<and>
      (if fp_op p \<in> {Op_set, Op_notSet} then fp_value p = None
       else (comparison_op (fp_op p) \<longrightarrow> ordered_type (fd_type f)) \<and> (\<exists>v. fp_value p = Some v \<and> literal_ok f v))"
    unfolding predicate_ok_def by (rule bex_the)
  then show ?thesis using Some
    by (auto simp: checkPredicate_def value_check_def literal_ok_def split: option.splits field_type.splits)
qed

lemma check_transition_none:
  assumes "distinct (map fd_name (en_fields e))"
  shows "check_transition spec (fields_by_name e) states path t = [] \<longleftrightarrow> transition_ok spec e states t"
  by (auto simp: check_transition_def transition_ok_def checkRoles_none
      each_none[OF checkPredicate_none[OF assms]] split: option.splits)

lemma check_transitions_none:
  assumes "distinct (map fd_name (en_fields e))"
  shows "check_transitions spec (fields_by_name e) states path j seen ts = [] \<longleftrightarrow>
    distinct (map tr_name ts) \<and> set seen \<inter> tr_name ` set ts = {} \<and> (\<forall>t \<in> set ts. transition_ok spec e states t)"
  by (induction ts arbitrary: j seen) (auto simp: Let_def check_transition_none[OF assms])

lemma check_workflow_none:
  assumes d: "distinct (map en_name (sp_entities spec))"
    and e: "\<And>e. e \<in> set (sp_entities spec) \<Longrightarrow> distinct (map fd_name (en_fields e))"
  shows "check_workflow spec path w = [] \<longleftrightarrow> workflow_ok spec w"
proof (cases "entity_named spec (wf_entity w)")
  case None
  then have "wf_entity w \<notin> en_name ` set (sp_entities spec)" unfolding entity_named_def list_find_none .
  then have "\<not> workflow_ok spec w" unfolding workflow_ok_def by (metis imageI)
  then show ?thesis using None by (simp add: check_workflow_def)
next
  case (Some en)
  then have uniq: "x \<in> set (sp_entities spec) \<and> en_name x = wf_entity w \<longleftrightarrow> x = en" for x
    unfolding entity_named_def by (rule list_find_the[OF d])
  then have en: "en \<in> set (sp_entities spec)" "en_name en = wf_entity w" by blast+
  note de = e[OF en(1)]
  have "workflow_ok spec w \<longleftrightarrow>
      (\<exists>f \<in> set (en_fields en). fd_name f = wf_stateField w \<and> fd_type f = FEnum \<and>
         (\<exists>states. fd_values f = Some states \<and> wf_initial w \<in> set states \<and>
            distinct (map tr_name (wf_transitions w)) \<and> (\<forall>t \<in> set (wf_transitions w). transition_ok spec en states t)))"
    unfolding workflow_ok_def using uniq by (rule bex_the)
  moreover have "check_workflow spec path w = [] \<longleftrightarrow>
      (\<exists>f. map_of (fields_by_name en) (wf_stateField w) = Some f \<and> fd_type f = FEnum \<and>
         (\<exists>states. fd_values f = Some states \<and> wf_initial w \<in> set states \<and>
            distinct (map tr_name (wf_transitions w)) \<and> (\<forall>t \<in> set (wf_transitions w). transition_ok spec en states t)))"
    by (auto simp: check_workflow_def Some Let_def check_transitions_none[OF de] split: option.splits)
  ultimately show ?thesis unfolding fields_by_name_some[OF de] by blast
qed

lemma check_workflows_none:
  assumes "distinct (map en_name (sp_entities spec))"
    and "\<And>e. e \<in> set (sp_entities spec) \<Longrightarrow> distinct (map fd_name (en_fields e))"
  shows "check_workflows spec i seen ws = [] \<longleftrightarrow>
    distinct (map wf_name ws) \<and> set seen \<inter> wf_name ` set ws = {} \<and> (\<forall>w \<in> set ws. workflow_ok spec w)"
  by (induction ws arbitrary: i seen) (auto simp: Let_def check_workflow_none[OF assms])

lemma check_proposal_none:
  assumes d: "distinct (map wf_name (or_empty (sp_workflows spec)))"
    and t: "\<And>w. w \<in> set (or_empty (sp_workflows spec)) \<Longrightarrow> distinct (map tr_name (wf_transitions w))"
  shows "check_proposal spec path r = [] \<longleftrightarrow> proposal_ok spec r"
proof (cases "List.find (\<lambda>w. wf_name w = ar_workflow r) (or_empty (sp_workflows spec))")
  case None
  then have "ar_workflow r \<notin> wf_name ` set (or_empty (sp_workflows spec))" unfolding list_find_none .
  then have "\<not> proposal_ok spec r" unfolding proposal_ok_def by (metis imageI)
  then show ?thesis using None by (simp add: check_proposal_def)
next
  case wf: (Some w)
  then have uniq: "x \<in> set (or_empty (sp_workflows spec)) \<and> wf_name x = ar_workflow r \<longleftrightarrow> x = w" for x
    by (rule list_find_the[OF d])
  then have w: "w \<in> set (or_empty (sp_workflows spec))" by blast
  have "proposal_ok spec r \<longleftrightarrow> (\<exists>t \<in> set (wf_transitions w). tr_name t = ar_transition r \<and> tr_approval t \<noteq> None)"
    unfolding proposal_ok_def using uniq by (rule bex_the)
  note ok = this
  show ?thesis
  proof (cases "List.find (\<lambda>t. tr_name t = ar_transition r) (wf_transitions w)")
    case None
    then have "ar_transition r \<notin> tr_name ` set (wf_transitions w)" unfolding list_find_none .
    then have "\<not> proposal_ok spec r" unfolding ok by (metis imageI)
    then show ?thesis using wf None by (simp add: check_proposal_def)
  next
    case (Some tr)
    then have "x \<in> set (wf_transitions w) \<and> tr_name x = ar_transition r \<longleftrightarrow> x = tr" for x
      by (rule list_find_the[OF t[OF w]])
    then have "proposal_ok spec r \<longleftrightarrow> tr_approval tr \<noteq> None" unfolding ok by (rule bex_the)
    then show ?thesis using Some wf by (simp add: check_proposal_def)
  qed
qed

lemma check_tasks_none:
  assumes "distinct (map wf_name (or_empty (sp_workflows spec)))"
    and "\<And>w. w \<in> set (or_empty (sp_workflows spec)) \<Longrightarrow> distinct (map tr_name (wf_transitions w))"
  shows "check_tasks spec i seen as = [] \<longleftrightarrow>
    distinct (map at_name as) \<and> set seen \<inter> at_name ` set as = {} \<and>
    (\<forall>a \<in> set as. \<forall>r \<in> set (or_empty (at_proposes a)). proposal_ok spec r)"
  by (induction as arbitrary: i seen) (auto simp: Let_def each_none[OF check_proposal_none[OF assms]])

subsection \<open>The semantic pass\<close>

lemma entity_ok_fields: "entity_ok names e \<Longrightarrow> distinct (map fd_name (en_fields e))"
  by (simp add: entity_ok_def)

lemma workflow_ok_transitions: "workflow_ok spec w \<Longrightarrow> distinct (map tr_name (wf_transitions w))"
  by (auto simp: workflow_ok_def)

lemma semantic_none: "semantic_errors spec = [] \<longleftrightarrow> spec_ok spec"
proof (cases "distinct (map en_name (sp_entities spec)) \<and> (\<forall>e \<in> set (sp_entities spec). entity_ok (map en_name (sp_entities spec)) e)")
  case True
  then have d: "distinct (map en_name (sp_entities spec))"
    and f: "\<And>e. e \<in> set (sp_entities spec) \<Longrightarrow> distinct (map fd_name (en_fields e))"
    using entity_ok_fields by blast+
  note checks = check_entity_names_none each_none[OF check_entity_none] check_pages_none[OF d] check_workflows_none[OF d f]
  show ?thesis
  proof (cases "distinct (map wf_name (or_empty (sp_workflows spec))) \<and> (\<forall>w \<in> set (or_empty (sp_workflows spec)). workflow_ok spec w)")
    case wf: True
    then have "\<And>w. w \<in> set (or_empty (sp_workflows spec)) \<Longrightarrow> distinct (map tr_name (wf_transitions w))"
      using workflow_ok_transitions by blast
    note tasks = check_tasks_none[OF conjunct1[OF wf] this]
    show ?thesis using True wf by (auto simp: semantic_errors_def spec_ok_def checks tasks)
  next
    case False
    then show ?thesis by (simp add: semantic_errors_def spec_ok_def checks) blast
  qed
next
  case False
  then show ?thesis
    by (simp add: semantic_errors_def spec_ok_def check_entity_names_none each_none[OF check_entity_none]) blast
qed

text \<open>
  The validator accepts exactly the valid specs.  The semantic pass reports no error if and only
  if all names are unique where they must be, every reference, page, workflow, guard, role and
  proposal names something the spec declares, every enum value, default and guard literal fits
  its field, and agents only propose transitions that need a human approval.
\<close>

theorem validator_accepts_exactly_valid_specs: "semantic_errors spec = [] \<longleftrightarrow> spec_ok spec"
  by (rule semantic_none)

lemma validateSpec_ok: "validateSpec structural typed input = Inr spec \<Longrightarrow> spec_ok spec"
  unfolding semantic_none[symmetric]
  by (auto simp: validateSpec_def Let_def split: json.splits option.splits if_splits)

end
