(* ===== verification/Compiler_Sql.thy ===== *)
theory Compiler_Sql
  imports Naming Js_Json
begin

text \<open>
  The migration emitter (\<open>compiler/src/sql.ts\<close>): the checks, the order of the tables and the text.  A
  field is identified by the positions of its entity and of itself in the spec, as the code
  identifies it by the object.
\<close>

subsection \<open>Checks\<close>

datatype compiler_code =
    ERR_DUPLICATE_NAME | ERR_BAD_ENUM | ERR_BAD_REFERENCE | ERR_UNSUPPORTED_SECTION | ERR_UNKNOWN_ENTITY

record compiler_error =
  ce_code :: compiler_code
  ce_path :: string

definition RESERVED_COLUMNS :: "string list" where
  "RESERVED_COLUMNS = [''id'', ''created_at'', ''updated_at'']"

definition compiler_err :: "compiler_code \<Rightarrow> string \<Rightarrow> compiler_error" where
  "compiler_err code path = \<lparr>ce_code = code, ce_path = path\<rparr>"

text \<open>The state of the checks: the errors so far and where each table name was declared.\<close>

type_synonym claims = "compiler_error list \<times> (string \<times> string) list"

definition claimTable :: "string \<Rightarrow> string \<Rightarrow> claims \<Rightarrow> claims" where
  "claimTable table path s =
     (case map_of (snd s) table of
        Some existing \<Rightarrow> (fst s @ [compiler_err ERR_DUPLICATE_NAME path], snd s)
      | None \<Rightarrow> (fst s, map_set table path (snd s)))"

definition enum_errors :: "string \<Rightarrow> field_def \<Rightarrow> compiler_error list" where
  "enum_errors path field =
     (if fd_type field = FEnum \<and> or_empty (fd_values field) = [] then [compiler_err ERR_BAD_ENUM path] else [])"

definition reference_errors :: "string list \<Rightarrow> string \<Rightarrow> field_def \<Rightarrow> compiler_error list" where
  "reference_errors entityNames path field =
     (if fd_type field \<noteq> FReference then []
      else (case fd_entity field of
          None \<Rightarrow> [compiler_err ERR_BAD_REFERENCE path]
        | Some target \<Rightarrow>
            if target \<notin> set entityNames then [compiler_err ERR_BAD_REFERENCE (path @ ''/entity'')] else []))"

fun check_columns :: "string list \<Rightarrow> nat \<Rightarrow> nat \<Rightarrow> field_def list \<Rightarrow> string list \<Rightarrow> compiler_error list" where
  "check_columns entityNames i j [] columns = []"
| "check_columns entityNames i j (field # rest) columns =
     (let path = ''/entities/'' @ nat_str i @ ''/fields/'' @ nat_str j; column = columnName field;
          duplicate = column \<in> set RESERVED_COLUMNS \<or> column \<in> set columns
      in (if duplicate then [compiler_err ERR_DUPLICATE_NAME (path @ ''/name'')] else [])
         @ enum_errors path field @ reference_errors entityNames path field
         @ check_columns entityNames i (Suc j) rest (if duplicate then columns else columns @ [column]))"

fun check_relations :: "string list \<Rightarrow> entity_def \<Rightarrow> nat \<Rightarrow> nat \<Rightarrow> relation_def list \<Rightarrow> claims \<Rightarrow> claims" where
  "check_relations entityNames entity i j [] s = s"
| "check_relations entityNames entity i j (relation # relations) s =
     (let path = ''/entities/'' @ nat_str i @ ''/relations/'' @ nat_str j in
      check_relations entityNames entity i (Suc j) relations
        (if rd_to relation = en_name entity then (fst s @ [compiler_err ERR_UNSUPPORTED_SECTION path], snd s)
         else if rd_to relation \<notin> set entityNames then (fst s @ [compiler_err ERR_UNKNOWN_ENTITY (path @ ''/to'')], snd s)
         else claimTable (joinTableName (en_name entity) (rd_name relation)) (path @ ''/name'') s))"

fun check_entities :: "string list \<Rightarrow> nat \<Rightarrow> entity_def list \<Rightarrow> claims \<Rightarrow> claims" where
  "check_entities entityNames i [] s = s"
| "check_entities entityNames i (entity # entities) s =
     (let s1 = claimTable (tableName (en_name entity)) (''/entities/'' @ nat_str i @ ''/name'') s;
          s2 = (fst s1 @ check_columns entityNames i 0 (en_fields entity) [], snd s1);
          s3 = check_relations entityNames entity i 0 (or_empty (en_relations entity)) s2
      in check_entities entityNames (Suc i) entities s3)"

definition collectSqlErrors :: "app_spec \<Rightarrow> compiler_error list" where
  "collectSqlErrors spec = fst (check_entities (map en_name (sp_entities spec)) 0 (sp_entities spec) ([], []))"

subsection \<open>Table order\<close>

type_synonym field_id = "nat \<times> nat"

definition field_ready :: "string list \<Rightarrow> field_id list \<Rightarrow> nat \<Rightarrow> entity_def \<Rightarrow> nat \<times> field_def \<Rightarrow> bool" where
  "field_ready emitted deferred i entity jf \<longleftrightarrow>
     fd_type (snd jf) \<noteq> FReference \<or>
     (case fd_entity (snd jf) of
        None \<Rightarrow> True
      | Some target \<Rightarrow> target = en_name entity \<or> target \<in> set emitted \<or> (i, fst jf) \<in> set deferred)"

definition isReady :: "string list \<Rightarrow> field_id list \<Rightarrow> nat \<times> entity_def \<Rightarrow> bool" where
  "isReady emitted deferred e \<longleftrightarrow> list_all (field_ready emitted deferred (fst e) (snd e)) (List.enumerate 0 (en_fields (snd e)))"

definition unmet_fields :: "string list \<Rightarrow> nat \<times> entity_def \<Rightarrow> field_id list" where
  "unmet_fields emitted blocked =
     map (\<lambda>jf. (fst blocked, fst jf)) (filter (\<lambda>jf. \<not> field_ready emitted [] (fst blocked) (snd blocked) jf)
       (List.enumerate 0 (en_fields (snd blocked))))"

lemma ready_after_deferring: "isReady emitted (deferred @ unmet_fields emitted e) e"
  by (auto simp: isReady_def unmet_fields_def list_all_iff field_ready_def split: option.splits)

function plan_loop ::
  "(nat \<times> entity_def) list \<Rightarrow> string list \<Rightarrow> field_id list \<Rightarrow> (nat \<times> entity_def) list \<Rightarrow> (nat \<times> entity_def) list \<times> field_id list" where
  "plan_loop remaining emitted deferred order =
     (if remaining = [] then (order, deferred)
      else (case find_index (isReady emitted deferred) remaining of
          None \<Rightarrow> plan_loop remaining emitted (deferred @ unmet_fields emitted (hd remaining)) order
        | Some k \<Rightarrow> plan_loop (remove_at k remaining) (emitted @ [en_name (snd (remaining ! k))]) deferred (order @ [remaining ! k])))"
  by pat_completeness auto

text \<open>After a deferral the first remaining entity is ready, so the next iteration removes one.\<close>

termination
proof (relation "measure (\<lambda>(remaining, emitted, deferred, _).
    2 * length remaining + (if find_index (isReady emitted deferred) remaining = None then 1 else 0))", simp, goal_cases)
  case (1 remaining emitted deferred order)
  then have "find_index (isReady emitted (deferred @ unmet_fields emitted (hd remaining))) remaining \<noteq> None"
    using ready_after_deferring[of emitted deferred "hd remaining"] by (cases remaining) auto
  then show ?case using 1 by auto
next
  case (2 remaining emitted deferred order k)
  then have "k < length remaining" using find_index_Some by metis
  then show ?case using 2 remove_at_length[of k remaining] by auto
qed

declare plan_loop.simps [simp del]

definition planTableOrder :: "entity_def list \<Rightarrow> (nat \<times> entity_def) list \<times> field_id list" where
  "planTableOrder entities = plan_loop (List.enumerate 0 entities) [] [] []"

subsection \<open>Text\<close>

fun sql_type :: "field_type \<Rightarrow> string" where
  "sql_type FString = ''text''"
| "sql_type FText = ''text''"
| "sql_type FNumber = ''double precision''"
| "sql_type FBoolean = ''boolean''"
| "sql_type FDate = ''date''"
| "sql_type FDatetime = ''timestamptz''"
| "sql_type FEnum = ''text''"
| "sql_type FReference = ''uuid''"

definition default_literal :: "json \<Rightarrow> string" where
  "default_literal v = (case sqlLiteral v of Some s \<Rightarrow> s | None \<Rightarrow> ''undefined'')"

definition renderColumn :: "field_def \<Rightarrow> bool \<Rightarrow> string" where
  "renderColumn field deferReference =
     (let column = columnName field in
      join_with '' '' ([column, sql_type (fd_type field)]
        @ (if fd_required field then [''NOT NULL''] else [])
        @ (if fd_unique field then [''UNIQUE''] else [])
        @ (case fd_default field of None \<Rightarrow> [] | Some v \<Rightarrow> [''DEFAULT '' @ default_literal v])
        @ (if fd_type field = FEnum
           then [''CHECK ('' @ column @ '' IN ('' @ join_with '', '' (map sqlStringLiteral (or_empty (fd_values field))) @ ''))''] else [])
        @ (if fd_type field = FReference \<and> \<not> deferReference
           then [''REFERENCES '' @ tableName (case fd_entity field of None \<Rightarrow> [] | Some t \<Rightarrow> t) @ ''(id)''] else [])))"

definition renderEntityTable :: "nat \<times> entity_def \<Rightarrow> field_id list \<Rightarrow> string" where
  "renderEntityTable e deferred =
     ''CREATE TABLE '' @ tableName (en_name (snd e)) @ '' ('' @ newline @ ''  ''
     @ join_with ('','' @ newline @ ''  '')
         ([''id uuid PRIMARY KEY DEFAULT gen_random_uuid()'']
          @ map (\<lambda>(j, field). renderColumn field ((fst e, j) \<in> set deferred)) (List.enumerate 0 (en_fields (snd e)))
          @ [''created_at timestamptz NOT NULL DEFAULT now()'', ''updated_at timestamptz NOT NULL DEFAULT now()''])
     @ newline @ '');''"

definition renderJoinTable :: "entity_def \<Rightarrow> relation_def \<Rightarrow> string" where
  "renderJoinTable entity relation =
     (let left = tableName (en_name entity); right = tableName (rd_to relation);
          table = joinTableName (en_name entity) (rd_name relation)
      in join_with newline
           [''CREATE TABLE '' @ table @ '' ('',
            ''  '' @ left @ ''_id uuid NOT NULL REFERENCES '' @ left @ ''(id),'',
            ''  '' @ right @ ''_id uuid NOT NULL REFERENCES '' @ right @ ''(id),'',
            ''  PRIMARY KEY ('' @ left @ ''_id, '' @ right @ ''_id)'',
            '');''])"

definition renderForeignKey :: "string \<Rightarrow> field_def \<Rightarrow> string" where
  "renderForeignKey entityName field =
     (let table = tableName entityName; column = columnName field;
          target = tableName (case fd_entity field of None \<Rightarrow> [] | Some t \<Rightarrow> t)
      in ''ALTER TABLE '' @ table @ newline @ ''  ADD CONSTRAINT '' @ table @ ''_'' @ column @ ''_fkey FOREIGN KEY ('' @ column
         @ '') REFERENCES '' @ target @ ''(id);'')"

text \<open>The statements as data, in the order they are pushed, and as text.\<close>

datatype ddl = Create_entity "nat \<times> entity_def" | Add_foreign_key string "nat \<times> field_def" | Create_join entity_def relation_def

definition deferred_keys :: "field_id list \<Rightarrow> nat \<times> entity_def \<Rightarrow> ddl list" where
  "deferred_keys deferred e =
     map (Add_foreign_key (en_name (snd e)))
       (filter (\<lambda>jf. (fst e, fst jf) \<in> set deferred) (List.enumerate 0 (en_fields (snd e))))"

definition migration_statements :: "app_spec \<Rightarrow> ddl list" where
  "migration_statements spec =
     (case planTableOrder (sp_entities spec) of
        (order, deferred) \<Rightarrow>
          map Create_entity order @ concat (map (deferred_keys deferred) order)
          @ concat (map (\<lambda>entity. map (Create_join entity) (or_empty (en_relations entity))) (sp_entities spec)))"

fun render_ddl :: "field_id list \<Rightarrow> ddl \<Rightarrow> string" where
  "render_ddl deferred (Create_entity e) = renderEntityTable e deferred"
| "render_ddl deferred (Add_foreign_key entityName jf) = renderForeignKey entityName (snd jf)"
| "render_ddl deferred (Create_join entity relation) = renderJoinTable entity relation"

definition migration_header :: "app_spec \<Rightarrow> string" where
  "migration_header spec = join_with newline
     [''CREATE EXTENSION IF NOT EXISTS pgcrypto;'', [],
      ''-- Migration 0001_init for app \"'' @ am_slug (sp_app spec) @ ''\" v'' @ am_version (sp_app spec) @ '' (spec v'' @ sp_specVersion spec @ '').'',
      ''-- Generated by @openrupiv/compiler as a deterministic projection of app/spec.json.'',
      ''-- Forward-only: never edit a migration after it has been applied; add a new one.'', [], []]"

definition renderMigration :: "app_spec \<Rightarrow> compiler_error list + string" where
  "renderMigration spec =
     (let errors = collectSqlErrors spec in
      if errors \<noteq> [] then Inl errors
      else Inr (migration_header spec
        @ join_with (newline @ newline) (map (render_ddl (snd (planTableOrder (sp_entities spec)))) (migration_statements spec)) @ newline))"

end
