(* ===== verification/Compiler_Props.thy ===== *)
theory Compiler_Props
  imports Compiler_Sql
begin

text \<open>The migration's tables: each created once, and no statement names one before it exists.\<close>

subsection \<open>The plan\<close>

abbreviation enames :: "(nat \<times> entity_def) list \<Rightarrow> string list" where
  "enames es \<equiv> map (\<lambda>e. en_name (snd e)) es"

abbreviation efields :: "nat \<times> entity_def \<Rightarrow> (nat \<times> field_def) list" where
  "efields e \<equiv> List.enumerate 0 (en_fields (snd e))"

definition order_ok :: "field_id list \<Rightarrow> (nat \<times> entity_def) list \<Rightarrow> bool" where
  "order_ok deferred order \<longleftrightarrow> (\<forall>k < length order. isReady (enames (take k order)) deferred (order ! k))"

definition deferred_ok :: "(nat \<times> entity_def) list \<Rightarrow> field_id list \<Rightarrow> bool" where
  "deferred_ok all deferred \<longleftrightarrow>
     (\<forall>e \<in> set all. \<forall>jf \<in> set (efields e). (fst e, fst jf) \<in> set deferred \<longrightarrow> fd_type (snd jf) = FReference)"

lemma isReady_more: "isReady emitted d e \<Longrightarrow> isReady emitted (d @ d') e"
  by (auto simp: isReady_def field_ready_def list_all_iff split: option.splits)

lemma order_ok_more: "order_ok d order \<Longrightarrow> order_ok (d @ d') order"
  by (auto simp: order_ok_def isReady_more)

lemma order_ok_snoc: "order_ok d order \<Longrightarrow> isReady (enames order) d e \<Longrightarrow> order_ok d (order @ [e])"
  by (auto simp: order_ok_def nth_append less_Suc_eq)

lemma efields_distinct: "jf \<in> set (efields e) \<Longrightarrow> jf' \<in> set (efields e) \<Longrightarrow> fst jf = fst jf' \<Longrightarrow> jf = jf'"
  by (auto simp: in_set_enumerate_eq prod_eq_iff)

lemma efields_field: "jf \<in> set (efields e) \<Longrightarrow> snd jf \<in> set (en_fields (snd e))"
  by (metis imageI list.set_map map_snd_enumerate)

lemma deferred_ok_unmet:
  assumes "distinct (map fst all)" "b \<in> set all" "deferred_ok all d"
  shows "deferred_ok all (d @ unmet_fields emitted b)"
proof -
  have "fd_type (snd jf) = FReference"
    if e: "e \<in> set all" "jf \<in> set (efields e)" and d: "(fst e, fst jf) \<in> set (unmet_fields emitted b)" for e jf
  proof -
    have "e = b" using e(1) assms(1,2) d by (auto simp: unmet_fields_def intro: eq_key_imp_eq_value dest!: distinct_map[THEN iffD1, THEN conjunct2, THEN inj_onD])
    then obtain jf' where "jf' \<in> set (efields e)" "fst jf' = fst jf" "\<not> field_ready emitted [] (fst e) (snd e) jf'"
      using d by (auto simp: unmet_fields_def)
    then have "jf' = jf" "fd_type (snd jf') = FReference" using efields_distinct[OF _ e(2)] by (auto simp: field_ready_def)
    then show ?thesis by simp
  qed
  then show ?thesis using assms(3) unfolding deferred_ok_def by (metis Un_iff set_append)
qed

lemma remove_at_mset: "k < length xs \<Longrightarrow> mset xs = mset (remove_at k xs) + {#xs ! k#}"
  unfolding remove_at_def by (subst id_take_nth_drop[of k xs]) auto

lemma plan_loop_done [simp]: "plan_loop [] emitted deferred order = (order, deferred)"
  by (subst plan_loop.simps) simp

lemma plan_loop_defer:
  "remaining \<noteq> [] \<Longrightarrow> find_index (isReady emitted deferred) remaining = None \<Longrightarrow>
   plan_loop remaining emitted deferred order = plan_loop remaining emitted (deferred @ unmet_fields emitted (hd remaining)) order"
  by (subst plan_loop.simps) simp

lemma plan_loop_emit:
  "remaining \<noteq> [] \<Longrightarrow> find_index (isReady emitted deferred) remaining = Some k \<Longrightarrow>
   plan_loop remaining emitted deferred order =
     plan_loop (remove_at k remaining) (emitted @ [en_name (snd (remaining ! k))]) deferred (order @ [remaining ! k])"
  by (subst plan_loop.simps) simp

lemma plan_loop_result:
  "plan_loop remaining emitted deferred order = (order', deferred') \<Longrightarrow> distinct (map fst all) \<Longrightarrow>
   mset order + mset remaining = mset all \<Longrightarrow> emitted = enames order \<Longrightarrow> order_ok deferred order \<Longrightarrow> deferred_ok all deferred \<Longrightarrow>
   mset order' = mset all \<and> order_ok deferred' order' \<and> deferred_ok all deferred'"
proof (induction remaining emitted deferred order rule: plan_loop.induct)
  case (1 remaining emitted deferred order)
  show ?case
  proof (cases "remaining = []")
    case True
    then show ?thesis using 1 by simp
  next
    case rem: False
    show ?thesis
    proof (cases "find_index (isReady emitted deferred) remaining")
      case None
      have "hd remaining \<in> set all"
        using rem 1(5) by (metis hd_in_set mset_eq_setD set_mset_mset set_mset_union UnI2)
      from deferred_ok_unmet[OF 1(4) this 1(8)] show ?thesis
        using 1(1)[OF rem None] 1(3-7) order_ok_more plan_loop_defer[OF rem None] by simp
    next
      case (Some k)
      note k = find_index_Some[OF Some]
      have "isReady (enames order) deferred (remaining ! k)" using k 1(6) by simp
      from order_ok_snoc[OF 1(7) this] show ?thesis
        using 1(2)[OF rem Some] 1(3-6,8) plan_loop_emit[OF rem Some] k remove_at_mset[of k remaining] by simp
    qed
  qed
qed

subsection \<open>What passes the checks\<close>

definition entity_tables :: "entity_def \<Rightarrow> string list" where
  "entity_tables e = tableName (en_name e) # map (\<lambda>r. joinTableName (en_name e) (rd_name r)) (or_empty (en_relations e))"

definition fields_resolve :: "string list \<Rightarrow> entity_def \<Rightarrow> bool" where
  "fields_resolve names e \<longleftrightarrow> (\<forall>f \<in> set (en_fields e). fd_type f = FReference \<longrightarrow> (\<exists>t. fd_entity f = Some t \<and> t \<in> set names))"

definition relations_resolve :: "string list \<Rightarrow> entity_def \<Rightarrow> bool" where
  "relations_resolve names e \<longleftrightarrow> (\<forall>r \<in> set (or_empty (en_relations e)). rd_to r \<noteq> en_name e \<and> rd_to r \<in> set names)"

lemma claimTable_ok:
  "fst (claimTable t p s) = [] \<Longrightarrow>
   fst s = [] \<and> map fst (snd (claimTable t p s)) = map fst (snd s) @ [t] \<and>
   (distinct (map fst (snd s)) \<longrightarrow> distinct (map fst (snd (claimTable t p s))))"
  by (auto simp: claimTable_def keys_map_set map_of_eq_None_iff split: option.splits)

lemma check_relations_ok:
  "fst (check_relations names e i j rs s) = [] \<Longrightarrow>
   fst s = [] \<and> (\<forall>r \<in> set rs. rd_to r \<noteq> en_name e \<and> rd_to r \<in> set names) \<and>
   map fst (snd (check_relations names e i j rs s)) = map fst (snd s) @ map (\<lambda>r. joinTableName (en_name e) (rd_name r)) rs \<and>
   (distinct (map fst (snd s)) \<longrightarrow> distinct (map fst (snd (check_relations names e i j rs s))))"
proof (induction names e i j rs s rule: check_relations.induct)
  case (2 names e i j r rs s)
  let ?path = "''/entities/'' @ nat_str i @ ''/relations/'' @ nat_str j"
  let ?s = "if rd_to r = en_name e then (fst s @ [compiler_err ERR_UNSUPPORTED_SECTION ?path], snd s)
         else if rd_to r \<notin> set names then (fst s @ [compiler_err ERR_UNKNOWN_ENTITY (?path @ ''/to'')], snd s)
         else claimTable (joinTableName (en_name e) (rd_name r)) (?path @ ''/name'') s"
  have eq: "check_relations names e i j (r # rs) s = check_relations names e i (Suc j) rs ?s"
    by (simp only: check_relations.simps Let_def)
  note ih = 2(1)[OF refl 2(2)[unfolded eq]]
  then have "fst ?s = []" by blast
  then have r: "rd_to r \<noteq> en_name e" "rd_to r \<in> set names" and t: "?s = claimTable (joinTableName (en_name e) (rd_name r)) (?path @ ''/name'') s"
    by (auto split: if_splits)
  define s1 where "s1 = claimTable (joinTableName (en_name e) (rd_name r)) (?path @ ''/name'') s"
  note ih' = ih[unfolded t, folded s1_def]
  then have "fst (claimTable (joinTableName (en_name e) (rd_name r)) (?path @ ''/name'') s) = []" unfolding s1_def by blast
  note c = claimTable_ok[OF this, folded s1_def]
  have all: "\<forall>r \<in> set (r # rs). rd_to r \<noteq> en_name e \<and> rd_to r \<in> set names" using ih' r by simp
  have keys: "map fst (snd (check_relations names e i (Suc j) rs s1)) = map fst (snd s) @ map (\<lambda>r. joinTableName (en_name e) (rd_name r)) (r # rs)"
    using ih' c by simp
  have "distinct (map fst (snd s)) \<longrightarrow> distinct (map fst (snd (check_relations names e i (Suc j) rs s1)))"
    using ih' c by blast
  moreover have "check_relations names e i j (r # rs) s = check_relations names e i (Suc j) rs s1"
    unfolding eq s1_def by (simp only: t)
  ultimately show ?case using all keys c by metis
qed simp

lemma check_columns_ok:
  "check_columns names i j fs cols = [] \<Longrightarrow>
   set (map columnName fs) \<inter> set RESERVED_COLUMNS = {} \<and> (distinct cols \<longrightarrow> distinct (cols @ map columnName fs)) \<and>
   (\<forall>f \<in> set fs. fd_type f = FReference \<longrightarrow> (\<exists>t. fd_entity f = Some t \<and> t \<in> set names))"
proof (induction names i j fs cols rule: check_columns.induct)
  case (2 names i j f fs cols)
  have ref: "fd_type f = FReference \<longrightarrow> (\<exists>t. fd_entity f = Some t \<and> t \<in> set names)"
    using 2(2) by (auto simp: Let_def reference_errors_def split: option.splits if_splits)
  have no: "columnName f \<notin> set RESERVED_COLUMNS" "columnName f \<notin> set cols"
    using 2(2) by (auto simp: Let_def split: if_splits)
  then have "check_columns names i (Suc j) fs (cols @ [columnName f]) = []" using 2(2) by (simp add: Let_def)
  then show ?case using 2(1)[OF refl refl refl] no ref by auto
qed simp

lemma check_entities_ok:
  "fst (check_entities names i es s) = [] \<Longrightarrow>
   fst s = [] \<and> (\<forall>e \<in> set es. fields_resolve names e \<and> relations_resolve names e \<and>
     set (map columnName (en_fields e)) \<inter> set RESERVED_COLUMNS = {} \<and> distinct (map columnName (en_fields e))) \<and>
   map fst (snd (check_entities names i es s)) = map fst (snd s) @ concat (map entity_tables es) \<and>
   (distinct (map fst (snd s)) \<longrightarrow> distinct (map fst (snd (check_entities names i es s))))"
proof (induction names i es s rule: check_entities.induct)
  case (2 names i e es s)
  define s1 where "s1 = claimTable (tableName (en_name e)) (''/entities/'' @ nat_str i @ ''/name'') s"
  define s2 where "s2 = (fst s1 @ check_columns names i 0 (en_fields e) [], snd s1)"
  define s3 where "s3 = check_relations names e i 0 (or_empty (en_relations e)) s2"
  have eq: "check_entities names i (e # es) s = check_entities names (Suc i) es s3"
    by (simp add: s1_def s2_def s3_def Let_def)
  have ih: "fst s3 = [] \<and> (\<forall>e \<in> set es. fields_resolve names e \<and> relations_resolve names e \<and>
     set (map columnName (en_fields e)) \<inter> set RESERVED_COLUMNS = {} \<and> distinct (map columnName (en_fields e))) \<and>
   map fst (snd (check_entities names (Suc i) es s3)) = map fst (snd s3) @ concat (map entity_tables es) \<and>
   (distinct (map fst (snd s3)) \<longrightarrow> distinct (map fst (snd (check_entities names (Suc i) es s3))))"
    by (rule 2(1)[OF s1_def s2_def s3_def 2(2)[unfolded eq]])
  have "fst (check_relations names e i 0 (or_empty (en_relations e)) s2) = []" using ih by (simp add: s3_def)
  note r = check_relations_ok[OF this, folded s3_def]
  then have "fst s1 = []" and cols: "check_columns names i 0 (en_fields e) [] = []" by (auto simp: s2_def)
  then have "fst (claimTable (tableName (en_name e)) (''/entities/'' @ nat_str i @ ''/name'') s) = []" by (simp add: s1_def)
  note t = claimTable_ok[OF this, folded s1_def] and c = check_columns_ok[OF cols]
  have snd2: "snd s2 = snd s1" by (simp add: s2_def)
  have e: "fields_resolve names e \<and> relations_resolve names e \<and>
      set (map columnName (en_fields e)) \<inter> set RESERVED_COLUMNS = {} \<and> distinct (map columnName (en_fields e))"
    using r c by (simp add: fields_resolve_def relations_resolve_def)
  have k: "map fst (snd s3) = map fst (snd s) @ entity_tables e"
    using r t by (simp add: snd2 entity_tables_def)
  show ?case unfolding eq
  proof (intro conjI)
    show "fst s = []" using t by blast
    show "\<forall>e \<in> set (e # es). fields_resolve names e \<and> relations_resolve names e \<and>
     set (map columnName (en_fields e)) \<inter> set RESERVED_COLUMNS = {} \<and> distinct (map columnName (en_fields e))"
      using ih e by simp
    show "map fst (snd (check_entities names (Suc i) es s3)) = map fst (snd s) @ concat (map entity_tables (e # es))"
      using ih k by simp
    show "distinct (map fst (snd s)) \<longrightarrow> distinct (map fst (snd (check_entities names (Suc i) es s3)))"
      using ih r t unfolding snd2 by blast
  qed
qed simp

lemma collectSqlErrors_none:
  assumes "collectSqlErrors spec = []"
  defines "names \<equiv> map en_name (sp_entities spec)"
  shows "(\<forall>e \<in> set (sp_entities spec). fields_resolve names e \<and> relations_resolve names e \<and>
      set (map columnName (en_fields e)) \<inter> set RESERVED_COLUMNS = {} \<and> distinct (map columnName (en_fields e)))"
    and "distinct (concat (map entity_tables (sp_entities spec)))"
proof -
  have none: "fst (check_entities names 0 (sp_entities spec) ([], [])) = []"
    using assms by (simp add: collectSqlErrors_def)
  note ok = check_entities_ok[OF none]
  then show "\<forall>e \<in> set (sp_entities spec). fields_resolve names e \<and> relations_resolve names e \<and>
      set (map columnName (en_fields e)) \<inter> set RESERVED_COLUMNS = {} \<and> distinct (map columnName (en_fields e))" by blast
  have eq: "map fst (snd (check_entities names 0 (sp_entities spec) ([], []))) = concat (map entity_tables (sp_entities spec))"
    using ok by simp
  have "distinct (map fst (snd ([] :: compiler_error list, [] :: (string \<times> string) list)))" by simp
  then have "distinct (map fst (snd (check_entities names 0 (sp_entities spec) ([], []))))" using ok by blast
  then show "distinct (concat (map entity_tables (sp_entities spec)))" unfolding eq .
qed

subsection \<open>The statements\<close>

fun creates :: "ddl \<Rightarrow> string list" where
  "creates (Create_entity e) = [tableName (en_name (snd e))]"
| "creates (Add_foreign_key _ _) = []"
| "creates (Create_join e r) = [joinTableName (en_name e) (rd_name r)]"

definition target_table :: "field_def \<Rightarrow> string" where
  "target_table f = tableName (case fd_entity f of None \<Rightarrow> [] | Some t \<Rightarrow> t)"

fun refers :: "field_id list \<Rightarrow> ddl \<Rightarrow> string list" where
  "refers deferred (Create_entity e) =
     map (\<lambda>jf. target_table (snd jf))
       (filter (\<lambda>jf. fd_type (snd jf) = FReference \<and> (fst e, fst jf) \<notin> set deferred) (efields e))"
| "refers deferred (Add_foreign_key name jf) = [tableName name, target_table (snd jf)]"
| "refers deferred (Create_join e r) = [tableName (en_name e), tableName (rd_to r)]"

text \<open>Run in order, each statement finds the tables it names, its own included.\<close>

fun applies :: "field_id list \<Rightarrow> string list \<Rightarrow> ddl list \<Rightarrow> bool" where
  "applies deferred tables [] = True"
| "applies deferred tables (s # ss) =
     (set (creates s) \<inter> set tables = {} \<and> set (refers deferred s) \<subseteq> set (tables @ creates s) \<and>
      applies deferred (tables @ creates s) ss)"

lemma applies_append:
  "applies d ts (xs @ ys) \<longleftrightarrow> applies d ts xs \<and> applies d (ts @ concat (map creates xs)) ys"
  by (induction xs arbitrary: ts) auto

lemma applies_all:
  "(\<forall>s \<in> set ss. set (refers d s) \<subseteq> set ts) \<Longrightarrow> distinct (ts @ concat (map creates ss)) \<Longrightarrow> applies d ts ss"
proof (induction ss arbitrary: ts)
  case (Cons s ss)
  have "applies d (ts @ creates s) ss" by (rule Cons.IH) (use Cons.prems in auto)
  then show ?case using Cons.prems by auto
qed simp

lemma order_ok_butlast: "order_ok d (xs @ [x]) \<Longrightarrow> order_ok d xs \<and> isReady (enames xs) d x"
  by (auto simp: order_ok_def nth_append split: if_splits dest: spec[of _ "length xs"])

lemma ready_refers:
  assumes "isReady emitted d e" "fields_resolve names (snd e)"
  shows "set (refers d (Create_entity e)) \<subseteq> insert (tableName (en_name (snd e))) (tableName ` set emitted)"
proof
  fix t assume "t \<in> set (refers d (Create_entity e))"
  then obtain jf where jf: "jf \<in> set (efields e)" "fd_type (snd jf) = FReference" "(fst e, fst jf) \<notin> set d" "t = target_table (snd jf)"
    by auto
  from efields_field[OF jf(1)] obtain g where "fd_entity (snd jf) = Some g" using assms(2) jf(2) by (auto simp: fields_resolve_def)
  moreover have "field_ready emitted d (fst e) (snd e) jf" using assms(1) jf(1) by (simp add: isReady_def list_all_iff)
  ultimately show "t \<in> insert (tableName (en_name (snd e))) (tableName ` set emitted)"
    using jf by (auto simp: field_ready_def target_table_def)
qed

lemma applies_entities:
  "order_ok d order \<Longrightarrow> (\<forall>e \<in> set order. fields_resolve names (snd e)) \<Longrightarrow> distinct (map tableName (enames order)) \<Longrightarrow>
   applies d [] (map Create_entity order)"
proof (induction order rule: rev_induct)
  case (snoc e order)
  have "set (refers d (Create_entity e)) \<subseteq> insert (tableName (en_name (snd e))) (tableName ` set (enames order))"
    using order_ok_butlast[OF snoc.prems(1)] snoc.prems(2) by (intro ready_refers[where names = names]) auto
  then show ?case
    using snoc order_ok_butlast[OF snoc.prems(1)] by (auto simp: applies_append o_def)
qed simp

lemma creates_entities: "concat (map creates (map Create_entity order)) = map tableName (enames order)"
  by (induction order) auto

lemma creates_joins:
  "concat (map creates (concat (map (\<lambda>e. map (Create_join e) (or_empty (en_relations e))) es))) =
   concat (map (\<lambda>e. tl (entity_tables e)) es)"
proof -
  have "concat (map creates (map (Create_join e) rs)) = map (\<lambda>r. joinTableName (en_name e) (rd_name r)) rs" for e rs
    by (induction rs) auto
  then show ?thesis by (induction es) (auto simp: entity_tables_def)
qed

lemma mset_entity_tables:
  "mset (concat (map entity_tables es)) = mset (map (\<lambda>e. tableName (en_name e)) es) + mset (concat (map (\<lambda>e. tl (entity_tables e)) es))"
  by (induction es) (auto simp: entity_tables_def)

lemma plan_result:
  assumes "planTableOrder es = (order, deferred)"
  shows "mset order = mset (List.enumerate 0 es)" "order_ok deferred order" "deferred_ok (List.enumerate 0 es) deferred"
    "mset (map snd order) = mset es"
proof -
  have "mset order = mset (List.enumerate 0 es) \<and> order_ok deferred order \<and> deferred_ok (List.enumerate 0 es) deferred"
    by (rule plan_loop_result[OF assms[unfolded planTableOrder_def]]) (auto simp: order_ok_def deferred_ok_def)
  then show "mset order = mset (List.enumerate 0 es)" "order_ok deferred order" "deferred_ok (List.enumerate 0 es) deferred"
    by blast+
  then show "mset (map snd order) = mset es" by (metis map_snd_enumerate mset_map)
qed

text \<open>The foreign keys that were put off, and the join tables, name only tables that are there.\<close>

lemma deferred_keys_refer:
  assumes plan: "planTableOrder es = (order, deferred)"
    and checked: "\<forall>e \<in> set es. fields_resolve (map en_name es) e"
    and s: "s \<in> set (deferred_keys deferred e)" and e: "e \<in> set order"
  shows "set (refers deferred s) \<subseteq> (\<lambda>e. tableName (en_name e)) ` set es"
proof -
  note p = plan_result[OF plan]
  have es: "snd e \<in> set es" using e p(4) by (metis image_eqI list.set_map mset_eq_setD)
  obtain jf where jf: "s = Add_foreign_key (en_name (snd e)) jf" "jf \<in> set (efields e)" "(fst e, fst jf) \<in> set deferred"
    using s by (auto simp: deferred_keys_def)
  then have "fd_type (snd jf) = FReference" using p(3) e mset_eq_setD[OF p(1)] by (auto simp: deferred_ok_def)
  moreover have "snd jf \<in> set (en_fields (snd e))" by (rule efields_field[OF jf(2)])
  ultimately obtain t where "fd_entity (snd jf) = Some t" "t \<in> set (map en_name es)"
    using bspec[OF checked es] unfolding fields_resolve_def by blast
  then show ?thesis using es jf(1) by (auto simp: target_table_def)
qed

lemma joins_refer:
  assumes "\<forall>e \<in> set es. relations_resolve (map en_name es) e" "e \<in> set es" "r \<in> set (or_empty (en_relations e))"
  shows "set (refers deferred (Create_join e r)) \<subseteq> (\<lambda>e. tableName (en_name e)) ` set es"
  using assms by (fastforce simp: relations_resolve_def)


subsection \<open>Witness and limits\<close>

definition ref_field :: "string \<Rightarrow> string \<Rightarrow> field_def" where
  "ref_field name target = \<lparr>fd_name = name, fd_type = FReference, fd_required = False, fd_unique = False, fd_values = None,
     fd_entity = Some target, fd_default = None\<rparr>"

definition plain_entity :: "string \<Rightarrow> field_def list \<Rightarrow> relation_def list \<Rightarrow> entity_def" where
  "plain_entity name fs rs = \<lparr>en_name = name, en_description = None, en_fields = fs, en_relations = Some rs\<rparr>"

definition spec_of :: "entity_def list \<Rightarrow> app_spec" where
  "spec_of es = \<lparr>sp_specVersion = ''0.1'',
     sp_app = \<lparr>am_name = ''App'', am_slug = ''app'', am_description = None, am_version = ''1.0.0'', am_roles = None\<rparr>,
     sp_entities = es, sp_pages = None, sp_workflows = None, sp_policies = None, sp_agents = None, sp_evidence = None\<rparr>"

text \<open>Vendor and Contract refer to each other, Contract to itself; vendors have tags.\<close>

definition cyclic_spec :: app_spec where
  "cyclic_spec = spec_of
     [plain_entity ''Vendor'' [ref_field ''mainContract'' ''Contract''] [\<lparr>rd_name = ''tags'', rd_to = ''Tag''\<rparr>],
      plain_entity ''Contract'' [ref_field ''vendor'' ''Vendor'', ref_field ''parent'' ''Contract''] [],
      plain_entity ''Tag'' [] []]"

lemma cyclic_plan:
  "map fst (fst (planTableOrder (sp_entities cyclic_spec))) = [2, 0, 1] \<and> snd (planTableOrder (sp_entities cyclic_spec)) = [(0, 0)] \<and>
   collectSqlErrors cyclic_spec = []"
  by code_simp


text \<open>
  Names are written into the statements without quotes and without a look at PostgreSQL's reserved
  words or at the runtime's own tables: an entity \<open>User\<close> gives \<open>CREATE TABLE user (\<close>, a syntax
  error, and an entity \<open>AuditLog\<close> a table the runtime has created already.
\<close>

lemma reserved_words_are_emitted:
  "collectSqlErrors (spec_of [plain_entity ''User'' [] []]) = [] \<and>
   prefix ''CREATE TABLE user ('' (renderEntityTable (0, plain_entity ''User'' [] []) []) \<and>
   collectSqlErrors (spec_of [plain_entity ''AuditLog'' [] []]) = [] \<and> tableName ''AuditLog'' = ''audit_log''"
  by code_simp

end
