(* ===== verification/App_Readme.thy ===== *)
theory App_Readme
  imports Compiler_Sql
begin

text \<open>
  The README of a generated app (\<open>compiler/src/app-readme.ts\<close>).  Characters beyond one byte are arguments; an optional text is
  rendered as no line or as its lines, the way the code pushes them.
\<close>

record wide_chars =
  ch_dash :: string
  ch_arrow :: string
  ch_geq :: string

definition middle_dot :: char where
  "middle_dot = char_of (183 :: nat)"

definition cell :: "string \<Rightarrow> string" where
  "cell s = replace_char (CHR ''|'') [char_of (92 :: nat), CHR ''|''] s"

definition ticked :: "string \<Rightarrow> string" where
  "ticked s = ''`'' @ s @ ''`''"

definition codeList :: "string list \<Rightarrow> string" where
  "codeList items = join_with '', '' (map ticked items)"

text \<open>The spec's literals have no dates in them, so the first argument of \<open>stringify_val\<close> is never used.\<close>

definition formatValue :: "json option \<Rightarrow> string" where
  "formatValue v = stringify_val (\<lambda>_. []) (case v of None \<Rightarrow> JNull | Some j \<Rightarrow> j)"

definition formatPredicate :: "field_predicate \<Rightarrow> string" where
  "formatPredicate p =
     (case fp_op p of
        Op_set \<Rightarrow> fp_field p @ '' is set''
      | Op_notSet \<Rightarrow> fp_field p @ '' is not set''
      | Op_eq \<Rightarrow> fp_field p @ '' = '' @ formatValue (fp_value p)
      | Op_ne \<Rightarrow> fp_field p @ '' != '' @ formatValue (fp_value p)
      | Op_gt \<Rightarrow> fp_field p @ '' > '' @ formatValue (fp_value p)
      | Op_gte \<Rightarrow> fp_field p @ '' >= '' @ formatValue (fp_value p)
      | Op_lt \<Rightarrow> fp_field p @ '' < '' @ formatValue (fp_value p)
      | Op_lte \<Rightarrow> fp_field p @ '' <= '' @ formatValue (fp_value p))"

fun type_name :: "field_type \<Rightarrow> string" where
  "type_name FString = ''string''"
| "type_name FText = ''text''"
| "type_name FNumber = ''number''"
| "type_name FBoolean = ''boolean''"
| "type_name FDate = ''date''"
| "type_name FDatetime = ''datetime''"
| "type_name FEnum = ''enum''"
| "type_name FReference = ''reference''"

definition fieldTypeLabel :: "wide_chars \<Rightarrow> field_def \<Rightarrow> string" where
  "fieldTypeLabel u field =
     (if fd_type field = FEnum then ''enum('' @ join_with '', '' (or_empty (fd_values field)) @ '')''
      else if fd_type field = FReference then ''reference '' @ ch_arrow u @ '' '' @ (case fd_entity field of None \<Rightarrow> ''?'' | Some e \<Rightarrow> e)
      else type_name (fd_type field))"

fun sqlTypeLabel :: "field_type \<Rightarrow> string" where
  "sqlTypeLabel FString = ''text''"
| "sqlTypeLabel FText = ''text''"
| "sqlTypeLabel FEnum = ''text''"
| "sqlTypeLabel FNumber = ''double precision''"
| "sqlTypeLabel FBoolean = ''boolean''"
| "sqlTypeLabel FDate = ''date''"
| "sqlTypeLabel FDatetime = ''timestamptz''"
| "sqlTypeLabel FReference = ''uuid''"

subsection \<open>Entities\<close>

definition field_row :: "wide_chars \<Rightarrow> field_def \<Rightarrow> string" where
  "field_row u field =
     (let constraints = (if fd_required field then [''required''] else []) @ (if fd_unique field then [''unique''] else []) in
      ''| '' @ ticked (fd_name field) @ '' | '' @ cell (fieldTypeLabel u field) @ '' | '' @ ticked (columnName field) @ '' | ''
      @ ticked (sqlTypeLabel (fd_type field)) @ '' | '' @ (if constraints = [] then ch_dash u else join_with '', '' constraints) @ '' | ''
      @ (case fd_default field of None \<Rightarrow> ch_dash u | Some v \<Rightarrow> ticked (stringify_val (\<lambda>_. []) v)) @ '' |'')"

definition relation_row :: "entity_def \<Rightarrow> relation_def \<Rightarrow> string" where
  "relation_row entity relation =
     ''| '' @ ticked (rd_name relation) @ '' | manyToMany | '' @ rd_to relation @ '' | '' @ ticked (joinTableName (en_name entity) (rd_name relation)) @ '' |''"

definition renderEntity :: "wide_chars \<Rightarrow> entity_def \<Rightarrow> string list" where
  "renderEntity u entity =
     [''### '' @ en_name entity, []]
     @ (case en_description entity of None \<Rightarrow> [] | Some d \<Rightarrow> [d, []])
     @ [''SQL table: '' @ ticked (tableName (en_name entity)) @ '' '' @ [middle_dot] @ '' API base path: '' @ ticked (''/api/'' @ kebabCase (en_name entity)), [],
        ''| Field | Type | Column | SQL type | Constraints | Default |'', ''|---|---|---|---|---|---|'']
     @ map (field_row u) (en_fields entity) @ [[]]
     @ (let relations = or_empty (en_relations entity) in
        if relations = [] then []
        else [''Relations:'', [], ''| Relation | Kind | Target | Join table |'', ''|---|---|---|---|''] @ map (relation_row entity) relations @ [[]])"

subsection \<open>Workflows\<close>

text \<open>\<open>transition.guard?.require\<close>\<close>

definition guard_predicates :: "transition_def \<Rightarrow> field_predicate list option" where
  "guard_predicates t = (case tr_guard t of None \<Rightarrow> None | Some g \<Rightarrow> tg_require g)"

definition transitionLabel :: "transition_def \<Rightarrow> string" where
  "transitionLabel t =
     (let notes = (case guard_roles t of None \<Rightarrow> [] | Some roles \<Rightarrow> [''roles: '' @ join_with '', '' roles])
            @ (case guard_predicates t of None \<Rightarrow> [] | Some ps \<Rightarrow> [join_with '' and '' (map formatPredicate ps)])
            @ (case tr_approval t of None \<Rightarrow> [] | Some a \<Rightarrow> [nat_str (ap_count a) @ '' distinct approvers''])
      in if notes = [] then [] else ''   ['' @ join_with ''] ['' notes @ '']'')"

definition approvals_text :: "wide_chars \<Rightarrow> transition_def \<Rightarrow> string" where
  "approvals_text u t =
     (case tr_approval t of
        None \<Rightarrow> ch_dash u
      | Some a \<Rightarrow>
          nat_str (ap_count a) @ '' distinct approvers''
          @ (case (case ap_roles a of None \<Rightarrow> guard_roles t | Some rs \<Rightarrow> Some rs) of None \<Rightarrow> [] | Some rs \<Rightarrow> '' ('' @ codeList rs @ '')''))"

definition transition_table_row :: "wide_chars \<Rightarrow> transition_def \<Rightarrow> string" where
  "transition_table_row u t =
     ''| '' @ ticked (tr_name t) @ '' | '' @ ticked (tr_from t) @ '' | '' @ ticked (tr_to t) @ '' | ''
     @ (case guard_roles t of None \<Rightarrow> ch_dash u | Some rs \<Rightarrow> codeList rs) @ '' | ''
     @ (case guard_predicates t of None \<Rightarrow> ch_dash u | Some ps \<Rightarrow> cell (join_with '' and '' (map formatPredicate ps))) @ '' | ''
     @ cell (approvals_text u t) @ '' |''"

definition renderWorkflow :: "wide_chars \<Rightarrow> workflow_def \<Rightarrow> string list" where
  "renderWorkflow u w =
     [''### '' @ ticked (wf_name w) @ '' '' @ ch_dash u @ '' '' @ wf_entity w @ ''.'' @ wf_stateField w, [],
      ''State machine on '' @ ticked (wf_entity w @ ''.'' @ wf_stateField w) @ ''; initial state '' @ ticked (wf_initial w) @ ''.'',
      ''The '' @ ticked (wf_stateField w) @ '' field is read-only through the create/update API:'',
      ''the server sets the initial value on create, and the transitions below are'', ''the only writer.'', [],
      ''```'', ''[*] --> '' @ wf_initial w]
     @ map (\<lambda>t. tr_from t @ '' --'' @ tr_name t @ ''--> '' @ tr_to t @ transitionLabel t) (wf_transitions w)
     @ [''```'', [], ''| Transition | From | To | Guard roles | Guard predicates | Approvals required |'', ''|---|---|---|---|---|---|'']
     @ map (transition_table_row u) (wf_transitions w) @ [[]]"

subsection \<open>Routes\<close>

definition route_row :: "string \<Rightarrow> string \<Rightarrow> string \<Rightarrow> string" where
  "route_row http_method path purpose = ''| '' @ http_method @ '' | '' @ ticked path @ '' | '' @ purpose @ '' |''"

definition fixed_route_rows :: "string list" where
  "fixed_route_rows =
     [route_row ''GET'' ''/healthz'' ''Liveness probe (no auth)'',
      route_row ''GET'' ''/auth/login'' ''Start OIDC login (Authorization Code + PKCE)'',
      route_row ''GET'' ''/auth/callback'' ''OIDC redirect target; establishes the session'',
      route_row ''POST'' ''/auth/logout'' ''Destroy the session'', route_row ''GET'' ''/'' ''Index of pages'']"

definition entity_route_rows :: "entity_def \<Rightarrow> string list" where
  "entity_route_rows entity =
     (let base = ''/api/'' @ kebabCase (en_name entity) in
      [route_row ''GET'' base (''List '' @ en_name entity @ '' records''), route_row ''POST'' base (''Create a '' @ en_name entity),
       route_row ''GET'' (base @ ''/:id'') (''Fetch one '' @ en_name entity), route_row ''PUT'' (base @ ''/:id'') (''Update a '' @ en_name entity)])"

definition transition_purpose :: "wide_chars \<Rightarrow> transition_def \<Rightarrow> string" where
  "transition_purpose u t = ''Fire '' @ ticked (tr_name t) @ '' ('' @ tr_from t @ '' '' @ ch_arrow u @ '' '' @ tr_to t @ '')''"

definition workflow_route_rows :: "wide_chars \<Rightarrow> workflow_def \<Rightarrow> string list" where
  "workflow_route_rows u w =
     (let base = ''/api/'' @ kebabCase (wf_entity w) in
      map (\<lambda>t. route_row ''POST'' (base @ ''/:id/transitions/'' @ tr_name t) (transition_purpose u t)) (wf_transitions w))"

fun page_type_name :: "page_type \<Rightarrow> string" where
  "page_type_name List_page = ''list''"
| "page_type_name Detail_page = ''detail''"
| "page_type_name Form_page = ''form''"

definition page_route_row :: "page_def \<Rightarrow> string" where
  "page_route_row p =
     route_row ''GET'' (''/p/'' @ pg_name p) (''Page '' @ ticked (pg_name p) @ '' ('' @ page_type_name (pg_type p) @ '' of '' @ pg_entity p @ '')'')"

definition renderRoutes :: "wide_chars \<Rightarrow> app_spec \<Rightarrow> string list" where
  "renderRoutes u spec =
     [''Served by `@openrupiv/runtime`. Every route requires an authenticated OIDC'',
      ''session except `/healthz`, `/auth/login`, and `/auth/callback`. There is no'',
      ''DELETE in v0. Workflow state fields cannot be written through create/update.'', [],
      ''| Method | Path | Purpose |'', ''|---|---|---|'']
     @ fixed_route_rows
     @ concat (map entity_route_rows (sp_entities spec))
     @ concat (map (workflow_route_rows u) (or_empty (sp_workflows spec)))
     @ map page_route_row (or_empty (sp_pages spec)) @ [[]]
     @ (if or_empty (sp_workflows spec) = [] then []
        else [''Transition endpoints respond `{ \"status\": \"pending\", \"approvals\": k, \"required\": n }`'',
          ''while approvals are outstanding and `{ \"status\": \"transitioned\", \"state\": \"<to>\" }` on'',
          ''completion. Failures: 403 `ERR_FORBIDDEN_ROLE`; 409 `ERR_BAD_STATE`,'',
          ''`ERR_GUARD_FAILED`, or `ERR_DUPLICATE_APPROVER` (the same user may not'',
          ''approve twice '' @ ch_dash u @ '' approvals must come from distinct authenticated users).'', []])"

subsection \<open>Pages and the whole text\<close>

definition page_row :: "page_def \<Rightarrow> string" where
  "page_row p =
     ''| '' @ ticked (pg_name p) @ '' | '' @ ticked (''/p/'' @ pg_name p) @ '' | '' @ page_type_name (pg_type p) @ '' | '' @ pg_entity p @ '' | ''
     @ cell (case pg_title p of None \<Rightarrow> pg_name p | Some t \<Rightarrow> t) @ '' | ''
     @ (case pg_fields p of None \<Rightarrow> ''all fields'' | Some fs \<Rightarrow> codeList fs) @ '' |''"

definition renderPages :: "app_spec \<Rightarrow> string list" where
  "renderPages spec =
     (if or_empty (sp_pages spec) = [] then [''This app declares no pages.'', []]
      else [''| Page | Route | Type | Entity | Title | Fields |'', ''|---|---|---|---|---|---|''] @ map page_row (or_empty (sp_pages spec)) @ [[]])"

definition readme_head :: "wide_chars \<Rightarrow> app_spec \<Rightarrow> string list" where
  "readme_head u spec =
     [''# '' @ am_name (sp_app spec), []]
     @ (case am_description (sp_app spec) of None \<Rightarrow> [] | Some d \<Rightarrow> [d, []])
     @ [''Generated by `@openrupiv/compiler` from [`spec.json`](./spec.json). Do not'',
        ''edit these files by hand '' @ ch_dash u @ '' edit the spec and recompile; the same spec always'',
        ''produces byte-identical output (ADR-0001).'', [],
        ''| | |'', ''|---|---|'', ''| Slug | '' @ ticked (am_slug (sp_app spec)) @ '' |'',
        ''| App version | '' @ ticked (am_version (sp_app spec)) @ '' |'', ''| Spec version | '' @ ticked (sp_specVersion spec) @ '' |'',
        ''| Roles | '' @ (case am_roles (sp_app spec) of None \<Rightarrow> ''none declared'' | Some rs \<Rightarrow> codeList rs) @ '' |'', [],
        ''## Contents'', [], ''| File | Purpose |'', ''|---|---|'',
        ''| `spec.json` | Canonical app spec '' @ ch_dash u @ '' the contract |'',
        ''| `migrations/0001_init.sql` | Database schema (versioned, forward-only) |'',
        ''| `package.json`, `test/` | Standalone invariant tests '' @ ch_dash u @ '' `node --test`, zero dependencies |'',
        ''| `server.mjs` | Optional entry: serve this directory with `@openrupiv/runtime` |'', []]"

definition readme_running :: "wide_chars \<Rightarrow> string list" where
  "readme_running u =
     [''## Running this app'', [],
      ''- **Tests** (zero installs, Node '' @ ch_geq u @ '' 20): `node --test`'',
      ''- **Serve with the runtime library:** install `@openrupiv/runtime`, then'',
      ''  `node server.mjs`. Configuration comes from the environment:'',
      ''  `DATABASE_URL`, `OIDC_ISSUER`, `OIDC_CLIENT_ID`, `OIDC_CLIENT_SECRET`,'',
      ''  `SESSION_SECRET`, `BASE_URL`. Authentication is OIDC only '' @ ch_dash u @ '' there is no'',
      ''  local-password mode (ADR-0003).'',
      ''- **Or via the workspace Compose stack:** `docker compose up` from the'',
      ''  workspace root (bundles Postgres and a dev-only Dex IdP, ADR-0002).'', []]"

definition renderAppReadme :: "wide_chars \<Rightarrow> app_spec \<Rightarrow> string" where
  "renderAppReadme u spec = join_with newline
     (readme_head u spec
      @ [''## Entities'', []] @ concat (map (renderEntity u) (sp_entities spec))
      @ [''Every entity table also carries `id uuid` (primary key), `created_at`, and'',
         ''`updated_at` '' @ ch_dash u @ '' set by the database, never by clients.'', []]
      @ [''## Workflows'', []]
      @ (if or_empty (sp_workflows spec) = [] then [''This app declares no workflows.'', []]
         else concat (map (renderWorkflow u) (or_empty (sp_workflows spec))))
      @ [''## Pages'', []] @ renderPages spec
      @ [''## HTTP routes'', []] @ renderRoutes u spec
      @ readme_running u)"

text \<open>A default value is written into its row as it is, unlike the other texts, so a bar in it starts a new cell.\<close>

definition bars :: "string \<Rightarrow> nat" where
  "bars row = length (filter (\<lambda>ab. snd ab = CHR ''|'' \<and> fst ab \<noteq> char_of (92 :: nat)) (zip (CHR '' '' # row) row))"

lemma default_with_a_bar_breaks_the_row:
  "bars (field_row \<lparr>ch_dash = ''-'', ch_arrow = ''>'', ch_geq = ''>''\<rparr>
     \<lparr>fd_name = ''kind'', fd_type = FString, fd_required = False, fd_unique = False, fd_values = None, fd_entity = None, fd_default = d\<rparr>) =
   (if d = Some (JStr ''a|b'') then 8 else 7)" if "d = None \<or> d = Some (JStr ''a|b'')"
  using that by (elim disjE) (simp only:, code_simp)+

end
