(* ===== verification/App_Test.thy ===== *)
theory App_Test
  imports App_Readme
begin

text \<open>
  The two fixed files of a generated app: the test (\<open>compiler/src/app-test.ts\<close>) and the server entry (\<open>SERVER_ENTRY\<close>).  Both are given
  twice: the text that is emitted, and what the emitted test checks when it runs, over the parsed
  \<open>spec.json\<close> and the migration file.  The checks are given for a spec that has the types of the schema.
\<close>

subsection \<open>The emitted texts\<close>

definition renderSpecTest :: "app_spec \<Rightarrow> string" where
  "renderSpecTest spec = join_with newline
     [''// Invariant tests for the \"'' @ am_slug (sp_app spec) @ ''\" app directory.'',
      ''// Generated by @openrupiv/compiler. Runs standalone with plain Node >= 20:'',
      ''//'',
      ''//   node --test'',
      ''//'',
      ''// Zero dependencies by design: node:test and node:assert only. The app'',
      ''// directory is declarative data (ADR-0004); these tests check its internal'',
      ''// consistency without any platform code.'',
      ''import { test } from \"node:test\";'',
      ''import assert from \"node:assert/strict\";'',
      ''import { readFileSync } from \"node:fs\";'',
      [],
      ''const rawSpec = readFileSync(new URL(\"../spec.json\", import.meta.url), \"utf8\");'',
      ''const migration = readFileSync('',
      ''  new URL(\"../migrations/0001_init.sql\", import.meta.url),'',
      ''  \"utf8\",'',
      '');'',
      [],
      ''let spec = null;'',
      ''let specParseError = null;'',
      ''try {'',
      ''  spec = JSON.parse(rawSpec);'',
      ''} catch (error) {'',
      ''  specParseError = error;'',
      ''}'',
      [],
      ''function requireSpec() {'',
      ''  assert.equal('',
      ''    specParseError,'',
      ''    null,'',
      ''    \"spec.json must parse as JSON: \" + specParseError,'',
      ''  );'',
      ''  assert.ok('',
      ''    spec !== null && typeof spec === \"object\" && !Array.isArray(spec),'',
      ''    \"spec.json must be a JSON object\",'',
      ''  );'',
      ''  return spec;'',
      ''}'',
      [],
      ''// Must mirror the compiler's SQL naming convention exactly:'',
      ''// PascalCase/camelCase -> snake_case.'',
      ''function snakeCase(name) {'',
      ''  return name'',
      ''    .replace(/([A-Z]+)([A-Z][a-z])/g, \"$1_$2\")'',
      ''    .replace(/([a-z0-9])([A-Z])/g, \"$1_$2\")'',
      ''    .toLowerCase();'',
      ''}'',
      [],
      ''test(\"spec.json parses as a JSON object\", () => {'',
      ''  requireSpec();'',
      ''});'',
      [],
      ''test(\"specVersion is a supported version\", () => {'',
      ''  const version = requireSpec().specVersion;'',
      ''  assert.ok('',
      ''    [\"0.1\", \"0.2\"].includes(version),'',
      ''    \"unsupported specVersion: \" + version,'',
      ''  );'',
      ''});'',
      [],
      ''test(\"every workflow state exists on its entity's state field\", () => {'',
      ''  const s = requireSpec();'',
      ''  for (const workflow of s.workflows ?? []) {'',
      ''    const entity = (s.entities ?? []).find('',
      ''      (candidate) => candidate.name === workflow.entity,'',
      ''    );'',
      ''    assert.ok('',
      ''      entity,'',
      ''      \"workflow \" + workflow.name + \" names missing entity \" + workflow.entity,'',
      ''    );'',
      ''    const stateField = (entity.fields ?? []).find('',
      ''      (field) => field.name === workflow.stateField,'',
      ''    );'',
      ''    assert.ok('',
      ''      stateField,'',
      ''      \"workflow \" + workflow.name + \" names missing state field \" + workflow.stateField,'',
      ''    );'',
      ''    assert.equal('',
      ''      stateField.type,'',
      ''      \"enum\",'',
      ''      \"state field \" + workflow.stateField + \" must be an enum\",'',
      ''    );'',
      ''    const states = new Set(stateField.values ?? []);'',
      ''    assert.ok('',
      ''      states.has(workflow.initial),'',
      ''      \"initial state \" + workflow.initial + \" is not a declared state\",'',
      ''    );'',
      ''    for (const transition of workflow.transitions ?? []) {'',
      ''      assert.ok('',
      ''        states.has(transition.from),'',
      ''        \"transition \" + transition.name + \" from-state \" + transition.from + \" is not a declared state\",'',
      ''      );'',
      ''      assert.ok('',
      ''        states.has(transition.to),'',
      ''        \"transition \" + transition.name + \" to-state \" + transition.to + \" is not a declared state\",'',
      ''      );'',
      ''    }'',
      ''  }'',
      ''});'',
      [],
      ''test(\"every approval transition requires at least 2 distinct approvers\", () => {'',
      ''  const s = requireSpec();'',
      ''  for (const workflow of s.workflows ?? []) {'',
      ''    for (const transition of workflow.transitions ?? []) {'',
      ''      if (transition.approval === undefined) continue;'',
      ''      assert.ok('',
      ''        Number.isInteger(transition.approval.count) && transition.approval.count >= 2,'',
      ''        \"approval on transition \" + transition.name + \" must require >= 2 distinct approvers, got \" + transition.approval.count,'',
      ''      );'',
      ''    }'',
      ''  }'',
      ''});'',
      [],
      ''test(\"the migration creates every table the spec requires\", () => {'',
      ''  const s = requireSpec();'',
      ''  const tables = [];'',
      ''  for (const entity of s.entities ?? []) {'',
      ''    tables.push(snakeCase(entity.name));'',
      ''    for (const relation of entity.relations ?? []) {'',
      ''      tables.push(snakeCase(entity.name) + \"_\" + snakeCase(relation.name));'',
      ''    }'',
      ''  }'',
      ''  assert.ok(tables.length > 0, \"spec must declare at least one entity\");'',
      ''  for (const table of tables) {'',
      ''    assert.ok('',
      ''      migration.includes(\"CREATE TABLE \" + table + \" (\"),'',
      ''      \"migration must create table \" + table,'',
      ''    );'',
      ''  }'',
      ''});'',
      [],
      ''test(\"the migration enables pgcrypto before using gen_random_uuid()\", () => {'',
      ''  assert.ok('',
      ''    migration.startsWith(\"CREATE EXTENSION IF NOT EXISTS pgcrypto;\"),'',
      ''    \"migration must start with the pgcrypto extension\",'',
      ''  );'',
      ''});'',
      []]"

definition SERVER_ENTRY :: "wide_chars \<Rightarrow> string" where
  "SERVER_ENTRY u = join_with newline
     [''// Optional server entry '' @ ch_dash u @ '' generated by @openrupiv/compiler.'',
      ''//'',
      ''// This app directory is declarative data (ADR-0004). Serving it requires the'',
      ''// @openrupiv/runtime library (Apache-2.0), or anything else that implements'',
      ''// the documented app-directory contract. The directory itself has zero'',
      ''// dependencies; install @openrupiv/runtime next to it to use this entry, or'',
      ''// run the app through the workspace's Docker Compose stack.'',
      [],
      ''const appDir = new URL(\".\", import.meta.url).pathname;'',
      [],
      ''let runtime;'',
      ''try {'',
      ''  runtime = await import(\"@openrupiv/runtime\");'',
      ''} catch {'',
      ''  console.error('',
      ''    JSON.stringify({'',
      ''      error: \"ERR_RUNTIME_NOT_INSTALLED\",'',
      ''      message:'',
      ''        \"@openrupiv/runtime could not be imported. server.mjs is an optional entry: \" +'',
      ''        \"install @openrupiv/runtime (Node >= 20) and retry, or serve this directory \" +'',
      ''        \"with the openrupiv Compose stack. The app directory itself is dependency-free \" +'',
      ''        \"data; only serving it needs the runtime library.\",'',
      ''    }),'',
      ''  );'',
      ''  process.exit(1);'',
      ''}'',
      [],
      ''await runtime.serveAppDir(appDir);'',
      []]"

subsection \<open>What the emitted test checks\<close>

text \<open>\<open>specVersion is a supported version\<close>\<close>

definition test_version :: "app_spec \<Rightarrow> bool" where
  "test_version s \<longleftrightarrow> sp_specVersion s \<in> {''0.1'', ''0.2''}"

text \<open>\<open>every workflow state exists on its entity's state field\<close>\<close>

definition test_workflow_states :: "app_spec \<Rightarrow> workflow_def \<Rightarrow> bool" where
  "test_workflow_states s w =
     (case List.find (\<lambda>e. en_name e = wf_entity w) (sp_entities s) of
        None \<Rightarrow> False
      | Some entity \<Rightarrow>
          (case List.find (\<lambda>f. fd_name f = wf_stateField w) (en_fields entity) of
             None \<Rightarrow> False
           | Some stateField \<Rightarrow>
               fd_type stateField = FEnum \<and>
               (let states = or_empty (fd_values stateField) in
                wf_initial w \<in> set states \<and> list_all (\<lambda>t. tr_from t \<in> set states \<and> tr_to t \<in> set states) (wf_transitions w))))"

definition test_states :: "app_spec \<Rightarrow> bool" where
  "test_states s \<longleftrightarrow> list_all (test_workflow_states s) (or_empty (sp_workflows s))"

text \<open>\<open>every approval transition requires at least 2 distinct approvers\<close>\<close>

definition test_approvals :: "app_spec \<Rightarrow> bool" where
  "test_approvals s \<longleftrightarrow>
     list_all (\<lambda>w. list_all (\<lambda>t. case tr_approval t of None \<Rightarrow> True | Some a \<Rightarrow> 2 \<le> ap_count a) (wf_transitions w)) (or_empty (sp_workflows s))"

text \<open>\<open>the migration creates every table the spec requires\<close>; \<open>snakeCase\<close> is the compiler's, copied\<close>

definition test_tables :: "app_spec \<Rightarrow> string list" where
  "test_tables s =
     concat (map (\<lambda>e. snakeCase (en_name e) # map (\<lambda>r. snakeCase (en_name e) @ ''_'' @ snakeCase (rd_name r)) (or_empty (en_relations e))) (sp_entities s))"

definition test_migration :: "app_spec \<Rightarrow> string \<Rightarrow> bool" where
  "test_migration s migration \<longleftrightarrow>
     test_tables s \<noteq> [] \<and> list_all (\<lambda>t. contains_str migration (''CREATE TABLE '' @ t @ '' ('')) (test_tables s)"

text \<open>\<open>the migration enables pgcrypto before using gen_random_uuid()\<close>\<close>

definition test_pgcrypto :: "string \<Rightarrow> bool" where
  "test_pgcrypto migration \<longleftrightarrow> prefix ''CREATE EXTENSION IF NOT EXISTS pgcrypto;'' migration"

text \<open>The file: \<open>typed\<close> is the reading of the parsed object at the types of the spec.\<close>

definition spec_test_passes :: "(json \<Rightarrow> app_spec) \<Rightarrow> string \<Rightarrow> string \<Rightarrow> bool" where
  "spec_test_passes typed rawSpec migration =
     (case json_parse rawSpec of
        Some (JObj kvs) \<Rightarrow>
          (let s = typed (JObj kvs) in
           test_version s \<and> test_states s \<and> test_approvals s \<and> test_migration s migration \<and> test_pgcrypto migration)
      | _ \<Rightarrow> False)"

end
