(* ===== verification/Js_Pretty.thy ===== *)
theory Js_Pretty
  imports Js_Json
begin

text \<open>\<open>JSON.stringify(v, null, 2)\<close> and that \<open>JSON.parse\<close> reads it back.\<close>

subsection \<open>Indented text\<close>

definition indent :: "nat \<Rightarrow> string" where
  "indent d = newline @ replicate d (CHR '' '')"

definition bracketed :: "string \<Rightarrow> string \<Rightarrow> nat \<Rightarrow> string list \<Rightarrow> string" where
  "bracketed a b d parts =
     (if parts = [] then a @ b else a @ indent (d + 2) @ join_with ('','' @ indent (d + 2)) parts @ indent d @ b)"

text \<open>\<open>d\<close> is the indentation of the line the value starts on; an absent result is \<open>undefined\<close>.\<close>

fun stringify_indented :: "(int \<Rightarrow> string) \<Rightarrow> nat \<Rightarrow> json \<Rightarrow> string option" where
  "stringify_indented fmt d (JArr vs) =
     Some (bracketed ''['' '']'' d (map (\<lambda>v. case stringify_indented fmt (d + 2) v of None \<Rightarrow> ''null'' | Some s \<Rightarrow> s) vs))"
| "stringify_indented fmt d (JObj kvs) =
     Some (bracketed ''{'' ''}'' d
       (concat (map (\<lambda>kv. case stringify_indented fmt (d + 2) (snd kv) of None \<Rightarrow> [] | Some s \<Rightarrow> [quote_str (fst kv) @ '': '' @ s]) kvs)))"
| "stringify_indented fmt d v = stringify fmt v"

definition pretty :: "json \<Rightarrow> string" where
  "pretty v = (case stringify_indented (\<lambda>_. []) 0 v of None \<Rightarrow> ''undefined'' | Some s \<Rightarrow> s)"

subsection \<open>The text of a value that can be parsed\<close>

definition ptext :: "nat \<Rightarrow> json \<Rightarrow> string" where
  "ptext d v = the (stringify_indented (\<lambda>_. []) d v)"

lemma stringify_indented_ok: "json_ok v \<Longrightarrow> stringify_indented fmt d v \<noteq> None"
  by (cases v) auto

lemma stringify_ptext: "json_ok v \<Longrightarrow> stringify_indented (\<lambda>_. []) d v = Some (ptext d v)"
  using stringify_indented_ok[of v "\<lambda>_. []" d] by (auto simp: ptext_def)

lemma ptext_arr: "json_ok (JArr vs) \<Longrightarrow> ptext d (JArr vs) = bracketed ''['' '']'' d (map (ptext (d + 2)) vs)"
  by (simp add: ptext_def[of d] stringify_ptext cong: map_cong)

definition pmember :: "nat \<Rightarrow> string \<times> json \<Rightarrow> string" where
  "pmember d kv = quote_str (fst kv) @ '': '' @ ptext d (snd kv)"

lemma ptext_obj: "json_ok (JObj kvs) \<Longrightarrow> ptext d (JObj kvs) = bracketed ''{'' ''}'' d (map (pmember (d + 2)) kvs)"
proof -
  assume ok: "json_ok (JObj kvs)"
  have "map (\<lambda>kv. case stringify_indented (\<lambda>_. []) (d + 2) (snd kv) of None \<Rightarrow> [] | Some s \<Rightarrow> [quote_str (fst kv) @ '': '' @ s]) kvs
      = map (\<lambda>kv. [pmember (d + 2) kv]) kvs"
    using ok by (simp add: stringify_ptext pmember_def)
  moreover have "concat (map (\<lambda>kv. [pmember (d + 2) kv]) kvs) = map (pmember (d + 2)) kvs" by (induction kvs) simp_all
  ultimately show ?thesis by (simp only: ptext_def[of d "JObj kvs"] stringify_indented.simps option.sel)
qed

lemma ptext_atom: "json_ok v \<Longrightarrow> (\<And>vs. v \<noteq> JArr vs) \<Longrightarrow> (\<And>kvs. v \<noteq> JObj kvs) \<Longrightarrow> ptext d v = jtext v"
  by (cases v) (auto simp: ptext_def jtext_def)

lemma ptext_head:
  assumes "json_ok v"
  shows "ptext d v \<noteq> [] \<and> \<not> is_json_ws (hd (ptext d v)) \<and> hd (ptext d v) \<noteq> CHR '']'' \<and> hd (ptext d v) \<noteq> CHR ''}''"
proof (cases v)
  case (JArr vs)
  then show ?thesis using assms by (simp add: ptext_arr bracketed_def del: json_ok.simps)
next
  case (JObj kvs)
  then show ?thesis using assms by (simp add: ptext_obj bracketed_def del: json_ok.simps)
qed (use assms jtext_head[of v] ptext_atom[of v d] in auto)

subsection \<open>Reading it back\<close>

abbreviation blank :: "string \<Rightarrow> bool" where
  "blank w \<equiv> list_all is_json_ws w"

lemma blank_indent [simp]: "blank (indent d)"
proof -
  have "is_json_ws (char_of (10 :: nat))" "is_json_ws (CHR '' '')" by code_simp+
  then show ?thesis by (simp add: indent_def newline_def list_all_iff)
qed

lemma skip_blank [simp]: "blank w \<Longrightarrow> skip_ws (w @ s) = skip_ws s"
  by (induction w) auto

lemma parse_value_blank: "blank w \<Longrightarrow> parse_value (Suc n) (w @ s) = parse_value (Suc n) s"
  by (simp add: parse_value.simps)

text \<open>What may follow a value: nothing, white space, a comma or a closing bracket.\<close>

definition pstop :: "string \<Rightarrow> bool" where
  "pstop r \<longleftrightarrow> r = [] \<or> is_json_ws (hd r) \<or> hd r \<in> {CHR '','', CHR '']'', CHR ''}''}"

lemma pstop_num: "pstop r \<Longrightarrow> num_stop r"
proof (cases r)
  case (Cons c cs)
  assume "pstop r"
  then have "is_json_ws c \<or> c \<in> {CHR '','', CHR '']'', CHR ''}''}" using Cons by (simp add: pstop_def)
  then show ?thesis using Cons by (auto simp: num_stop_def is_digit_code is_json_ws_def Let_def)
qed (simp add: num_stop_def)

lemma pstop_blank: "blank w \<Longrightarrow> c \<in> {CHR '','', CHR '']'', CHR ''}''} \<Longrightarrow> pstop (w @ c # r)"
  by (cases w) (auto simp: pstop_def)

lemma parse_elems_indented:
  assumes "\<And>v r n. v \<in> set vs \<Longrightarrow> pstop r \<Longrightarrow> size v < n \<Longrightarrow> parse_value n (t v @ r) = Some (v, r)"
    and "vs \<noteq> []" "size_list size vs < n" "blank w" "blank w'" "blank w0"
  shows "parse_elems n (w0 @ join_with (CHR '','' # w) (map t vs) @ w' @ CHR '']'' # r) = Some (vs, r)"
  using assms
proof (induction vs arbitrary: n w0)
  case (Cons v vs)
  obtain k where k: "n = Suc k" "size v < k" "size_list size vs < k"
    using Cons.prems(3) by (cases n) auto
  have val: "parse_value k (w0 @ t v @ q) = Some (v, q)" if "pstop q" for q
    using Cons.prems(1)[of v q k] that k(2) parse_value_blank[OF Cons.prems(6)] by (cases k) simp_all
  show ?case
  proof (cases vs)
    case Nil
    then show ?thesis using val[OF pstop_blank[OF Cons.prems(5)], of "CHR '']''" r] k(1) Cons.prems(5)
      by (simp add: parse_elems.simps)
  next
    case (Cons x xs)
    let ?rest = "w @ join_with (CHR '','' # w) (map t vs) @ w' @ CHR '']'' # r"
    have "parse_elems k ?rest = Some (vs, r)"
      using Cons.IH[of k w] Cons.prems k Cons by simp
    then show ?thesis using val[of "CHR '','' # ?rest"] k(1) Cons by (simp add: parse_elems.simps pstop_def)
  qed
qed simp

lemma parse_members_indented:
  assumes "\<And>k v r n. (k, v) \<in> set kvs \<Longrightarrow> pstop r \<Longrightarrow> size v < n \<Longrightarrow> parse_value n (ptext d v @ r) = Some (v, r)"
    and "kvs \<noteq> []" "size_list (size_prod (\<lambda>_. 0) size) kvs < n" "blank w" "blank w'" "blank w0"
  shows "parse_members n (w0 @ join_with (CHR '','' # w) (map (pmember d) kvs) @ w' @ CHR ''}'' # r) = Some (kvs, r)"
  using assms
proof (induction kvs arbitrary: n w0)
  case (Cons kv kvs)
  obtain key v where kv: "kv = (key, v)" by force
  obtain k where k: "n = Suc k" "size v < k" "size_list (size_prod (\<lambda>_. 0) size) kvs < k"
    using Cons.prems(3) kv by (cases n) auto
  have "is_json_ws (CHR '' '')" by code_simp
  then have val: "parse_value k (CHR '' '' # ptext d v @ q) = Some (v, q)" if "pstop q" for q
    using Cons.prems(1)[of key v q k] that k(2) kv parse_value_ws[of "CHR '' ''"] by (cases k) auto
  show ?case
  proof (cases kvs)
    case Nil
    then show ?thesis using val[OF pstop_blank[OF Cons.prems(5)], of "CHR ''}''" r] k(1) Cons.prems(5,6)
      by (simp add: kv pmember_def quote_str_def parse_members.simps parse_str_quoted)
  next
    case (Cons x xs)
    let ?rest = "w @ join_with (CHR '','' # w) (map (pmember d) kvs) @ w' @ CHR ''}'' # r"
    have "parse_members k ?rest = Some (kvs, r)"
      using Cons.IH[of k w] Cons.prems k Cons by auto
    then show ?thesis using val[of "CHR '','' # ?rest"] k(1) Cons Cons.prems(6)
      by (simp add: kv pmember_def[of d "(key, v)"] quote_str_def parse_members.simps parse_str_quoted pstop_def)
  qed
qed simp

lemma parse_value_atom:
  assumes "json_ok v" "pstop r" "size v < n" "\<And>vs. v \<noteq> JArr vs" "\<And>kvs. v \<noteq> JObj kvs"
  shows "parse_value n (jtext v @ r) = Some (v, r)"
proof -
  obtain k where n: "n = Suc k" using assms(3) by (cases n) auto
  show ?thesis
  proof (cases v)
    case (JNum x)
    then obtain m e where x: "x = Dec m e" "norm_num m e" "\<not> dec_overflows m e"
      using assms(1) by (auto split: jsnum.splits)
    show ?thesis using parse_value_num[OF x(2,3) pstop_num[OF assms(2)], of k] x n JNum by (simp add: jtext_atoms del: num_str.simps)
  qed (use assms n in \<open>auto simp: jtext_atoms quote_str_def parse_value.simps parse_str_quoted\<close>)
qed

lemma bracketed_parts:
  "parts \<noteq> [] \<Longrightarrow> bracketed a b d parts = a @ indent (d + 2) @ join_with (CHR '','' # indent (d + 2)) parts @ indent d @ b"
  by (simp add: bracketed_def)

lemma parse_value_indented:
  "json_ok v \<Longrightarrow> pstop r \<Longrightarrow> size v < n \<Longrightarrow> parse_value n (ptext d v @ r) = Some (v, r)"
proof (induction v arbitrary: d r n rule: json_induct)
  case (Arr vs)
  then obtain k where k: "n = Suc k" "size_list size vs < k" by (cases n) auto
  show ?case
  proof (cases "vs = []")
    case True
    then show ?thesis using k(1) by (simp add: ptext_def bracketed_def parse_value.simps)
  next
    case False
    let ?in = "indent (d + 2)"
    let ?body = "join_with (CHR '','' # ?in) (map (ptext (d + 2)) vs)"
    have hd: "?body \<noteq> []" "\<not> is_json_ws (hd ?body)" "hd ?body \<noteq> CHR '']''"
      using False ptext_head[of "hd vs" "d + 2"] Arr.prems(1) hd_join[of "map (ptext (d + 2)) vs" "CHR '','' # ?in"] by (simp_all add: hd_map)
    have elems: "parse_elems k (?in @ ?body @ indent d @ CHR '']'' # r) = Some (vs, r)"
      using Arr False k by (intro parse_elems_indented) auto
    have "skip_ws (?in @ ?body @ indent d @ CHR '']'' # r) = ?body @ indent d @ CHR '']'' # r"
      using hd skip_ws_head[of "?body @ indent d @ CHR '']'' # r"] by simp
    moreover have "ptext d (JArr vs) @ r = CHR ''['' # ?in @ ?body @ indent d @ CHR '']'' # r"
      using False by (simp add: ptext_arr[OF Arr.prems(1)] bracketed_parts)
    ultimately show ?thesis using hd elems k(1) by (cases ?body) (simp_all add: parse_value.simps)
  qed
next
  case (Obj kvs)
  then obtain k where k: "n = Suc k" "size_list (size_prod (\<lambda>_. 0) size) kvs < k" by (cases n) auto
  show ?case
  proof (cases "kvs = []")
    case True
    then show ?thesis using k(1) by (simp add: ptext_def bracketed_def parse_value.simps)
  next
    case False
    let ?in = "indent (d + 2)"
    let ?body = "join_with (CHR '','' # ?in) (map (pmember (d + 2)) kvs)"
    have "hd (map (pmember (d + 2)) kvs) \<noteq> []" "hd (hd (map (pmember (d + 2)) kvs)) = char_of (34 :: nat)"
      using False by (simp_all add: hd_map pmember_def quote_str_def)
    then have hd: "?body \<noteq> []" "hd ?body = char_of (34 :: nat)"
      using False hd_join[of "map (pmember (d + 2)) kvs" "CHR '','' # ?in"] by simp_all
    have members: "parse_members k (?in @ ?body @ indent d @ CHR ''}'' # r) = Some (kvs, r)"
      using Obj False k by (intro parse_members_indented) auto
    have "skip_ws (?in @ ?body @ indent d @ CHR ''}'' # r) = ?body @ indent d @ CHR ''}'' # r"
      using hd skip_ws_head[of "?body @ indent d @ CHR ''}'' # r"] by simp
    moreover have "ptext d (JObj kvs) @ r = CHR ''{'' # ?in @ ?body @ indent d @ CHR ''}'' # r"
      using False by (simp add: ptext_obj[OF Obj.prems(1)] bracketed_parts)
    moreover have "js_order (map_from kvs) = kvs" using Obj.prems(1) by (simp add: map_from_distinct)
    moreover have "(char_of (34 :: nat) :: char) \<noteq> CHR ''}''" by code_simp
    ultimately show ?thesis using hd members k(1) by (cases ?body) (simp_all add: parse_value.simps)
  qed
qed (simp_all add: ptext_atom parse_value_atom)

text \<open>The fuel is enough.\<close>

lemma length_join_ge: "xs \<noteq> [] \<Longrightarrow> (\<Sum>x \<leftarrow> xs. length x + 1) \<le> length (join_with (c # w) xs) + 1"
  by (induction "c # w" xs rule: join_with.induct) auto

lemma size_le_ptext: "json_ok v \<Longrightarrow> size v \<le> length (ptext d v)"
proof (induction v arbitrary: d rule: json_induct)
  case (Arr vs)
  have "size_list size vs \<le> (\<Sum>x \<leftarrow> map (ptext (d + 2)) vs. length x + 1)"
    using Arr by (induction vs) (auto intro: add_mono)
  then show ?case using length_join_ge[of "map (ptext (d + 2)) vs" "CHR '',''" "indent (d + 2)"]
    by (cases "vs = []") (simp add: ptext_def bracketed_def, auto simp: ptext_arr[OF Arr.prems] bracketed_def)
next
  case (Obj kvs)
  have "\<forall>kv \<in> set kvs. size (snd kv) \<le> length (ptext (d + 2) (snd kv))" using Obj by auto
  then have "size_list (size_prod (\<lambda>_. 0) size) kvs \<le> (\<Sum>x \<leftarrow> map (pmember (d + 2)) kvs. length x + 1)"
    by (induction kvs) (auto simp: pmember_def quote_str_def)
  then show ?case using length_join_ge[of "map (pmember (d + 2)) kvs" "CHR '',''" "indent (d + 2)"]
    by (cases "kvs = []") (simp add: ptext_def bracketed_def, auto simp: ptext_obj[OF Obj.prems] bracketed_def)
qed (use size_le_text in \<open>simp_all add: ptext_atom\<close>)

lemma json_parse_pretty: "json_ok v \<Longrightarrow> json_parse (pretty v @ newline) = Some v"
proof -
  assume ok: "json_ok v"
  have ws: "is_json_ws (char_of (10 :: nat))" by code_simp
  have p: "pretty v = ptext 0 v" by (simp add: pretty_def stringify_ptext[OF ok])
  have "parse_value (Suc (length (pretty v @ newline))) (pretty v @ newline) = Some (v, newline)"
    unfolding p using size_le_ptext[OF ok, of 0] ws by (intro parse_value_indented ok) (auto simp: pstop_def newline_def)
  then show ?thesis using ws by (simp add: json_parse_def newline_def)
qed

end
