(* ===== verification/Compile.thy ===== *)
theory Compile
  imports Compiler_Props App_Test Js_Pretty
begin

text \<open>
  \<open>compileApp\<close> (\<open>compiler/src/compile.ts\<close>) and \<open>package.json\<close> (\<open>templates.ts\<close>); the migration, the README and the test have theories of their own.
  The compiler gets the validated JSON value itself and the typed reading of it is only a cast in the code: \<open>em_value\<close> gives
  the value of a typed spec, and \<open>em_chars\<close> are the characters of the fixed texts beyond one byte.
\<close>

record compiled_file =
  cf_path :: string
  cf_contents :: string

record emitters =
  em_value :: "app_spec \<Rightarrow> json"
  em_chars :: wide_chars

definition unsupported_errors :: "app_spec \<Rightarrow> compiler_error list" where
  "unsupported_errors spec =
     (if or_empty (sp_policies spec) = [] then [] else [compiler_err ERR_UNSUPPORTED_SECTION ''/policies''])
     @ (if or_empty (sp_evidence spec) = [] then [] else [compiler_err ERR_UNSUPPORTED_SECTION ''/evidence''])"

definition renderAppPackageJson :: "app_spec \<Rightarrow> string" where
  "renderAppPackageJson spec = join_with newline
     [''{'', ''  \"name\": '' @ quote_str (am_slug (sp_app spec)) @ '','', ''  \"private\": true,'', ''  \"type\": \"module\",'',
      ''  \"scripts\": {'', ''    \"test\": \"node --test\"'', ''  }'', ''}'', []]"

definition compileApp :: "emitters \<Rightarrow> app_spec \<Rightarrow> compiler_error list + compiled_file list" where
  "compileApp emit spec =
     (let migration = renderMigration spec;
          errors = unsupported_errors spec @ (case migration of Inl es \<Rightarrow> es | Inr _ \<Rightarrow> [])
      in case migration of
           Inl _ \<Rightarrow> Inl errors
         | Inr sql \<Rightarrow>
             if errors \<noteq> [] then Inl errors
             else Inr (sort_key cf_path
               [\<lparr>cf_path = ''app/spec.json'', cf_contents = pretty (em_value emit spec) @ newline\<rparr>,
                \<lparr>cf_path = ''app/migrations/0001_init.sql'', cf_contents = sql\<rparr>,
                \<lparr>cf_path = ''app/README.md'', cf_contents = renderAppReadme (em_chars emit) spec\<rparr>,
                \<lparr>cf_path = ''app/package.json'', cf_contents = renderAppPackageJson spec\<rparr>,
                \<lparr>cf_path = ''app/test/spec.test.mjs'', cf_contents = renderSpecTest spec\<rparr>,
                \<lparr>cf_path = ''app/server.mjs'', cf_contents = SERVER_ENTRY (em_chars emit)\<rparr>]))"

lemma compiled_paths:
  "compileApp emit spec = Inr files \<Longrightarrow>
   map cf_path files = [''app/README.md'', ''app/migrations/0001_init.sql'', ''app/package.json'', ''app/server.mjs'', ''app/spec.json'',
     ''app/test/spec.test.mjs'']"
  by (auto simp: compileApp_def Let_def split: sum.splits if_splits) 

text \<open>
  The compiler either reports every error it finds or emits the whole app.  It emits exactly
  when the spec has no policy or evidence section and passes the migration's checks; then the files
  are the six of the app directory in the order of their paths, the migration among them being the
  one \<open>renderMigration\<close> produced.  Otherwise the errors are those of the sections and of the
  migration, none left out.
\<close>

theorem compile_is_all_or_nothing:
  "case compileApp emit spec of
     Inr files \<Rightarrow> or_empty (sp_policies spec) = [] \<and> or_empty (sp_evidence spec) = [] \<and> collectSqlErrors spec = [] \<and>
       sorted (map cf_path files) \<and> distinct (map cf_path files) \<and> length files = 6 \<and>
       (\<exists>sql. renderMigration spec = Inr sql \<and> \<lparr>cf_path = ''app/migrations/0001_init.sql'', cf_contents = sql\<rparr> \<in> set files)
   | Inl errors \<Rightarrow> errors \<noteq> [] \<and> errors = unsupported_errors spec @ collectSqlErrors spec"
proof (cases "renderMigration spec")
  case (Inl es)
  then have "es = collectSqlErrors spec" "es \<noteq> []" by (auto simp: renderMigration_def Let_def split: if_splits)
  then show ?thesis using Inl by (simp add: compileApp_def Let_def)
next
  case (Inr sql)
  then have none: "collectSqlErrors spec = []" by (auto simp: renderMigration_def Let_def split: if_splits)
  show ?thesis
  proof (cases "unsupported_errors spec = []")
    case True
    then obtain files where files: "compileApp emit spec = Inr files" using Inr by (simp add: compileApp_def Let_def)
    have "or_empty (sp_policies spec) = []" "or_empty (sp_evidence spec) = []"
      using True by (auto simp: unsupported_errors_def split: if_splits)
    moreover have "sorted (map cf_path files) \<and> distinct (map cf_path files) \<and> length files = 6"
    proof -
      have "sorted (map cf_path files)" using files Inr True by (auto simp: compileApp_def Let_def)
      moreover have "length (map cf_path files) = 6" "distinct (map cf_path files)" unfolding compiled_paths[OF files] by simp_all
      ultimately show ?thesis by simp
    qed
    moreover have "\<lparr>cf_path = ''app/migrations/0001_init.sql'', cf_contents = sql\<rparr> \<in> set files"
      using files Inr True by (auto simp: compileApp_def Let_def)
    ultimately show ?thesis using files Inr none by simp
  next
    case False
    then show ?thesis using Inr none by (simp add: compileApp_def Let_def)
  qed
qed

end
