(* ===== verification/Entities.thy ===== *)
theory Entities
  imports Workflow Compiler_Sql
begin

text \<open>
  The entity API (\<open>runtime/src/entities.ts\<close>) over the same world as the workflows.  A new row gets
  its id and time from the database and each column not named its default, as the compiled table
  declares; \<open>store\<close> says what a column gives back for a value written to it (a date comes back as a
  \<open>Date\<close>); a statement the database refuses (a constraint, an outage) is \<open>db_fails\<close>.  Record ids
  are in PostgreSQL's canonical spelling.
\<close>

datatype entity_error =
    Entity_body body_error | Entity_audit_failed | Entity_bad_id | Entity_not_found | Entity_nothing_to_update | Entity_db_failed

fun entity_status :: "entity_error \<Rightarrow> nat" where
  "entity_status (Entity_body b) = 400"
| "entity_status Entity_audit_failed = 500"
| "entity_status Entity_bad_id = 400"
| "entity_status Entity_not_found = 404"
| "entity_status Entity_nothing_to_update = 400"
| "entity_status Entity_db_failed = 500"

definition bodySource :: "string option \<Rightarrow> body_source" where
  "bodySource contentType =
     (if contains_str (case contentType of None \<Rightarrow> [] | Some c \<Rightarrow> c) ''application/x-www-form-urlencoded'' then Form_body else Json_body)"

definition mode_text :: "body_mode \<Rightarrow> string" where
  "mode_text mode = (case mode of Create \<Rightarrow> ''create'' | Update \<Rightarrow> ''update'')"

text \<open>\<open>session\<close> is the subject of the request's session, if it has one.\<close>

definition state_write_event :: "entity_model \<Rightarrow> body_mode \<Rightarrow> string option \<Rightarrow> string option \<Rightarrow> string \<Rightarrow> audit_input" where
  "state_write_event model mode session recordId field =
     \<lparr>au_event = ''workflow.state_write_rejected'',
      au_actor = (case session of Some sub \<Rightarrow> sub | None \<Rightarrow> ''system''),
      au_actorType = (if session = None then ''system'' else ''human''),
      au_subject = map_option (\<lambda>r. em_table model @ '':'' @ r) recordId, au_decision = Some ''deny'',
      au_attributes = JObj [(''entityTable'', JStr (em_table model)), (''mode'', JStr (mode_text mode)), (''field'', JStr field)]\<rparr>"

definition with_sink :: "audit_input \<Rightarrow> world \<Rightarrow> bool \<times> world" where
  "with_sink e w = (case appendOrFail e (audit_sink.truncate w) of
     (ok, s) \<Rightarrow> (ok, w\<lparr>persisted := persisted s, outages := outages s, logged := logged s\<rparr>))"

definition validateBodyAudited ::
  "(string \<Rightarrow> int option) \<Rightarrow> entity_model \<Rightarrow> json \<Rightarrow> body_mode \<Rightarrow> body_source \<Rightarrow> string option \<Rightarrow> string option \<Rightarrow> world \<Rightarrow>
   (entity_error + fields) \<times> world" where
  "validateBodyAudited parse_date model body mode source session recordId w =
     (case validateBody parse_date model (coalesce body (JObj [])) mode source of
        Inr data \<Rightarrow> (Inr data, w)
      | Inl (State_field_readonly field) \<Rightarrow>
          (case with_sink (state_write_event model mode session recordId field) w of
             (ok, w1) \<Rightarrow> (Inl (if ok then Entity_body (State_field_readonly field) else Entity_audit_failed), w1))
      | Inl e \<Rightarrow> (Inl (Entity_body e), w))"

subsection \<open>Insert\<close>

text \<open>Columns and values: the state fields with their initial states first, then the body's fields.\<close>

definition insert_columns :: "entity_model \<Rightarrow> fields \<Rightarrow> fields" where
  "insert_columns model data =
     concat (map (\<lambda>(n, v). case map_of (em_fieldByName model) n of None \<Rightarrow> [] | Some f \<Rightarrow> [(columnFor f, v)])
       (map (\<lambda>(n, initial). (n, JStr initial)) (em_stateFields model) @ data))"

text \<open>The row PostgreSQL stores and returns.\<close>

definition new_row :: "(string \<Rightarrow> json \<Rightarrow> json) \<Rightarrow> entity_model \<Rightarrow> string \<Rightarrow> json \<Rightarrow> fields \<Rightarrow> fields" where
  "new_row store model newid now cols =
     [(''id'', JStr newid), (''created_at'', now), (''updated_at'', now)]
     @ map (\<lambda>f. (columnFor f, store (columnFor f)
           (case map_of cols (columnFor f) of Some v \<Rightarrow> v | None \<Rightarrow> (case fd_default f of Some d \<Rightarrow> d | None \<Rightarrow> JNull))))
         (en_fields (em_entity model))"

definition insertRecord :: "(string \<Rightarrow> json \<Rightarrow> json) \<Rightarrow> bool \<Rightarrow> string \<Rightarrow> json \<Rightarrow> entity_model \<Rightarrow> fields \<Rightarrow> world \<Rightarrow> (entity_error + fields) \<times> world" where
  "insertRecord store db_fails newid now model data w =
     (if db_fails then (Inl Entity_db_failed, w)
      else (let row = new_row store model newid now (insert_columns model data) in
            (Inr row, w\<lparr>rows := (rows w)((em_table model, newid) \<mapsto> row)\<rparr>)))"

datatype created = Created_record fields | Created_redirect string

definition create_target :: "app_spec \<Rightarrow> entity_model \<Rightarrow> string \<Rightarrow> string" where
  "create_target spec model recordId =
     (case pageFor spec (en_name (em_entity model)) Detail_page of
        Some p \<Rightarrow> ''/p/'' @ pg_name p @ ''?id='' @ recordId
      | None \<Rightarrow> (case pageFor spec (en_name (em_entity model)) List_page of Some p \<Rightarrow> ''/p/'' @ pg_name p | None \<Rightarrow> ''/''))"

definition post_record ::
  "(string \<Rightarrow> int option) \<Rightarrow> (int \<Rightarrow> string) \<Rightarrow> (int \<Rightarrow> string) \<Rightarrow> (string \<Rightarrow> json \<Rightarrow> json) \<Rightarrow> app_spec \<Rightarrow> entity_model \<Rightarrow> bool \<Rightarrow> string \<Rightarrow> json \<Rightarrow>
   string option \<Rightarrow> string option \<Rightarrow> json \<Rightarrow> world \<Rightarrow> (entity_error + created) \<times> world" where
  "post_record parse_date fmt dstr store spec model db_fails newid now session contentType body w =
     (let source = bodySource contentType in
      case validateBodyAudited parse_date model body Create source session None w of
        (Inl e, w1) \<Rightarrow> (Inl e, w1)
      | (Inr data, w1) \<Rightarrow>
          (case insertRecord store db_fails newid now model data w1 of
             (Inl e, w2) \<Rightarrow> (Inl e, w2)
           | (Inr row, w2) \<Rightarrow>
               (let record' = row_to_record fmt model row in
                (Inr (if source = Form_body then Created_redirect (create_target spec model (js_string dstr (get_field record' ''id'')))
                      else Created_record record'), w2))))"

subsection \<open>Read\<close>

text \<open>\<open>listed\<close> are the rows of the table as PostgreSQL orders them.\<close>

definition list_records :: "(int \<Rightarrow> string) \<Rightarrow> entity_model \<Rightarrow> fields list \<Rightarrow> fields list" where
  "list_records fmt model listed = map (row_to_record fmt model) listed"

definition get_record :: "(int \<Rightarrow> string) \<Rightarrow> entity_model \<Rightarrow> string \<Rightarrow> world \<Rightarrow> entity_error + fields" where
  "get_record fmt model recordId w =
     (if \<not> isUuid (JStr recordId) then Inl Entity_bad_id
      else (case rows w (em_table model, recordId) of
          None \<Rightarrow> Inl Entity_not_found
        | Some row \<Rightarrow> Inr (row_to_record fmt model row)))"

subsection \<open>Update\<close>

definition assignments :: "entity_model \<Rightarrow> fields \<Rightarrow> fields" where
  "assignments model data =
     concat (map (\<lambda>(n, v). case map_of (em_fieldByName model) n of None \<Rightarrow> [] | Some f \<Rightarrow> [(columnFor f, v)]) data)"

definition apply_update :: "(string \<Rightarrow> json \<Rightarrow> json) \<Rightarrow> json \<Rightarrow> fields \<Rightarrow> fields \<Rightarrow> fields" where
  "apply_update store now sets row = map_set ''updated_at'' now (foldl (\<lambda>r (c, v). map_set c (store c v) r) row sets)"

definition put_record ::
  "(string \<Rightarrow> int option) \<Rightarrow> (int \<Rightarrow> string) \<Rightarrow> (string \<Rightarrow> json \<Rightarrow> json) \<Rightarrow> entity_model \<Rightarrow> bool \<Rightarrow> json \<Rightarrow> string option \<Rightarrow> string option \<Rightarrow> string \<Rightarrow> json \<Rightarrow>
   world \<Rightarrow> (entity_error + fields) \<times> world" where
  "put_record parse_date fmt store model db_fails now session contentType recordId body w =
     (if \<not> isUuid (JStr recordId) then (Inl Entity_bad_id, w)
      else (case validateBodyAudited parse_date model body Update (bodySource contentType) session (Some recordId) w of
          (Inl e, w1) \<Rightarrow> (Inl e, w1)
        | (Inr data, w1) \<Rightarrow>
            if data = [] then (Inl Entity_nothing_to_update, w1)
            else if db_fails then (Inl Entity_db_failed, w1)
            else (case rows w1 (em_table model, recordId) of
                None \<Rightarrow> (Inl Entity_not_found, w1)
              | Some row \<Rightarrow>
                  (let row' = apply_update store now (assignments model data) row in
                   (Inr (row_to_record fmt model row'), w1\<lparr>rows := (rows w1)((em_table model, recordId) \<mapsto> row')\<rparr>)))))"

end
