(* ===== verification/Entities_Props.thy ===== *)
theory Entities_Props
  imports Entities Workflow_Props
begin

text \<open>The entity API never moves a workflow, and what it writes can be read back.\<close>

text \<open>The models the compiler accepts: distinct fields and columns, none of them a system column.\<close>

definition model_ok :: "entity_model \<Rightarrow> bool" where
  "model_ok model \<longleftrightarrow>
     distinct (map fd_name (en_fields (em_entity model))) \<and> distinct (map columnFor (en_fields (em_entity model))) \<and>
     set (map columnFor (en_fields (em_entity model))) \<inter> {''id'', ''created_at'', ''updated_at''} = {} \<and>
     em_fieldByName model = map_from (map (\<lambda>f. (fd_name f, f)) (en_fields (em_entity model)))"

lemma with_sink_world:
  "with_sink e w = (ok, w') \<Longrightarrow> rows w' = rows w \<and> approvals w' = approvals w \<and>
     persisted w' = persisted w @ (if ok then [e] else [])"
  by (auto simp: with_sink_def split: prod.splits dest!: appendOrFail_cases)

lemma validateBodyAudited_world:
  "validateBodyAudited parse_date model body mode source session rid w = (res, w') \<Longrightarrow>
   rows w' = rows w \<and> approvals w' = approvals w \<and>
   (\<exists>es. persisted w' = persisted w @ es \<and> (\<forall>e \<in> set es. \<exists>k. e = state_write_event model mode session rid k)) \<and>
   (\<forall>data. res = Inr data \<longrightarrow> w' = w \<and> validateBody parse_date model (coalesce body (JObj [])) mode source = Inr data)"
proof (cases "validateBody parse_date model (coalesce body (JObj [])) mode source")
  case (Inr data)
  then show "validateBodyAudited parse_date model body mode source session rid w = (res, w') \<Longrightarrow> ?thesis"
    by (auto simp: validateBodyAudited_def)
next
  case (Inl e)
  assume v: "validateBodyAudited parse_date model body mode source session rid w = (res, w')"
  show ?thesis
  proof (cases "\<exists>k. e = State_field_readonly k")
    case True
    then obtain k where k: "e = State_field_readonly k" by blast
    obtain ok w1 where a: "with_sink (state_write_event model mode session rid k) w = (ok, w1)" by force
    then show ?thesis using v Inl k with_sink_world[OF a] by (auto simp: validateBodyAudited_def)
  next
    case False
    then show ?thesis using v Inl by (cases e) (auto simp: validateBodyAudited_def)
  qed
qed

lemma verdict_entry_field:
  "(n, v) \<in> set (verdict_entry parse_date model input mode source f) \<Longrightarrow>
   n = fd_name f \<and> \<not> map_has (em_stateFields model) n"
  by (auto simp: verdict_entry_def field_verdict_def Let_def split: sum.splits option.splits if_splits)

lemma body_data:
  assumes "model_ok model" and ok: "validateBody parse_date model body mode source = Inr data"
  shows "\<forall>(n, v) \<in> set data. \<exists>f \<in> set (en_fields (em_entity model)). fd_name f = n \<and> \<not> map_has (em_stateFields model) n"
    and "distinct (map fst data)"
proof -
  obtain input where b: "body = JObj input" using ok by (cases body) (auto simp: validateBody_def)
  have d: "distinct (map fd_name (en_fields (em_entity model)))" using assms(1) by (simp add: model_ok_def)
  have data: "data = concat (map (verdict_entry parse_date model input mode source) (en_fields (em_entity model)))"
    using ok unfolding b validateBody_accepts[OF d] by blast
  then show "\<forall>(n, v) \<in> set data. \<exists>f \<in> set (en_fields (em_entity model)). fd_name f = n \<and> \<not> map_has (em_stateFields model) n"
    using verdict_entry_field by fastforce
  have "map fst (verdict_entry parse_date model input mode source f) \<in> {[], [fd_name f]}" for f
    by (auto simp: verdict_entry_def split: sum.splits option.splits)
  then have "distinct (map fst (concat (map (verdict_entry parse_date model input mode source) fs)))
      \<and> set (map fst (concat (map (verdict_entry parse_date model input mode source) fs))) \<subseteq> fd_name ` set fs"
    if "distinct (map fd_name fs)" for fs
    using that
  proof (induction fs)
    case (Cons f fs)
    have e: "map fst (verdict_entry parse_date model input mode source f) \<in> {[], [fd_name f]}"
      by (auto simp: verdict_entry_def split: sum.splits option.splits)
    define rest where "rest = concat (map (verdict_entry parse_date model input mode source) fs)"
    have ih: "distinct (map fst rest)" "set (map fst rest) \<subseteq> fd_name ` set fs" "fd_name f \<notin> fd_name ` set fs"
      using Cons unfolding rest_def by auto
    then have "fd_name f \<notin> set (map fst rest)" by blast
    moreover have "map fst (concat (map (verdict_entry parse_date model input mode source) (f # fs)))
        = map fst (verdict_entry parse_date model input mode source f) @ map fst rest" by (simp add: rest_def)
    ultimately show ?case using e ih(1,2) by (simp only:) force
  qed simp
  from this[OF d] show "distinct (map fst data)" unfolding data by blast
qed

lemma field_by_name:
  "model_ok model \<Longrightarrow> f \<in> set (en_fields (em_entity model)) \<Longrightarrow> map_of (em_fieldByName model) (fd_name f) = Some f"
  by (auto simp: model_ok_def map_from_distinct o_def intro!: map_of_is_SomeI)

lemma columnFor_inj:
  "model_ok model \<Longrightarrow> f \<in> set (en_fields (em_entity model)) \<Longrightarrow> g \<in> set (en_fields (em_entity model)) \<Longrightarrow>
   columnFor f = columnFor g \<Longrightarrow> f = g"
  by (auto simp: model_ok_def distinct_map inj_on_def)

text \<open>The columns of a workflow's state.\<close>

definition state_columns :: "entity_model \<Rightarrow> string list" where
  "state_columns model = map columnFor (filter (\<lambda>f. map_has (em_stateFields model) (fd_name f)) (en_fields (em_entity model)))"

lemma assignments_cols:
  assumes m: "model_ok model" and data: "\<forall>(n, v) \<in> set data. \<exists>f \<in> set (en_fields (em_entity model)). fd_name f = n \<and> \<not> map_has (em_stateFields model) n"
  shows "assignments model data = map (\<lambda>(n, v). (columnFor (the (map_of (em_fieldByName model) n)), v)) data \<and>
    set (map fst (assignments model data)) \<inter> set (state_columns model) = {}"
proof
  show eq: "assignments model data = map (\<lambda>(n, v). (columnFor (the (map_of (em_fieldByName model) n)), v)) data"
    using data unfolding assignments_def
  proof (induction data)
    case (Cons nv data)
    then obtain f where "f \<in> set (en_fields (em_entity model))" "fd_name f = fst nv" by (cases nv) auto
    then show ?case using Cons field_by_name[OF m] by (cases nv) auto
  qed simp
  show "set (map fst (assignments model data)) \<inter> set (state_columns model) = {}"
  proof (safe, goal_cases)
    case (1 c)
    then obtain n v where nv: "(n, v) \<in> set data" "c = columnFor (the (map_of (em_fieldByName model) n))" unfolding eq by auto
    then obtain f where f: "f \<in> set (en_fields (em_entity model))" "fd_name f = n" "\<not> map_has (em_stateFields model) n"
      using data by auto
    then have "c = columnFor f" using nv field_by_name[OF m f(1)] by simp
    moreover obtain g where "g \<in> set (en_fields (em_entity model))" "map_has (em_stateFields model) (fd_name g)" "c = columnFor g"
      using 1(2) by (auto simp: state_columns_def)
    ultimately have "map_has (em_stateFields model) (fd_name f)" using columnFor_inj[OF m f(1)] by metis
    then show ?case using f by simp
  qed
qed

lemma get_field_map_set [simp]: "get_field (map_set c v r) k = (if k = c then v else get_field r k)"
  by (simp add: get_field_def)

lemma get_field_sets_other: "c \<notin> set (map fst sets) \<Longrightarrow> get_field (foldl (\<lambda>r (c, v). map_set c (store c v) r) row sets) c = get_field row c"
  by (induction sets arbitrary: row) (auto split: prod.splits)

lemma get_field_sets:
  "distinct (map fst sets) \<Longrightarrow> (c, v) \<in> set sets \<Longrightarrow> get_field (foldl (\<lambda>r (c, v). map_set c (store c v) r) row sets) c = store c v"
proof (induction sets arbitrary: row)
  case (Cons s sets)
  show ?case
  proof (cases "s = (c, v)")
    case True
    then show ?thesis using Cons.prems get_field_sets_other[of c sets store "map_set c (store c v) row"] by simp
  next
    case False
    then show ?thesis using Cons by (auto split: prod.splits)
  qed
qed simp

lemma by_name_field:
  "model_ok model \<Longrightarrow> map_of (em_fieldByName model) n = Some g \<Longrightarrow> g \<in> set (en_fields (em_entity model)) \<and> fd_name g = n"
  using set_map_from[of "map (\<lambda>f. (fd_name f, f)) (en_fields (em_entity model))"]
  by (auto simp: model_ok_def dest!: map_of_SomeD)

lemma map_of_assignments:
  assumes m: "model_ok model" and f: "f \<in> set (en_fields (em_entity model))"
  shows "map_of (assignments model xs) (columnFor f) = map_of xs (fd_name f)"
proof (induction xs)
  case (Cons nv xs)
  obtain n v where nv: "nv = (n, v)" by force
  show ?case
  proof (cases "map_of (em_fieldByName model) n")
    case None
    then have "n \<noteq> fd_name f" using field_by_name[OF m f] by auto
    then show ?thesis using Cons None nv by (simp add: assignments_def)
  next
    case (Some g)
    then have "columnFor f = columnFor g \<longleftrightarrow> fd_name f = n"
      using Some by_name_field[OF m Some] columnFor_inj[OF m _ f, of g] field_by_name[OF m f] by (metis option.inject)
    then show ?thesis using Cons Some nv by (auto simp: assignments_def)
  qed
qed (simp add: assignments_def)

lemma system_columns:
  assumes m: "model_ok model" and f: "f \<in> set (en_fields (em_entity model))"
  shows "columnFor f \<noteq> ''id''" "columnFor f \<noteq> ''created_at''" "columnFor f \<noteq> ''updated_at''"
proof -
  have "columnFor f \<notin> {''id'', ''created_at'', ''updated_at''}"
    using m imageI[OF f, of columnFor] unfolding model_ok_def set_map by blast
  then show "columnFor f \<noteq> ''id''" "columnFor f \<noteq> ''created_at''" "columnFor f \<noteq> ''updated_at''" by blast+
qed

lemma get_field_new_row:
  assumes m: "model_ok model" and f: "f \<in> set (en_fields (em_entity model))" and c: "map_of cols (columnFor f) = Some v"
  shows "get_field (new_row store model newid now cols) (columnFor f) = store (columnFor f) v"
proof -
  let ?val = "\<lambda>f. store (columnFor f) (case map_of cols (columnFor f) of Some v \<Rightarrow> v | None \<Rightarrow> (case fd_default f of Some d \<Rightarrow> d | None \<Rightarrow> JNull))"
  have "map_of (map (\<lambda>f. (columnFor f, ?val f)) (en_fields (em_entity model))) (columnFor f) = Some (?val f)"
    using m f by (intro map_of_is_SomeI) (auto simp: model_ok_def o_def)
  then show ?thesis using c system_columns[OF m f] by (simp add: new_row_def get_field_def)
qed

lemma insert_columns_assignments: "insert_columns model data = assignments model (map (\<lambda>(n, i). (n, JStr i)) (em_stateFields model) @ data)"
  by (simp add: insert_columns_def assignments_def)

text \<open>What a request of the entity API may touch: one record, and the rejected writes it audits.\<close>

definition touches_only :: "entity_model \<Rightarrow> string \<Rightarrow> world \<Rightarrow> world \<Rightarrow> bool" where
  "touches_only model recordId w w' \<longleftrightarrow>
     approvals w' = approvals w \<and> (\<forall>k. k \<noteq> (em_table model, recordId) \<longrightarrow> rows w' k = rows w k) \<and>
     (\<exists>es. persisted w' = persisted w @ es \<and> list_all (\<lambda>e. au_event e = ''workflow.state_write_rejected'') es)"

text \<open>The record keeps its workflow states; a new one is in the initial states.\<close>

definition states_kept :: "entity_model \<Rightarrow> string \<Rightarrow> world \<Rightarrow> world \<Rightarrow> bool" where
  "states_kept model recordId w w' \<longleftrightarrow>
     (case (rows w (em_table model, recordId), rows w' (em_table model, recordId)) of
        (Some row, Some row') \<Rightarrow> list_all (\<lambda>c. get_field row' c = get_field row c) (state_columns model)
      | (None, None) \<Rightarrow> True
      | _ \<Rightarrow> False)"

definition states_initial :: "(string \<Rightarrow> json \<Rightarrow> json) \<Rightarrow> entity_model \<Rightarrow> fields \<Rightarrow> bool" where
  "states_initial store model row \<longleftrightarrow>
     list_all (\<lambda>f. case map_of (em_stateFields model) (fd_name f) of
        Some initial \<Rightarrow> get_field row (columnFor f) = store (columnFor f) (JStr initial)
      | None \<Rightarrow> True) (en_fields (em_entity model))"

lemma state_write_event_name: "au_event (state_write_event model mode session rid k) = ''workflow.state_write_rejected''"
  by (simp add: state_write_event_def)

lemma touches_only_rejected:
  assumes "validateBodyAudited parse_date model body mode source session rid w = (res, w')"
  shows "touches_only model recordId w w'"
proof -
  obtain es where es: "persisted w' = persisted w @ es" "\<forall>e \<in> set es. \<exists>k. e = state_write_event model mode session rid k"
    and same: "rows w' = rows w" "approvals w' = approvals w"
    using validateBodyAudited_world[OF assms] by blast
  have "list_all (\<lambda>e. au_event e = ''workflow.state_write_rejected'') es"
    using es(2) state_write_event_name unfolding list_all_iff by metis
  then show ?thesis using es(1) same unfolding touches_only_def by metis
qed

lemma touches_only_put:
  "touches_only model rid w w1 \<Longrightarrow> touches_only model rid w (w1\<lparr>rows := (rows w1)((em_table model, rid) \<mapsto> row)\<rparr>)"
  unfolding touches_only_def by simp

lemma map_of_initials: "map_of (map (\<lambda>(n, i). (n, JStr i)) sf) k = map_option JStr (map_of sf k)"
  by (induction sf) auto

lemma initial_column:
  assumes m: "model_ok model" and f: "f \<in> set (en_fields (em_entity model))"
    and i: "map_of (em_stateFields model) (fd_name f) = Some initial"
  shows "get_field (new_row store model newid now (insert_columns model data)) (columnFor f) = store (columnFor f) (JStr initial)"
proof (rule get_field_new_row[OF m f])
  show "map_of (insert_columns model data) (columnFor f) = Some (JStr initial)"
    unfolding insert_columns_assignments map_of_assignments[OF m f] map_of_append map_add_def map_of_initials i by simp
qed

lemma new_row_initial: "model_ok model \<Longrightarrow> states_initial store model (new_row store model newid now (insert_columns model data))"
  unfolding states_initial_def list_all_iff by (auto simp: initial_column split: option.splits)

lemma post_starts_initial:
  assumes m: "model_ok model"
    and run: "post_record parse_date fmt dstr store spec model db_fails newid now session contentType body w = (res, w')"
  shows "touches_only model newid w w' \<and>
    (rows w' = rows w \<or> (\<exists>row. rows w' (em_table model, newid) = Some row \<and> states_initial store model row))"
proof -
  obtain v w1 where val: "validateBodyAudited parse_date model body Create (bodySource contentType) session None w = (v, w1)" by force
  note t = touches_only_rejected[OF val, of newid]
  have r: "rows w1 = rows w" using validateBodyAudited_world[OF val] by blast
  show ?thesis
  proof (cases "\<exists>data. v = Inr data \<and> \<not> db_fails")
    case False
    then have "w' = w1" using run val by (cases v) (auto simp: post_record_def insertRecord_def)
    then show ?thesis using t r by simp
  next
    case True
    then obtain data where "v = Inr data" "\<not> db_fails" by blast
    then have w': "w' = w1\<lparr>rows := (rows w1)((em_table model, newid) \<mapsto> new_row store model newid now (insert_columns model data))\<rparr>"
      using run val by (simp add: post_record_def insertRecord_def Let_def)
    show ?thesis unfolding w' using touches_only_put[OF t] new_row_initial[OF m] by simp
  qed
qed

lemma updated_row_keeps:
  assumes m: "model_ok model" and ok: "validateBody parse_date model body mode source = Inr data"
  shows "list_all (\<lambda>c. get_field (apply_update store now (assignments model data) row) c = get_field row c) (state_columns model)"
  unfolding list_all_iff
proof
  fix c assume c: "c \<in> set (state_columns model)"
  have "c \<notin> set (map fst (assignments model data))" using assignments_cols[OF m body_data(1)[OF m ok]] c by blast
  moreover have "c \<noteq> ''updated_at''" using system_columns[OF m] c by (auto simp: state_columns_def)
  ultimately show "get_field (apply_update store now (assignments model data) row) c = get_field row c"
    using get_field_sets_other[of c "assignments model data" store row] by (simp add: apply_update_def)
qed

lemma put_keeps_states:
  assumes m: "model_ok model"
    and run: "put_record parse_date fmt store model db_fails now session contentType recordId body w = (res, w')"
  shows "touches_only model recordId w w' \<and> states_kept model recordId w w'"
proof (cases "isUuid (JStr recordId)")
  case True
  obtain v w1 where val: "validateBodyAudited parse_date model body Update (bodySource contentType) session (Some recordId) w = (v, w1)" by force
  note t = touches_only_rejected[OF val, of recordId]
  have r: "rows w1 = rows w" using validateBodyAudited_world[OF val] by blast
  show ?thesis
  proof (cases "\<exists>data row. v = Inr data \<and> data \<noteq> [] \<and> \<not> db_fails \<and> rows w (em_table model, recordId) = Some row")
    case False
    then have "w' = w1" using run True val r by (cases v) (auto simp: put_record_def split: option.splits if_splits)
    then show ?thesis using t r by (simp add: states_kept_def list_all_iff split: option.splits)
  next
    case upd: True
    then obtain data row where u: "v = Inr data" "data \<noteq> []" "\<not> db_fails" "rows w (em_table model, recordId) = Some row" by blast
    have w': "w' = w1\<lparr>rows := (rows w1)((em_table model, recordId) \<mapsto> apply_update store now (assignments model data) row)\<rparr>"
      using run True val u r by (simp add: put_record_def Let_def)
    have "validateBody parse_date model (coalesce body (JObj [])) Update (bodySource contentType) = Inr data"
      using validateBodyAudited_world[OF val] u(1) by blast
    then have "states_kept model recordId w w'" using updated_row_keeps[OF m] u(4) by (simp add: w' states_kept_def)
    then show ?thesis unfolding w' using touches_only_put[OF t] by blast
  qed
next
  case False
  then have "w' = w" using run by (simp add: put_record_def)
  then show ?thesis by (simp add: touches_only_def states_kept_def list_all_iff split: option.splits)
qed

lemma map_of_obj_build_last: "map_of (obj_build kvs) k = (if k = ''__proto__'' then None else map_of (rev kvs) k)"
proof (induction kvs rule: rev_induct)
  case (snoc kv kvs)
  obtain k' v where kv: "kv = (k', v)" by force
  have "map_of (js_order (map_set k' v (obj_build kvs))) = map_of (map_set k' v (obj_build kvs))"
    by (rule map_of_js_order) (simp add: distinct_map_set distinct_obj_build)
  then show ?case using snoc by (auto simp: kv obj_build_snoc obj_set_def)
qed simp

text \<open>The field names that are neither a system member of a record nor a JavaScript accessor.\<close>

definition plain_name :: "field_def \<Rightarrow> bool" where
  "plain_name f \<longleftrightarrow> \<not> List.member [''id'', ''createdAt'', ''updatedAt'', ''__proto__''] (fd_name f)"

lemma record_field:
  assumes m: "model_ok model" and f: "f \<in> set (en_fields (em_entity model))" "plain_name f"
  shows "get_field (row_to_record fmt model row) (fd_name f) = normalizeValue fmt (get_field row (columnFor f))"
proof -
  let ?fs = "map (\<lambda>f. (fd_name f, normalizeValue fmt (get_field row (columnFor f)))) (en_fields (em_entity model))"
  have d: "distinct (map fst ?fs)" using m by (simp add: model_ok_def o_def)
  have "distinct (map fst (rev ?fs))" using d unfolding rev_map[symmetric] distinct_rev .
  then have "map_of (rev ?fs) (fd_name f) = Some (normalizeValue fmt (get_field row (columnFor f)))"
    using f(1) by (intro map_of_is_SomeI) auto
  then show ?thesis using f(2)
    by (simp add: row_to_record_def get_field_def map_of_obj_build_last plain_name_def)
qed

lemma distinct_assignments:
  assumes m: "model_ok model"
  shows "distinct (map fst data) \<Longrightarrow> distinct (map fst (assignments model data))"
proof (induction data)
  case (Cons nv data)
  obtain n v where nv: "nv = (n, v)" by force
  have ih: "distinct (map fst (assignments model data))" using Cons by simp
  show ?case
  proof (cases "map_of (em_fieldByName model) n")
    case None
    then show ?thesis using ih by (simp add: nv assignments_def)
  next
    case (Some g)
    have "map_of data n = None" using Cons.prems nv by (simp add: map_of_eq_None_iff)
    then have "map_of (assignments model data) (columnFor g) = None"
      using map_of_assignments[OF m, of g data] by_name_field[OF m Some] by simp
    then have "columnFor g \<notin> set (map fst (assignments model data))" by (simp add: map_of_eq_None_iff)
    moreover have "assignments model (nv # data) = (columnFor g, v) # assignments model data"
      using Some by (simp add: nv assignments_def)
    ultimately show ?thesis using ih by simp
  qed
qed (simp add: assignments_def)

lemma updated_column:
  assumes m: "model_ok model" and f: "f \<in> set (en_fields (em_entity model))" and d: "distinct (map fst data)"
  shows "get_field (apply_update store now (assignments model data) row) (columnFor f) =
    (case map_of data (fd_name f) of Some v \<Rightarrow> store (columnFor f) v | None \<Rightarrow> get_field row (columnFor f))"
proof (cases "map_of data (fd_name f)")
  case None
  then have "map_of (assignments model data) (columnFor f) = None" by (simp only: map_of_assignments[OF m f])
  then have "columnFor f \<notin> set (map fst (assignments model data))" by (simp add: map_of_eq_None_iff)
  then show ?thesis using None system_columns[OF m f] by (simp add: apply_update_def get_field_sets_other)
next
  case (Some v)
  then have "(columnFor f, v) \<in> set (assignments model data)"
    using map_of_assignments[OF m f, of data] by (auto dest: map_of_SomeD)
  then show ?thesis using Some system_columns[OF m f] get_field_sets[OF distinct_assignments[OF m d]]
    by (simp add: apply_update_def)
qed

subsection \<open>A concrete record\<close>

definition demo_row :: fields where
  "demo_row = [(''id'', JStr ''123e4567-e89b-12d3-a456-426614174000''), (''name'', JStr ''old''), (''status'', JStr ''draft'')]"

definition entity_demo :: world where
  "entity_demo = \<lparr>persisted = [], outages = [], logged = [],
     rows = (\<lambda>k. if k = (''vendor'', ''123e4567-e89b-12d3-a456-426614174000'') then Some demo_row else None), approvals = []\<rparr>"

lemma demo_model_ok: "model_ok demo_model"
  by code_simp

lemma demo_uuid: "isUuid (JStr ''123e4567-e89b-12d3-a456-426614174000'')"
  by code_simp

lemma demo_table: "em_table demo_model = ''vendor''"
  by (simp add: demo_model_def)

lemma demo_update:
  "validateBody (\<lambda>_. None) demo_model (JObj [(''name'', JStr ''new'')]) Update Json_body = Inr [(''name'', JStr ''new'')]"
  by code_simp

text \<open>
  C15.  The entity API never moves a workflow.  Creating or updating a record, accepted or not, with
  any body, leaves every approval and every other record as it was and appends no audit event but
  \<open>workflow.state_write_rejected\<close>; an updated record keeps its workflow states, and a created one
  starts in the initial states (as its columns store them).
\<close>

theorem entity_api_never_moves_a_workflow:
  assumes "model_ok model"
  shows "(case put_record parse_date fmt store model db_fails now session contentType recordId body w of (res, w') \<Rightarrow>
       touches_only model recordId w w' \<and> states_kept model recordId w w') \<and>
    (case post_record parse_date fmt dstr store spec model db_fails newid now session contentType body w of (res, w') \<Rightarrow>
       touches_only model newid w w' \<and>
       (rows w' = rows w \<or> (\<exists>row. rows w' (em_table model, newid) = Some row \<and> states_initial store model row)))"
  using put_keeps_states[OF assms] post_starts_initial[OF assms] by (simp split: prod.split)

theorem entity_api_never_moves_a_workflow_witness:
  "case put_record (\<lambda>_. None) (\<lambda>_. []) (\<lambda>c v. v) demo_model False JNull None None ''123e4567-e89b-12d3-a456-426614174000''
       (JObj [(''status'', JStr ''approved'')]) entity_demo of (res, w') \<Rightarrow>
     touches_only demo_model ''123e4567-e89b-12d3-a456-426614174000'' entity_demo w' \<and>
     states_kept demo_model ''123e4567-e89b-12d3-a456-426614174000'' entity_demo w'"
  by (rule entity_api_never_moves_a_workflow[OF demo_model_ok, THEN conjunct1])

text \<open>
  What an accepted update wrote is what the API gives back.  After a \<open>PUT\<close> answered with a
  record, a \<open>GET\<close> of the same id answers with the same record; in it every field of the accepted
  body has the written value (as its column stores it), and every other field has the value it had before.
\<close>

theorem updated_record_reads_back:
  assumes "model_ok model" and "rows w (em_table model, recordId) = Some row"
    and "put_record parse_date fmt store model db_fails now session contentType recordId body w = (Inr record', w')"
  shows "get_record fmt model recordId w' = Inr record' \<and>
    (\<exists>data. validateBody parse_date model (coalesce body (JObj [])) Update (bodySource contentType) = Inr data \<and> data \<noteq> [] \<and>
       list_all (\<lambda>f. get_field record' (fd_name f) = normalizeValue fmt
           (case map_of data (fd_name f) of Some v \<Rightarrow> store (columnFor f) v | None \<Rightarrow> get_field row (columnFor f)))
         (filter plain_name (en_fields (em_entity model))))"
proof -
  have u: "isUuid (JStr recordId)" using assms(3) by (simp add: put_record_def split: if_splits)
  obtain v w1 where val: "validateBodyAudited parse_date model body Update (bodySource contentType) session (Some recordId) w = (v, w1)" by force
  have r: "rows w1 (em_table model, recordId) = Some row" using validateBodyAudited_world[OF val] assms(2) by simp
  obtain data where d: "v = Inr data" "data \<noteq> []" "\<not> db_fails"
    using assms(3) u val by (cases v) (simp_all add: put_record_def split: if_splits)
  then have ok: "validateBody parse_date model (coalesce body (JObj [])) Update (bodySource contentType) = Inr data"
    using validateBodyAudited_world[OF val] by blast
  let ?row = "apply_update store now (assignments model data) row"
  have out: "record' = row_to_record fmt model ?row" "rows w' (em_table model, recordId) = Some ?row"
    using assms(3) u val d r by (auto simp: put_record_def Let_def)
  then have "get_record fmt model recordId w' = Inr record'" using u by (simp add: get_record_def)
  moreover have "list_all (\<lambda>f. get_field record' (fd_name f) = normalizeValue fmt
           (case map_of data (fd_name f) of Some v \<Rightarrow> store (columnFor f) v | None \<Rightarrow> get_field row (columnFor f)))
         (filter plain_name (en_fields (em_entity model)))"
    unfolding list_all_iff out(1)
    using record_field[OF assms(1)] updated_column[OF assms(1) _ body_data(2)[OF assms(1) ok]] by simp
  ultimately show ?thesis using ok d(2) by blast
qed

theorem updated_record_reads_back_witness:
  "\<exists>r w'. put_record (\<lambda>_. None) (\<lambda>_. []) (\<lambda>c v. v) demo_model False JNull None None ''123e4567-e89b-12d3-a456-426614174000''
       (JObj [(''name'', JStr ''new'')]) entity_demo = (Inr r, w') \<and>
     get_record (\<lambda>_. []) demo_model ''123e4567-e89b-12d3-a456-426614174000'' w' = Inr r"
proof -
  have "\<exists>r w'. put_record (\<lambda>_. None) (\<lambda>_. []) (\<lambda>c v. v) demo_model False JNull None None ''123e4567-e89b-12d3-a456-426614174000''
       (JObj [(''name'', JStr ''new'')]) entity_demo = (Inr r, w')"
    by (simp add: put_record_def entity_demo_def demo_uuid demo_update coalesce_def validateBodyAudited_def bodySource_def Let_def demo_table)
  moreover have "rows entity_demo (em_table demo_model, ''123e4567-e89b-12d3-a456-426614174000'') = Some demo_row"
    by (simp add: entity_demo_def demo_table)
  ultimately show ?thesis using updated_record_reads_back[OF demo_model_ok] by blast
qed

end
