(* ===== verification/System.thy ===== *)
theory System
  imports Validate_Props Compile Entities_Props
begin

text \<open>
  From the spec to the running app: a spec that the validator and the compiler accept gives the
  runtime well-formed entity models, and in the running app every workflow state is a declared one.
\<close>

subsection \<open>The models of an accepted spec\<close>

lemma column_names_agree: "columnName f = columnFor f"
  by (simp add: columnName_def columnFor_def snakeCase_cuts toSnakeCase_cuts)

lemma table_names_agree: "tableName n = entityTable n"
  by (simp add: tableName_def entityTable_def snakeCase_cuts toSnakeCase_cuts)

lemma spec_ok_entity: "spec_ok spec \<Longrightarrow> e \<in> set (sp_entities spec) \<Longrightarrow> entity_ok (map en_name (sp_entities spec)) e"
  by (simp add: spec_ok_def)

lemma accepted_model_ok:
  assumes "spec_ok spec" "collectSqlErrors spec = []" "e \<in> set (sp_entities spec)"
  shows "model_ok (buildEntityModel spec e)"
proof -
  have "set (map columnName (en_fields e)) \<inter> set RESERVED_COLUMNS = {}" "distinct (map columnName (en_fields e))"
    using collectSqlErrors_none(1)[OF assms(2)] assms(3) by blast+
  moreover have "columnName = columnFor" using column_names_agree by blast
  moreover have "distinct (map fd_name (en_fields e))" using entity_ok_fields[OF spec_ok_entity[OF assms(1,3)]] .
  ultimately show ?thesis by (simp add: model_ok_def buildEntityModel_def Let_def RESERVED_COLUMNS_def)
qed

lemma distinct_concat_heads:
  "distinct (concat (map (\<lambda>x. f x # g x) xs)) \<Longrightarrow> distinct (map f xs)"
  by (induction xs) auto

lemma tables_distinct:
  assumes "collectSqlErrors spec = []"
  shows "distinct (map (\<lambda>e. entityTable (en_name e)) (sp_entities spec))"
  using collectSqlErrors_none(2)[OF assms] distinct_concat_heads[of "\<lambda>e. tableName (en_name e)"]
  by (simp add: entity_tables_def[abs_def] table_names_agree)

lemma table_determines_entity:
  "collectSqlErrors spec = [] \<Longrightarrow> e \<in> set (sp_entities spec) \<Longrightarrow> e' \<in> set (sp_entities spec) \<Longrightarrow>
   entityTable (en_name e) = entityTable (en_name e') \<Longrightarrow> e = e'"
  using tables_distinct[of spec] by (auto simp: distinct_map inj_on_def)

lemma model_simps [simp]:
  "em_entity (buildEntityModel spec e) = e" "em_table (buildEntityModel spec e) = entityTable (en_name e)"
  "em_fieldByName (buildEntityModel spec e) = fields_by_name e"
  by (simp_all add: buildEntityModel_def Let_def fields_by_name_def)

subsection \<open>Guards\<close>

definition workflow_of :: "app_spec \<Rightarrow> entity_def \<Rightarrow> workflow_def \<Rightarrow> bool" where
  "workflow_of spec e w \<longleftrightarrow>
     e \<in> set (sp_entities spec) \<and> w \<in> set (or_empty (sp_workflows spec)) \<and> wf_entity w = en_name e"

text \<open>What the validator found about the workflow's own entity.\<close>

lemma workflow_checked:
  assumes ok: "spec_ok spec" and w: "workflow_of spec e w"
  shows "\<exists>f \<in> set (en_fields e). fd_name f = wf_stateField w \<and> fd_type f = FEnum \<and>
    (\<exists>states. fd_values f = Some states \<and> wf_initial w \<in> set states \<and> (\<forall>t \<in> set (wf_transitions w). transition_ok spec e states t))"
proof -
  have "x \<in> set (sp_entities spec) \<and> en_name x = wf_entity w \<longleftrightarrow> x = e" for x
    using ok w by (auto simp: spec_ok_def workflow_of_def distinct_map inj_on_def)
  moreover have "workflow_ok spec w" using ok w by (simp add: spec_ok_def workflow_of_def)
  ultimately show ?thesis unfolding workflow_ok_def by (simp add: bex_the) blast
qed

lemma check_predicates_known:
  assumes "model_ok model" "\<forall>p \<in> set ps. predicate_ok (em_entity model) p"
  shows "check_predicates dstr parse_date model row ps \<noteq> Some Unknown_guard_field"
  using assms(2)
proof (induction ps)
  case (Cons p ps)
  then obtain f where "f \<in> set (en_fields (em_entity model))" "fd_name f = fp_field p"
    by (auto simp: predicate_ok_def split: if_splits)
  then have "map_of (em_fieldByName model) (fp_field p) = Some f" using field_by_name[OF assms(1)] by metis
  then show ?case using Cons by simp
qed simp

subsection \<open>States stay declared\<close>

text \<open>Every workflow state of every stored record is one of the values its field declares.\<close>

definition row_states_declared :: "app_spec \<Rightarrow> entity_def \<Rightarrow> fields \<Rightarrow> bool" where
  "row_states_declared spec e row \<longleftrightarrow>
     list_all (\<lambda>f. \<exists>s \<in> set (or_empty (fd_values f)). get_field row (columnFor f) = JStr s)
       (filter (\<lambda>f. map_has (em_stateFields (buildEntityModel spec e)) (fd_name f)) (en_fields e))"

definition states_declared :: "app_spec \<Rightarrow> world \<Rightarrow> bool" where
  "states_declared spec w \<longleftrightarrow>
     (\<forall>e \<in> set (sp_entities spec). \<forall>rid row. rows w (entityTable (en_name e), rid) = Some row \<longrightarrow> row_states_declared spec e row)"

text \<open>A \<open>text\<close> column gives back the string it was given.\<close>

definition keeps_text :: "entity_def \<Rightarrow> (string \<Rightarrow> json \<Rightarrow> json) \<Rightarrow> bool" where
  "keeps_text e store \<longleftrightarrow> (\<forall>f \<in> set (en_fields e). fd_type f = FEnum \<longrightarrow> (\<forall>s. store (columnFor f) (JStr s) = JStr s))"

definition on_app :: "app_spec \<Rightarrow> exec_input \<Rightarrow> bool" where
  "on_app spec x \<longleftrightarrow>
     (\<exists>e. workflow_of spec e (ex_workflow x) \<and> ex_model x = buildEntityModel spec e \<and> ex_transition x \<in> set (wf_transitions (ex_workflow x)))"

text \<open>
  The atomic steps of the running app that reach the records: a create (with an id the database
  has not used), an update, a committed transition transaction, and everything that leaves the
  records alone (policy decisions, audit events, logins, agent runs).
\<close>

inductive app_step :: "app_spec \<Rightarrow> world \<Rightarrow> world \<Rightarrow> bool" for spec :: app_spec where
  create: "e \<in> set (sp_entities spec) \<Longrightarrow> keeps_text e store \<Longrightarrow> rows w (entityTable (en_name e), newid) = None \<Longrightarrow>
     post_record parse_date fmt dstr store spec (buildEntityModel spec e) db_fails newid now session contentType body w = (res, w') \<Longrightarrow>
     app_step spec w w'"
| update: "e \<in> set (sp_entities spec) \<Longrightarrow>
     put_record parse_date fmt store (buildEntityModel spec e) db_fails now session contentType recordId body w = (res', w') \<Longrightarrow>
     app_step spec w w'"
| fire: "on_app spec x \<Longrightarrow> transition_tx dstr parse_date now x w = Inr (w', out) \<Longrightarrow> app_step spec w w'"
| other: "rows w' = rows w \<Longrightarrow> app_step spec w w'"

inductive app_reachable :: "app_spec \<Rightarrow> world \<Rightarrow> bool" for spec :: app_spec where
  start: "rows w = (\<lambda>_. None) \<Longrightarrow> app_reachable spec w"
| step: "app_reachable spec w \<Longrightarrow> app_step spec w w' \<Longrightarrow> app_reachable spec w'"

inductive_cases app_stepE: "app_step spec w w'"

text \<open>A state field is an enum field and starts in one of its values.\<close>

lemma state_field_checked:
  assumes ok: "spec_ok spec" and e: "e \<in> set (sp_entities spec)" and f: "f \<in> set (en_fields e)"
    and s: "map_of (em_stateFields (buildEntityModel spec e)) (fd_name f) = Some initial"
  shows "fd_type f = FEnum \<and> initial \<in> set (or_empty (fd_values f))"
proof -
  let ?ws = "filter (\<lambda>w. wf_entity w = en_name e) (or_empty (sp_workflows spec))"
  have "map_of (rev (map (\<lambda>w. (wf_stateField w, wf_initial w)) ?ws)) (fd_name f) = Some initial"
    using s by (simp add: buildEntityModel_def Let_def map_of_map_from)
  then have "(fd_name f, initial) \<in> set (map (\<lambda>w. (wf_stateField w, wf_initial w)) ?ws)" by (auto dest: map_of_SomeD)
  then obtain w where w: "workflow_of spec e w" "wf_stateField w = fd_name f" "wf_initial w = initial"
    using e by (auto simp: workflow_of_def)
  then obtain g where g: "g \<in> set (en_fields e)" "fd_name g = fd_name f" "fd_type g = FEnum" "initial \<in> set (or_empty (fd_values g))"
    using workflow_checked[OF ok w(1)] by auto
  have "distinct (map fd_name (en_fields e))" using entity_ok_fields[OF spec_ok_entity[OF ok e]] .
  then have "g = f" using f g(1,2) by (simp add: distinct_map inj_on_def)
  then show ?thesis using g by simp
qed

lemma initial_states_declared:
  assumes ok: "spec_ok spec" and e: "e \<in> set (sp_entities spec)" and t: "keeps_text e store"
    and i: "states_initial store (buildEntityModel spec e) row"
  shows "row_states_declared spec e row"
  unfolding row_states_declared_def list_all_iff
proof
  fix f assume "f \<in> set (filter (\<lambda>f. map_has (em_stateFields (buildEntityModel spec e)) (fd_name f)) (en_fields e))"
  then obtain initial where f: "f \<in> set (en_fields e)" "map_of (em_stateFields (buildEntityModel spec e)) (fd_name f) = Some initial"
    by auto
  have "get_field row (columnFor f) = store (columnFor f) (JStr initial)"
    using i f by (auto simp: states_initial_def list_all_iff split: option.splits)
  moreover note state_field_checked[OF ok e f]
  ultimately show "\<exists>s \<in> set (or_empty (fd_values f)). get_field row (columnFor f) = JStr s"
    using t f(1) by (auto simp: keeps_text_def)
qed

lemma kept_states_declared:
  assumes "list_all (\<lambda>c. get_field row' c = get_field row c) (state_columns (buildEntityModel spec e))"
    and "row_states_declared spec e row"
  shows "row_states_declared spec e row'"
  using assms by (auto simp: row_states_declared_def state_columns_def list_all_iff)

text \<open>A transition writes the target state, a declared value, to its own state column.\<close>

lemma fired_states_declared:
  assumes ok: "spec_ok spec" "collectSqlErrors spec = []" and x: "workflow_of spec e (ex_workflow x)"
    and m: "ex_model x = buildEntityModel spec e" and t: "ex_transition x \<in> set (wf_transitions (ex_workflow x))"
    and row: "row_states_declared spec e row"
  shows "row_states_declared spec e (map_set ''updated_at'' now (map_set (ex_stateColumn x) (JStr (tr_to (ex_transition x))) row))"
  unfolding row_states_declared_def list_all_iff
proof
  have e: "e \<in> set (sp_entities spec)" using x by (simp add: workflow_of_def)
  note mok = accepted_model_ok[OF ok e]
  obtain g where g: "g \<in> set (en_fields e)" "fd_name g = wf_stateField (ex_workflow x)" "fd_type g = FEnum"
      "tr_to (ex_transition x) \<in> set (or_empty (fd_values g))"
    using workflow_checked[OF ok(1) x] t by (auto simp: transition_ok_def)
  then have col: "ex_stateColumn x = columnFor g" by (simp add: ex_stateColumn_def columnFor_def)
  fix f assume f: "f \<in> set (filter (\<lambda>f. map_has (em_stateFields (buildEntityModel spec e)) (fd_name f)) (en_fields e))"
  then have fe: "f \<in> set (en_fields e)" by simp
  have upd: "columnFor f \<noteq> ''updated_at''" using system_columns(3)[OF mok, of f] fe by simp
  show "\<exists>s \<in> set (or_empty (fd_values f)).
      get_field (map_set ''updated_at'' now (map_set (ex_stateColumn x) (JStr (tr_to (ex_transition x))) row)) (columnFor f) = JStr s"
  proof (cases "f = g")
    case True
    then show ?thesis using g(4) col upd by simp
  next
    case False
    then have "columnFor f \<noteq> ex_stateColumn x" using columnFor_inj[OF mok] fe g(1) col by auto
    then show ?thesis using row f upd by (simp add: row_states_declared_def list_all_iff)
  qed
qed

lemma flip_state_rows:
  "flip_state now x attrs w = Inr (w', out) \<Longrightarrow>
   \<exists>row. rows w (ex_key x) = Some row \<and>
     rows w' = (rows w)(ex_key x \<mapsto> map_set ''updated_at'' now (map_set (ex_stateColumn x) (JStr (tr_to (ex_transition x))) row))"
  by (auto simp: flip_state_def setState_def tx_append_def split: if_splits option.splits sum.splits prod.splits bool.splits)

lemma transition_tx_rows:
  assumes "transition_tx dstr parse_date now x w = Inr (w', out)"
  shows "rows w' = rows w \<or> (\<exists>row. rows w (ex_key x) = Some row \<and>
     rows w' = (rows w)(ex_key x \<mapsto> map_set ''updated_at'' now (map_set (ex_stateColumn x) (JStr (tr_to (ex_transition x))) row)))"
proof (cases "tr_approval (ex_transition x)")
  case None
  then show ?thesis using assms flip_state_rows
    by (fastforce simp: transition_tx_def split: option.splits if_splits)
next
  case (Some rule)
  then have "approve_or_flip now x rule w = Inr (w', out)"
    using assms by (simp add: transition_tx_def split: option.splits if_splits)
  then show ?thesis
    using flip_state_rows[of now x _ "w\<lparr>approvals := approvals w @ [(ex_table x, ex_recordId x, tr_name (ex_transition x), ex_sub x)]\<rparr>" w' out]
    by (auto simp: approve_or_flip_def Let_def tx_append_def split: if_splits sum.splits prod.splits bool.splits)
qed

text \<open>A change of one record's row keeps the others' states.\<close>

lemma one_row_declared:
  assumes "collectSqlErrors spec = []" "e \<in> set (sp_entities spec)" "states_declared spec w"
    and "\<And>k. k \<noteq> (entityTable (en_name e), rid) \<Longrightarrow> rows w' k = rows w k"
    and "\<And>row. rows w' (entityTable (en_name e), rid) = Some row \<Longrightarrow> row_states_declared spec e row"
  shows "states_declared spec w'"
  unfolding states_declared_def
proof (intro ballI allI impI)
  fix e' rid' row assume e': "e' \<in> set (sp_entities spec)" and row: "rows w' (entityTable (en_name e'), rid') = Some row"
  show "row_states_declared spec e' row"
  proof (cases "(entityTable (en_name e'), rid') = (entityTable (en_name e), rid)")
    case True
    then have "e' = e" using table_determines_entity[OF assms(1) e' assms(2)] by simp
    then show ?thesis using assms(5) row True by simp
  next
    case False
    then show ?thesis using assms(3,4) e' row unfolding states_declared_def by metis
  qed
qed

lemma app_step_states:
  assumes ok: "spec_ok spec" "collectSqlErrors spec = []" and step: "app_step spec w w'" and inv: "states_declared spec w"
  shows "states_declared spec w'"
  using step
proof (cases rule: app_step.cases)
  case (create e store newid parse_date fmt dstr db_fails now session contentType body res)
  note mok = accepted_model_ok[OF ok create(1)]
  note post = post_starts_initial[OF mok create(4)]
  show ?thesis
  proof (rule one_row_declared[OF ok(2) create(1) inv, of newid])
    show "rows w' k = rows w k" if "k \<noteq> (entityTable (en_name e), newid)" for k
      using post that by (cases k) (simp add: touches_only_def)
    show "row_states_declared spec e row" if "rows w' (entityTable (en_name e), newid) = Some row" for row
      using post that create(3) initial_states_declared[OF ok(1) create(1,2)] by auto
  qed
next
  case (update e parse_date fmt store db_fails now session contentType recordId body res)
  note mok = accepted_model_ok[OF ok update(1)]
  note put = put_keeps_states[OF mok update(2)]
  show ?thesis
  proof (rule one_row_declared[OF ok(2) update(1) inv, of recordId])
    show "rows w' k = rows w k" if "k \<noteq> (entityTable (en_name e), recordId)" for k
      using put that by (cases k) (simp add: touches_only_def)
    fix row' assume r': "rows w' (entityTable (en_name e), recordId) = Some row'"
    then obtain row where r: "rows w (entityTable (en_name e), recordId) = Some row"
        "list_all (\<lambda>c. get_field row' c = get_field row c) (state_columns (buildEntityModel spec e))"
      using put by (auto simp: states_kept_def split: option.splits)
    then have "row_states_declared spec e row" using inv update(1) unfolding states_declared_def by blast
    then show "row_states_declared spec e row'" by (rule kept_states_declared[OF r(2)])
  qed
next
  case (fire x dstr parse_date now out)
  then obtain e where x: "workflow_of spec e (ex_workflow x)" "ex_model x = buildEntityModel spec e"
      "ex_transition x \<in> set (wf_transitions (ex_workflow x))"
    unfolding on_app_def by blast
  then have e: "e \<in> set (sp_entities spec)" and key: "ex_key x = (entityTable (en_name e), ex_recordId x)"
    by (simp_all add: workflow_of_def ex_key_def ex_table_def)
  note tx = transition_tx_rows[OF fire(2), unfolded key]
  show ?thesis
  proof (rule one_row_declared[OF ok(2) e inv, of "ex_recordId x"])
    show "rows w' k = rows w k" if "k \<noteq> (entityTable (en_name e), ex_recordId x)" for k using tx that by auto
    fix row' assume r': "rows w' (entityTable (en_name e), ex_recordId x) = Some row'"
    have old: "row_states_declared spec e row" if "rows w (entityTable (en_name e), ex_recordId x) = Some row" for row
      using that inv e unfolding states_declared_def by blast
    show "row_states_declared spec e row'"
      using tx r' old fired_states_declared[OF ok x] by auto
  qed
next
  case other
  then show ?thesis using inv by (simp add: states_declared_def)
qed

lemma app_reachable_states:
  assumes "spec_ok spec" "collectSqlErrors spec = []"
  shows "app_reachable spec w \<Longrightarrow> states_declared spec w"
proof (induction rule: app_reachable.induct)
  case (start w)
  then show ?case by (simp add: states_declared_def)
next
  case (step w w')
  then show ?case using app_step_states[OF assms] by blast
qed

subsection \<open>Accepted specs\<close>

lemma compileApp_checked: "compileApp emit spec = Inr files \<Longrightarrow> collectSqlErrors spec = []"
  by (auto simp: compileApp_def Let_def renderMigration_def split: sum.splits if_splits)


text \<open>
  C4.  Workflow states stay declared.  In an app whose spec the validator and the compiler
  accepted, however creates, updates, transitions and approvals interleave, every workflow state of
  every stored record is one of the values its enum field declares.
\<close>

theorem workflow_states_stay_declared:
  assumes "validateSpec structural typed input = Inr spec" "compileApp emit spec = Inr files"
    and "app_reachable spec w"
  shows "states_declared spec w"
  using app_reachable_states[OF validateSpec_ok[OF assms(1)] compileApp_checked[OF assms(2)] assms(3)] .

subsection \<open>A concrete app\<close>

definition approve :: "string list \<Rightarrow> transition_def" where
  "approve roles = \<lparr>tr_name = ''approve'', tr_from = ''draft'', tr_to = ''approved'', tr_guard = None,
     tr_approval = Some \<lparr>ap_count = 2, ap_roles = Some roles\<rparr>\<rparr>"

definition app_workflow :: "string \<Rightarrow> string \<Rightarrow> string list \<Rightarrow> workflow_def" where
  "app_workflow name field roles = \<lparr>wf_name = name, wf_entity = ''Vendor'', wf_stateField = field, wf_initial = ''draft'',
     wf_transitions = [approve roles]\<rparr>"

definition app_entity :: entity_def where
  "app_entity = \<lparr>en_name = ''Vendor'', en_description = None,
     en_fields = [demo_field ''name'' FString, demo_field ''status'' FEnum, demo_field ''payment'' FEnum], en_relations = None\<rparr>"

definition app_demo :: app_spec where
  "app_demo = \<lparr>sp_specVersion = ''0.2'',
     sp_app = \<lparr>am_name = ''Vendors'', am_slug = ''vendors'', am_description = None, am_version = ''1.0.0'',
        am_roles = Some [''clerk'', ''director'']\<rparr>,
     sp_entities = [app_entity], sp_pages = None,
     sp_workflows = Some [app_workflow ''review'' ''status'' [''clerk''], app_workflow ''pay'' ''payment'' [''director'']],
     sp_policies = None, sp_agents = None, sp_evidence = None\<rparr>"

definition no_emitters :: emitters where
  "no_emitters = \<lparr>em_value = (\<lambda>_. JNull), em_chars = \<lparr>ch_dash = ''-'', ch_arrow = ''>'', ch_geq = ''>''\<rparr>\<rparr>"

definition app_input :: json where
  "app_input = JObj [(''specVersion'', JStr ''0.2'')]"

lemma demo_validates: "validateSpec (\<lambda>_. None) (\<lambda>_. app_demo) app_input = Inr app_demo"
proof -
  have "semantic_errors app_demo = []" by code_simp
  then show ?thesis by (simp add: validateSpec_def app_input_def get_field_def)
qed

lemma demo_compiles: "\<exists>files. compileApp no_emitters app_demo = Inr files"
proof -
  have "collectSqlErrors app_demo = []" by code_simp
  then show ?thesis
    by (simp add: compileApp_def Let_def renderMigration_def unsupported_errors_def app_demo_def)
qed

lemma demo_workflow: "workflow_of app_demo app_entity (app_workflow ''review'' ''status'' [''clerk''])"
  by (simp add: workflow_of_def app_demo_def app_workflow_def app_entity_def)


definition empty_world :: world where
  "empty_world = \<lparr>persisted = [], outages = [], logged = [], rows = (\<lambda>_. None), approvals = []\<rparr>"

definition created_world :: world where
  "created_world = snd (post_record (\<lambda>_. None) (\<lambda>_. []) (\<lambda>_. []) (\<lambda>c v. v) app_demo (buildEntityModel app_demo app_entity) False
     ''1'' JNull None None (JObj [(''name'', JStr ''Acme'')]) empty_world)"

lemma created_reachable: "app_reachable app_demo created_world"
proof -
  have s: "app_reachable app_demo empty_world" by (rule app_reachable.start) (simp add: empty_world_def)
  show ?thesis
  proof (rule app_reachable.step[OF s app_step.create[where e = app_entity and store = "\<lambda>c v. v" and newid = "''1''" and spec = app_demo]])
    show "app_entity \<in> set (sp_entities app_demo)" by (simp add: app_demo_def)
    show "keeps_text app_entity (\<lambda>c v. v)" by (simp add: keeps_text_def)
    show "rows empty_world (entityTable (en_name app_entity), ''1'') = None" by (simp add: empty_world_def)
    show "post_record (\<lambda>_. None) (\<lambda>_. []) (\<lambda>_. []) (\<lambda>c v. v) app_demo (buildEntityModel app_demo app_entity) False
       ''1'' JNull None None (JObj [(''name'', JStr ''Acme'')]) empty_world =
       (fst (post_record (\<lambda>_. None) (\<lambda>_. []) (\<lambda>_. []) (\<lambda>c v. v) app_demo (buildEntityModel app_demo app_entity) False
       ''1'' JNull None None (JObj [(''name'', JStr ''Acme'')]) empty_world), created_world)"
      by (simp add: created_world_def)
  qed
qed

lemma created_row: "rows created_world (''vendor'', ''1'') \<noteq> None"
  by code_simp

theorem workflow_states_stay_declared_witness:
  "rows created_world (''vendor'', ''1'') \<noteq> None \<and> states_declared app_demo created_world"
proof -
  obtain files where "compileApp no_emitters app_demo = Inr files" using demo_compiles by blast
  with workflow_states_stay_declared[OF demo_validates _ created_reachable] created_row show ?thesis by blast
qed

subsection \<open>Approvals carry no workflow\<close>

definition app_exec :: "workflow_def \<Rightarrow> string list \<Rightarrow> string \<Rightarrow> exec_input" where
  "app_exec w roles sub = \<lparr>ex_model = buildEntityModel app_demo app_entity, ex_workflow = w, ex_transition = approve roles,
     ex_recordId = ''1'', ex_sub = sub, ex_roles = roles\<rparr>"

text \<open>
  Approvals are stored and counted by table, record and transition name, without the workflow, and
  the validator only keeps transition names apart within a workflow.  In this accepted app the
  review's first approval, by a clerk, counts as one of the two director approvals of the payment.
\<close>

definition after_review :: "wf_error + (world \<times> outcome)" where
  "after_review = transition_tx (\<lambda>_. []) (\<lambda>_. None) JNull (app_exec (app_workflow ''review'' ''status'' [''clerk'']) [''clerk''] ''carol'') created_world"

lemma approvals_cross_workflows:
  "case after_review of
     Inl _ \<Rightarrow> False
   | Inr (w1, out1) \<Rightarrow> out1 = Pending 1 2 \<and>
       (case transition_tx (\<lambda>_. []) (\<lambda>_. None) JNull
           (app_exec (app_workflow ''pay'' ''payment'' [''director'']) [''director''] ''dave'') w1 of
          Inl _ \<Rightarrow> False
        | Inr (w2, out2) \<Rightarrow> out2 = Transitioned ''approved'')"
  by code_simp

text \<open>
  The contract says that the approval path refuses an approver with a reserved prefix.  It does not: only
  session creation does.
\<close>

lemma reserved_prefix_may_approve:
  "case transition_tx (\<lambda>_. []) (\<lambda>_. None) JNull
       (app_exec (app_workflow ''review'' ''status'' [''clerk'']) [''clerk''] ''agent:helper'') created_world of
     Inl _ \<Rightarrow> False
   | Inr (w1, out1) \<Rightarrow> out1 = Pending 1 2"
  by code_simp

end
