(* ===== verification/Config.thy ===== *)
theory Config
  imports Records
begin

text \<open>
  The runtime's configuration (\<open>runtime/src/config.ts\<close>): reading it from the environment and the gates every
  configuration must pass.  The environment is the map from variable names to values;
  \<open>valid_url\<close> stands for what the platform's \<open>URL\<close> constructor accepts.
\<close>

record runtime_config =
  cfg_databaseUrl :: string
  cfg_issuer :: string
  cfg_clientId :: string
  cfg_clientSecret :: string
  cfg_rolesClaim :: string
  cfg_sessionSecret :: string
  cfg_baseUrl :: string
  cfg_port :: int
  cfg_devMode :: bool
  cfg_mcpServersConfigPath :: "string option"
  cfg_sandboxUrl :: "string option"
  cfg_sandboxToken :: "string option"

definition DEV_CLIENT_SECRET :: string where
  "DEV_CLIENT_SECRET = ''openrupiv-dev-secret''"

definition MIN_SESSION_SECRET_LENGTH :: nat where
  "MIN_SESSION_SECRET_LENGTH = 32"

definition MIN_SANDBOX_TOKEN_LENGTH :: nat where
  "MIN_SANDBOX_TOKEN_LENGTH = 32"

datatype config_problem =
    Missing string | Bad_url string | Too_short string nat | Bad_port string | Sandbox_unpaired

datatype config_error = Config_invalid "config_problem list" | Dev_credentials

type_synonym environment = "string \<Rightarrow> string option"

text \<open>An unset or blank variable is absent; any other value is taken as it is, blanks included.\<close>

definition readVar :: "environment \<Rightarrow> string \<Rightarrow> string option" where
  "readVar env name =
     (case env name of None \<Rightarrow> None | Some value \<Rightarrow> if trim value = [] then None else Some value)"

definition required :: "environment \<Rightarrow> string \<Rightarrow> config_problem list" where
  "required env name = (if readVar env name = None then [Missing name] else [])"

definition sandboxConfigProblems :: "(string \<Rightarrow> bool) \<Rightarrow> string option \<Rightarrow> string option \<Rightarrow> config_problem list" where
  "sandboxConfigProblems valid_url sandboxUrl sandboxToken =
     (case sandboxUrl of None \<Rightarrow> [] | Some u \<Rightarrow> if valid_url u then [] else [Bad_url ''SANDBOX_URL''])
     @ (case sandboxToken of None \<Rightarrow> []
        | Some t \<Rightarrow> if length t < MIN_SANDBOX_TOKEN_LENGTH then [Too_short ''SANDBOX_TOKEN'' (length t)] else [])
     @ (if (sandboxUrl = None) \<noteq> (sandboxToken = None) then [Sandbox_unpaired] else [])"

definition issuer_problems :: "(string \<Rightarrow> bool) \<Rightarrow> environment \<Rightarrow> config_problem list" where
  "issuer_problems valid_url env =
     (case readVar env ''OIDC_ISSUER'' of
        None \<Rightarrow> [Missing ''OIDC_ISSUER'']
      | Some u \<Rightarrow> if valid_url u then [] else [Bad_url ''OIDC_ISSUER''])"

definition secret_problems :: "environment \<Rightarrow> config_problem list" where
  "secret_problems env =
     (case readVar env ''SESSION_SECRET'' of
        None \<Rightarrow> [Missing ''SESSION_SECRET'']
      | Some s \<Rightarrow> if length s < MIN_SESSION_SECRET_LENGTH then [Too_short ''SESSION_SECRET'' (length s)] else [])"

text \<open>\<open>Number(portRaw)\<close>, an integer from 1 to 65535; 3000 by default.\<close>

definition read_port :: "environment \<Rightarrow> config_problem list \<times> int" where
  "read_port env =
     (case readVar env ''PORT'' of
        None \<Rightarrow> ([], 3000)
      | Some raw \<Rightarrow>
          (case int_of_num (str_to_num raw) of
             Some p \<Rightarrow> if p < 1 \<or> p > 65535 then ([Bad_port raw], 3000) else ([], p)
           | None \<Rightarrow> ([Bad_port raw], 3000)))"

text \<open>\<open>baseUrl.replace(/\/+$/, "") || baseUrl\<close>\<close>

definition strip_slashes :: "string \<Rightarrow> string" where
  "strip_slashes s = (let t = rev (dropWhile (\<lambda>c. c = CHR ''/'') (rev s)) in if t = [] then s else t)"

definition assertRuntimeConfig :: "(string \<Rightarrow> bool) \<Rightarrow> runtime_config \<Rightarrow> config_error option" where
  "assertRuntimeConfig valid_url config =
     (if length (cfg_sessionSecret config) < MIN_SESSION_SECRET_LENGTH
      then Some (Config_invalid [Too_short ''SESSION_SECRET'' (length (cfg_sessionSecret config))])
      else if cfg_clientSecret config = DEV_CLIENT_SECRET \<and> \<not> cfg_devMode config then Some Dev_credentials
      else (let problems = sandboxConfigProblems valid_url (cfg_sandboxUrl config) (cfg_sandboxToken config) in
            if problems \<noteq> [] then Some (Config_invalid problems) else None))"

definition base_url :: "environment \<Rightarrow> string" where
  "base_url env =
     (case readVar env ''BASE_URL'' of Some u \<Rightarrow> u | None \<Rightarrow> ''http://localhost:'' @ nat_str (nat (snd (read_port env))))"

definition config_problems :: "(string \<Rightarrow> bool) \<Rightarrow> environment \<Rightarrow> config_problem list" where
  "config_problems valid_url env =
     required env ''DATABASE_URL'' @ issuer_problems valid_url env @ required env ''OIDC_CLIENT_ID''
     @ required env ''OIDC_CLIENT_SECRET'' @ secret_problems env @ fst (read_port env)
     @ sandboxConfigProblems valid_url (readVar env ''SANDBOX_URL'') (readVar env ''SANDBOX_TOKEN'')
     @ (if valid_url (base_url env) then [] else [Bad_url ''BASE_URL''])"

definition configFromEnv :: "(string \<Rightarrow> bool) \<Rightarrow> environment \<Rightarrow> config_error + runtime_config" where
  "configFromEnv valid_url env =
     (let problems = config_problems valid_url env in
      if problems \<noteq> [] then Inl (Config_invalid problems)
      else (let config = \<lparr>cfg_databaseUrl = the (readVar env ''DATABASE_URL''), cfg_issuer = the (readVar env ''OIDC_ISSUER''),
                  cfg_clientId = the (readVar env ''OIDC_CLIENT_ID''), cfg_clientSecret = the (readVar env ''OIDC_CLIENT_SECRET''),
                  cfg_rolesClaim = (case readVar env ''OIDC_ROLES_CLAIM'' of None \<Rightarrow> ''roles'' | Some c \<Rightarrow> c),
                  cfg_sessionSecret = the (readVar env ''SESSION_SECRET''), cfg_baseUrl = strip_slashes (base_url env),
                  cfg_port = snd (read_port env), cfg_devMode = (env ''OPENRUPIV_DEV_MODE'' = Some ''true''),
                  cfg_mcpServersConfigPath = readVar env ''MCP_SERVERS_CONFIG'',
                  cfg_sandboxUrl = readVar env ''SANDBOX_URL'', cfg_sandboxToken = readVar env ''SANDBOX_TOKEN''\<rparr>
            in case assertRuntimeConfig valid_url config of Some e \<Rightarrow> Inl e | None \<Rightarrow> Inr config))"

text \<open>
  Every configuration the runtime starts with passed the gates: a long session secret, no bundled
  client secret outside development mode, a port in range, the sandbox pair complete or absent
  with a valid URL and a long token; and starting is refused with \<open>ERR_DEV_CREDENTIALS\<close> exactly when
  everything else is in order.
\<close>

theorem configuration_passes_the_gates:
  "case configFromEnv valid_url env of
     Inr c \<Rightarrow> config_problems valid_url env = [] \<and> 32 \<le> length (cfg_sessionSecret c) \<and>
       (cfg_clientSecret c \<noteq> DEV_CLIENT_SECRET \<or> env ''OPENRUPIV_DEV_MODE'' = Some ''true'') \<and>
       1 \<le> cfg_port c \<and> cfg_port c \<le> 65535 \<and> valid_url (cfg_issuer c) \<and>
       (case (cfg_sandboxUrl c, cfg_sandboxToken c) of
          (None, None) \<Rightarrow> True
        | (Some u, Some t) \<Rightarrow> valid_url u \<and> 32 \<le> length t
        | _ \<Rightarrow> False)
   | Inl Dev_credentials \<Rightarrow> config_problems valid_url env = [] \<and> readVar env ''OIDC_CLIENT_SECRET'' = Some DEV_CLIENT_SECRET \<and>
       env ''OPENRUPIV_DEV_MODE'' \<noteq> Some ''true''
   | Inl (Config_invalid ps) \<Rightarrow> ps \<noteq> [] \<and> ps = config_problems valid_url env"
proof (cases "config_problems valid_url env = []")
  case True
  have port: "1 \<le> snd (read_port env) \<and> snd (read_port env) \<le> 65535"
    by (auto simp: read_port_def split: option.splits)
  have present: "readVar env ''OIDC_CLIENT_SECRET'' \<noteq> None" "readVar env ''SESSION_SECRET'' \<noteq> None" "readVar env ''OIDC_ISSUER'' \<noteq> None"
    using True by (auto simp: config_problems_def required_def secret_problems_def issuer_problems_def split: option.splits if_splits)
  have secret: "32 \<le> length (the (readVar env ''SESSION_SECRET''))"
    using True present by (auto simp: config_problems_def secret_problems_def MIN_SESSION_SECRET_LENGTH_def split: if_splits)
  have issuer: "valid_url (the (readVar env ''OIDC_ISSUER''))"
    using True present by (auto simp: config_problems_def issuer_problems_def split: if_splits)
  have sandbox: "sandboxConfigProblems valid_url (readVar env ''SANDBOX_URL'') (readVar env ''SANDBOX_TOKEN'') = []"
    using True by (simp add: config_problems_def)
  then have pair: "case (readVar env ''SANDBOX_URL'', readVar env ''SANDBOX_TOKEN'') of
      (None, None) \<Rightarrow> True | (Some u, Some t) \<Rightarrow> valid_url u \<and> 32 \<le> length t | _ \<Rightarrow> False"
    by (auto simp: sandboxConfigProblems_def MIN_SANDBOX_TOKEN_LENGTH_def split: option.splits if_splits)
  show ?thesis
    using True port present secret issuer sandbox pair
    by (auto simp: configFromEnv_def assertRuntimeConfig_def Let_def MIN_SESSION_SECRET_LENGTH_def)
next
  case False
  then show ?thesis by (simp add: configFromEnv_def Let_def)
qed

definition demo_env :: environment where
  "demo_env = map_of [(''DATABASE_URL'', ''postgres://db''), (''OIDC_ISSUER'', ''https://idp''), (''OIDC_CLIENT_ID'', ''app''),
     (''OIDC_CLIENT_SECRET'', ''openrupiv-dev-secret''), (''SESSION_SECRET'', ''0123456789abcdef0123456789abcdef''),
     (''OPENRUPIV_DEV_MODE'', ''true'')]"

lemma demo_vars:
  "readVar demo_env ''DATABASE_URL'' = Some ''postgres://db''" "readVar demo_env ''OIDC_ISSUER'' = Some ''https://idp''"
  "readVar demo_env ''OIDC_CLIENT_ID'' = Some ''app''" "readVar demo_env ''OIDC_CLIENT_SECRET'' = Some DEV_CLIENT_SECRET"
  "readVar demo_env ''SESSION_SECRET'' = Some ''0123456789abcdef0123456789abcdef''" "readVar demo_env ''PORT'' = None"
  "readVar demo_env ''SANDBOX_URL'' = None" "readVar demo_env ''SANDBOX_TOKEN'' = None" "readVar demo_env ''OIDC_ROLES_CLAIM'' = None"
  "demo_env ''OPENRUPIV_DEV_MODE'' = Some ''true''"
  by code_simp+

theorem configuration_passes_the_gates_witness:
  "\<exists>c. configFromEnv (\<lambda>u. True) demo_env = Inr c \<and> cfg_clientSecret c = DEV_CLIENT_SECRET \<and>
     1 \<le> cfg_port c \<and> cfg_port c \<le> 65535 \<and> demo_env ''OPENRUPIV_DEV_MODE'' = Some ''true''"
proof -
  have "config_problems (\<lambda>u. True) demo_env = []"
    by (simp add: config_problems_def required_def issuer_problems_def secret_problems_def read_port_def
        sandboxConfigProblems_def demo_vars MIN_SESSION_SECRET_LENGTH_def)
  then obtain c where c: "configFromEnv (\<lambda>u. True) demo_env = Inr c" "cfg_clientSecret c = DEV_CLIENT_SECRET"
    by (simp add: configFromEnv_def Let_def assertRuntimeConfig_def demo_vars sandboxConfigProblems_def MIN_SESSION_SECRET_LENGTH_def)
  show ?thesis using configuration_passes_the_gates[of "\<lambda>u. True" demo_env] unfolding c(1) using c demo_vars(10) by auto
qed

end
