(* ===== verification/Migrate.thy ===== *)
theory Migrate
  imports Db Js_Values
begin

text \<open>
  The tables the runtime owns and the migration runner (\<open>runtime/src/migrate.ts\<close>).  What a SQL text does to
  the schema is the parameter \<open>run\<close> (\<^term>\<open>None\<close>: the statement fails); the migration directory
  is its listing and the reader of its files.
\<close>

subsection \<open>Infrastructure tables\<close>

definition AUDIT_LOG_DDL :: string where
  "AUDIT_LOG_DDL = join_with newline
     [''CREATE TABLE IF NOT EXISTS audit_log ('',
      ''  seq         bigint PRIMARY KEY,'',
      ''  timestamp   timestamptz NOT NULL,'',
      ''  event       text        NOT NULL,'',
      ''  actor       text        NOT NULL,'',
      ''  actor_type  text        NOT NULL CHECK (actor_type IN ('human','agent','system')),'',
      ''  subject     text,'',
      ''  decision    text        CHECK (decision IN ('allow','deny')),'',
      ''  attributes  jsonb       NOT NULL DEFAULT '{}'::jsonb,'',
      ''  prev_hash   char(64)    NOT NULL,'',
      ''  hash        char(64)    NOT NULL UNIQUE'',
      '');'',
      ''CREATE INDEX IF NOT EXISTS audit_log_event_idx ON audit_log (event);'',
      ''CREATE INDEX IF NOT EXISTS audit_log_actor_idx ON audit_log (actor);'']"

definition AGENT_PROPOSALS_DDL :: string where
  "AGENT_PROPOSALS_DDL = join_with newline
     [''CREATE TABLE IF NOT EXISTS agent_proposals ('',
      ''  id           uuid        PRIMARY KEY DEFAULT gen_random_uuid(),'',
      ''  agent_id     text        NOT NULL,'',
      ''  entity_table text        NOT NULL,'',
      ''  record_id    uuid        NOT NULL,'',
      ''  workflow     text        NOT NULL,'',
      ''  transition   text        NOT NULL,'',
      ''  rationale    text        NOT NULL,'',
      ''  created_at   timestamptz NOT NULL DEFAULT now()'',
      '');'',
      ''CREATE INDEX IF NOT EXISTS agent_proposals_record_idx ON agent_proposals (entity_table, record_id);'',
      ''CREATE INDEX IF NOT EXISTS agent_proposals_workflow_idx ON agent_proposals (workflow);'']"

definition A2A_TASKS_DDL :: string where
  "A2A_TASKS_DDL = join_with newline
     [''CREATE TABLE IF NOT EXISTS a2a_tasks ('',
      ''  id uuid PRIMARY KEY DEFAULT gen_random_uuid(),'',
      ''  client_id text NOT NULL,'',
      ''  skill text NOT NULL,'',
      ''  status text NOT NULL CHECK (status IN ('submitted','working','completed','failed')),'',
      ''  result jsonb,'',
      ''  created_at timestamptz NOT NULL DEFAULT now(),'',
      ''  updated_at timestamptz NOT NULL DEFAULT now()'',
      '')'']"

definition MIGRATIONS_DDL :: string where
  "MIGRATIONS_DDL = join_with newline
     [''CREATE TABLE IF NOT EXISTS _migrations ('',
      ''  name text PRIMARY KEY,'',
      ''  applied_at timestamptz NOT NULL DEFAULT now()'',
      '')'']"

definition APPROVALS_DDL :: string where
  "APPROVALS_DDL = join_with newline
     [''CREATE TABLE IF NOT EXISTS workflow_approvals ('',
      ''  id uuid PRIMARY KEY DEFAULT gen_random_uuid(),'',
      ''  entity_table text NOT NULL,'',
      ''  record_id uuid NOT NULL,'',
      ''  transition text NOT NULL,'',
      ''  approver_sub text NOT NULL,'',
      ''  created_at timestamptz NOT NULL DEFAULT now(),'',
      ''  UNIQUE (entity_table, record_id, transition, approver_sub)'',
      '')'']"

definition INFRA_STATEMENTS :: "string list" where
  "INFRA_STATEMENTS =
     [''CREATE EXTENSION IF NOT EXISTS pgcrypto'', MIGRATIONS_DDL, APPROVALS_DDL, AUDIT_LOG_DDL, AGENT_PROPOSALS_DDL, A2A_TASKS_DDL]"

text \<open>Each statement in turn; the first that fails stops the start, and what ran before it stays.\<close>

fun run_all :: "(string \<Rightarrow> 's \<Rightarrow> 's option) \<Rightarrow> string list \<Rightarrow> 's \<Rightarrow> bool \<times> 's" where
  "run_all run [] s = (True, s)"
| "run_all run (sql # rest) s = (case run sql s of None \<Rightarrow> (False, s) | Some s' \<Rightarrow> run_all run rest s')"

definition ensureInfraTables :: "(string \<Rightarrow> 's \<Rightarrow> 's option) \<Rightarrow> 's \<Rightarrow> bool \<times> 's" where
  "ensureInfraTables run s = run_all run INFRA_STATEMENTS s"

subsection \<open>Migrations\<close>

record 's migrated =
  mg_schema :: 's
  mg_applied :: "string list"

datatype mig_error = App_dir_unreadable | File_unreadable string | Migration_failed string

datatype tx_failure = Query_failed

text \<open>The two statements of the runner itself may fail as well (an outage, another runtime's row).\<close>

record mig_plan =
  pl_faults :: faults
  pl_landed :: bool
  pl_select_fails :: bool
  pl_insert_fails :: bool

definition migrate_tx :: "(string \<Rightarrow> 's \<Rightarrow> 's option) \<Rightarrow> mig_plan \<Rightarrow> string \<Rightarrow> string \<Rightarrow> 's migrated \<Rightarrow> tx_failure + ('s migrated \<times> bool)" where
  "migrate_tx run plan name sql db =
     (if pl_select_fails plan then Inl Query_failed
      else if List.member (mg_applied db) name then Inr (db, False)
      else (case run sql (mg_schema db) of
          None \<Rightarrow> Inl Query_failed
        | Some s' \<Rightarrow>
            if pl_insert_fails plan then Inl Query_failed
            else Inr (db\<lparr>mg_schema := s', mg_applied := mg_applied db @ [name]\<rparr>, True)))"

fun apply_files ::
  "(string \<Rightarrow> 's \<Rightarrow> 's option) \<Rightarrow> (string \<Rightarrow> string option) \<Rightarrow> (string \<Rightarrow> mig_plan) \<Rightarrow> string list \<Rightarrow> string list \<Rightarrow> 's migrated \<Rightarrow>
   (mig_error + string list) \<times> 's migrated" where
  "apply_files run read plan applied [] db = (Inr applied, db)"
| "apply_files run read plan applied (name # names) db =
     (case read name of
        None \<Rightarrow> (Inl (File_unreadable name), db)
      | Some sql \<Rightarrow>
          (case transaction (pl_faults (plan name)) (pl_landed (plan name)) db (migrate_tx run (plan name) name sql) of
             (db', Inl e, _) \<Rightarrow> (Inl (Migration_failed name), db')
           | (db', Inr didApply, _) \<Rightarrow>
               apply_files run read plan (if didApply then applied @ [name] else applied) names db'))"

definition sql_files :: "string list \<Rightarrow> string list" where
  "sql_files entries = sort (filter (\<lambda>name. ends_with name ''.sql'') entries)"

definition applyMigrations ::
  "(string \<Rightarrow> 's \<Rightarrow> 's option) \<Rightarrow> string list option \<Rightarrow> (string \<Rightarrow> string option) \<Rightarrow> (string \<Rightarrow> mig_plan) \<Rightarrow> 's migrated \<Rightarrow>
   (mig_error + string list) \<times> 's migrated" where
  "applyMigrations run entries read plan db =
     (case entries of
        None \<Rightarrow> (Inl App_dir_unreadable, db)
      | Some es \<Rightarrow> apply_files run read plan [] (sql_files es) db)"

subsection \<open>What a run does\<close>

text \<open>The texts of the named files, run one after another.\<close>

fun run_files :: "(string \<Rightarrow> 's \<Rightarrow> 's option) \<Rightarrow> (string \<Rightarrow> string option) \<Rightarrow> string list \<Rightarrow> 's \<Rightarrow> 's option" where
  "run_files run read [] s = Some s"
| "run_files run read (name # names) s =
     (case read name of
        None \<Rightarrow> None
      | Some sql \<Rightarrow> (case run sql s of None \<Rightarrow> None | Some s' \<Rightarrow> run_files run read names s'))"

text \<open>
  The new state: some files, in the given order and none of them applied before, were run, each
  once, and recorded.
\<close>

definition advanced :: "(string \<Rightarrow> 's \<Rightarrow> 's option) \<Rightarrow> (string \<Rightarrow> string option) \<Rightarrow> string list \<Rightarrow> 's migrated \<Rightarrow> string list \<Rightarrow> 's migrated \<Rightarrow> bool" where
  "advanced run read names db new db' \<longleftrightarrow>
     subseq new names \<and> set new \<inter> set (mg_applied db) = {} \<and> mg_applied db' = mg_applied db @ new \<and>
     run_files run read new (mg_schema db) = Some (mg_schema db')"

lemma migrate_tx_step:
  assumes "read name = Some sql" "migrate_tx run plan name sql db = Inr (db', didApply)"
  shows "advanced run read [name] db (if didApply then [name] else []) db' \<and> name \<in> set (mg_applied db')"
  using assms by (auto simp: migrate_tx_def advanced_def split: if_splits option.splits)

lemma advanced_none: "advanced run read names db [] db"
  by (simp add: advanced_def)

lemma run_files_append:
  "run_files run read (xs @ ys) s = (case run_files run read xs s of None \<Rightarrow> None | Some s' \<Rightarrow> run_files run read ys s')"
  by (induction xs arbitrary: s) (auto split: option.splits)

lemma advanced_append:
  "advanced run read [name] db xs db1 \<Longrightarrow> advanced run read names db1 ys db2 \<Longrightarrow> advanced run read (name # names) db (xs @ ys) db2"
  using list_emb_append_mono[of "(=)" xs "[name]" ys names]
  by (auto simp: advanced_def run_files_append)

lemma apply_files_advances:
  "apply_files run read plan applied names db = (res, db') \<Longrightarrow>
   \<exists>new. advanced run read names db new db' \<and>
     (case res of Inr out \<Rightarrow> out = applied @ new \<and> set names \<subseteq> set (mg_applied db') | Inl e \<Rightarrow> True)"
proof (induction names arbitrary: applied db)
  case Nil
  then show ?case by (auto simp: advanced_none)
next
  case (Cons name names)
  show ?case
  proof (cases "read name")
    case None
    then show ?thesis using Cons.prems by (auto intro: exI[of _ "[]"] advanced_none)
  next
    case (Some sql)
    obtain db1 r evs where tx: "transaction (pl_faults (plan name)) (pl_landed (plan name)) db (migrate_tx run (plan name) name sql) = (db1, r, evs)"
      by (metis prod_cases3)
    show ?thesis
    proof (cases r)
      case (Inl e)
      then have res: "res = Inl (Migration_failed name)" "db' = db1" using Cons.prems Some tx by auto
      have "db1 = db \<or> (\<exists>a. migrate_tx run (plan name) name sql db = Inr (db1, a))"
        using transaction_state[of "pl_faults (plan name)" "pl_landed (plan name)" db "migrate_tx run (plan name) name sql"] tx by simp
      then obtain new where "advanced run read [name] db new db1"
        using migrate_tx_step[where run = run and read = read, OF Some] advanced_none[of run read "[name]" db] by blast
      then have "advanced run read (name # names) db (new @ []) db1" by (rule advanced_append[OF _ advanced_none])
      then show ?thesis using res by auto
    next
      case (Inr didApply)
      then have "migrate_tx run (plan name) name sql db = Inr (db1, didApply)"
        using transaction_ok[of "pl_faults (plan name)" "pl_landed (plan name)" db "migrate_tx run (plan name) name sql" didApply] tx by simp
      note one = migrate_tx_step[where read = read, OF Some this]
      have "apply_files run read plan (if didApply then applied @ [name] else applied) names db1 = (res, db')"
        using Cons.prems Some tx Inr by simp
      from Cons.IH[OF this] obtain new where new: "advanced run read names db1 new db'"
        "case res of Inr out \<Rightarrow> out = (if didApply then applied @ [name] else applied) @ new \<and> set names \<subseteq> set (mg_applied db') | Inl e \<Rightarrow> True"
        by blast
      have "advanced run read (name # names) db ((if didApply then [name] else []) @ new) db'"
        using advanced_append[OF conjunct1[OF one] new(1)] .
      moreover have "set (mg_applied db1) \<subseteq> set (mg_applied db')" using new(1) unfolding advanced_def by (metis Un_upper1 set_append)
      then have "name \<in> set (mg_applied db')" using one by blast
      moreover have "case res of Inr out \<Rightarrow> out = applied @ (if didApply then [name] else []) @ new \<and> set (name # names) \<subseteq> set (mg_applied db')
          | Inl e \<Rightarrow> True"
        using new(2) \<open>name \<in> set (mg_applied db')\<close> by (cases res) simp_all
      ultimately show ?thesis by blast
    qed
  qed
qed

lemma sorted_subseq: "subseq xs ys \<Longrightarrow> sorted ys \<Longrightarrow> sorted xs"
  by (metis subseq_conv_nths sorted_nths)

lemma apply_files_readable:
  "apply_files run read plan applied names db = (Inr out, db') \<Longrightarrow> list_all (\<lambda>n. read n \<noteq> None) names"
  by (induction names arbitrary: applied db) (auto split: option.splits prod.splits sum.splits)

definition quiet :: "string \<Rightarrow> mig_plan" where
  "quiet name = \<lparr>pl_faults = no_faults, pl_landed = False, pl_select_fails = False, pl_insert_fails = False\<rparr>"

lemma apply_files_again:
  "list_all (\<lambda>n. read n \<noteq> None) names \<Longrightarrow> set names \<subseteq> set (mg_applied db) \<Longrightarrow>
   apply_files run read quiet applied names db = (Inr applied, db)"
  by (induction names) (auto simp: quiet_def migrate_tx_def)

text \<open>
  C24.  Migrations run once, in order, and never half.  Whatever fails on the way, a run takes the
  schema forward by whole migration files: some of the directory's \<open>.sql\<close> files, in ascending
  order of their names, none of them applied before, each run exactly once and recorded with it;
  a file that failed leaves no trace unless its COMMIT landed.  A run that succeeds reports exactly these files,
  and running again does nothing.
\<close>

theorem migrations_run_once_in_order:
  "case applyMigrations run entries read plan db of (res, db') \<Rightarrow>
     \<exists>new. advanced run read (sql_files (case entries of None \<Rightarrow> [] | Some es \<Rightarrow> es)) db new db' \<and> sorted new \<and>
       (case res of
          Inl e \<Rightarrow> True
        | Inr out \<Rightarrow> out = new \<and> applyMigrations run entries read quiet db' = (Inr [], db'))"
proof (cases entries)
  case None
  then show ?thesis by (auto simp: applyMigrations_def intro!: exI[of _ "[]"] advanced_none)
next
  case (Some es)
  obtain res db' where run: "apply_files run read plan [] (sql_files es) db = (res, db')" by force
  obtain new where new: "advanced run read (sql_files es) db new db'"
      "case res of Inr out \<Rightarrow> out = [] @ new \<and> set (sql_files es) \<subseteq> set (mg_applied db') | Inl e \<Rightarrow> True"
    using apply_files_advances[OF run] by blast
  have "sorted (sql_files es)" by (simp add: sql_files_def)
  then have sorted: "sorted new" using new(1) sorted_subseq[of new] unfolding advanced_def by blast
  have again: "apply_files run read quiet [] (sql_files es) db' = (Inr [], db')" if "res = Inr out" for out
    using apply_files_again[OF apply_files_readable[OF run[unfolded that]]] new(2) that by auto
  show ?thesis
    using new sorted again by (auto simp: applyMigrations_def Some run split: sum.splits)
qed

end
