(* ===== verification/Admin_Audit.thy ===== *)
theory Admin_Audit
  imports Audit_Export Policy
begin

text \<open>
  The audit routes of the administrator (\<open>runtime/src/admin.ts\<close>): the policy decision that is
  recorded before it is enforced, the page of the chain and the export.  The routes work on the
  audit table itself; \<open>q\<close> says what fails while the decision is appended, and
  \<open>others\<close> is what other connections append before the read.
\<close>

definition AUDIT_READ_ROLES :: "string list" where
  "AUDIT_READ_ROLES = [''admin'', ''auditor'']"

datatype audit_read_error =
    Read_unauthenticated | Read_audit_failed | Read_forbidden | Read_not_positive string | Read_bad_format | Read_failed

fun audit_read_status :: "audit_read_error \<Rightarrow> nat" where
  "audit_read_status Read_unauthenticated = 401"
| "audit_read_status Read_audit_failed = 500"
| "audit_read_status Read_forbidden = 403"
| "audit_read_status (Read_not_positive name) = 400"
| "audit_read_status Read_bad_format = 400"
| "audit_read_status Read_failed = 500"

definition positiveInt :: "string option \<Rightarrow> string \<Rightarrow> int \<Rightarrow> audit_read_error + int" where
  "positiveInt raw name fallback =
     (case raw of
        None \<Rightarrow> Inr fallback
      | Some s \<Rightarrow>
          (case int_of_num (str_to_num s) of
             None \<Rightarrow> Inl (Read_not_positive name)
           | Some n \<Rightarrow> if n < 1 then Inl (Read_not_positive name) else Inr n))"

definition effective_roles :: "string list \<Rightarrow> string list \<Rightarrow> string list" where
  "effective_roles appRoles roles = filter (\<lambda>role. role \<notin> set appRoles) roles"

definition audit_read_decision :: "(policy_input \<Rightarrow> policy_decision) \<Rightarrow> string list \<Rightarrow> string \<Rightarrow> string list \<Rightarrow> policy_decision" where
  "audit_read_decision pdp appRoles sub roles =
     pdp \<lparr>pi_subject_id = sub, pi_subject_roles = effective_roles appRoles roles, pi_action = ''audit.read'',
          pi_type = ''audit_log'', pi_id = None, pi_allowedRoles = AUDIT_READ_ROLES, pi_context = None\<rparr>"

definition audit_read_event :: "string \<Rightarrow> policy_decision \<Rightarrow> audit_input" where
  "audit_read_event sub d =
     \<lparr>au_event = ''policy.decision'', au_actor = sub, au_actorType = ''human'', au_subject = Some ''audit_log'',
      au_decision = Some (if pd_allow d then ''allow'' else ''deny''),
      au_attributes = JObj [(''action'', JStr ''audit.read''), (''allowedRoles'', str_list AUDIT_READ_ROLES),
        (''policyId'', JStr (pd_policyId d)), (''reason'', JStr (pd_reason d))]\<rparr>"

text \<open>What the store is given: hash, driver and the decision point.\<close>

record audit_deps =
  ad_sha :: "string \<Rightarrow> string"
  ad_fmt :: "int \<Rightarrow> string"
  ad_dstr :: "int \<Rightarrow> string"
  ad_parse_date :: "string \<Rightarrow> int option"
  ad_pg_row :: "json list \<Rightarrow> fields option"
  ad_pdp :: "policy_input \<Rightarrow> policy_decision"
  ad_appRoles :: "string list"

definition authorizeAuditRead ::
  "audit_deps \<Rightarrow> append_request \<Rightarrow> (string \<times> string list) option \<Rightarrow> audit_table \<Rightarrow> audit_read_error option \<times> audit_table" where
  "authorizeAuditRead deps q session tbl =
     (case session of
        None \<Rightarrow> (Some Read_unauthenticated, tbl)
      | Some (sub, roles) \<Rightarrow>
          (let d = audit_read_decision (ad_pdp deps) (ad_appRoles deps) sub roles in
           case append_once (ad_sha deps) (ad_fmt deps) (ad_dstr deps) (ad_pg_row deps) (q\<lparr>rq_input := audit_read_event sub d\<rparr>) tbl of
             (tbl', None) \<Rightarrow> (Some Read_audit_failed, tbl')
           | (tbl', Some r) \<Rightarrow> (if pd_allow d then None else Some Read_forbidden, tbl')))"

record audit_page =
  ap_verify :: "verify_result option"
  ap_fromSeq :: int
  ap_limit :: int
  ap_records :: "audit_record list"

text \<open>\<open>verify\<close> pages through the whole table; a page per record and one more always suffice.\<close>

definition admin_audit ::
  "audit_deps \<Rightarrow> append_request \<Rightarrow> (audit_table \<Rightarrow> audit_table) \<Rightarrow> (string \<times> string list) option \<Rightarrow>
   string option \<Rightarrow> string option \<Rightarrow> string option \<Rightarrow> audit_table \<Rightarrow> (audit_read_error + audit_page) \<times> audit_table" where
  "admin_audit deps q others session fromSeqRaw limitRaw verify tbl =
     (case authorizeAuditRead deps q session tbl of
        (Some e, tbl1) \<Rightarrow> (Inl e, tbl1)
      | (None, tbl1) \<Rightarrow>
          (case positiveInt fromSeqRaw ''fromSeq'' 1 of
             Inl e \<Rightarrow> (Inl e, tbl1)
           | Inr fromSeq \<Rightarrow>
               (case positiveInt limitRaw ''limit'' 100 of
                  Inl e \<Rightarrow> (Inl e, tbl1)
                | Inr wanted \<Rightarrow>
                    (let limit = min wanted 500; tbl2 = others tbl1 in
                     (Inr \<lparr>ap_verify = (if verify = Some ''full''
                             then store_verify (ad_sha deps) (ad_fmt deps) (ad_dstr deps) (Suc (length tbl2)) tbl2 else None),
                           ap_fromSeq = fromSeq, ap_limit = limit,
                           ap_records = store_read (ad_fmt deps) (ad_dstr deps) tbl2 (Some fromSeq) (Some (nat limit))\<rparr>, tbl2)))))"

definition export_format_of :: "string option \<Rightarrow> export_format option" where
  "export_format_of raw =
     map_of [(''jsonl'', Jsonl), (''otlp'', Otlp), (''syslog'', Syslog)] (case raw of None \<Rightarrow> ''jsonl'' | Some f \<Rightarrow> f)"

fun export_content_type :: "export_format \<Rightarrow> string" where
  "export_content_type Jsonl = ''application/x-ndjson; charset=utf-8''"
| "export_content_type Otlp = ''application/json; charset=utf-8''"
| "export_content_type Syslog = ''text/plain; charset=utf-8''"

text \<open>The body is the stream of the table as it is while it is read.\<close>

definition admin_export ::
  "audit_deps \<Rightarrow> append_request \<Rightarrow> (audit_table \<Rightarrow> audit_table) \<Rightarrow> (string \<times> string list) option \<Rightarrow> string option \<Rightarrow>
   audit_table \<Rightarrow> (audit_read_error + (string \<times> string list)) \<times> audit_table" where
  "admin_export deps q others session formatRaw tbl =
     (case authorizeAuditRead deps q session tbl of
        (Some e, tbl1) \<Rightarrow> (Inl e, tbl1)
      | (None, tbl1) \<Rightarrow>
          (case export_format_of formatRaw of
             None \<Rightarrow> (Inl Read_bad_format, tbl1)
           | Some format \<Rightarrow>
               (let tbl2 = others tbl1 in
                case exportStream (ad_fmt deps) (ad_dstr deps) (ad_parse_date deps) tbl2 (Suc (length tbl2)) format of
                  None \<Rightarrow> (Inl Read_failed, tbl2)
                | Some body \<Rightarrow> (Inr (export_content_type format, body), tbl2))))"

subsection \<open>The decision is on the record\<close>

lemma scrubbed_object_ok:
  assumes "\<And>kv p. kv \<in> set kvs \<Longrightarrow> json_ok (fst (walk p (snd kv)))"
  shows "json_ok (fst (walk q (JObj kvs)))"
proof -
  let ?e = "\<lambda>kv. let p = child_path q (fst kv) in
      if secret_key (fst kv) then ((fst kv, JStr REDACTED), [p]) else (let r = walk p (snd kv) in ((fst kv, fst r), snd r))"
  let ?es = "map fst (map ?e kvs)"
  have "json_ok (snd kv)" if "kv \<in> set (obj_build ?es)" for kv
  proof -
    have "kv \<in> set ?es" using that set_obj_build by blast
    then obtain x where "x \<in> set kvs" "kv = fst (?e x)" by auto
    then show ?thesis using assms by (simp add: Let_def)
  qed
  moreover have "fst (walk q (JObj kvs)) = JObj (obj_build ?es)" by (simp add: Let_def)
  ultimately show ?thesis by (simp add: distinct_obj_build del: walk.simps map_map)
qed

lemma audit_read_attributes: "attributes_ok (audit_read_event sub d)"
  unfolding attributes_ok_def audit_read_event_def scrubAttributes_def
  by (auto simp: coalesce_def str_list_def AUDIT_READ_ROLES_def simp del: walk.simps(2) intro!: scrubbed_object_ok)

lemma append_once_record:
  assumes good: "verified_table sha fmt dstr pg_row tbl" and attrs: "attributes_ok (rq_input q)"
    and app: "append_once sha fmt dstr pg_row q tbl = (tbl', Some r)"
  shows "\<exists>prev. r = appendRecord sha prev (rq_input q) (rq_now q)"
proof -
  let ?body = "appendInTransaction sha fmt dstr pg_row (rq_faults q) (rq_input q) (rq_now q)"
  have "fst (snd (transaction (rq_tx q) (rq_landed q) tbl ?body)) = Inr r" "fst (transaction (rq_tx q) (rq_landed q) tbl ?body) = tbl'"
    using app by (auto simp: append_once_def store_append_def split: prod.splits sum.splits)
  then have "?body tbl = Inr (tbl', r)" using transaction_ok[of "rq_tx q" "rq_landed q" tbl ?body r] by simp
  then show ?thesis using append_extends_history[of sha fmt dstr pg_row] good attrs unfolding verified_table_def by blast
qed

lemma authorized_read:
  assumes good: "verified_table (ad_sha deps) (ad_fmt deps) (ad_dstr deps) (ad_pg_row deps) tbl"
    and pdp: "ad_pdp deps = decide (authz_evaluate show_v)"
    and run: "authorizeAuditRead deps q session tbl = (None, tbl')"
  shows "\<exists>sub roles role r. session = Some (sub, roles) \<and> role \<in> set roles \<and> role \<in> set AUDIT_READ_ROLES \<and> role \<notin> set (ad_appRoles deps) \<and>
    history (ad_fmt deps) (ad_dstr deps) tbl' = history (ad_fmt deps) (ad_dstr deps) tbl @ [r] \<and>
    au_event r = ''policy.decision'' \<and> au_actor r = sub \<and> au_decision r = Some ''allow''"
proof -
  obtain sub roles where s: "session = Some (sub, roles)" using run by (cases session) (auto simp: authorizeAuditRead_def)
  define d where "d = audit_read_decision (ad_pdp deps) (ad_appRoles deps) sub roles"
  define q' where "q' = q\<lparr>rq_input := audit_read_event sub d\<rparr>"
  obtain r where app: "append_once (ad_sha deps) (ad_fmt deps) (ad_dstr deps) (ad_pg_row deps) q' tbl = (tbl', Some r)"
    and allow: "pd_allow d"
    using run s by (auto simp: authorizeAuditRead_def Let_def d_def q'_def split: prod.splits option.splits if_splits)
  have attrs: "attributes_ok (rq_input q')" by (simp add: q'_def audit_read_attributes)
  have hist: "history (ad_fmt deps) (ad_dstr deps) tbl' = history (ad_fmt deps) (ad_dstr deps) tbl @ [r]"
    using append_once_step[OF good attrs app] by simp
  have "\<exists>prev. r = appendRecord (ad_sha deps) prev (rq_input q') (rq_now q')"
    using append_once_record[OF good attrs app] by blast
  then have rec: "au_event r = ''policy.decision''" "au_actor r = sub" "au_decision r = Some ''allow''"
    using allow by (auto simp: appendRecord_fields q'_def audit_read_event_def)
  have "entitled \<lparr>pi_subject_id = sub, pi_subject_roles = effective_roles (ad_appRoles deps) roles, pi_action = ''audit.read'',
          pi_type = ''audit_log'', pi_id = None, pi_allowedRoles = AUDIT_READ_ROLES, pi_context = None\<rparr>"
    using allow unfolding d_def audit_read_decision_def pdp by (rule authz.sound)
  then have "\<exists>role. role \<in> set roles \<and> role \<in> set AUDIT_READ_ROLES \<and> role \<notin> set (ad_appRoles deps)"
    by (auto simp: entitled_def AUDIT_READ_ROLES_def effective_roles_def)
  then show ?thesis using s hist rec by blast
qed

lemma store_read_bounded: "length (store_read fmt dstr tbl from (Some (nat (min n 500)))) \<le> 500"
proof -
  have "nat (min n 500) \<le> 500" by linarith
  then show ?thesis by (simp add: store_read_def select_page_def)
qed


definition demo_audit_deps :: audit_deps where
  "demo_audit_deps = \<lparr>ad_sha = (\<lambda>s. s), ad_fmt = (\<lambda>_. []), ad_dstr = (\<lambda>_. []), ad_parse_date = (\<lambda>_. None), ad_pg_row = plain_row,
     ad_pdp = decide (authz_evaluate (\<lambda>_. [])), ad_appRoles = [''clerk'']\<rparr>"

definition demo_append :: append_request where
  "demo_append = \<lparr>rq_faults = (\<lambda>_. False), rq_tx = (\<lambda>_. False), rq_landed = True,
     rq_input = demo_input [], rq_now = ''2024-01-01T00:00:00.000Z''\<rparr>"

lemma plain_append:
  assumes "attributes_ok input"
  shows "\<exists>tbl r. append_once sha fmt dstr plain_row (demo_append\<lparr>rq_input := input\<rparr>) [] = (tbl, Some r)"
proof -
  define r where "r = appendRecord sha None input ''2024-01-01T00:00:00.000Z''"
  have "json_ok (au_attributes r)" using assms by (simp add: r_def appendRecord_fields attributes_ok_def)
  then have "json_parse (stringify_val fmt (au_attributes r)) = Some (au_attributes r)"
    by (simp add: stringify_val_def stringify_jtext json_parse_jtext)
  then obtain row where row: "plain_row (insertParams fmt r) = Some row" by (simp add: plain_row_def insertParams_def)
  have "appendRecord sha None (input\<lparr>au_attributes := fst (scrubAttributes (au_attributes input))\<rparr>) ''2024-01-01T00:00:00.000Z'' = r"
    unfolding r_def by (rule appendRecord_scrubbed)
  then show ?thesis using row
    by (simp add: append_once_def store_append_def demo_append_def transaction_def appendInTransaction_def Let_def
        select_tail_def insert_row_def)
qed

lemma demo_audit_page:
  "\<exists>page tbl1. admin_audit demo_audit_deps demo_append (\<lambda>t. t) (Some (''ann'', [''clerk'', ''auditor''])) None (Some ''7'') None [] = (Inr page, tbl1)"
proof -
  define d where "d = audit_read_decision (ad_pdp demo_audit_deps) (ad_appRoles demo_audit_deps) ''ann'' [''clerk'', ''auditor'']"
  have allow: "pd_allow d"
    by (simp add: d_def audit_read_decision_def demo_audit_deps_def authz_decide entitled_def effective_roles_def AUDIT_READ_ROLES_def)
  obtain tbl r where "append_once (\<lambda>s. s) (\<lambda>_. []) (\<lambda>_. []) plain_row (demo_append\<lparr>rq_input := audit_read_event ''ann'' d\<rparr>) [] = (tbl, Some r)"
    using plain_append[OF audit_read_attributes] by blast
  then have auth: "authorizeAuditRead demo_audit_deps demo_append (Some (''ann'', [''clerk'', ''auditor''])) [] = (None, tbl)"
    using allow by (simp add: authorizeAuditRead_def Let_def d_def demo_audit_deps_def)
  have "positiveInt (Some ''7'') ''limit'' 100 = Inr 7" by code_simp
  then show ?thesis by (simp add: admin_audit_def auth positiveInt_def Let_def)
qed


end
