(* ===== verification/Server.thy ===== *)
theory Server
  imports System Config Migrate
begin

text \<open>
  Starting the runtime (\<open>runtime/src/server.ts\<close>): reading the app directory, the order of the start, what is
  mounted, and the replies to errors (with \<open>errors.ts\<close>).  Files are a reader from paths to contents;
  whether the agent runtime, the MCP client and the listening socket can be created is given by the plan of the start.
\<close>

subsection \<open>Errors as replies\<close>

datatype thrown =
    Runtime_error string string nat "json option"
  | Other_error "int option" string

text \<open>\<open>RuntimeError.toBody\<close>\<close>

definition toBody :: "string \<Rightarrow> string \<Rightarrow> json option \<Rightarrow> json" where
  "toBody code message details =
     JObj ([(''error'', JStr code), (''message'', JStr message)] @ (case details of None \<Rightarrow> [] | Some d \<Rightarrow> [(''details'', d)]))"

fun error_reply :: "thrown \<Rightarrow> int \<times> json" where
  "error_reply (Runtime_error code message status details) = (int status, toBody code message details)"
| "error_reply (Other_error status message) =
     (let statusCode = (case status of Some s \<Rightarrow> s | None \<Rightarrow> 500) in
      if statusCode \<ge> 500 then (500, toBody ''ERR_INTERNAL'' ''internal server error'' None)
      else (statusCode, toBody ''ERR_BAD_REQUEST'' message None))"

definition not_found_reply :: "string \<Rightarrow> string \<Rightarrow> int \<times> json" where
  "not_found_reply http_method url =
     (404, toBody ''ERR_NOT_FOUND'' (''no route '' @ http_method @ '' '' @ takeWhile (\<lambda>c. c \<noteq> CHR ''?'') url) None)"

subsection \<open>Reading the app directory\<close>

datatype start_error =
    App_dir_missing | App_spec_unparsable | App_spec_invalid spec_errors | Bad_config config_error | Mcp_config_bad
  | Infra_failed | Migrations_failed mig_error | Agents_failed | Mcp_client_failed | Listen_failed

definition loadAppDir :: "(json \<Rightarrow> string list option) \<Rightarrow> (json \<Rightarrow> app_spec) \<Rightarrow> string option \<Rightarrow> start_error + app_spec" where
  "loadAppDir structural typed raw =
     (case raw of
        None \<Rightarrow> Inl App_dir_missing
      | Some contents \<Rightarrow>
          (case json_parse contents of
             None \<Rightarrow> Inl App_spec_unparsable
           | Some parsed \<Rightarrow>
               (case validateSpec structural typed parsed of
                  Inl errors \<Rightarrow> Inl (App_spec_invalid errors)
                | Inr spec \<Rightarrow> Inr spec)))"

definition loadMcpServersConfig :: "string option \<Rightarrow> start_error + json" where
  "loadMcpServersConfig raw =
     (case raw of
        None \<Rightarrow> Inl Mcp_config_bad
      | Some contents \<Rightarrow>
          (case json_parse contents of
             None \<Rightarrow> Inl Mcp_config_bad
           | Some parsed \<Rightarrow> (case js_prop parsed ''servers'' of JArr servers \<Rightarrow> Inr parsed | _ \<Rightarrow> Inl Mcp_config_bad)))"

subsection \<open>The server and the start\<close>

datatype route_group =
    Health_route | Auth_routes | Entity_routes | Workflow_routes | Audit_routes | Agent_routes | A2a_routes | Mcp_routes | Page_routes

definition route_groups :: "bool \<Rightarrow> bool \<Rightarrow> route_group list" where
  "route_groups agents a2a =
     [Health_route, Auth_routes, Entity_routes, Workflow_routes, Audit_routes]
     @ (if agents then [Agent_routes] else []) @ (if agents \<and> a2a then [A2a_routes] else []) @ [Mcp_routes, Page_routes]"

record start_plan =
  st_read :: "string \<Rightarrow> string option"
  st_entries :: "string list option"
  st_migration :: "string \<Rightarrow> mig_plan"
  st_agents_ok :: bool
  st_mcp_ok :: bool
  st_listen_ok :: bool

definition createServer :: "(string \<Rightarrow> bool) \<Rightarrow> start_plan \<Rightarrow> runtime_config \<Rightarrow> bool \<Rightarrow> bool \<Rightarrow> start_error + route_group list" where
  "createServer valid_url plan config agents a2a =
     (case assertRuntimeConfig valid_url config of
        Some e \<Rightarrow> Inl (Bad_config e)
      | None \<Rightarrow>
          (case (case cfg_mcpServersConfigPath config of
                   None \<Rightarrow> Inr JUndef
                 | Some p \<Rightarrow> if p = [] then Inr JUndef else loadMcpServersConfig (st_read plan p)) of
             Inl e \<Rightarrow> Inl e
           | Inr servers \<Rightarrow> if st_mcp_ok plan then Inr (route_groups agents a2a) else Inl Mcp_client_failed))"

text \<open>\<open>buildAgentDeps\<close>: nothing without the sandbox pair; else the agent runtime, or a throw.\<close>

definition buildAgentDeps :: "start_plan \<Rightarrow> runtime_config \<Rightarrow> start_error + bool" where
  "buildAgentDeps plan config =
     (if cfg_sandboxUrl config = None \<or> cfg_sandboxToken config = None then Inr False
      else if st_agents_ok plan then Inr True else Inl Agents_failed)"

datatype start_event = Pool_opened | Migrated "string list" | Mounted "route_group list" | Listening int | Pool_closed

text \<open>The runtime's own tables, then the app's migrations.\<close>

definition prepare_database ::
  "(string \<Rightarrow> 's \<Rightarrow> 's option) \<Rightarrow> start_plan \<Rightarrow> string \<Rightarrow> 's migrated \<Rightarrow> (start_error + string list) \<times> 's migrated" where
  "prepare_database run plan dir db =
     (case ensureInfraTables run (mg_schema db) of
        (False, s) \<Rightarrow> (Inl Infra_failed, db\<lparr>mg_schema := s\<rparr>)
      | (True, s) \<Rightarrow>
          (case applyMigrations run (st_entries plan) (\<lambda>n. st_read plan (dir @ ''/migrations/'' @ n)) (st_migration plan)
              (db\<lparr>mg_schema := s\<rparr>) of
             (Inl e, db1) \<Rightarrow> (Inl (Migrations_failed e), db1)
           | (Inr applied, db1) \<Rightarrow> (Inr applied, db1)))"

text \<open>\<open>config\<close> is the caller's configuration, if it gives one.\<close>

definition start_config :: "(string \<Rightarrow> bool) \<Rightarrow> environment \<Rightarrow> runtime_config option \<Rightarrow> config_error + runtime_config" where
  "start_config valid_url env config = (case config of Some c \<Rightarrow> Inr c | None \<Rightarrow> configFromEnv valid_url env)"

definition serveAppDir ::
  "(string \<Rightarrow> bool) \<Rightarrow> (json \<Rightarrow> string list option) \<Rightarrow> (json \<Rightarrow> app_spec) \<Rightarrow> (string \<Rightarrow> 's \<Rightarrow> 's option) \<Rightarrow> environment \<Rightarrow>
   start_plan \<Rightarrow> string \<Rightarrow> runtime_config option \<Rightarrow> 's migrated \<Rightarrow> (start_error + runtime_config) \<times> 's migrated \<times> start_event list" where
  "serveAppDir valid_url structural typed run env plan dir config db =
     (case start_config valid_url env config of
        Inl e \<Rightarrow> (Inl (Bad_config e), db, [])
      | Inr cfg \<Rightarrow>
          (case loadAppDir structural typed (st_read plan (dir @ ''/spec.json'')) of
             Inl e \<Rightarrow> (Inl e, db, [])
           | Inr spec \<Rightarrow>
               (case prepare_database run plan dir db of
                  (Inl e, db1) \<Rightarrow> (Inl e, db1, [Pool_opened, Pool_closed])
                | (Inr applied, db1) \<Rightarrow>
                    (case buildAgentDeps plan cfg of
                       Inl e \<Rightarrow> (Inl e, db1, [Pool_opened, Migrated applied, Pool_closed])
                     | Inr agents \<Rightarrow>
                         (case createServer valid_url plan cfg agents False of
                            Inl e \<Rightarrow> (Inl e, db1, [Pool_opened, Migrated applied])
                          | Inr routes \<Rightarrow>
                              if st_listen_ok plan
                              then (Inr cfg, db1, [Pool_opened, Migrated applied, Mounted routes, Listening (cfg_port cfg)])
                              else (Inl Listen_failed, db1, [Pool_opened, Migrated applied, Mounted routes]))))))"

subsection \<open>A start that succeeds\<close>

definition started :: "start_event list \<Rightarrow> bool" where
  "started evs \<longleftrightarrow> list_ex (\<lambda>e. case e of Listening p \<Rightarrow> True | _ \<Rightarrow> False) evs"

lemma loadAppDir_ok: "loadAppDir structural typed raw = Inr spec \<Longrightarrow> spec_ok spec"
  by (auto simp: loadAppDir_def split: option.splits sum.splits dest: validateSpec_ok)

lemma createServer_ok:
  "createServer valid_url plan config agents a2a = Inr routes \<Longrightarrow>
   assertRuntimeConfig valid_url config = None \<and> routes = route_groups agents a2a"
  by (auto simp: createServer_def split: option.splits sum.splits if_splits)

lemma buildAgentDeps_ok:
  "buildAgentDeps plan config = Inr agents \<Longrightarrow> agents \<longleftrightarrow> cfg_sandboxUrl config \<noteq> None \<and> cfg_sandboxToken config \<noteq> None"
  by (auto simp: buildAgentDeps_def split: if_splits)

lemma applied_all_files:
  assumes "applyMigrations run entries read plan db = (Inr applied, db')"
  shows "\<exists>es. entries = Some es \<and> set (sql_files es) \<subseteq> set (mg_applied db')"
proof -
  obtain es where es: "entries = Some es" "apply_files run read plan [] (sql_files es) db = (Inr applied, db')"
    using assms by (auto simp: applyMigrations_def split: option.splits)
  from apply_files_advances[OF this(2)] show ?thesis using es(1) by auto
qed

lemma prepare_ok:
  assumes "prepare_database run plan dir db = (Inr applied, db')"
  shows "\<exists>es s. ensureInfraTables run (mg_schema db) = (True, s) \<and> st_entries plan = Some es \<and> set (sql_files es) \<subseteq> set (mg_applied db')"
proof -
  obtain s where s: "ensureInfraTables run (mg_schema db) = (True, s)"
    using assms by (auto simp: prepare_database_def split: prod.splits bool.splits)
  then have "applyMigrations run (st_entries plan) (\<lambda>n. st_read plan (dir @ ''/migrations/'' @ n)) (st_migration plan) (db\<lparr>mg_schema := s\<rparr>)
      = (Inr applied, db')"
    using assms by (simp add: prepare_database_def split: prod.splits sum.splits)
  then show ?thesis using applied_all_files s by blast
qed

lemma prepare_failed:
  "prepare_database run plan dir db = (Inl e, db') \<Longrightarrow> (e = Infra_failed \<or> (\<exists>m. e = Migrations_failed m))"
  by (auto simp: prepare_database_def split: prod.splits bool.splits sum.splits)

lemma loadAppDir_failed: "loadAppDir structural typed raw = Inl e \<Longrightarrow> e \<noteq> Infra_failed \<and> (\<forall>m. e \<noteq> Migrations_failed m) \<and> e \<noteq> Agents_failed"
  by (auto simp: loadAppDir_def split: option.splits sum.splits)

lemma createServer_failed:
  "createServer valid_url plan config agents a2a = Inl e \<Longrightarrow>
   e \<noteq> Infra_failed \<and> (\<forall>m. e \<noteq> Migrations_failed m) \<and> e \<noteq> Agents_failed \<and> (\<forall>es. e \<noteq> App_spec_invalid es)"
  by (auto simp: createServer_def loadMcpServersConfig_def split: option.splits sum.splits if_splits json.splits)

text \<open>
  C11.  The runtime serves only a checked app on a migrated database.  If the start gets as far as
  listening, then the configuration, given or read from the environment, passed every gate, the spec was
  read and is valid, the runtime's own tables were created and every migration file of the directory
  is recorded as applied; it listens on the configured port, with the agent routes mounted
  exactly when the sandbox pair is configured and without the A2A routes.  A start that fails never
  listens; with an invalid spec it does not touch the database, and a failure of the tables, the
  migrations or the agent wiring closes the pool it had opened.
\<close>

theorem only_a_checked_app_is_served:
  "case serveAppDir valid_url structural typed run env plan dir config db of
     (Inr cfg, db', evs) \<Rightarrow>
       assertRuntimeConfig valid_url cfg = None \<and> start_config valid_url env config = Inr cfg \<and>
       (\<exists>spec. loadAppDir structural typed (st_read plan (dir @ ''/spec.json'')) = Inr spec \<and> spec_ok spec) \<and>
       (\<exists>es s. ensureInfraTables run (mg_schema db) = (True, s) \<and> st_entries plan = Some es \<and> set (sql_files es) \<subseteq> set (mg_applied db')) \<and>
       (\<exists>applied. evs = [Pool_opened, Migrated applied,
          Mounted (route_groups (cfg_sandboxUrl cfg \<noteq> None \<and> cfg_sandboxToken cfg \<noteq> None) False), Listening (cfg_port cfg)])
   | (Inl e, db', evs) \<Rightarrow>
       \<not> started evs \<and>
       (case e of
          Infra_failed \<Rightarrow> last evs = Pool_closed
        | Migrations_failed m \<Rightarrow> last evs = Pool_closed
        | Agents_failed \<Rightarrow> last evs = Pool_closed
        | App_spec_invalid errors \<Rightarrow> evs = [] \<and> db' = db
        | _ \<Rightarrow> True)"
proof (cases "start_config valid_url env config")
  case (Inl e)
  then show ?thesis by (simp add: serveAppDir_def started_def)
next
  case cfg: (Inr cfg)
  show ?thesis
  proof (cases "loadAppDir structural typed (st_read plan (dir @ ''/spec.json''))")
    case (Inl e)
    then show ?thesis using cfg loadAppDir_failed[OF Inl] by (cases e) (auto simp: serveAppDir_def started_def)
  next
    case spec: (Inr spec)
    obtain res db1 where prep: "prepare_database run plan dir db = (res, db1)" by force
    show ?thesis
    proof (cases res)
      case (Inl e)
      then show ?thesis using cfg spec prep prepare_failed[of run plan dir db e db1] by (auto simp: serveAppDir_def started_def)
    next
      case applied: (Inr applied)
      note db = prepare_ok[OF prep[unfolded applied]]
      show ?thesis
      proof (cases "buildAgentDeps plan cfg")
        case (Inl e)
        then have "e = Agents_failed" by (auto simp: buildAgentDeps_def split: if_splits)
        then show ?thesis using Inl cfg spec prep applied by (simp add: serveAppDir_def started_def)
      next
        case agents: (Inr agents)
        show ?thesis
        proof (cases "createServer valid_url plan cfg agents False")
          case (Inl e)
          then show ?thesis using cfg spec prep applied agents createServer_failed[OF Inl]
            by (cases e) (auto simp: serveAppDir_def started_def)
        next
          case (Inr routes)
          then show ?thesis
            using cfg spec prep applied agents db createServer_ok[OF Inr] buildAgentDeps_ok[OF agents] loadAppDir_ok[OF spec]
            by (simp add: serveAppDir_def started_def)
        qed
      qed
    qed
  qed
qed

text \<open>
  The pool is closed when the tables, the migrations or the agent wiring fail, but not when building or starting
  the server does: an unreadable MCP configuration leaves it open.
\<close>

lemma pool_stays_open_on_a_failed_server:
  assumes "start_config valid_url env config = Inr cfg" "loadAppDir structural typed (st_read plan (dir @ ''/spec.json'')) = Inr spec"
    and "prepare_database run plan dir db = (Inr applied, db')" "buildAgentDeps plan cfg = Inr agents"
    and "assertRuntimeConfig valid_url cfg = None" "cfg_mcpServersConfigPath cfg = Some (c # path)" "st_read plan (c # path) = None"
  shows "serveAppDir valid_url structural typed run env plan dir config db = (Inl Mcp_config_bad, db', [Pool_opened, Migrated applied])"
  using assms by (simp add: serveAppDir_def createServer_def loadMcpServersConfig_def)

end
