(* ===== verification/Logger.thy ===== *)
theory Logger
  imports Js_Json
begin

text \<open>
  Structured logging (\<open>runtime/src/logger.ts\<close>): the deep redaction every log field goes through, and the log line.
  The values a caller may pass are JSON values, dates and errors; \<open>fmt\<close> is \<open>toISOString\<close>, and
  an invalid date, on which it throws, is \<^term>\<open>L_date None\<close>.
\<close>

datatype log_value =
    L_value json
  | L_date "int option"
  | L_error string string json json
  | L_array "log_value list"
  | L_object "(string \<times> log_value) list"

lemma log_size_arr [termination_simp]: "v \<in> set vs \<Longrightarrow> size v < Suc (size_list size vs)"
  using size_list_estimation'[of v vs "size v" size] by simp

lemma log_size_obj [termination_simp]:
  "kv \<in> set kvs \<Longrightarrow> size (snd kv) < Suc (size_list (size_prod (\<lambda>_. 0) size) kvs)"
  using size_list_estimation'[of kv kvs "size (snd kv)" "size_prod (\<lambda>_. 0) size"]
  by (cases kv) simp

text \<open>\<open>REDACT_KEY_PATTERN.test(key)\<close>\<close>

definition sensitive_key :: "string \<Rightarrow> bool" where
  "sensitive_key key \<longleftrightarrow>
     list_ex (contains_ci key)
       [''token'', ''secret'', ''password'', ''passwd'', ''authorization'', ''cookie'', ''session'', ''credential'', ''apikey'', ''api-key'',
        ''api_key'', ''verifier'', ''assertion'', ''privatekey'', ''private-key'', ''private_key'']"

definition MAX_DEPTH :: nat where
  "MAX_DEPTH = 10"

text \<open>A throw in one element is a throw of the whole.\<close>

fun all_some :: "'a option list \<Rightarrow> 'a list option" where
  "all_some [] = Some []"
| "all_some (None # xs) = None"
| "all_some (Some x # xs) = map_option (Cons x) (all_some xs)"

definition opt_member :: "string \<Rightarrow> json \<Rightarrow> fields" where
  "opt_member k v = (if v = JUndef then [] else [(k, v)])"

text \<open>Redaction at a depth; \<^term>\<open>None\<close> is a throw.  A plain value here is never an array or object.\<close>

function redact :: "(int \<Rightarrow> string) \<Rightarrow> nat \<Rightarrow> log_value \<Rightarrow> json option" where
  "redact fmt depth (L_value v) = Some (if depth > MAX_DEPTH then JStr ''[REDACTED:depth]'' else v)"
| "redact fmt depth (L_date d) =
     (if depth > MAX_DEPTH then Some (JStr ''[REDACTED:depth]'') else map_option (\<lambda>t. JStr (fmt t)) d)"
| "redact fmt depth (L_error name message code status) =
     Some (if depth > MAX_DEPTH then JStr ''[REDACTED:depth]''
       else JObj ([(''name'', JStr name), (''message'', JStr message)] @ opt_member ''code'' code @ opt_member ''statusCode'' status))"
| "redact fmt depth (L_array vs) =
     (if depth > MAX_DEPTH then Some (JStr ''[REDACTED:depth]'')
      else map_option JArr (all_some (map (\<lambda>v. redact fmt (Suc depth) v) vs)))"
| "redact fmt depth (L_object kvs) =
     (if depth > MAX_DEPTH then Some (JStr ''[REDACTED:depth]'')
      else map_option (\<lambda>ms. JObj (obj_build ms))
        (all_some (map (\<lambda>kv. map_option (Pair (fst kv))
            (if sensitive_key (fst kv) then Some (JStr ''[REDACTED]'') else redact fmt (Suc depth) (snd kv))) kvs)))"
  by pat_completeness auto
termination
  by (relation "measure (\<lambda>(fmt, depth, v). size v)") (auto simp: termination_simp)

text \<open>A log line: level, time and message, then the redacted fields, which may override them.\<close>

definition emit :: "(int \<Rightarrow> string) \<Rightarrow> string \<Rightarrow> string \<Rightarrow> (string \<times> log_value) list \<Rightarrow> string \<Rightarrow> string option" where
  "emit fmt level time fields msg =
     (case redact fmt 0 (L_object fields) of
        Some (JObj ms) \<Rightarrow>
          Some (stringify_val fmt (JObj (obj_build ([(''level'', JStr level), (''time'', JStr time), (''msg'', JStr msg)] @ ms))) @ newline)
      | _ \<Rightarrow> None)"

subsection \<open>What reaches the log\<close>

text \<open>Under a sensitive key there is nothing but the mark.\<close>

fun masked :: "json \<Rightarrow> bool" where
  "masked (JArr vs) = (\<forall>v \<in> set vs. masked v)"
| "masked (JObj kvs) = (\<forall>kv \<in> set kvs. if sensitive_key (fst kv) then snd kv = JStr ''[REDACTED]'' else masked (snd kv))"
| "masked v = True"

text \<open>Plain values and the \<open>code\<close> and \<open>statusCode\<close> of errors are primitive.\<close>

fun flat_values :: "log_value \<Rightarrow> bool" where
  "flat_values (L_value v) = (\<not> is_object v)"
| "flat_values (L_date d) = True"
| "flat_values (L_error name message code status) = (\<not> is_object code \<and> \<not> is_object status)"
| "flat_values (L_array vs) = (\<forall>v \<in> set vs. flat_values v)"
| "flat_values (L_object kvs) = (\<forall>kv \<in> set kvs. flat_values (snd kv))"

lemma flat_masked: "\<not> is_object v \<Longrightarrow> masked v"
  by (cases v) simp_all

lemma all_some_set: "all_some xs = Some ys \<Longrightarrow> y \<in> set ys \<Longrightarrow> Some y \<in> set xs"
  by (induction xs arbitrary: ys rule: all_some.induct) auto

lemma masked_object:
  assumes "\<And>x. x \<in> set ms \<Longrightarrow> if sensitive_key (fst x) then snd x = JStr ''[REDACTED]'' else masked (snd x)"
  shows "masked (JObj (obj_build ms))"
  unfolding masked.simps using assms set_obj_build[of ms] by blast

lemma redact_masked: "flat_values v \<Longrightarrow> redact fmt depth v = Some r \<Longrightarrow> masked r"
proof (induction fmt depth v arbitrary: r rule: redact.induct)
  case (3 fmt depth name message code status)
  have "\<not> sensitive_key ''name''" "\<not> sensitive_key ''message''" "\<not> sensitive_key ''code''" "\<not> sensitive_key ''statusCode''" by code_simp+
  then show ?case using 3 flat_masked[of code] flat_masked[of status]
    by (auto simp: opt_member_def split: if_splits)
next
  case (4 fmt depth vs)
  show ?case
  proof (cases "depth > MAX_DEPTH")
    case False
    then obtain rs where r: "r = JArr rs" "all_some (map (\<lambda>v. redact fmt (Suc depth) v) vs) = Some rs" using 4(3) by auto
    have "masked x" if "x \<in> set rs" for x
    proof -
      have "Some x \<in> set (map (\<lambda>v. redact fmt (Suc depth) v) vs)" by (rule all_some_set[OF r(2) that])
      then obtain v where "v \<in> set vs" "redact fmt (Suc depth) v = Some x" by auto
      then show ?thesis using 4(1)[OF False] 4(2) by simp
    qed
    then show ?thesis using r(1) by simp
  qed (use 4 in auto)
next
  case (5 fmt depth kvs)
  show ?case
  proof (cases "depth > MAX_DEPTH")
    case False
    let ?m = "\<lambda>kv. map_option (Pair (fst kv)) (if sensitive_key (fst kv) then Some (JStr ''[REDACTED]'') else redact fmt (Suc depth) (snd kv))"
    obtain ms where r: "r = JObj (obj_build ms)" "all_some (map ?m kvs) = Some ms" using 5(3) False by auto
    have "if sensitive_key (fst x) then snd x = JStr ''[REDACTED]'' else masked (snd x)" if "x \<in> set ms" for x
    proof -
      have "Some x \<in> ?m ` set kvs" using all_some_set[OF r(2) that] by simp
      then obtain kv where kv: "Some x = ?m kv" "kv \<in> set kvs" by (rule imageE)
      from kv(1)[symmetric] show ?thesis using 5(1)[OF False kv(2)] 5(2) kv(2) by (auto split: if_splits)
    qed
    then show ?thesis unfolding r(1) by (intro masked_object) blast
  qed (use 5 in auto)
qed (auto intro: flat_masked split: if_splits)



text \<open>
  Logging is meant never to crash its caller, and the serialisation is guarded for that; the redaction before it is
  not, and an invalid date in the fields throws.
\<close>

lemma invalid_date_crashes_the_logger: "emit fmt level time [(''at'', L_date None)] msg = None"
proof -
  have "\<not> sensitive_key ''at''" by code_simp
  then show ?thesis by (simp add: emit_def MAX_DEPTH_def)
qed

end
