(* ===== verification/Sandbox_Log.thy ===== *)
theory Sandbox_Log
  imports Logger
begin

text \<open>
  The sidecar's own logger (\<open>packages/sandbox/src/logger.ts\<close>), and the request log of the runtime, which is the
  \<open>onResponse\<close> hook of \<open>packages/runtime/src/server.ts\<close>.

  The sidecar's redaction sees a value through \<open>Object.entries\<close>: \<^term>\<open>S_object\<close> is any object that is not an array,
  with its own enumerable members, so a \<open>Date\<close> is one without members and an \<open>Error\<close> one without its message.  A BigInt
  is a value that \<open>JSON.stringify\<close> rejects.
\<close>

datatype side_value =
    S_value json
  | S_bigint
  | S_array "side_value list"
  | S_object "(string \<times> side_value) list"

text \<open>\<open>REDACT_KEY_PATTERN.test(key)\<close>\<close>

definition side_sensitive :: "string \<Rightarrow> bool" where
  "side_sensitive key \<longleftrightarrow>
     list_ex (contains_ci key) [''token'', ''secret'', ''password'', ''passwd'', ''authorization'', ''cookie'', ''credential'']"

text \<open>Redaction at a depth; \<^term>\<open>None\<close> is a result that still holds a BigInt.\<close>

function side_redact :: "nat \<Rightarrow> side_value \<Rightarrow> json option" where
  "side_redact depth (S_value v) = Some (if depth > 10 then JStr ''[REDACTED:depth]'' else v)"
| "side_redact depth S_bigint = (if depth > 10 then Some (JStr ''[REDACTED:depth]'') else None)"
| "side_redact depth (S_array vs) =
     (if depth > 10 then Some (JStr ''[REDACTED:depth]'')
      else map_option JArr (all_some (map (\<lambda>v. side_redact (Suc depth) v) vs)))"
| "side_redact depth (S_object kvs) =
     (if depth > 10 then Some (JStr ''[REDACTED:depth]'')
      else map_option (\<lambda>ms. JObj (obj_build ms))
        (all_some (map (\<lambda>kv. map_option (Pair (fst kv))
            (if side_sensitive (fst kv) then Some (JStr ''[REDACTED]'') else side_redact (Suc depth) (snd kv))) kvs)))"
  by pat_completeness auto
termination
  by (relation "measure (\<lambda>(depth, v). size v)") (auto simp: termination_simp)

text \<open>A log line.  A record that cannot be written is replaced by one that says so.\<close>

definition side_extra :: "(string \<times> side_value) list \<Rightarrow> fields" where
  "side_extra fields =
     (case side_redact 0 (S_object fields) of
        None \<Rightarrow> [(''logError'', JStr ''fields were not serializable'')]
      | Some (JObj ms) \<Rightarrow> ms
      | Some _ \<Rightarrow> [])"

definition side_emit :: "string \<Rightarrow> string \<Rightarrow> (string \<times> side_value) list \<Rightarrow> string \<Rightarrow> string" where
  "side_emit level time fields msg =
     stringify_val (\<lambda>_. [])
       (JObj (obj_build ([(''level'', JStr level), (''time'', JStr time), (''msg'', JStr msg)] @ side_extra fields))) @ newline"

subsection \<open>What reaches the sidecar's log\<close>

fun side_masked :: "json \<Rightarrow> bool" where
  "side_masked (JArr vs) = (\<forall>v \<in> set vs. side_masked v)"
| "side_masked (JObj kvs) = (\<forall>kv \<in> set kvs. if side_sensitive (fst kv) then snd kv = JStr ''[REDACTED]'' else side_masked (snd kv))"
| "side_masked v = True"

fun side_flat :: "side_value \<Rightarrow> bool" where
  "side_flat (S_value v) = (\<not> is_object v)"
| "side_flat S_bigint = True"
| "side_flat (S_array vs) = (\<forall>v \<in> set vs. side_flat v)"
| "side_flat (S_object kvs) = (\<forall>kv \<in> set kvs. side_flat (snd kv))"

lemma side_masked_object:
  assumes "\<And>x. x \<in> set ms \<Longrightarrow> if side_sensitive (fst x) then snd x = JStr ''[REDACTED]'' else side_masked (snd x)"
  shows "side_masked (JObj (obj_build ms))"
  unfolding side_masked.simps using assms set_obj_build[of ms] by blast

lemma all_some_map: "all_some (map f xs) = Some ys \<Longrightarrow> y \<in> set ys \<Longrightarrow> \<exists>x \<in> set xs. f x = Some y"
  using all_some_set[of "map f xs" ys y] by auto

lemma side_redact_masked: "side_flat v \<Longrightarrow> side_redact depth v = Some r \<Longrightarrow> side_masked r"
proof (induction depth v arbitrary: r rule: side_redact.induct)
  case (1 depth v)
  then show ?case by (cases v) (auto split: if_splits)
next
  case (3 depth vs)
  then show ?case by (fastforce split: if_splits dest: all_some_map)
next
  case (4 depth kvs)
  show ?case
  proof (cases "depth > 10")
    case False
    then obtain ms where r: "r = JObj (obj_build ms)" and ms: "all_some (map (\<lambda>kv. map_option (Pair (fst kv))
        (if side_sensitive (fst kv) then Some (JStr ''[REDACTED]'') else side_redact (Suc depth) (snd kv))) kvs) = Some ms"
      using 4(3) by auto
    show ?thesis unfolding r
    proof (rule side_masked_object)
      fix x assume "x \<in> set ms"
      from all_some_map[OF ms this] obtain kv where kv: "kv \<in> set kvs" "map_option (Pair (fst kv))
          (if side_sensitive (fst kv) then Some (JStr ''[REDACTED]'') else side_redact (Suc depth) (snd kv)) = Some x" by blast
      show "if side_sensitive (fst x) then snd x = JStr ''[REDACTED]'' else side_masked (snd x)"
        using kv(2) 4(1)[OF False kv(1)] 4(2) kv(1) by (auto split: if_splits)
    qed
  qed (use 4 in auto)
qed (auto split: if_splits)

text \<open>
  Every line of the sidecar is the text of one masked record, whatever the caller passed; logging never throws.
\<close>

theorem sidecar_lines_are_masked:
  assumes "side_flat (S_object entries)"
  shows "\<exists>ms. side_emit level time entries msg = stringify_val (\<lambda>_. []) (JObj ms) @ newline \<and> side_masked (JObj ms)"
proof -
  have keys: "\<not> side_sensitive ''level''" "\<not> side_sensitive ''time''" "\<not> side_sensitive ''msg''" "\<not> side_sensitive ''logError''"
    by code_simp+
  have "\<forall>x \<in> set (side_extra entries). if side_sensitive (fst x) then snd x = JStr ''[REDACTED]'' else side_masked (snd x)"
  proof (cases "side_redact 0 (S_object entries)")
    case None
    then show ?thesis using keys(4) by (simp add: side_extra_def)
  next
    case (Some r)
    then show ?thesis using Some side_redact_masked[OF assms Some] by (cases r) (simp_all add: side_extra_def del: side_redact.simps)
  qed
  then have "side_masked (JObj (obj_build ([(''level'', JStr level), (''time'', JStr time), (''msg'', JStr msg)] @ side_extra entries)))"
    using keys by (intro side_masked_object) auto
  then show ?thesis unfolding side_emit_def by blast
qed

theorem sidecar_lines_are_masked_witness:
  "\<exists>ms. side_emit ''warn'' ''now'' [(''headers'', S_object [(''Authorization'', S_value (JStr ''Bearer hunter2''))])] ''sent'' =
     stringify_val (\<lambda>_. []) (JObj ms) @ newline \<and> side_masked (JObj ms)"
  by (rule sidecar_lines_are_masked) simp

text \<open>
  The pattern is said to duplicate the runtime's; it is weaker: all it masks the runtime masks, but an API key or a session
  goes through.  The error of a failed call leaves no message either.
\<close>

lemma sidecar_masks_less:
  "side_sensitive key \<Longrightarrow> sensitive_key key"
  "sensitive_key ''apiKey'' \<and> \<not> side_sensitive ''apiKey''"
  "sensitive_key ''session'' \<and> \<not> side_sensitive ''session''"
  by (auto simp: side_sensitive_def sensitive_key_def) (code_simp+)

subsection \<open>The request log of the runtime\<close>

text \<open>What the hook reads of a request and its reply; the duration is rounded by the engine.\<close>

record answered =
  an_method :: string
  an_url :: "string option"
  an_status :: json
  an_duration :: json
  an_sub :: "string option"

text \<open>The fields of the line: the path without the query string, never a header.\<close>

definition request_fields :: "answered \<Rightarrow> (string \<times> log_value) list" where
  "request_fields rq =
     [(''event'', L_value (JStr ''http.request'')), (''method'', L_value (JStr (an_method rq))),
      (''path'', L_value (JStr (hd (split_on (CHR ''?'') (case an_url rq of None \<Rightarrow> [] | Some u \<Rightarrow> u))))),
      (''statusCode'', L_value (an_status rq)), (''durationMs'', L_value (an_duration rq)),
      (''sub'', L_value (case an_sub rq of None \<Rightarrow> JUndef | Some s \<Rightarrow> JStr s))]"

definition request_line :: "(int \<Rightarrow> string) \<Rightarrow> string \<Rightarrow> answered \<Rightarrow> string option" where
  "request_line fmt time rq = emit fmt ''info'' time (request_fields rq) ''request completed''"

text \<open>
  The request log tells nothing of a query string, where the identity provider's codes and states are: whatever follows the
  first question mark of the URL, the line is the same.
\<close>

theorem request_lines_hide_the_query:
  assumes "CHR ''?'' \<notin> set path"
  shows "request_line fmt time (rq\<lparr>an_url := Some (path @ ''?'' @ query)\<rparr>) = request_line fmt time (rq\<lparr>an_url := Some path\<rparr>)"
  using assms split_on_append[OF assms, of query] by (simp add: request_line_def request_fields_def split_on_no_sep)

theorem request_lines_hide_the_query_witness:
  "\<exists>rq. request_line (\<lambda>_. []) ''now'' (rq\<lparr>an_url := Some (''/auth/callback'' @ ''?'' @ ''code=hunter2'')\<rparr>) =
     request_line (\<lambda>_. []) ''now'' (rq\<lparr>an_url := Some ''/auth/callback''\<rparr>)"
  by (intro exI request_lines_hide_the_query) simp

end
