(* ===== verification/Pages.thy ===== *)
theory Pages
  imports Entities Workflow_Props
begin

text \<open>
  The server-rendered pages (\<open>runtime/src/pages.ts\<close>): the escape every value goes through, the layout, the
  index, and the list, detail and form pages as the text they send.  \<open>fmt\<close> is \<open>toISOString\<close> and \<open>dstr\<close> the
  conversion of a date by \<open>String\<close>.  The rows of a table, in the order the query asks for, are the argument
  \<open>listed\<close>; a single row and the approvals are read from the world.
\<close>

definition dq :: "string \<Rightarrow> string" where
  "dq s = [CHR 0x22] @ s @ [CHR 0x22]"

text \<open>An attribute of a tag, as the templates write it.\<close>

definition attr :: "string \<Rightarrow> string \<Rightarrow> string" where
  "attr name v = '' '' @ name @ ''='' @ dq v"

subsection \<open>Escaping\<close>

definition html_text :: "string \<Rightarrow> string" where
  "html_text s =
     replace_char (CHR 0x27) ''&#39;'' (replace_char (CHR 0x22) ''&quot;''
       (replace_char (CHR ''>'') ''&gt;'' (replace_char (CHR ''<'') ''&lt;'' (replace_char (CHR ''&'') ''&amp;'' s))))"

definition escapeHtml :: "(int \<Rightarrow> string) \<Rightarrow> (int \<Rightarrow> string) \<Rightarrow> json \<Rightarrow> string" where
  "escapeHtml fmt dstr v =
     html_text (case v of JUndef \<Rightarrow> [] | JNull \<Rightarrow> [] | JDate d \<Rightarrow> fmt d | _ \<Rightarrow> js_string dstr v)"

subsection \<open>The layout\<close>

definition PAGE_STYLE :: string where
  "PAGE_STYLE = newline @ concat (map (\<lambda>l. l @ newline)
     [''  body { font-family: system-ui, sans-serif; margin: 2rem auto; max-width: 60rem; padding: 0 1rem; color: #1a202c; }'',
      ''  nav { display: flex; gap: 1rem; align-items: baseline; border-bottom: 1px solid #cbd5e0; padding-bottom: 0.75rem; margin-bottom: 1.5rem; }'',
      ''  nav .spacer { flex: 1; }'',
      ''  table { border-collapse: collapse; width: 100%; }'',
      ''  th, td { border: 1px solid #cbd5e0; padding: 0.4rem 0.6rem; text-align: left; }'',
      ''  th { background: #edf2f7; }'',
      ''  form.inline { display: inline; }'',
      ''  label { display: block; margin-top: 0.75rem; font-weight: 600; }'',
      ''  input, select, textarea { display: block; margin-top: 0.25rem; padding: 0.35rem; min-width: 20rem; }'',
      ''  button { margin-top: 1rem; padding: 0.4rem 1rem; cursor: pointer; }'',
      ''  dl { display: grid; grid-template-columns: max-content 1fr; gap: 0.4rem 1.5rem; }'',
      ''  dt { font-weight: 600; }'',
      ''  .muted { color: #4a5568; font-size: 0.9rem; }''])"

type_synonym page_user = "(string \<times> string option) option"

definition shown_user :: "page_user \<Rightarrow> string" where
  "shown_user user = (case user of None \<Rightarrow> [] | Some (sub, email) \<Rightarrow> html_text (case email of None \<Rightarrow> sub | Some e \<Rightarrow> e))"

text \<open>The layout up to the title, from the title to the user, from the user to the body, and after the body\<close>

definition layout_top :: string where
  "layout_top =
     ''<!doctype html>'' @ newline @
     ''<html'' @ attr ''lang'' ''en'' @ ''>'' @ newline @
     ''<head>'' @ newline @
     ''<meta'' @ attr ''charset'' ''utf-8'' @ ''>'' @ newline @
     ''<meta'' @ attr ''name'' ''viewport'' @ attr ''content'' ''width=device-width, initial-scale=1'' @ ''>'' @ newline @
     ''<title>''"

definition layout_head :: string where
  "layout_head =
     ''</title>'' @ newline @
     ''<style>'' @ PAGE_STYLE @ ''</style>'' @ newline @
     ''</head>'' @ newline @
     ''<body>'' @ newline @
     ''<nav>'' @ newline @
     ''  <a'' @ attr ''href'' ''/'' @ ''>Pages</a>'' @ newline @
     ''  <span'' @ attr ''class'' ''spacer'' @ ''></span>'' @ newline @
     ''  <span'' @ attr ''class'' ''muted'' @ ''>''"

definition layout_nav :: string where
  "layout_nav =
     ''</span>'' @ newline @
     ''  <form'' @ attr ''class'' ''inline'' @ attr ''method'' ''post'' @ attr ''action'' ''/auth/logout'' @
       ''><button'' @ attr ''type'' ''submit'' @ ''>Log out</button></form>'' @ newline @
     ''</nav>'' @ newline @
     ''<main>'' @ newline"

definition layout_end :: string where
  "layout_end = newline @ ''</main>'' @ newline @ ''</body>'' @ newline @ ''</html>'' @ newline"

definition layout :: "string \<Rightarrow> page_user \<Rightarrow> string \<Rightarrow> string" where
  "layout title user body =
     layout_top @ html_text title @ layout_head @ shown_user user @ layout_nav @ body @ layout_end"

definition page_heading :: "page_def \<Rightarrow> string" where
  "page_heading page = (case pg_title page of None \<Rightarrow> pg_name page | Some t \<Rightarrow> t)"

definition fieldsForPage :: "page_def \<Rightarrow> entity_def \<Rightarrow> field_def list" where
  "fieldsForPage page entity =
     (case pg_fields page of
        None \<Rightarrow> en_fields entity
      | Some names \<Rightarrow> List.map_filter (map_of (map_from (map (\<lambda>f. (fd_name f, f)) (en_fields entity)))) names)"

subsection \<open>The index\<close>

definition page_type_text :: "page_type \<Rightarrow> string" where
  "page_type_text ty = (case ty of List_page \<Rightarrow> ''list'' | Detail_page \<Rightarrow> ''detail'' | Form_page \<Rightarrow> ''form'')"

definition index_item :: "page_def \<Rightarrow> string" where
  "index_item page =
     ''<li><a'' @ attr ''href'' (''/p/'' @ html_text (pg_name page)) @ ''>'' @ html_text (page_heading page) @ ''</a>'' @
     '' <span'' @ attr ''class'' ''muted'' @ ''>('' @ html_text (page_type_text (pg_type page)) @ '' '' @ [CHR 0xB7] @ '' '' @
     html_text (pg_entity page) @ '')</span></li>''"

definition index_page :: "app_spec \<Rightarrow> page_user \<Rightarrow> string" where
  "index_page spec user =
     layout (am_name (sp_app spec)) user
       (''<h1>'' @ html_text (am_name (sp_app spec)) @ ''</h1>'' @ newline @
        ''<p'' @ attr ''class'' ''muted'' @ ''>'' @ html_text (case am_description (sp_app spec) of None \<Rightarrow> [] | Some d \<Rightarrow> d) @ ''</p>'' @ newline @
        ''<ul>'' @ newline @
        join_with newline (map index_item (or_empty (sp_pages spec))) @ newline @
        ''</ul>'')"

subsection \<open>The list page\<close>

definition list_row :: "(int \<Rightarrow> string) \<Rightarrow> (int \<Rightarrow> string) \<Rightarrow> field_def list \<Rightarrow> page_def option \<Rightarrow> fields \<Rightarrow> string" where
  "list_row fmt dstr cols detail row =
     ''<tr>'' @ concat (map (\<lambda>f. ''<td>'' @ escapeHtml fmt dstr (get_field row (fd_name f)) @ ''</td>'') cols) @
     (case detail of
        None \<Rightarrow> []
      | Some d \<Rightarrow> ''<td><a'' @ attr ''href'' (''/p/'' @ html_text (pg_name d) @ ''?id='' @ escapeHtml fmt dstr (get_field row ''id'')) @ ''>view</a></td>'') @
     ''</tr>''"

definition list_page ::
  "(int \<Rightarrow> string) \<Rightarrow> (int \<Rightarrow> string) \<Rightarrow> app_spec \<Rightarrow> page_def \<Rightarrow> entity_model \<Rightarrow> page_user \<Rightarrow> fields list \<Rightarrow> string" where
  "list_page fmt dstr spec page model user listed =
     (let entity = em_entity model; cols = fieldsForPage page entity;
          detail = pageFor spec (en_name entity) Detail_page; form = pageFor spec (en_name entity) Form_page in
      layout (page_heading page) user
        (''<h1>'' @ html_text (page_heading page) @ ''</h1>'' @ newline @
         (case form of
            None \<Rightarrow> []
          | Some p \<Rightarrow> ''<p><a'' @ attr ''href'' (''/p/'' @ html_text (pg_name p)) @ ''>New '' @ html_text (en_name entity) @ ''</a></p>'') @ newline @
         ''<table>'' @ newline @
         ''<thead><tr>'' @ concat (map (\<lambda>f. ''<th>'' @ html_text (fd_name f) @ ''</th>'') cols) @
           (if detail = None then [] else ''<th></th>'') @ ''</tr></thead>'' @ newline @
         ''<tbody>'' @ newline @
         join_with newline (map (list_row fmt dstr cols detail) (map (row_to_record fmt model) listed)) @ newline @
         ''</tbody>'' @ newline @
         ''</table>''))"

subsection \<open>The detail page\<close>

datatype page_error = Page_unknown_entity | Page_bad_id | Page_not_found | Page_bad_reference

text \<open>\<open>COUNT(DISTINCT approver_sub)\<close> of one transition\<close>

definition approval_count :: "world \<Rightarrow> string \<Rightarrow> string \<Rightarrow> string \<Rightarrow> nat" where
  "approval_count w table recordId transition =
     length (remdups (map (\<lambda>(_, _, _, s). s)
       (filter (\<lambda>(t, r, n, _). t = table \<and> r = recordId \<and> n = transition) (approvals w))))"

definition offered :: "workflow_def \<Rightarrow> fields \<Rightarrow> transition_def list" where
  "offered workflow row =
     filter (\<lambda>t. strict_eq (JStr (tr_from t)) (get_field row (toSnakeCase (wf_stateField workflow)))) (wf_transitions workflow)"

definition transition_button :: "entity_model \<Rightarrow> string \<Rightarrow> world \<Rightarrow> transition_def \<Rightarrow> string" where
  "transition_button model recordId w t =
     ''<form'' @ attr ''class'' ''inline'' @ attr ''method'' ''post'' @
       attr ''action'' (''/api/'' @ html_text (em_apiSegment model) @ ''/'' @ html_text recordId @ ''/transitions/'' @ html_text (tr_name t)) @ ''>'' @
     ''<button'' @ attr ''type'' ''submit'' @ ''>'' @ html_text (tr_name t) @ ''</button></form>'' @
     (case tr_approval t of
        None \<Rightarrow> []
      | Some rule \<Rightarrow> '' <span'' @ attr ''class'' ''muted'' @ ''>('' @ nat_str (approval_count w (em_table model) recordId (tr_name t)) @
          '' of '' @ nat_str (ap_count rule) @ '' approvals)</span>'')"

definition workflow_section ::
  "(int \<Rightarrow> string) \<Rightarrow> (int \<Rightarrow> string) \<Rightarrow> entity_model \<Rightarrow> string \<Rightarrow> world \<Rightarrow> fields \<Rightarrow> workflow_def \<Rightarrow> string" where
  "workflow_section fmt dstr model recordId w row workflow =
     (let buttons = join_with newline (map (transition_button model recordId w) (offered workflow row)) in
      ''<h2>Workflow: '' @ html_text (wf_name workflow) @ ''</h2>'' @ newline @
      ''<p>Current state: <strong>'' @ escapeHtml fmt dstr (get_field row (toSnakeCase (wf_stateField workflow))) @ ''</strong></p>'' @ newline @
      (if buttons = [] then ''<p'' @ attr ''class'' ''muted'' @ ''>No transitions available from this state.</p>'' else buttons))"

definition detail_item :: "(int \<Rightarrow> string) \<Rightarrow> (int \<Rightarrow> string) \<Rightarrow> fields \<Rightarrow> field_def \<Rightarrow> string" where
  "detail_item fmt dstr rec f =
     ''<dt>'' @ html_text (fd_name f) @ ''</dt><dd>'' @ escapeHtml fmt dstr (get_field rec (fd_name f)) @ ''</dd>''"

definition detail_body ::
  "(int \<Rightarrow> string) \<Rightarrow> (int \<Rightarrow> string) \<Rightarrow> page_def \<Rightarrow> entity_model \<Rightarrow> string \<Rightarrow> world \<Rightarrow> fields \<Rightarrow> string" where
  "detail_body fmt dstr page model recordId w row =
     ''<h1>'' @ html_text (page_heading page) @ ''</h1>'' @ newline @
     ''<dl>'' @ newline @
     join_with newline (map (detail_item fmt dstr (row_to_record fmt model row)) (fieldsForPage page (em_entity model))) @ newline @
     ''</dl>'' @ newline @
     join_with newline (map (workflow_section fmt dstr model recordId w row) (em_workflows model))"

definition detail_page ::
  "(int \<Rightarrow> string) \<Rightarrow> (int \<Rightarrow> string) \<Rightarrow> page_def \<Rightarrow> entity_model \<Rightarrow> page_user \<Rightarrow> json \<Rightarrow> world \<Rightarrow> page_error + string" where
  "detail_page fmt dstr page model user query_id w =
     (case query_id of
        JStr recordId \<Rightarrow>
          if \<not> isUuid (JStr recordId) then Inl Page_bad_id
          else (case rows w (em_table model, recordId) of
             None \<Rightarrow> Inl Page_not_found
           | Some row \<Rightarrow>
               Inr (layout (page_heading page) user (detail_body fmt dstr page model recordId w row)))
      | _ \<Rightarrow> Inl Page_bad_id)"

subsection \<open>The form page\<close>

definition required_flag :: "field_def \<Rightarrow> string" where
  "required_flag field = (if fd_required field then '' required'' else [])"

definition blank_option :: "field_def \<Rightarrow> string" where
  "blank_option field = (if fd_required field then [] else ''<option'' @ attr ''value'' [] @ ''></option>'')"

definition enum_option :: "field_def \<Rightarrow> string \<Rightarrow> string" where
  "enum_option field v =
     ''<option'' @ attr ''value'' (html_text v) @ (if fd_default field = Some (JStr v) then '' selected'' else []) @ ''>'' @ html_text v @ ''</option>''"

definition select_control :: "field_def \<Rightarrow> string \<Rightarrow> string" where
  "select_control field options =
     ''<select'' @ attr ''id'' (html_text (fd_name field)) @ attr ''name'' (html_text (fd_name field)) @ required_flag field @ ''>'' @
     options @ ''</select>''"

definition plain_input :: "field_def \<Rightarrow> string \<Rightarrow> string" where
  "plain_input field kind =
     (let name = html_text (fd_name field) in
      ''<input'' @ attr ''id'' name @ attr ''type'' kind @ attr ''name'' name @ required_flag field @ ''>'')"

definition inputFor :: "field_def \<Rightarrow> string" where
  "inputFor field =
     (let name = html_text (fd_name field) in
      case fd_type field of
        FText \<Rightarrow> ''<textarea'' @ attr ''id'' name @ attr ''name'' name @ attr ''rows'' ''4'' @ required_flag field @ ''></textarea>''
      | FNumber \<Rightarrow> ''<input'' @ attr ''id'' name @ attr ''type'' ''number'' @ attr ''step'' ''any'' @ attr ''name'' name @ required_flag field @ ''>''
      | FBoolean \<Rightarrow> ''<input'' @ attr ''id'' name @ attr ''type'' ''checkbox'' @ attr ''name'' name @ attr ''value'' ''true'' @ ''>''
      | FDate \<Rightarrow> plain_input field ''date''
      | FDatetime \<Rightarrow> plain_input field ''datetime-local''
      | FEnum \<Rightarrow> select_control field (blank_option field @ concat (map (enum_option field) (or_empty (fd_values field))))
      | _ \<Rightarrow> plain_input field ''text'')"

definition labelField :: "entity_def \<Rightarrow> field_def option" where
  "labelField entity = List.find (\<lambda>f. fd_type f = FString) (en_fields entity)"

definition reference_option :: "(int \<Rightarrow> string) \<Rightarrow> (int \<Rightarrow> string) \<Rightarrow> field_def option \<Rightarrow> fields \<Rightarrow> string" where
  "reference_option fmt dstr label rec =
     (let shown = (case label of None \<Rightarrow> get_field rec ''id''
                   | Some l \<Rightarrow> coalesce (get_field rec (fd_name l)) (get_field rec ''id'')) in
      ''<option'' @ attr ''value'' (escapeHtml fmt dstr (get_field rec ''id'')) @ ''>'' @ escapeHtml fmt dstr shown @ ''</option>'')"

text \<open>The control of one field; \<open>listed\<close> is what the query of a table returns.\<close>

definition control_for ::
  "(int \<Rightarrow> string) \<Rightarrow> (int \<Rightarrow> string) \<Rightarrow> app_spec \<Rightarrow> (string \<Rightarrow> fields list) \<Rightarrow> field_def \<Rightarrow> page_error + string" where
  "control_for fmt dstr spec listed field =
     (case (fd_type field, fd_entity field) of
        (FReference, Some (c # cs)) \<Rightarrow>
          (case List.find (\<lambda>e. en_name e = c # cs) (sp_entities spec) of
             None \<Rightarrow> Inl Page_bad_reference
           | Some target \<Rightarrow>
               (let model = buildEntityModel spec target in
                Inr (select_control field (blank_option field @
                  concat (map (\<lambda>row. reference_option fmt dstr (labelField target) (row_to_record fmt model row)) (listed (em_table model)))))))
      | _ \<Rightarrow> Inr (inputFor field))"

definition labelled :: "field_def \<Rightarrow> string \<Rightarrow> string" where
  "labelled field control =
     ''<label'' @ attr ''for'' (html_text (fd_name field)) @ ''>'' @ html_text (fd_name field) @ ''</label>'' @ newline @ control"

fun controls ::
  "(int \<Rightarrow> string) \<Rightarrow> (int \<Rightarrow> string) \<Rightarrow> app_spec \<Rightarrow> (string \<Rightarrow> fields list) \<Rightarrow> field_def list \<Rightarrow> page_error + string list" where
  "controls fmt dstr spec listed [] = Inr []"
| "controls fmt dstr spec listed (field # fs) =
     (case control_for fmt dstr spec listed field of
        Inl e \<Rightarrow> Inl e
      | Inr control \<Rightarrow>
          map_sum id (Cons (labelled field control)) (controls fmt dstr spec listed fs))"

definition form_fields :: "page_def \<Rightarrow> entity_model \<Rightarrow> field_def list" where
  "form_fields page model = filter (\<lambda>f. map_of (em_stateFields model) (fd_name f) = None) (fieldsForPage page (em_entity model))"

definition form_body :: "page_def \<Rightarrow> entity_model \<Rightarrow> string list \<Rightarrow> string" where
  "form_body page model cs =
     ''<h1>'' @ html_text (page_heading page) @ ''</h1>'' @ newline @
     ''<form'' @ attr ''method'' ''post'' @ attr ''action'' (''/api/'' @ html_text (em_apiSegment model)) @ ''>'' @ newline @
     join_with newline cs @ newline @
     ''<button'' @ attr ''type'' ''submit'' @ ''>Create</button>'' @ newline @
     ''</form>''"

definition form_page ::
  "(int \<Rightarrow> string) \<Rightarrow> (int \<Rightarrow> string) \<Rightarrow> app_spec \<Rightarrow> page_def \<Rightarrow> entity_model \<Rightarrow> page_user \<Rightarrow> (string \<Rightarrow> fields list) \<Rightarrow> page_error + string" where
  "form_page fmt dstr spec page model user listed =
     map_sum id (\<lambda>cs. layout (page_heading page) user (form_body page model cs))
       (controls fmt dstr spec listed (form_fields page model))"

subsection \<open>The registered pages\<close>

fun registerPages :: "app_spec \<Rightarrow> page_def list \<Rightarrow> page_error + (page_def \<times> entity_model) list" where
  "registerPages spec [] = Inr []"
| "registerPages spec (page # ps) =
     (case List.find (\<lambda>e. en_name e = pg_entity page) (sp_entities spec) of
        None \<Rightarrow> Inl Page_unknown_entity
      | Some entity \<Rightarrow> map_sum id (Cons (page, buildEntityModel spec entity)) (registerPages spec ps))"

text \<open>\<open>GET /p/<name>\<close> of a registered page\<close>

definition get_page ::
  "(int \<Rightarrow> string) \<Rightarrow> (int \<Rightarrow> string) \<Rightarrow> app_spec \<Rightarrow> page_def \<times> entity_model \<Rightarrow> page_user \<Rightarrow> json \<Rightarrow> (string \<Rightarrow> fields list) \<Rightarrow> world \<Rightarrow> page_error + string" where
  "get_page fmt dstr spec registered user query_id listed w =
     (case registered of (page, model) \<Rightarrow>
       (case pg_type page of
          List_page \<Rightarrow> Inr (list_page fmt dstr spec page model user (listed (em_table model)))
        | Detail_page \<Rightarrow> detail_page fmt dstr page model user query_id w
        | Form_page \<Rightarrow> form_page fmt dstr spec page model user listed))"

subsection \<open>What the escape does\<close>

fun esc_char :: "char \<Rightarrow> string" where
  "esc_char c =
     (if c = CHR ''&'' then ''&amp;'' else if c = CHR ''<'' then ''&lt;'' else if c = CHR ''>'' then ''&gt;''
      else if c = CHR 0x22 then ''&quot;'' else if c = CHR 0x27 then ''&#39;'' else [c])"

lemma replace_char_append [simp]: "replace_char c r (a @ b) = replace_char c r a @ replace_char c r b"
  by (simp add: replace_char_def)

lemma replace_char_Cons: "replace_char c r (x # xs) = (if x = c then r else [x]) @ replace_char c r xs"
  by (simp add: replace_char_def)

lemma replace_char_Nil [simp]: "replace_char c r [] = []"
  by (simp add: replace_char_def)

lemma html_text_char: "html_text [c] = esc_char c"
  by (simp add: html_text_def replace_char_Cons)

lemma html_text_append [simp]: "html_text (a @ b) = html_text a @ html_text b"
  by (simp add: html_text_def)

lemma html_text_Nil [simp]: "html_text [] = []"
  by (simp add: html_text_def)

lemma html_text_Cons: "html_text (c # s) = esc_char c @ html_text s"
  using html_text_append[of "[c]" s] by (simp only: html_text_char append_Cons append_Nil)

definition markup :: "char set" where
  "markup = {CHR ''<'', CHR ''>'', CHR 0x22, CHR 0x27}"

lemma html_text_inert: "c \<in> set (html_text s) \<Longrightarrow> c \<notin> markup"
  by (induction s) (auto simp: html_text_Cons markup_def split: if_splits)

text \<open>What a browser shows for text with the five character references.\<close>

fun html_decode :: "string \<Rightarrow> string" where
  "html_decode [] = []"
| "html_decode (c # s) =
     (if c \<noteq> CHR ''&'' then c # html_decode s
      else if prefix ''amp;'' s then CHR ''&'' # html_decode (drop 4 s)
      else if prefix ''lt;'' s then CHR ''<'' # html_decode (drop 3 s)
      else if prefix ''gt;'' s then CHR ''>'' # html_decode (drop 3 s)
      else if prefix ''quot;'' s then CHR 0x22 # html_decode (drop 5 s)
      else if prefix ''#39;'' s then CHR 0x27 # html_decode (drop 4 s)
      else c # html_decode s)"

lemma html_decode_text: "html_decode (html_text s) = s"
  by (induction s) (simp_all add: html_text_Cons)

subsection \<open>The tags of a page\<close>

text \<open>
  A scanner of the tags of a text: where it is, and the characters of the tags, with what the double quotes of
  their attributes hold left out.
\<close>

datatype html_ctx = Text | In_tag | Quoted

fun scan_char :: "html_ctx \<Rightarrow> char \<Rightarrow> html_ctx \<times> string" where
  "scan_char Text c = (if c = CHR ''<'' then (In_tag, [c]) else (Text, []))"
| "scan_char In_tag c = (if c = CHR ''>'' then Text else if c = CHR 0x22 then Quoted else In_tag, [c])"
| "scan_char Quoted c = (if c = CHR 0x22 then (In_tag, [c]) else (Quoted, []))"

fun scan :: "html_ctx \<Rightarrow> string \<Rightarrow> html_ctx \<times> string" where
  "scan c [] = (c, [])"
| "scan c (x # xs) = (case scan_char c x of (c1, o1) \<Rightarrow> (case scan c1 xs of (c2, o2) \<Rightarrow> (c2, o1 @ o2)))"

definition tags :: "string \<Rightarrow> string" where
  "tags s = snd (scan Text s)"

lemma scan_append: "scan c (a @ b) = (case scan c a of (c1, o1) \<Rightarrow> (case scan c1 b of (c2, o2) \<Rightarrow> (c2, o1 @ o2)))"
  by (induction a arbitrary: c) (auto split: prod.splits)

lemma scan_inert: "\<forall>c \<in> set s. c \<notin> markup \<Longrightarrow> scan Text s = (Text, []) \<and> scan Quoted s = (Quoted, [])"
  by (induction s) (auto simp: markup_def)

lemma scan_html_text [simp]: "scan Text (html_text s) = (Text, [])" "scan Quoted (html_text s) = (Quoted, [])"
  using scan_inert[of "html_text s"] html_text_inert by auto

lemma scan_escapeHtml [simp]: "scan Text (escapeHtml fmt dstr v) = (Text, [])" "scan Quoted (escapeHtml fmt dstr v) = (Quoted, [])"
  by (simp_all add: escapeHtml_def)

lemma scan_text: "CHR ''<'' \<notin> set s \<Longrightarrow> scan Text s = (Text, [])"
  by (induction s) auto

lemma newline_lt [simp]: "CHR ''<'' \<notin> set newline"
  by code_simp

lemma scan_newline [simp]: "scan Text newline = (Text, [])"
  by (rule scan_text) simp

lemma scan_user [simp]: "scan Text (shown_user user) = (Text, [])"
  by (simp add: shown_user_def split: option.splits)

lemma scan_style [simp]: "scan Text PAGE_STYLE = (Text, [])"
  by (rule scan_text) (simp add: PAGE_STYLE_def)

lemma scan_attr:
  assumes "fst (scan In_tag name) = In_tag" "scan Quoted v = (Quoted, [])"
  shows "scan In_tag (attr name v) = (In_tag, '' '' @ snd (scan In_tag name) @ ''='' @ [CHR 0x22, CHR 0x22])"
  using assms by (cases "scan In_tag name") (simp add: attr_def dq_def scan_append)

lemma scan_concat:
  "(\<And>x. x \<in> set xs \<Longrightarrow> scan Text (f x) = (Text, g x)) \<Longrightarrow> scan Text (concat (map f xs)) = (Text, concat (map g xs))"
  by (induction xs) (simp_all add: scan_append)

lemma scan_join:
  "(\<And>x. x \<in> set xs \<Longrightarrow> scan Text (f x) = (Text, g x)) \<Longrightarrow> scan Text (join_with newline (map f xs)) = (Text, concat (map g xs))"
  by (induction xs rule: induct_list012) (simp_all add: scan_append)

lemma concat_map_const: "concat (map (\<lambda>_. t) xs) = concat (replicate (length xs) t)"
  by (induction xs) simp_all

lemmas scan_simps = scan_append scan_attr

text \<open>Two texts that start and end outside tags and have the same tags\<close>

definition alike :: "string \<Rightarrow> string \<Rightarrow> bool" where
  "alike s s' \<longleftrightarrow> fst (scan Text s) = Text \<and> scan Text s' = scan Text s"

lemma alike_tags: "alike s s' \<Longrightarrow> tags s = tags s'"
  by (simp add: alike_def tags_def)

lemma alike_scan: "alike s s' \<Longrightarrow> \<exists>t. scan Text s = (Text, t) \<and> scan Text s' = (Text, t)"
  by (cases "scan Text s") (simp add: alike_def)

lemma alikeI: "scan Text s = (Text, t) \<Longrightarrow> scan Text s' = (Text, t) \<Longrightarrow> alike s s'"
  by (simp add: alike_def)

lemma alike_append: "alike a a' \<Longrightarrow> alike b b' \<Longrightarrow> alike (a @ b) (a' @ b')"
  by (drule alike_scan, drule alike_scan) (auto simp: alike_def scan_append)

lemma alike_newline [simp]: "alike newline newline" and alike_Nil [simp]: "alike [] []"
  by (simp_all add: alike_def)

lemma alike_join:
  "list_all2 alike xs ys \<Longrightarrow> alike (join_with newline xs) (join_with newline ys)"
proof (induction xs arbitrary: ys rule: induct_list012)
  case (3 x y xs)
  then obtain x' y' ys' where ys: "ys = x' # y' # ys'" "alike x x'" "alike y y'" "list_all2 alike xs ys'"
    by (auto simp: list_all2_Cons1)
  then show ?case unfolding ys(1) join_with.simps
    by (intro alike_append alike_newline 3(2)) auto
qed (auto simp: list_all2_Cons1)

lemma alike_concat: "list_all2 alike xs ys \<Longrightarrow> alike (concat xs) (concat ys)"
  by (induction rule: list_all2_induct) (auto intro: alike_append)

lemma alike_maps:
  assumes "length xs = length ys" "\<And>x y. x \<in> set xs \<Longrightarrow> y \<in> set ys \<Longrightarrow> alike (f x) (g y)"
  shows "list_all2 alike (map f xs) (map g ys)"
  using assms by (auto simp: list_all2_conv_all_nth)

lemma alike_map: "(\<And>x. x \<in> set xs \<Longrightarrow> alike (f x) (g x)) \<Longrightarrow> list_all2 alike (map f xs) (map g xs)"
  by (auto simp: list_all2_conv_all_nth)

lemma alike_layout_parts:
  "alike layout_top layout_top" "alike layout_head layout_head" "alike layout_nav layout_nav" "alike layout_end layout_end"
  unfolding alike_def by code_simp+

lemma alike_text [simp]: "alike (html_text s) (html_text s')" and alike_user: "alike (shown_user u) (shown_user u')"
  by (simp_all add: alike_def)

lemma alike_layout: "alike b b' \<Longrightarrow> alike (layout title user b) (layout title' user' b')"
  unfolding layout_def by (intro alike_append alike_layout_parts alike_text alike_user)

lemma alike_layout2: "alike b b' \<Longrightarrow> tags (layout title user b) = tags (layout title user' b')"
  by (intro alike_tags alike_layout)

lemma scan_nat_str [simp]: "scan Text (nat_str n) = (Text, [])"
proof (rule scan_text)
  have "\<not> is_digit (CHR ''<'')" by code_simp
  then show "CHR ''<'' \<notin> set (nat_str n)" using nat_str_digits[of n] by (auto simp: list_all_iff)
qed

lemma alike_cell: "alike (''<td>'' @ escapeHtml fmt dstr v @ ''</td>'') (''<td>'' @ escapeHtml fmt dstr v' @ ''</td>'')"
  by (simp add: alike_def scan_simps)

lemma alike_literal: "fst (scan Text s) = Text \<Longrightarrow> alike s s"
  by (simp add: alike_def)

lemma alike_list_row: "alike (list_row fmt dstr cols detail r) (list_row fmt dstr cols detail r')"
  unfolding list_row_def
  by (intro alike_append alike_concat alike_map alike_cell) (auto simp: alike_def scan_simps split: option.splits)

lemma alike_head: "alike (concat (map (\<lambda>f. ''<th>'' @ html_text (fd_name f) @ ''</th>'') cols)) (concat (map (\<lambda>f. ''<th>'' @ html_text (fd_name f) @ ''</th>'') cols))"
  by (intro alike_concat alike_map) (simp add: alike_def scan_simps)

lemma alike_list_page:
  "length rs = length rs' \<Longrightarrow> alike (list_page fmt dstr spec page model user rs) (list_page fmt dstr spec page model user' rs')"
  unfolding list_page_def Let_def
  by (intro alike_layout alike_append alike_join alike_maps alike_list_row alike_head alike_newline alike_text)
    (auto simp: alike_def scan_simps split: option.splits)

lemma alike_button: "alike (transition_button model recordId w t) (transition_button model recordId w' t)"
  by (auto simp: alike_def transition_button_def scan_simps split: option.splits)

lemma alike_detail_item: "alike (detail_item fmt dstr r f) (detail_item fmt dstr r' f)"
  by (simp add: alike_def detail_item_def scan_simps)

lemma button_nonempty [simp]: "transition_button model recordId w t \<noteq> []"
  by (simp add: transition_button_def)

lemma buttons_empty: "join_with newline (map (transition_button model recordId w) ts) = [] \<longleftrightarrow> ts = []"
  by (cases ts; cases "tl ts") auto

text \<open>The same tags in two versions of a record that agree in the column of every state\<close>

definition same_states :: "entity_model \<Rightarrow> fields \<Rightarrow> fields \<Rightarrow> bool" where
  "same_states model r r' \<longleftrightarrow>
     list_all (\<lambda>f. get_field r (toSnakeCase (wf_stateField f)) = get_field r' (toSnakeCase (wf_stateField f))) (em_workflows model)"

lemma alike_section:
  assumes "same_states model r r'" "workflow \<in> set (em_workflows model)"
  shows "alike (workflow_section fmt dstr model recordId w r workflow) (workflow_section fmt dstr model recordId w' r' workflow)"
proof -
  have "offered workflow r = offered workflow r'"
    using assms by (simp add: offered_def same_states_def list_all_iff)
  moreover have "alike (join_with newline (map (transition_button model recordId w) ts)) (join_with newline (map (transition_button model recordId w') ts))" for ts
    by (intro alike_join alike_map alike_button)
  ultimately show ?thesis
    unfolding workflow_section_def Let_def
    by (intro alike_append alike_newline alike_text) (auto simp: alike_def scan_simps buttons_empty)
qed

lemma alike_detail:
  assumes "same_states model r r'"
  shows "alike (join_with newline (map (workflow_section fmt dstr model recordId w r) (em_workflows model)))
               (join_with newline (map (workflow_section fmt dstr model recordId w' r') (em_workflows model)))"
  by (intro alike_join alike_map alike_section assms)

lemma scan_required: "scan In_tag (required_flag field) = (In_tag, required_flag field)"
  by (simp add: required_flag_def)

lemma alike_blank: "alike (blank_option field) (blank_option field)"
  by (simp add: alike_def blank_option_def scan_simps)

lemma alike_enum_option: "alike (enum_option field v) (enum_option field v)"
  by (simp add: alike_def enum_option_def scan_simps)

lemma alike_enum_options: "alike (concat (map (enum_option field) vs)) (concat (map (enum_option field) vs))"
  by (intro alike_concat alike_map alike_enum_option)

lemma alike_plain: "kind \<in> {''date'', ''datetime-local'', ''text''} \<Longrightarrow> alike (plain_input field kind) (plain_input field kind)"
  by (auto simp: alike_def plain_input_def Let_def scan_simps scan_required)

lemma alike_select: "alike options options' \<Longrightarrow> alike (select_control field options) (select_control field options')"
  by (drule alike_scan) (auto simp: alike_def select_control_def scan_simps scan_required)

lemma alike_enum: "alike (select_control field (blank_option field @ concat (map (enum_option field) vs)))
    (select_control field (blank_option field @ concat (map (enum_option field) vs)))"
  by (intro alike_select alike_append alike_blank alike_enum_options)

lemma alike_input: "alike (inputFor field) (inputFor field)"
  by (cases "fd_type field") (simp_all add: inputFor_def Let_def alike_plain alike_enum, simp_all add: alike_def scan_simps scan_required)

lemma alike_reference_option: "alike (reference_option fmt dstr label r) (reference_option fmt dstr label r')"
  by (simp add: alike_def reference_option_def Let_def scan_simps)

text \<open>Two results of a page: the same error, or texts with the same tags\<close>

fun same_tags :: "page_error + string \<Rightarrow> page_error + string \<Rightarrow> bool" where
  "same_tags (Inr h) (Inr h') = (tags h = tags h')"
| "same_tags (Inl e) (Inl e') = (e = e')"
| "same_tags _ _ = False"

lemma control_alike:
  assumes "length \<circ> listed = length \<circ> listed'"
  shows "rel_sum (=) alike (control_for fmt dstr spec listed field) (control_for fmt dstr spec listed' field)"
proof -
  have len: "length (listed t) = length (listed' t)" for t using assms by (simp add: fun_eq_iff)
  have opts: "alike (concat (map (\<lambda>row. reference_option fmt dstr label (row_to_record fmt model row)) (listed t)))
      (concat (map (\<lambda>row. reference_option fmt dstr label (row_to_record fmt model row)) (listed' t)))" for label model t
    by (intro alike_concat alike_maps len alike_reference_option)
  show ?thesis
    by (auto simp: control_for_def Let_def alike_input
        intro!: alike_select alike_append alike_blank opts split: field_type.splits option.splits list.splits)
qed

lemma alike_label: "alike b b' \<Longrightarrow> alike (labelled field b) (labelled field b')"
  by (drule alike_scan) (auto simp: alike_def labelled_def scan_simps)

lemma controls_alike:
  assumes "length \<circ> listed = length \<circ> listed'"
  shows "rel_sum (=) (list_all2 alike) (controls fmt dstr spec listed fs) (controls fmt dstr spec listed' fs)"
proof (induction fs)
  case (Cons field fs)
  from control_alike[OF assms, where fmt = fmt and dstr = dstr and spec = spec and field = field] Cons show ?case
    by (cases "control_for fmt dstr spec listed field"; cases "control_for fmt dstr spec listed' field";
        cases "controls fmt dstr spec listed fs"; cases "controls fmt dstr spec listed' fs") (auto intro: alike_label)
qed simp

lemma alike_form_body: "list_all2 alike cs cs' \<Longrightarrow> alike (form_body page model cs) (form_body page model cs')"
  by (drule alike_join, drule alike_scan) (auto simp: alike_def form_body_def scan_simps)

lemma form_alike:
  assumes "length \<circ> listed = length \<circ> listed'"
  shows "same_tags (form_page fmt dstr spec page model user listed) (form_page fmt dstr spec page model user' listed')"
  using controls_alike[OF assms, where fmt = fmt and dstr = dstr and spec = spec and fs = "form_fields page model"]
  by (cases "controls fmt dstr spec listed (form_fields page model)"; cases "controls fmt dstr spec listed' (form_fields page model)")
    (auto simp: form_page_def intro!: alike_layout2 alike_form_body)

lemma detail_alike:
  assumes "same_states model row row'"
  shows "alike (detail_body fmt dstr page model recordId w row) (detail_body fmt dstr page model recordId w' row')"
proof -
  have pre: "alike (''<h1>'' @ html_text title @ ''</h1>'' @ newline @ ''<dl>'' @ newline) (''<h1>'' @ html_text title @ ''</h1>'' @ newline @ ''<dl>'' @ newline)"
    and mid: "alike (newline @ ''</dl>'' @ newline) (newline @ ''</dl>'' @ newline)" for title
    by (simp_all add: alike_def scan_simps)
  have items: "alike (join_with newline (map (detail_item fmt dstr (row_to_record fmt model row)) cols))
      (join_with newline (map (detail_item fmt dstr (row_to_record fmt model row')) cols))" for cols
    by (intro alike_join alike_map alike_detail_item)
  from alike_append[OF pre alike_append[OF items alike_append[OF mid alike_detail[OF assms]]]]
  show ?thesis unfolding detail_body_def append_assoc .
qed

definition same_shape :: "entity_model \<Rightarrow> json \<Rightarrow> world \<Rightarrow> world \<Rightarrow> bool" where
  "same_shape model query_id w w' \<longleftrightarrow>
     (case query_id of
        JStr i \<Rightarrow> (case (rows w (em_table model, i), rows w' (em_table model, i)) of
                     (Some r, Some r') \<Rightarrow> same_states model r r' | (None, None) \<Rightarrow> True | _ \<Rightarrow> False)
      | _ \<Rightarrow> True)"

lemma detail_same_tags:
  assumes "same_shape model query_id w w'"
  shows "same_tags (detail_page fmt dstr page model user query_id w) (detail_page fmt dstr page model user' query_id w')"
  using assms by (cases query_id) (auto simp: detail_page_def same_shape_def split: option.splits intro!: alike_layout2 detail_alike)

text \<open>
  C27.  No data becomes markup.  Two versions of a page over different data, with as many rows in each table and
  the record, if the page shows one, in the same workflow states, have exactly the same tags, whatever the
  texts, numbers, users and approvals are: the scanner that lists the tags of the page, with quoted
  attribute values left out, gives the same result, and a page that fails, fails the same way.
\<close>

theorem pages_carry_no_markup_of_their_data:
  assumes "length \<circ> listed = length \<circ> listed'" "same_shape (snd registered) query_id w w'"
  shows "same_tags (get_page fmt dstr spec registered user query_id listed w) (get_page fmt dstr spec registered user' query_id listed' w')"
proof -
  obtain page model where reg: "registered = (page, model)" by force
  have len: "\<And>t. length (listed t) = length (listed' t)" using assms(1) by (simp add: fun_eq_iff)
  show ?thesis
    using form_alike[OF assms(1)] detail_same_tags[of model query_id w w'] assms(2)
      alike_tags[OF alike_list_page[OF len]]
    by (cases "pg_type page") (auto simp: get_page_def reg)
qed

definition script_row :: fields where
  "script_row = [(''id'', JStr ''1''), (''title'', JStr ''<script>alert(1)</script>''), (''created_at'', JNull)]"

definition plain_row :: fields where
  "plain_row = [(''id'', JStr ''2''), (''title'', JStr ''Plain''), (''created_at'', JNull)]"

definition title_page :: "page_def \<times> entity_model" where
  "title_page =
     (\<lparr>pg_name = ''notes'', pg_type = List_page, pg_entity = ''Note'', pg_title = None, pg_fields = None\<rparr>,
      \<lparr>em_entity = \<lparr>en_name = ''Note'', en_description = None, en_fields = [demo_field ''title'' FString], en_relations = None\<rparr>,
       em_table = ''note'', em_apiSegment = ''notes'', em_fieldByName = [(''title'', demo_field ''title'' FString)], em_stateFields = [], em_workflows = []\<rparr>)"

definition notes_spec :: app_spec where
  "notes_spec =
     \<lparr>sp_specVersion = ''1'', sp_app = \<lparr>am_name = ''Notes'', am_slug = ''notes'', am_description = None, am_version = ''1'', am_roles = None\<rparr>,
      sp_entities = [], sp_pages = None, sp_workflows = None, sp_policies = None, sp_agents = None, sp_evidence = None\<rparr>"

definition no_rows :: world where
  "no_rows = \<lparr>persisted = [], outages = [], logged = [], rows = (\<lambda>_. None), approvals = []\<rparr>"

theorem pages_carry_no_markup_of_their_data_witness:
  "same_tags (get_page (\<lambda>_. []) (\<lambda>_. []) notes_spec title_page None JUndef (\<lambda>_. [script_row]) no_rows)
     (get_page (\<lambda>_. []) (\<lambda>_. []) notes_spec title_page (Some (''u'', None)) JUndef (\<lambda>_. [plain_row]) no_rows)"
  by (rule pages_carry_no_markup_of_their_data) (simp_all add: same_shape_def fun_eq_iff)

text \<open>
  The escape loses nothing: what a browser shows for an escaped text is the text, and the escaped text
  has none of the characters that open or close tags and attribute values.
\<close>

theorem escaped_text_reads_back:
  "html_decode (html_text s) = s \<and> list_all (\<lambda>c. c \<noteq> CHR ''<'' \<and> c \<noteq> CHR ''>'' \<and> c \<noteq> CHR 0x22 \<and> c \<noteq> CHR 0x27) (html_text s)"
  using html_decode_text html_text_inert[of _ s] by (auto simp: list_all_iff markup_def)

lemma num_eq_sym: "num_eq a b = num_eq b a"
  by (cases "(a, b)" rule: num_eq.cases) (auto simp: min.commute)

lemma strict_eq_sym: "strict_eq a b = strict_eq b a"
  by (cases "(a, b)" rule: strict_eq.cases) (auto simp: num_eq_sym)

lemma guard_not_stale [simp]: "checkGuardPredicates dstr parse_date t m r \<noteq> Some (Bad_state s)"
proof -
  have "check_predicates dstr parse_date m r ps \<noteq> Some (Bad_state s)" for ps
    by (induction ps) (auto split: option.splits)
  then show ?thesis by (simp add: checkGuardPredicates_def)
qed

lemma decide_error: "decide_roles pdp x action roles w = (Inl e, w') \<Longrightarrow> e = Audit_append_failed"
  by (auto simp: decide_roles_def Let_def split: prod.splits bool.splits)

text \<open>
  The detail page offers exactly what the transition endpoint does not refuse as stale.  On the record
  the page showed, a transition of a workflow has a button if and only if firing it gets past
  the state check, whoever fires it and whatever other requests do in between.
\<close>

theorem offered_buttons_match_the_state_check:
  assumes "rows w (ex_key x) = Some row" "quoteIdent (ex_table x) \<noteq> None" "ex_transition x \<in> set (wf_transitions (ex_workflow x))"
  shows "ex_transition x \<in> set (offered (ex_workflow x) row) \<longleftrightarrow>
    (\<nexists>s. fst (before_transaction dstr parse_date pdp env x w) = Some (Bad_state s))"
proof -
  have stale: "ex_transition x \<in> set (offered (ex_workflow x) row) \<longleftrightarrow>
      strict_eq (get_field row (ex_stateColumn x)) (JStr (tr_from (ex_transition x)))"
    using assms(3) by (auto simp: offered_def ex_stateColumn_def strict_eq_sym)
  have "fst (before_transaction dstr parse_date pdp env x w) \<noteq> Some (Bad_state s)"
    if "strict_eq (get_field row (ex_stateColumn x)) (JStr (tr_from (ex_transition x)))" for s
    using that assms(1,2) by (auto simp: before_transaction_def Let_def dest: decide_error split: sum.splits option.splits prod.splits)
  moreover have "fst (before_transaction dstr parse_date pdp env x w) = Some (Bad_state (get_field row (ex_stateColumn x)))"
    if "\<not> strict_eq (get_field row (ex_stateColumn x)) (JStr (tr_from (ex_transition x)))"
    using that assms(1,2) by (simp add: before_transaction_def)
  ultimately show ?thesis using stale by blast
qed

theorem offered_buttons_match_the_state_check_witness:
  "ex_transition (demo_exec ''alice'') \<in> set (offered (ex_workflow (demo_exec ''alice'')) [(''status'', JStr ''draft'')]) \<longleftrightarrow>
    (\<nexists>s. fst (before_transaction (\<lambda>_. []) (\<lambda>_. None) (\<lambda>_. \<lparr>pd_allow = True, pd_reason = [], pd_policyId = []\<rparr>) (\<lambda>_ w. w) (demo_exec ''alice'') demo_world)
      = Some (Bad_state s))"
  by (rule offered_buttons_match_the_state_check) (simp add: demo_world_def, simp, simp add: demo_exec_def)

end
