(* ===== verification/Generate.thy ===== *)
theory Generate
  imports Validate_Props Js_Json "HOL-Library.List_Lexorder" "HOL-Library.Char_ord"
begin

text \<open>
  The generator (\<open>packages/generator\<close>): finding the spec in what a model answers (\<open>parse.ts\<close>), the retry loop
  (\<open>generate.ts\<close>), the prompts that vary (\<open>prompt.ts\<close>), the model adapter (\<open>model.ts\<close>) and the golden corpus
  (\<open>corpus.ts\<close>).  The language model is a function from the number of the attempt and the request to its answer or
  a transport failure.
\<close>

subsection \<open>Finding the spec in an answer\<close>

abbreviation bquote3 :: string where
  "bquote3 \<equiv> ''```''"

text \<open>The text before the first three backquotes and the text after them\<close>

fun cut_at_ticks :: "string \<Rightarrow> (string \<times> string) option" where
  "cut_at_ticks [] = None"
| "cut_at_ticks (c # cs) =
     (if prefix bquote3 (c # cs) then Some ([], drop 3 (c # cs)) else map_option (\<lambda>(a, b). (c # a, b)) (cut_at_ticks cs))"

text \<open>
  The group of \<open>FENCE_RE\<close>: after the first three backquotes, \<open>json\<close> in any case, blanks and one line break are left
  out, and the body goes up to the next three.  Nothing that is left out contains a backquote, so
  backtracking finds no other match.
\<close>

definition fence_body :: "string \<Rightarrow> string option" where
  "fence_body s =
     (case cut_at_ticks s of
        None \<Rightarrow> None
      | Some (before, rest) \<Rightarrow>
          (let r1 = if to_lower (take 4 rest) = ''json'' then drop 4 rest else rest;
               r2 = dropWhile (\<lambda>c. is_space c \<and> c \<noteq> hd newline) r1;
               r3 = if r2 \<noteq> [] \<and> hd r2 = hd newline then tl r2 else r2 in
           map_option fst (cut_at_ticks r3)))"

definition tryParseObject :: "string \<Rightarrow> json option" where
  "tryParseObject s = (case json_parse s of Some (JObj kvs) \<Rightarrow> Some (JObj kvs) | _ \<Rightarrow> None)"

text \<open>
  \<open>scanBalanced\<close> from where the scan stands: how far the brace that closes depth zero is, and the
  character that closes it is counted.
\<close>

fun scan_balanced :: "int \<Rightarrow> bool \<Rightarrow> bool \<Rightarrow> string \<Rightarrow> nat option" where
  "scan_balanced depth inString escaped [] = None"
| "scan_balanced depth inString escaped (ch # cs) =
     map_option Suc
       (if inString then
          (if escaped then scan_balanced depth True False cs
           else if ch = CHR 0x5C then scan_balanced depth True True cs
           else if ch = CHR 0x22 then scan_balanced depth False False cs
           else scan_balanced depth True False cs)
        else if ch = CHR 0x22 then scan_balanced depth True escaped cs
        else if ch = CHR ''{'' then scan_balanced (depth + 1) False escaped cs
        else if ch = CHR ''}'' then (if depth - 1 = 0 then Some 0 else scan_balanced (depth - 1) False escaped cs)
        else scan_balanced depth False escaped cs)"

definition scanBalanced :: "string \<Rightarrow> nat option" where
  "scanBalanced s = scan_balanced 0 False False s"

fun firstParseableObject :: "string \<Rightarrow> json option" where
  "firstParseableObject [] = None"
| "firstParseableObject (c # cs) =
     (if c \<noteq> CHR ''{'' then firstParseableObject cs
      else (case scanBalanced (c # cs) of
              None \<Rightarrow> firstParseableObject cs
            | Some n \<Rightarrow>
                (case tryParseObject (take n (c # cs)) of None \<Rightarrow> firstParseableObject cs | Some v \<Rightarrow> Some v)))"

definition try_candidate :: "string \<Rightarrow> json option" where
  "try_candidate s = (case tryParseObject s of Some v \<Rightarrow> Some v | None \<Rightarrow> firstParseableObject s)"

datatype no_object = Empty_response | No_object_found

definition extractSpecJson :: "string \<Rightarrow> no_object + json" where
  "extractSpecJson raw =
     (let s = trim raw in
      if s = [] then Inl Empty_response
      else (let fenced = (case map_option trim (fence_body s) of None \<Rightarrow> [] | Some b \<Rightarrow> if b = [] then [] else [b]) in
            case List.map_filter try_candidate (fenced @ [s]) of
              [] \<Rightarrow> Inl No_object_found
            | v # vs \<Rightarrow> Inr v))"

subsection \<open>The prompts that vary\<close>

definition GENERATE_MAX_TOKENS :: nat where
  "GENERATE_MAX_TOKENS = 8192"

definition buildUserPrompt :: "string \<Rightarrow> string" where
  "buildUserPrompt description = ''Generate the app spec for this description:'' @ newline @ newline @ description"

text \<open>\<open>shown\<close> is \<open>JSON.stringify(errors, null, 2)\<close>.\<close>

definition buildRetryPrompt :: "(spec_errors \<Rightarrow> string) \<Rightarrow> string \<Rightarrow> string \<Rightarrow> spec_errors \<Rightarrow> string" where
  "buildRetryPrompt shown description previousResponse errors =
     join_with newline
       [''Generate the app spec for this description:'', [], description, [], ''Your previous response failed validation.'', [],
        ''Previous response:'', previousResponse, [], ''Machine-readable validation errors (code, JSON Pointer path, message):'',
        shown errors, [], ''Fix every error and output ONLY the corrected JSON spec object. No code fences, no prose.'']"

subsection \<open>The loop\<close>

record model_request =
  rq_system :: string
  rq_user :: string
  rq_maxTokens :: nat

definition MAX_ATTEMPTS :: nat where
  "MAX_ATTEMPTS = 3"

datatype generate_result = Generated app_spec nat | Not_generated spec_errors nat

text \<open>The verdict on one answer\<close>

definition judge_response :: "(json \<Rightarrow> string list option) \<Rightarrow> (json \<Rightarrow> app_spec) \<Rightarrow> string \<Rightarrow> spec_errors + app_spec" where
  "judge_response structural typed raw =
     (case extractSpecJson raw of
        Inl reason \<Rightarrow> Inl [(ERR_SCHEMA, [])]
      | Inr value' \<Rightarrow> validateSpec structural typed value')"

text \<open>
  The loop with the given number of attempts left; the second result lists the requests made, each with its answer.
\<close>

fun generate_loop ::
  "(json \<Rightarrow> string list option) \<Rightarrow> (json \<Rightarrow> app_spec) \<Rightarrow> (spec_errors \<Rightarrow> string) \<Rightarrow> string \<Rightarrow>
   (nat \<Rightarrow> model_request \<Rightarrow> 'e + string) \<Rightarrow> string \<Rightarrow> nat \<Rightarrow> nat \<Rightarrow> string \<Rightarrow> spec_errors \<Rightarrow>
   ('e + generate_result) \<times> (model_request \<times> ('e + string)) list" where
  "generate_loop structural typed shown system complete description 0 attempt user lastErrors =
     (Inr (Not_generated lastErrors MAX_ATTEMPTS), [])"
| "generate_loop structural typed shown system complete description (Suc n) attempt user lastErrors =
     (let rq = \<lparr>rq_system = system, rq_user = user, rq_maxTokens = GENERATE_MAX_TOKENS\<rparr> in
      case complete attempt rq of
        Inl e \<Rightarrow> (Inl e, [(rq, Inl e)])
      | Inr raw \<Rightarrow>
          (case judge_response structural typed raw of
             Inr spec \<Rightarrow> (Inr (Generated spec attempt), [(rq, Inr raw)])
           | Inl errors \<Rightarrow>
               apsnd (Cons (rq, Inr raw))
                 (generate_loop structural typed shown system complete description n (Suc attempt)
                   (buildRetryPrompt shown description raw errors) errors)))"

definition generateSpec ::
  "(json \<Rightarrow> string list option) \<Rightarrow> (json \<Rightarrow> app_spec) \<Rightarrow> (spec_errors \<Rightarrow> string) \<Rightarrow> string \<Rightarrow>
   (nat \<Rightarrow> model_request \<Rightarrow> 'e + string) \<Rightarrow> string \<Rightarrow> ('e + generate_result) \<times> (model_request \<times> ('e + string)) list" where
  "generateSpec structural typed shown system complete description =
     generate_loop structural typed shown system complete description MAX_ATTEMPTS 1 (buildUserPrompt description) []"

subsection \<open>The model adapter\<close>

datatype generator_error = ERR_NO_API_KEY | ERR_FAKE_EXHAUSTED | ERR_CORPUS_INVALID

text \<open>The constructor of \<open>AnthropicSpecModel\<close>: the key comes from the options or the environment.\<close>

definition DEFAULT_ANTHROPIC_MODEL :: string where
  "DEFAULT_ANTHROPIC_MODEL = ''claude-sonnet-5''"

definition anthropic_model :: "string option \<Rightarrow> string option \<Rightarrow> string option \<Rightarrow> generator_error + string" where
  "anthropic_model env_key apiKey model_id =
     (case (case apiKey of Some k \<Rightarrow> Some k | None \<Rightarrow> env_key) of
        None \<Rightarrow> Inl ERR_NO_API_KEY
      | Some k \<Rightarrow> if k = [] then Inl ERR_NO_API_KEY
                  else Inr (case model_id of None \<Rightarrow> DEFAULT_ANTHROPIC_MODEL | Some i \<Rightarrow> i))"

text \<open>The text of a reply: its text blocks, given as type and text.\<close>

definition response_text :: "(string \<times> string) list \<Rightarrow> string" where
  "response_text blocks = concat (map snd (filter (\<lambda>(ty, t). ty = ''text'') blocks))"

text \<open>One exchange with the API: the model, the request as a user message, the text of the reply.\<close>

record api_request =
  ar_model :: string
  ar_max_tokens :: nat
  ar_system :: string
  ar_messages :: "(string \<times> string) list"

definition anthropic_complete :: "(api_request \<Rightarrow> 'e + (string \<times> string) list) \<Rightarrow> string \<Rightarrow> model_request \<Rightarrow> 'e + string" where
  "anthropic_complete create model_id rq =
     (case create \<lparr>ar_model = model_id, ar_max_tokens = rq_maxTokens rq, ar_system = rq_system rq,
         ar_messages = [(''user'', rq_user rq)]\<rparr> of
        Inl e \<Rightarrow> Inl e
      | Inr blocks \<Rightarrow> Inr (response_text blocks))"

text \<open>\<open>FakeSpecModel\<close>: the given responses in order, then an error; every request is kept.\<close>

record fake_model =
  fm_requests :: "model_request list"
  fm_responses :: "string list"
  fm_cursor :: nat

definition fake_spec_model :: "string list \<Rightarrow> fake_model" where
  "fake_spec_model responses = \<lparr>fm_requests = [], fm_responses = responses, fm_cursor = 0\<rparr>"

definition fake_complete :: "model_request \<Rightarrow> fake_model \<Rightarrow> (generator_error + string) \<times> fake_model" where
  "fake_complete rq m =
     (let m' = m\<lparr>fm_requests := fm_requests m @ [rq]\<rparr> in
      if fm_cursor m < length (fm_responses m)
      then (Inr (fm_responses m ! fm_cursor m), m'\<lparr>fm_cursor := Suc (fm_cursor m)\<rparr>)
      else (Inl ERR_FAKE_EXHAUSTED, m'))"

fun fake_run :: "model_request list \<Rightarrow> fake_model \<Rightarrow> (generator_error + string) list \<times> fake_model" where
  "fake_run [] m = ([], m)"
| "fake_run (rq # rqs) m =
     (case fake_complete rq m of (r, m') \<Rightarrow> apfst (Cons r) (fake_run rqs m'))"

lemma fake_run_from:
  "fm_cursor m \<le> length (fm_responses m) \<Longrightarrow>
   fst (fake_run rqs m) = map Inr (take (length rqs) (drop (fm_cursor m) (fm_responses m))) @
     replicate (length rqs - (length (fm_responses m) - fm_cursor m)) (Inl ERR_FAKE_EXHAUSTED) \<and>
   fm_requests (snd (fake_run rqs m)) = fm_requests m @ rqs"
proof (induction rqs arbitrary: m)
  case (Cons rq rqs)
  show ?case
  proof (cases "fm_cursor m < length (fm_responses m)")
    case True
    let ?m = "m\<lparr>fm_requests := fm_requests m @ [rq], fm_cursor := Suc (fm_cursor m)\<rparr>"
    have step: "fake_complete rq m = (Inr (fm_responses m ! fm_cursor m), ?m)" using True by (simp add: fake_complete_def Let_def)
    have "drop (fm_cursor m) (fm_responses m) = fm_responses m ! fm_cursor m # drop (Suc (fm_cursor m)) (fm_responses m)"
      using True by (simp add: Cons_nth_drop_Suc)
    then show ?thesis using Cons.IH[of ?m] True by (simp add: step)
  next
    case False
    then show ?thesis using Cons.prems Cons.IH[of "m\<lparr>fm_requests := fm_requests m @ [rq]\<rparr>"] by (simp add: fake_complete_def Let_def)
  qed
qed simp

text \<open>
  A scripted model never makes an answer up: the answers are the script in order and from its end on errors, and the requests
  are all on record.
\<close>

lemma scripted_answers:
  "fst (fake_run rqs (fake_spec_model script)) =
     map Inr (take (length rqs) script) @ replicate (length rqs - length script) (Inl ERR_FAKE_EXHAUSTED) \<and>
   fm_requests (snd (fake_run rqs (fake_spec_model script))) = rqs"
  using fake_run_from[of "fake_spec_model script" rqs] by (simp add: fake_spec_model_def)

subsection \<open>The golden corpus\<close>

record corpus_entry =
  ce_name :: string
  ce_prompt :: string
  ce_expected :: app_spec

definition corpus_entry_of ::
  "(json \<Rightarrow> string list option) \<Rightarrow> (json \<Rightarrow> app_spec) \<Rightarrow> (string \<Rightarrow> string option) \<Rightarrow> string \<Rightarrow> corpus_entry option" where
  "corpus_entry_of structural typed read file =
     (case Option.bind (read file) json_parse of
        Some (JObj kvs) \<Rightarrow>
          (case get_field kvs ''prompt'' of
             JStr prompt \<Rightarrow>
               if trim prompt = [] then None
               else (case validateSpec structural typed (get_field kvs ''expected'') of
                       Inl e \<Rightarrow> None
                     | Inr spec \<Rightarrow> Some \<lparr>ce_name = take (length file - 5) file, ce_prompt = prompt, ce_expected = spec\<rparr>)
           | _ \<Rightarrow> None)
      | _ \<Rightarrow> None)"

fun corpus_entries ::
  "(json \<Rightarrow> string list option) \<Rightarrow> (json \<Rightarrow> app_spec) \<Rightarrow> (string \<Rightarrow> string option) \<Rightarrow> string list \<Rightarrow> corpus_entry list option" where
  "corpus_entries structural typed read [] = Some []"
| "corpus_entries structural typed read (file # fs) =
     (case corpus_entry_of structural typed read file of
        None \<Rightarrow> None
      | Some e \<Rightarrow> map_option (Cons e) (corpus_entries structural typed read fs))"

definition loadCorpus ::
  "(json \<Rightarrow> string list option) \<Rightarrow> (json \<Rightarrow> app_spec) \<Rightarrow> (string \<Rightarrow> string option) \<Rightarrow> string list option \<Rightarrow> corpus_entry list option" where
  "loadCorpus structural typed read listing =
     (case listing of
        None \<Rightarrow> None
      | Some names \<Rightarrow>
          (let files = sort (filter (\<lambda>f. ends_with f ''.json'') names) in
           if files = [] then None else corpus_entries structural typed read files))"

end
