(* ===== verification/Generate_Props.thy ===== *)
theory Generate_Props
  imports Generate
begin

text \<open>
  What the generator promises: the object in an answer is found, whatever surrounds it; a generated spec is
  the first valid answer and every retry shows the errors of the answer before it.
\<close>

subsection \<open>Balanced scanning of a printed value\<close>

lemma char_codes [simp]: "char_of (34 :: nat) = CHR 0x22" "char_of (92 :: nat) = CHR 0x5C"
  by code_simp+

lemma of_char_eq: "(of_char c :: nat) = n \<longleftrightarrow> c = char_of n \<and> n < 256"
  by (metis char_of_char of_char_of nat_of_char_less_256 mod_less)

definition shift :: "nat \<Rightarrow> nat option \<Rightarrow> nat option" where
  "shift k x = (case x of None \<Rightarrow> None | Some n \<Rightarrow> Some (k + n))"

lemma shift_simps [simp]: "shift 0 x = x" "shift a (shift b x) = shift (a + b) x" "map_option Suc (shift k x) = shift (Suc k) x"
    "map_option Suc x = shift 1 x" "shift k None = None" "shift k (Some n) = Some (k + n)"
  by (cases x; simp add: shift_def)+

text \<open>Scanning a text at a depth, inside or outside a string, comes out as it went in.\<close>

definition advances :: "int \<Rightarrow> bool \<Rightarrow> string \<Rightarrow> bool" where
  "advances d q t \<longleftrightarrow> (\<forall>r. scan_balanced d q False (t @ r) = shift (length t) (scan_balanced d q False r))"

lemma advances_append: "advances d q a \<Longrightarrow> advances d q b \<Longrightarrow> advances d q (a @ b)"
  by (simp add: advances_def)

lemma advances_Nil [simp]: "advances d q []"
  by (simp add: advances_def)

lemma advances_plain:
  "list_all (\<lambda>c. c \<noteq> CHR 0x22 \<and> c \<noteq> CHR ''{'' \<and> c \<noteq> CHR ''}'') t \<Longrightarrow> advances d False t"
  by (induction t) (auto simp: advances_def)

lemma advances_in_string: "list_all (\<lambda>c. c \<noteq> CHR 0x22 \<and> c \<noteq> CHR 0x5C) t \<Longrightarrow> advances d True t"
  by (induction t) (auto simp: advances_def)

lemma advances_escaped: "list_all (\<lambda>c. c \<noteq> CHR 0x22 \<and> c \<noteq> CHR 0x5C) t \<Longrightarrow> advances d True (CHR 0x5C # c # t)"
  using advances_in_string[of t d] by (simp add: advances_def)

lemma hex_digit_plain: "n < 16 \<Longrightarrow> hex_digit n \<noteq> CHR 0x22 \<and> hex_digit n \<noteq> CHR 0x5C"
proof -
  have "list_all (\<lambda>n. hex_digit n \<noteq> CHR 0x22 \<and> hex_digit n \<noteq> CHR 0x5C) [0..<16]" by code_simp
  then show "n < 16 \<Longrightarrow> ?thesis" by (simp add: list_all_iff)
qed

lemma advances_escape: "advances d True (escape_char c)"
proof -
  obtain n where n: "n < 256" "c = char_of (n :: nat)" using char_code_cases by blast
  have code: "of_char c = n" using n by simp
  consider "n \<in> {34, 92, 8, 12, 10, 13, 9}" | (ctl) "n < 32" "n \<notin> {8, 12, 10, 13, 9}" | (plain) "32 \<le> n" "n \<noteq> 34" "n \<noteq> 92"
    by fastforce
  then show ?thesis
  proof cases
    case 1
    then have "\<exists>e. escape_char c = [CHR 0x5C, e]" using n by (elim insertE emptyE) (simp_all add: escape_char_def Let_def)
    then show ?thesis using advances_escaped[of "[]"] by auto
  next
    case ctl
    then have "escape_char c = CHR 0x5C # CHR ''u'' # ''00'' @ [hex_digit (n div 16), hex_digit (n mod 16)]"
      using code by (simp add: escape_char_def Let_def)
    moreover have "n div 16 < 16" "n mod 16 < 16" using ctl(1) by simp_all
    ultimately show ?thesis using hex_digit_plain by (simp add: advances_escaped)
  next
    case plain
    then have "escape_char c = [c]" using code by (simp add: escape_char_def Let_def)
    moreover have "c \<noteq> CHR 0x22" "c \<noteq> CHR 0x5C" using plain code by auto
    ultimately show ?thesis by (simp add: advances_in_string)
  qed
qed

lemma advances_quote: "advances d False (quote_str s)"
proof -
  have "advances d True (concat (map escape_char s))"
    by (induction s) (auto intro: advances_append advances_escape)
  then show ?thesis by (simp add: advances_def quote_str_def)
qed

lemma advances_join:
  assumes "\<And>t. t \<in> set ts \<Longrightarrow> advances d False t"
  shows "advances d False (join_with '','' ts)"
  using assms
proof (induction ts rule: induct_list012)
  case (3 x y ts)
  have "advances d False '',''" by (rule advances_plain) simp
  then show ?case using 3 by (auto intro!: advances_append simp del: append_Cons)
qed auto

lemma list_all_part: "list_all P xs \<Longrightarrow> list_all P (take k xs)" "list_all P xs \<Longrightarrow> list_all P (drop k xs)" "P x \<Longrightarrow> list_all P (replicate k x)"
  by (auto simp: list_all_iff dest: in_set_takeD in_set_dropD)

lemma digits_str_all:
  assumes "list_all P ds" "list_all P ''0.-+e''" "\<And>n. list_all P (nat_str n)"
  shows "list_all P (digits_str ds e)"
proof -
  have "P (CHR ''0'')" "P (CHR ''.'')" "P (CHR ''-'')" "P (CHR ''+'')" "P (CHR ''e'')" using assms(2) by simp_all
  then show ?thesis using assms(1,3) by (simp add: digits_str_def Let_def list_all_part)
qed

lemma num_str_plain: "list_all (\<lambda>c. c \<noteq> CHR 0x22 \<and> c \<noteq> CHR ''{'' \<and> c \<noteq> CHR ''}'') (num_str (Dec m e))"
proof -
  have "\<not> is_digit (CHR 0x22)" "\<not> is_digit (CHR ''{'')" "\<not> is_digit (CHR ''}'')" by code_simp+
  then have "list_all (\<lambda>c. c \<noteq> CHR 0x22 \<and> c \<noteq> CHR ''{'' \<and> c \<noteq> CHR ''}'') (nat_str n)" for n
    using nat_str_digits[of n] by (auto simp: list_all_iff)
  then show ?thesis by (auto simp: Let_def intro!: digits_str_all split: prod.splits)
qed

lemma advances_text: "json_ok v \<Longrightarrow> 1 \<le> d \<Longrightarrow> advances d False (jtext v)"
proof (induction v arbitrary: d rule: json_induct)
  case (Bool b)
  then show ?case by (auto simp: jtext_atoms intro!: advances_plain)
next
  case (Num n)
  then obtain m e where "n = Dec m e" by (auto split: jsnum.splits)
  then show ?case by (simp add: jtext_atoms advances_plain num_str_plain del: num_str.simps)
next
  case (Arr vs)
  have "advances d False (join_with '','' (map jtext vs))" using Arr by (intro advances_join) auto
  moreover have "advances d False ''[''" "advances d False '']''" by (rule advances_plain; simp)+
  ultimately show ?case using Arr.prems(1) by (simp only: jtext_arr advances_append)
next
  case (Obj kvs)
  have "advances (d + 1) False (member_text kv)" if "kv \<in> set kvs" for kv
  proof -
    have "advances (d + 1) False (jtext (snd kv))" using Obj.IH[of "fst kv" "snd kv" "d + 1"] Obj.prems that by auto
    moreover have "advances (d + 1) False '':''" by (rule advances_plain) simp
    ultimately show ?thesis unfolding member_text_def by (intro advances_append advances_quote)
  qed
  then have "advances (d + 1) False (join_with '','' (map member_text kvs))" by (intro advances_join) auto
  then show ?case using Obj.prems(2)
    by (simp add: jtext_obj[OF Obj.prems(1)] advances_def)
qed (auto simp: jtext_atoms advances_quote intro!: advances_plain)

lemma scanBalanced_text: "json_ok (JObj kvs) \<Longrightarrow> scanBalanced (jtext (JObj kvs) @ r) = Some (length (jtext (JObj kvs)))"
proof -
  assume ok: "json_ok (JObj kvs)"
  have "advances 1 False (member_text kv)" if "kv \<in> set kvs" for kv
  proof -
    have "advances 1 False (jtext (snd kv))" using ok that by (intro advances_text) auto
    moreover have "advances 1 False '':''" by (rule advances_plain) simp
    ultimately show ?thesis unfolding member_text_def by (intro advances_append advances_quote)
  qed
  then have "advances 1 False (join_with '','' (map member_text kvs))" by (intro advances_join) auto
  then show ?thesis by (simp add: scanBalanced_def jtext_obj[OF ok] advances_def)
qed

subsection \<open>The object in an answer is found\<close>

lemma parse_object_text:
  assumes "json_ok (JObj kvs)" "size (JObj kvs) < n"
  shows "parse_value n (jtext (JObj kvs) @ r) = Some (JObj kvs, r)"
proof -
  obtain k where k: "n = Suc k" "size_list (size_prod (\<lambda>_. 0) size) kvs < k" using assms(2) by (cases n) auto
  show ?thesis
  proof (cases "kvs = []")
    case True
    then show ?thesis using k(1) by (simp add: jtext_def parse_value.simps)
  next
    case False
    have hd: "hd (map member_text kvs) \<noteq> []" "hd (hd (map member_text kvs)) = CHR 0x22"
      using False by (simp_all add: hd_map member_text_def quote_str_def)
    have "parse_members k (join_with '','' (map member_text kvs) @ CHR ''}'' # r) = Some (kvs, r)"
      using assms(1) False k by (intro parse_members_text parse_value_text) auto
    moreover have "js_order (map_from kvs) = kvs" using assms(1) by (simp add: map_from_distinct)
    ultimately show ?thesis
      using hd_join[of "map member_text kvs" "'',''"] hd False k(1)
      by (cases "join_with '','' (map member_text kvs)") (simp_all add: jtext_obj[OF assms(1)] parse_value.simps is_json_ws_def Let_def)
  qed
qed

lemma parse_other:
  assumes "parse_value n s = Some (JObj kvs, r)" "s \<noteq> []" "\<not> is_json_ws (hd s)"
  shows "hd s = CHR ''{''"
  using assms by (cases n; cases s) (auto simp: parse_value.simps split: if_splits list.splits option.splits)

lemma jtext_obj_ends: "json_ok (JObj kvs) \<Longrightarrow> \<exists>m. jtext (JObj kvs) = CHR ''{'' # m @ [CHR ''}'']"
  by (simp add: jtext_obj)

lemma tryParse_text: "json_ok (JObj kvs) \<Longrightarrow> tryParseObject (jtext (JObj kvs)) = Some (JObj kvs)"
  by (simp add: tryParseObject_def json_parse_jtext del: json_ok.simps)

lemma space_ws: "is_json_ws c \<Longrightarrow> is_space c"
  by (auto simp: is_json_ws_def is_space_def Let_def)

lemma tryParse_around:
  assumes ok: "json_ok (JObj kvs)" and "a = [] \<or> \<not> is_space (hd a)" "CHR ''{'' \<notin> set a"
  shows "tryParseObject (a @ jtext (JObj kvs) @ b) \<in> {None, Some (JObj kvs)}"
proof (cases a)
  case Nil
  have "parse_value (Suc (length (jtext (JObj kvs) @ b))) (jtext (JObj kvs) @ b) = Some (JObj kvs, b)"
    using size_le_text[OF ok] by (intro parse_object_text[OF ok]) simp
  then show ?thesis by (simp add: Nil tryParseObject_def json_parse_def)
next
  case (Cons c cs)
  have "hd a \<noteq> CHR ''{''" "\<not> is_json_ws (hd a)" using assms(2,3) space_ws by (auto simp: Cons)
  then show ?thesis using parse_other[of _ "a @ jtext (JObj kvs) @ b"]
    by (auto simp: Cons tryParseObject_def json_parse_def split: option.splits json.splits prod.splits if_splits)
qed

lemma first_skips: "CHR ''{'' \<notin> set a \<Longrightarrow> firstParseableObject (a @ s) = firstParseableObject s"
  by (induction a) auto

lemma first_text: "json_ok (JObj kvs) \<Longrightarrow> firstParseableObject (jtext (JObj kvs) @ b) = Some (JObj kvs)"
  using scanBalanced_text[of kvs b] tryParse_text[of kvs] jtext_obj_ends[of kvs] by auto

lemma try_around:
  assumes "json_ok (JObj kvs)" "a = [] \<or> \<not> is_space (hd a)" "CHR ''{'' \<notin> set a"
  shows "try_candidate (a @ jtext (JObj kvs) @ b) = Some (JObj kvs)"
  using tryParse_around[OF assms, of b] first_skips[OF assms(3)] first_text[OF assms(1)]
  by (auto simp: try_candidate_def simp del: append_assoc)

lemma drop_around: "t \<noteq> [] \<Longrightarrow> \<not> P (hd t) \<Longrightarrow> dropWhile P (a @ t) = dropWhile P a @ t"
  by (induction a) (auto simp: neq_Nil_conv)

definition trim_end :: "string \<Rightarrow> string" where
  "trim_end b = rev (dropWhile is_space (rev b))"

lemma trim_around:
  assumes "t \<noteq> []" "\<not> is_space (hd t)" "\<not> is_space (last t)"
  shows "trim (a @ t @ b) = dropWhile is_space a @ t @ trim_end b"
  using assms drop_around[of "t @ b" is_space a] drop_around[of "rev t @ rev (dropWhile is_space a)" is_space "rev b"]
  by (simp add: trim_def trim_end_def hd_rev)

lemma no_ticks: "CHR 0x60 \<notin> set s \<Longrightarrow> cut_at_ticks s = None"
  by (induction s) auto

lemma first_ticks: "CHR 0x60 \<notin> set a \<Longrightarrow> cut_at_ticks (a @ bquote3 @ b) = Some (a, b)"
  by (induction a) auto

lemma braces_no_space [simp]: "\<not> is_space (CHR ''{'')" "\<not> is_space (CHR ''}'')" "\<not> is_space (CHR 0x60)" "is_space (hd newline)"
  by code_simp+

lemma jtext_not_blank:
  assumes "json_ok (JObj kvs)"
  shows "jtext (JObj kvs) \<noteq> []" "\<not> is_space (hd (jtext (JObj kvs)))" "\<not> is_space (last (jtext (JObj kvs)))"
  using jtext_obj_ends[OF assms] by auto

lemma dropWhile_hd: "dropWhile P s = [] \<or> \<not> P (hd (dropWhile P s))"
  by (induction s) auto

lemma fence_head:
  assumes "cut_at_ticks s = Some (a, ''json'' @ newline @ r)"
  shows "fence_body s = map_option fst (cut_at_ticks r)"
proof -
  obtain c where c: "newline = [c]" by (simp add: newline_def)
  have "to_lower ''json'' = ''json''" by code_simp
  then show ?thesis using assms by (simp add: fence_body_def c)
qed

lemma bare_object_found:
  assumes "json_ok (JObj kvs)" "CHR ''{'' \<notin> set pre" "CHR 0x60 \<notin> set (pre @ jtext (JObj kvs) @ post)"
  shows "extractSpecJson (pre @ jtext (JObj kvs) @ post) = Inr (JObj kvs)"
proof -
  let ?a = "dropWhile is_space pre"
  have s: "trim (pre @ jtext (JObj kvs) @ post) = ?a @ jtext (JObj kvs) @ trim_end post"
    by (rule trim_around[OF jtext_not_blank[OF assms(1)]])
  have "set (trim_end post) \<subseteq> set post" "set ?a \<subseteq> set pre" by (auto simp: trim_end_def dest: set_dropWhileD)
  then have "CHR 0x60 \<notin> set (?a @ jtext (JObj kvs) @ trim_end post)" "CHR ''{'' \<notin> set ?a" using assms by auto
  moreover have "try_candidate (?a @ jtext (JObj kvs) @ trim_end post) = Some (JObj kvs)"
    by (intro try_around assms(1) dropWhile_hd calculation(2))
  ultimately show ?thesis using jtext_not_blank(1)[OF assms(1)]
    by (simp add: extractSpecJson_def s Let_def fence_body_def no_ticks List.map_filter_simps del: set_append)
qed

lemma fenced_object_found:
  assumes "json_ok (JObj kvs)" "CHR 0x60 \<notin> set pre" "CHR 0x60 \<notin> set (jtext (JObj kvs))"
  shows "extractSpecJson (pre @ bquote3 @ ''json'' @ newline @ jtext (JObj kvs) @ newline @ bquote3 @ post) = Inr (JObj kvs)"
proof -
  let ?t = "bquote3 @ ''json'' @ newline @ jtext (JObj kvs) @ newline @ bquote3"
  obtain c where c: "newline = [c]" by (simp add: newline_def)
  have "hd newline \<noteq> CHR 0x60" by code_simp
  then have nl: "c \<noteq> CHR 0x60" "is_space c" using braces_no_space(4) by (simp_all add: c)
  have s: "trim (pre @ ?t @ post) = dropWhile is_space pre @ ?t @ trim_end post"
    by (rule trim_around) simp_all
  have "CHR 0x60 \<notin> set (dropWhile is_space pre)" using assms(2) by (auto dest: set_dropWhileD)
  from first_ticks[OF this] have cut: "cut_at_ticks (dropWhile is_space pre @ ?t @ trim_end post) =
      Some (dropWhile is_space pre, ''json'' @ newline @ jtext (JObj kvs) @ newline @ bquote3 @ trim_end post)"
    by simp
  have body: "cut_at_ticks (jtext (JObj kvs) @ newline @ bquote3 @ trim_end post) = Some (jtext (JObj kvs) @ newline, trim_end post)"
    using first_ticks[of "jtext (JObj kvs) @ newline" "trim_end post"] assms(3) nl(1) by (simp add: c)
  have "fence_body (dropWhile is_space pre @ ?t @ trim_end post) = Some (jtext (JObj kvs) @ newline)"
    using fence_head[OF cut] body by simp
  moreover have "trim (jtext (JObj kvs) @ newline) = jtext (JObj kvs)"
    using trim_around[OF jtext_not_blank[OF assms(1)], of "[]" newline] nl(2) by (simp add: trim_end_def c)
  moreover have "try_candidate (jtext (JObj kvs)) = Some (JObj kvs)"
    using try_around[OF assms(1), of "[]" "[]"] by simp
  ultimately show ?thesis using s jtext_not_blank(1)[OF assms(1)]
    by (simp add: extractSpecJson_def Let_def List.map_filter_simps)
qed

text \<open>
  The spec in an answer is found.  Whatever the model writes around a JSON object, with no brace before it and
  no backquotes, and also when it puts the object into a fence, the object that comes out is the one
  that was written, whole and unchanged, whatever its texts contain.
\<close>

theorem object_in_the_answer_is_found:
  assumes "json_ok (JObj kvs)" "CHR ''{'' \<notin> set pre" "CHR 0x60 \<notin> set (pre @ jtext (JObj kvs) @ post)"
  shows "extractSpecJson (pre @ jtext (JObj kvs) @ post) = Inr (JObj kvs) \<and>
    extractSpecJson (pre @ bquote3 @ ''json'' @ newline @ jtext (JObj kvs) @ newline @ bquote3 @ post) = Inr (JObj kvs)"
  using bare_object_found[OF assms] fenced_object_found[OF assms(1), of pre post] assms(3) by simp

definition noisy_answer :: string where
  "noisy_answer = ''Here it is: ''"

theorem object_in_the_answer_is_found_witness:
  "extractSpecJson (noisy_answer @ jtext (JObj [(''a'', JStr ''}{'')]) @ '' done'') = Inr (JObj [(''a'', JStr ''}{'')]) \<and>
   extractSpecJson (noisy_answer @ bquote3 @ ''json'' @ newline @ jtext (JObj [(''a'', JStr ''}{'')]) @ newline @ bquote3 @ '' done'')
     = Inr (JObj [(''a'', JStr ''}{'')])"
proof (rule object_in_the_answer_is_found)
  show "json_ok (JObj [(''a'', JStr ''}{'')])" "CHR ''{'' \<notin> set noisy_answer"
    "CHR 0x60 \<notin> set (noisy_answer @ jtext (JObj [(''a'', JStr ''}{'')]) @ '' done'')"
    by code_simp+
qed

text \<open>
  An answer that is exactly a spec is not always read as that spec: the fence is looked for first, also inside
  the texts of the spec, and a fenced object in a description takes the place of the whole.
\<close>

lemma fenced_text_inside_a_spec_wins:
  "extractSpecJson (jtext (JObj [(''a'', JStr (bquote3 @ ''{}'' @ bquote3))])) = Inr (JObj [])"
  by code_simp

subsection \<open>The loop\<close>

text \<open>
  The exchange the loop is meant to have with the model: each request shows the prompt it is given, the next one the
  answer and its errors; it ends with the first failure of the transport, the first valid answer, or the last attempt.
\<close>

fun exchange ::
  "(json \<Rightarrow> string list option) \<Rightarrow> (json \<Rightarrow> app_spec) \<Rightarrow> (spec_errors \<Rightarrow> string) \<Rightarrow> string \<Rightarrow> nat \<Rightarrow> string \<Rightarrow>
   (model_request \<times> ('e + string)) list \<Rightarrow> ('e + generate_result) \<Rightarrow> bool" where
  "exchange structural typed shown description k user [] res = False"
| "exchange structural typed shown description k user [(rq, answer)] res =
     (rq_user rq = user \<and>
      (case answer of
         Inl e \<Rightarrow> res = Inl e
       | Inr raw \<Rightarrow>
           (case judge_response structural typed raw of
              Inr spec \<Rightarrow> res = Inr (Generated spec k)
            | Inl errors \<Rightarrow> k = MAX_ATTEMPTS \<and> res = Inr (Not_generated errors k))))"
| "exchange structural typed shown description k user ((rq, answer) # rest) res =
     (rq_user rq = user \<and>
      (case answer of
         Inl e \<Rightarrow> False
       | Inr raw \<Rightarrow>
           (case judge_response structural typed raw of
              Inr spec \<Rightarrow> False
            | Inl errors \<Rightarrow>
                exchange structural typed shown description (Suc k) (buildRetryPrompt shown description raw errors) rest res)))"

lemma loop_exchange:
  assumes "generate_loop structural typed shown system complete description (Suc n) k user errors = (res, trace)" "k + n = MAX_ATTEMPTS"
  shows "exchange structural typed shown description k user trace res \<and> length trace \<le> Suc n"
  using assms
proof (induction n arbitrary: k user errors trace)
  case 0
  then show ?case by (auto simp: Let_def split: sum.splits)
next
  case (Suc n)
  show ?case
  proof (cases "complete k \<lparr>rq_system = system, rq_user = user, rq_maxTokens = GENERATE_MAX_TOKENS\<rparr>")
    case (Inl e)
    then show ?thesis using Suc.prems by auto
  next
    case (Inr raw)
    show ?thesis
    proof (cases "judge_response structural typed raw")
      case (Inl errs)
      have step: "generate_loop structural typed shown system complete description (Suc (Suc n)) k user errors =
          apsnd (Cons (\<lparr>rq_system = system, rq_user = user, rq_maxTokens = GENERATE_MAX_TOKENS\<rparr>, Inr raw))
            (generate_loop structural typed shown system complete description (Suc n) (Suc k) (buildRetryPrompt shown description raw errs) errs)"
        using Inr Inl by (subst generate_loop.simps(2)) (simp add: Let_def del: generate_loop.simps)
      obtain rest where rest: "generate_loop structural typed shown system complete description (Suc n) (Suc k)
          (buildRetryPrompt shown description raw errs) errs = (res, rest)"
          "trace = (\<lparr>rq_system = system, rq_user = user, rq_maxTokens = GENERATE_MAX_TOKENS\<rparr>, Inr raw) # rest"
        using Suc.prems(1) unfolding step by (auto simp: apsnd_def map_prod_def simp del: generate_loop.simps split: prod.splits)
      from Suc.IH[OF rest(1)] Suc.prems(2) have "exchange structural typed shown description (Suc k) (buildRetryPrompt shown description raw errs) rest res"
          "length rest \<le> Suc n" by auto
      then show ?thesis using Inl rest(2) by (cases rest) auto
    next
      case (Inr spec)
      then show ?thesis using Suc.prems(1) \<open>complete k _ = Inr raw\<close> by auto
    qed
  qed
qed

lemma judge_ok: "judge_response structural typed raw = Inr spec \<Longrightarrow> spec_ok spec"
  by (auto simp: judge_response_def dest: validateSpec_ok split: sum.splits)

lemma exchange_valid: "exchange structural typed shown description k user trace (Inr (Generated spec j)) \<Longrightarrow> spec_ok spec \<and> k \<le> j \<and> j < k + length trace"
  by (induction structural typed shown description k user trace "Inr (Generated spec j) :: 'a + generate_result" rule: exchange.induct)
    (auto dest: judge_ok split: sum.splits, fastforce)

text \<open>
  C37.  A generated spec is the first valid answer.  The exchange with the model is the one the contract describes:
  the first request carries the description, every later one the answer before it and exactly the errors of
  its validation; it ends at the first valid answer, which is the result and passes every check of the
  validator, at the first transport failure, which is passed on, or after three invalid
  answers with the errors of the last.
\<close>

theorem generated_spec_is_the_first_valid_answer:
  "case generateSpec structural typed shown system complete description of (res, trace) \<Rightarrow>
     exchange structural typed shown description 1 (buildUserPrompt description) trace res \<and> length trace \<le> 3 \<and>
     (case res of Inr (Generated spec k) \<Rightarrow> spec_ok spec \<and> 1 \<le> k \<and> k \<le> 3 | _ \<Rightarrow> True)"
proof -
  obtain res trace where run: "generateSpec structural typed shown system complete description = (res, trace)" by force
  then have "generate_loop structural typed shown system complete description (Suc 2) 1 (buildUserPrompt description) [] = (res, trace)"
    by (simp add: generateSpec_def MAX_ATTEMPTS_def eval_nat_numeral)
  from loop_exchange[OF this] have "exchange structural typed shown description 1 (buildUserPrompt description) trace res" "length trace \<le> 3"
    by (simp_all add: MAX_ATTEMPTS_def)
  then show ?thesis using run exchange_valid[of structural typed shown description 1 "buildUserPrompt description" trace]
    by (fastforce split: sum.splits generate_result.splits)
qed

end
