(* ===== verification/Compare.thy ===== *)
theory Compare
  imports Generate
begin

text \<open>
  The semantic comparison of two specs (\<open>packages/generator/src/compare.ts\<close>) and the evaluation of the golden corpus
  with it (\<open>eval.ts\<close>).  A difference is a path and a message; lists that the code pushes to are
  concatenated.
\<close>

type_synonym spec_diffs = "(string \<times> string) list"

definition compareNamed ::
  "('a \<Rightarrow> string) \<Rightarrow> ('a \<Rightarrow> 'a \<Rightarrow> string \<Rightarrow> spec_diffs) \<Rightarrow> 'a list \<Rightarrow> 'a list \<Rightarrow> string \<Rightarrow> string \<Rightarrow> spec_diffs" where
  "compareNamed name_of item expected actual basePath kind =
     (let byName = (\<lambda>xs. map_from (map (\<lambda>x. (name_of x, x)) xs));
          expectedByName = byName expected; actualByName = byName actual in
      concat (map (\<lambda>(n, e).
        case map_of actualByName n of
          None \<Rightarrow> [(basePath @ ''/'' @ n, ''missing '' @ kind @ '' '' @ quote_str n)]
        | Some a \<Rightarrow> item e a (basePath @ ''/'' @ n)) expectedByName)
      @ concat (map (\<lambda>(n, a).
        if map_has expectedByName n then [] else [(basePath @ ''/'' @ n, ''unexpected '' @ kind @ '' '' @ quote_str n)]) actualByName))"

text \<open>A \<open>Set\<close> iterates in the order of first insertion.\<close>

definition set_order :: "string list \<Rightarrow> string list" where
  "set_order xs = rev (remdups (rev xs))"

definition compareSets :: "string list \<Rightarrow> string list \<Rightarrow> string \<Rightarrow> string \<Rightarrow> spec_diffs" where
  "compareSets expected actual path kind =
     map (\<lambda>v. (path, ''missing '' @ kind @ '' '' @ quote_str v)) (filter (\<lambda>v. v \<notin> set actual) (set_order expected))
     @ map (\<lambda>v. (path, ''unexpected '' @ kind @ '' '' @ quote_str v)) (filter (\<lambda>v. v \<notin> set expected) (set_order actual))"

definition compareScalar :: "json \<Rightarrow> json \<Rightarrow> string \<Rightarrow> string \<Rightarrow> spec_diffs" where
  "compareScalar expected actual path label =
     (if strict_eq expected actual then []
      else [(path, label @ '' is '' @ stringify_val (\<lambda>_. []) actual @ '', expected '' @ stringify_val (\<lambda>_. []) expected)])"

definition opt_str :: "string option \<Rightarrow> json" where
  "opt_str s = (case s of None \<Rightarrow> JUndef | Some t \<Rightarrow> JStr t)"

definition type_name :: "field_type \<Rightarrow> string" where
  "type_name ty =
     (case ty of FString \<Rightarrow> ''string'' | FText \<Rightarrow> ''text'' | FNumber \<Rightarrow> ''number'' | FBoolean \<Rightarrow> ''boolean'' | FDate \<Rightarrow> ''date''
      | FDatetime \<Rightarrow> ''datetime'' | FEnum \<Rightarrow> ''enum'' | FReference \<Rightarrow> ''reference'')"

definition op_name :: "predicate_op \<Rightarrow> string" where
  "op_name p =
     (case p of Op_eq \<Rightarrow> ''eq'' | Op_ne \<Rightarrow> ''ne'' | Op_gt \<Rightarrow> ''gt'' | Op_gte \<Rightarrow> ''gte'' | Op_lt \<Rightarrow> ''lt'' | Op_lte \<Rightarrow> ''lte''
      | Op_set \<Rightarrow> ''set'' | Op_notSet \<Rightarrow> ''notSet'')"

definition page_kind_name :: "page_type \<Rightarrow> string" where
  "page_kind_name ty = (case ty of List_page \<Rightarrow> ''list'' | Detail_page \<Rightarrow> ''detail'' | Form_page \<Rightarrow> ''form'')"

definition compareField :: "field_def \<Rightarrow> field_def \<Rightarrow> string \<Rightarrow> spec_diffs" where
  "compareField expected actual path =
     compareScalar (JStr (type_name (fd_type expected))) (JStr (type_name (fd_type actual))) (path @ ''/type'') ''field type''
     @ (if fd_type expected \<noteq> fd_type actual then []
        else (if fd_type expected = FEnum
              then compareSets (or_empty (fd_values expected)) (or_empty (fd_values actual)) (path @ ''/values'') ''enum value'' else [])
           @ (if fd_type expected = FReference
              then compareScalar (opt_str (fd_entity expected)) (opt_str (fd_entity actual)) (path @ ''/entity'') ''reference target'' else []))"

text \<open>The only kind of a relation is \<open>manyToMany\<close>.\<close>

definition compareRelation :: "relation_def \<Rightarrow> relation_def \<Rightarrow> string \<Rightarrow> spec_diffs" where
  "compareRelation expected actual path =
     compareScalar (JStr ''manyToMany'') (JStr ''manyToMany'') (path @ ''/kind'') ''relation kind''
     @ compareScalar (JStr (rd_to expected)) (JStr (rd_to actual)) (path @ ''/to'') ''relation target''"

definition compareEntity :: "entity_def \<Rightarrow> entity_def \<Rightarrow> string \<Rightarrow> spec_diffs" where
  "compareEntity expected actual path =
     compareNamed fd_name compareField (en_fields expected) (en_fields actual) (path @ ''/fields'') ''field''
     @ compareNamed rd_name compareRelation (or_empty (en_relations expected)) (or_empty (en_relations actual)) (path @ ''/relations'') ''relation''"

definition comparePage :: "page_def \<Rightarrow> page_def \<Rightarrow> string \<Rightarrow> spec_diffs" where
  "comparePage expected actual path =
     compareScalar (JStr (page_kind_name (pg_type expected))) (JStr (page_kind_name (pg_type actual))) (path @ ''/type'') ''page type''
     @ compareScalar (JStr (pg_entity expected)) (JStr (pg_entity actual)) (path @ ''/entity'') ''page entity''"

definition canonicalPredicate :: "field_predicate \<Rightarrow> string" where
  "canonicalPredicate p =
     stringify_val (\<lambda>_. []) (JArr [JStr (fp_field p), JStr (op_name (fp_op p)), coalesce (case fp_value p of None \<Rightarrow> JUndef | Some v \<Rightarrow> v) JNull])"

definition compareTransition :: "transition_def \<Rightarrow> transition_def \<Rightarrow> string \<Rightarrow> spec_diffs" where
  "compareTransition expected actual path =
     compareScalar (JStr (tr_from expected)) (JStr (tr_from actual)) (path @ ''/from'') ''from state''
     @ compareScalar (JStr (tr_to expected)) (JStr (tr_to actual)) (path @ ''/to'') ''to state''
     @ compareSets (or_empty (guard_roles expected)) (or_empty (guard_roles actual)) (path @ ''/guard/roles'') ''guard role''
     @ compareSets (map canonicalPredicate (guard_require expected)) (map canonicalPredicate (guard_require actual)) (path @ ''/guard/require'') ''guard predicate''
     @ (case (tr_approval expected, tr_approval actual) of
          (Some e, None) \<Rightarrow> [(path @ ''/approval'', ''missing approval rule'')]
        | (None, Some a) \<Rightarrow> [(path @ ''/approval'', ''unexpected approval rule'')]
        | (Some e, Some a) \<Rightarrow>
            compareScalar (JNum (num_of_int (int (ap_count e)))) (JNum (num_of_int (int (ap_count a)))) (path @ ''/approval/count'') ''approval count''
            @ compareSets (or_empty (ap_roles e)) (or_empty (ap_roles a)) (path @ ''/approval/roles'') ''approval role''
        | (None, None) \<Rightarrow> [])"

definition compareWorkflow :: "workflow_def \<Rightarrow> workflow_def \<Rightarrow> string \<Rightarrow> spec_diffs" where
  "compareWorkflow expected actual path =
     compareScalar (JStr (wf_entity expected)) (JStr (wf_entity actual)) (path @ ''/entity'') ''workflow entity''
     @ compareScalar (JStr (wf_stateField expected)) (JStr (wf_stateField actual)) (path @ ''/stateField'') ''state field''
     @ compareScalar (JStr (wf_initial expected)) (JStr (wf_initial actual)) (path @ ''/initial'') ''initial state''
     @ compareNamed tr_name compareTransition (wf_transitions expected) (wf_transitions actual) (path @ ''/transitions'') ''transition''"

definition compareSpecs :: "app_spec \<Rightarrow> app_spec \<Rightarrow> spec_diffs" where
  "compareSpecs expected actual =
     compareSets (or_empty (am_roles (sp_app expected))) (or_empty (am_roles (sp_app actual))) ''/app/roles'' ''role''
     @ compareNamed en_name compareEntity (sp_entities expected) (sp_entities actual) ''/entities'' ''entity''
     @ compareNamed pg_name comparePage (or_empty (sp_pages expected)) (or_empty (sp_pages actual)) ''/pages'' ''page''
     @ compareNamed wf_name compareWorkflow (or_empty (sp_workflows expected)) (or_empty (sp_workflows actual)) ''/workflows'' ''workflow''"

subsection \<open>The evaluation\<close>

text \<open>One entry of the corpus passes, fails or errs; \<open>complete\<close> is the model on that entry.\<close>

definition eval_passes ::
  "(json \<Rightarrow> string list option) \<Rightarrow> (json \<Rightarrow> app_spec) \<Rightarrow> (spec_errors \<Rightarrow> string) \<Rightarrow> string \<Rightarrow>
   (nat \<Rightarrow> model_request \<Rightarrow> 'e + string) \<Rightarrow> corpus_entry \<Rightarrow> bool" where
  "eval_passes structural typed shown system complete entry =
     (case fst (generateSpec structural typed shown system complete (ce_prompt entry)) of
        Inl e \<Rightarrow> False
      | Inr (Not_generated errors n) \<Rightarrow> False
      | Inr (Generated spec n) \<Rightarrow> compareSpecs (ce_expected entry) spec = [])"

text \<open>The exit code of the evaluation and the names of the entries that failed\<close>

definition eval_main ::
  "(json \<Rightarrow> string list option) \<Rightarrow> (json \<Rightarrow> app_spec) \<Rightarrow> (spec_errors \<Rightarrow> string) \<Rightarrow> string \<Rightarrow>
   (string \<Rightarrow> nat \<Rightarrow> model_request \<Rightarrow> 'e + string) \<Rightarrow> string option \<Rightarrow> (string \<Rightarrow> string option) \<Rightarrow> string list option \<Rightarrow> nat \<times> string list" where
  "eval_main structural typed shown system complete env_key read listing =
     (if env_key = None \<or> env_key = Some [] then (2, [])
      else (case loadCorpus structural typed read listing of
              None \<Rightarrow> (2, [])
            | Some corpus \<Rightarrow>
                (let failures = map ce_name (filter (\<lambda>e. \<not> eval_passes structural typed shown system (complete (ce_name e)) e) corpus) in
                 (if failures = [] then 0 else 1, failures))))"

subsection \<open>What it means that there is no difference\<close>

text \<open>The last item with a name is the one that counts.\<close>

definition item_named :: "('a \<Rightarrow> string) \<Rightarrow> 'a list \<Rightarrow> string \<Rightarrow> 'a option" where
  "item_named name_of xs n = List.find (\<lambda>x. name_of x = n) (rev xs)"

definition same_named :: "('a \<Rightarrow> string) \<Rightarrow> ('a \<Rightarrow> 'a \<Rightarrow> bool) \<Rightarrow> 'a list \<Rightarrow> 'a list \<Rightarrow> bool" where
  "same_named name_of same xs ys \<longleftrightarrow> (\<forall>n. rel_option same (item_named name_of xs n) (item_named name_of ys n))"

definition same_field :: "field_def \<Rightarrow> field_def \<Rightarrow> bool" where
  "same_field f g \<longleftrightarrow> fd_type f = fd_type g \<and>
     (if fd_type f = FEnum then set (or_empty (fd_values f)) = set (or_empty (fd_values g)) else True) \<and>
     (if fd_type f = FReference then fd_entity f = fd_entity g else True)"

definition same_entity :: "entity_def \<Rightarrow> entity_def \<Rightarrow> bool" where
  "same_entity e a \<longleftrightarrow> same_named fd_name same_field (en_fields e) (en_fields a) \<and>
     same_named rd_name (\<lambda>r s. rd_to r = rd_to s) (or_empty (en_relations e)) (or_empty (en_relations a))"

text \<open>Predicates count by their field, operator and the text of their value.\<close>

definition predicate_key :: "field_predicate \<Rightarrow> string \<times> predicate_op \<times> string" where
  "predicate_key p = (fp_field p, fp_op p, stringify_val (\<lambda>_. []) (coalesce (case fp_value p of None \<Rightarrow> JUndef | Some v \<Rightarrow> v) JNull))"

definition same_transition :: "transition_def \<Rightarrow> transition_def \<Rightarrow> bool" where
  "same_transition t u \<longleftrightarrow> tr_from t = tr_from u \<and> tr_to t = tr_to u \<and>
     set (or_empty (guard_roles t)) = set (or_empty (guard_roles u)) \<and>
     predicate_key ` set (guard_require t) = predicate_key ` set (guard_require u) \<and>
     rel_option (\<lambda>a b. ap_count a = ap_count b \<and> set (or_empty (ap_roles a)) = set (or_empty (ap_roles b))) (tr_approval t) (tr_approval u)"

definition same_workflow :: "workflow_def \<Rightarrow> workflow_def \<Rightarrow> bool" where
  "same_workflow w v \<longleftrightarrow> wf_entity w = wf_entity v \<and> wf_stateField w = wf_stateField v \<and> wf_initial w = wf_initial v \<and>
     same_named tr_name same_transition (wf_transitions w) (wf_transitions v)"

definition same_meaning :: "app_spec \<Rightarrow> app_spec \<Rightarrow> bool" where
  "same_meaning s t \<longleftrightarrow> set (or_empty (am_roles (sp_app s))) = set (or_empty (am_roles (sp_app t))) \<and>
     same_named en_name same_entity (sp_entities s) (sp_entities t) \<and>
     same_named pg_name (\<lambda>p q. pg_type p = pg_type q \<and> pg_entity p = pg_entity q) (or_empty (sp_pages s)) (or_empty (sp_pages t)) \<and>
     same_named wf_name same_workflow (or_empty (sp_workflows s)) (or_empty (sp_workflows t))"

lemma compareSets_empty: "compareSets xs ys path kind = [] \<longleftrightarrow> set xs = set ys"
  by (auto simp: compareSets_def set_order_def filter_empty_conv)

lemma compareScalar_empty: "compareScalar a b path label = [] \<longleftrightarrow> strict_eq a b"
  by (simp add: compareScalar_def)

lemma item_named_map_of: "map_of (map_from (map (\<lambda>x. (name_of x, x)) xs)) n = item_named name_of xs n"
proof -
  have "map_of (map (\<lambda>x. (name_of x, x)) ys) n = List.find (\<lambda>x. name_of x = n) ys" for ys
    by (induction ys) auto
  then show ?thesis by (simp add: map_of_map_from item_named_def rev_map)
qed

lemma map_from_entry: "(n, x) \<in> set (map_from (map (\<lambda>x. (name_of x, x)) xs)) \<longleftrightarrow> item_named name_of xs n = Some x"
  using map_of_eq_Some_iff[OF distinct_map_from] by (metis item_named_map_of)

lemma concat_entries_empty: "concat (map f kvs) = [] \<longleftrightarrow> (\<forall>n x. (n, x) \<in> set kvs \<longrightarrow> f (n, x) = [])"
  by auto

lemma compareNamed_empty:
  assumes "\<And>e a p. item e a p = [] \<longleftrightarrow> same e a"
  shows "compareNamed name_of item xs ys base kind = [] \<longleftrightarrow> same_named name_of same xs ys"
proof -
  have "compareNamed name_of item xs ys base kind = [] \<longleftrightarrow>
      (\<forall>n e. item_named name_of xs n = Some e \<longrightarrow> (case item_named name_of ys n of None \<Rightarrow> False | Some a \<Rightarrow> same e a)) \<and>
      (\<forall>n a. item_named name_of ys n = Some a \<longrightarrow> item_named name_of xs n \<noteq> None)"
    unfolding compareNamed_def Let_def append_is_Nil_conv concat_entries_empty prod.case item_named_map_of map_from_entry
    using assms by (intro arg_cong2[where f = "(\<and>)"] all_cong1) (auto split: option.splits)
  also have "\<dots> \<longleftrightarrow> (\<forall>n. rel_option same (item_named name_of xs n) (item_named name_of ys n))"
  proof -
    have "(\<forall>e. item_named name_of xs n = Some e \<longrightarrow> (case item_named name_of ys n of None \<Rightarrow> False | Some a \<Rightarrow> same e a)) \<and>
        (\<forall>a. item_named name_of ys n = Some a \<longrightarrow> item_named name_of xs n \<noteq> None)
      \<longleftrightarrow> rel_option same (item_named name_of xs n) (item_named name_of ys n)" for n
      by (cases "item_named name_of xs n"; cases "item_named name_of ys n") simp_all
    then show ?thesis unfolding all_conj_distrib[symmetric] by presburger
  qed
  finally show ?thesis by (simp add: same_named_def)
qed

lemma type_name_inj: "type_name a = type_name b \<longleftrightarrow> a = b"
  by (cases a; cases b) (simp_all add: type_name_def)

lemma page_kind_inj: "page_kind_name p = page_kind_name q \<longleftrightarrow> p = q"
  by (cases p; cases q) (simp_all add: page_kind_name_def)

lemma op_name_inj: "op_name x = op_name y \<longleftrightarrow> x = y"
  by (cases x; cases y) (simp_all add: op_name_def)

lemma opt_str_eq: "strict_eq (opt_str a) (opt_str b) \<longleftrightarrow> a = b"
  by (cases a; cases b) (auto simp: opt_str_def)

lemma field_empty: "compareField f g p = [] \<longleftrightarrow> same_field f g"
  by (auto simp: compareField_def same_field_def compareScalar_empty compareSets_empty type_name_inj opt_str_eq)

lemma relation_empty: "compareRelation r s p = [] \<longleftrightarrow> rd_to r = rd_to s"
  by (simp add: compareRelation_def compareScalar_empty)

lemma entity_empty: "compareEntity e a p = [] \<longleftrightarrow> same_entity e a"
  by (simp add: compareEntity_def same_entity_def compareNamed_empty[OF field_empty] compareNamed_empty[OF relation_empty])

lemma page_empty: "comparePage p q path = [] \<longleftrightarrow> pg_type p = pg_type q \<and> pg_entity p = pg_entity q"
  by (simp add: comparePage_def compareScalar_empty page_kind_inj)

lemma quote_str_split: "quote_str a @ x = quote_str b @ y \<longleftrightarrow> a = b \<and> x = y"
proof
  assume "quote_str a @ x = quote_str b @ y"
  then have "concat (map escape_char a) @ char_of (34 :: nat) # x = concat (map escape_char b) @ char_of (34 :: nat) # y"
    by (simp add: quote_str_def)
  from arg_cong[OF this, of parse_str] show "a = b \<and> x = y" unfolding parse_str_quoted by simp
qed simp

lemma canonical_text:
  "canonicalPredicate p = ''['' @ quote_str (fp_field p) @ '','' @ quote_str (op_name (fp_op p)) @ '','' @ snd (snd (predicate_key p)) @ '']''"
proof -
  define v where "v = coalesce (case fp_value p of None \<Rightarrow> JUndef | Some v \<Rightarrow> v) JNull"
  have "stringify (\<lambda>_. []) v \<noteq> None" by (cases v) (auto simp: v_def coalesce_def split: if_splits option.splits)
  then show ?thesis by (auto simp: canonicalPredicate_def predicate_key_def v_def[symmetric] stringify_val_def)
qed

lemma canonical_eq: "canonicalPredicate p = canonicalPredicate q \<longleftrightarrow> predicate_key p = predicate_key q"
proof -
  have "predicate_key p = predicate_key q \<longleftrightarrow>
      fp_field p = fp_field q \<and> fp_op p = fp_op q \<and> snd (snd (predicate_key p)) = snd (snd (predicate_key q))"
    by (auto simp: predicate_key_def)
  then show ?thesis by (simp add: canonical_text quote_str_split op_name_inj)
qed

lemma images_eq: "f ` A = f ` B \<longleftrightarrow> (\<forall>a \<in> A. \<exists>b \<in> B. f a = f b) \<and> (\<forall>b \<in> B. \<exists>a \<in> A. f a = f b)"
  by (auto simp: set_eq_subset subset_iff image_iff) metis+

lemma canonical_sets: "canonicalPredicate ` A = canonicalPredicate ` B \<longleftrightarrow> predicate_key ` A = predicate_key ` B"
  by (simp only: images_eq canonical_eq)

lemma num_eq_of_int: "num_eq (num_of_int a) (num_of_int b) \<longleftrightarrow> a = b"
proof -
  obtain m e where a: "num_of_int a = Dec m e" "0 \<le> e" "m * 10 ^ nat e = a" by (rule num_of_int_parts)
  obtain n f where b: "num_of_int b = Dec n f" "0 \<le> f" "n * 10 ^ nat f = b" by (rule num_of_int_parts)
  have scaled: "scale x g (min e f) * 10 ^ nat (min e f) = x * 10 ^ nat g" if "min e f \<le> g" for x g
  proof -
    have "nat g = nat (g - min e f) + nat (min e f)" using that a(2) b(2) by auto
    then show ?thesis by (simp add: scale_def power_add)
  qed
  have "a = b \<longleftrightarrow> scale m e (min e f) * 10 ^ nat (min e f) = scale n f (min e f) * 10 ^ nat (min e f)"
    using scaled[of e m] scaled[of f n] a(3) b(3) by simp
  then show ?thesis using a(1) b(1) by simp
qed

lemma transition_empty: "compareTransition t u p = [] \<longleftrightarrow> same_transition t u"
  by (auto simp: compareTransition_def same_transition_def compareScalar_empty compareSets_empty canonical_sets num_eq_of_int split: option.splits)

lemma workflow_empty: "compareWorkflow w v p = [] \<longleftrightarrow> same_workflow w v"
  by (simp add: compareWorkflow_def same_workflow_def compareScalar_empty compareNamed_empty[OF transition_empty])

lemma corpus_entries_valid: "corpus_entries structural typed read files = Some es \<Longrightarrow> list_all (\<lambda>e. spec_ok (ce_expected e) \<and> trim (ce_prompt e) \<noteq> []) es"
  by (induction files arbitrary: es)
    (auto simp: corpus_entry_of_def dest: validateSpec_ok split: option.splits json.splits sum.splits if_splits)

lemma corpus_is_valid: "loadCorpus structural typed read listing = Some es \<Longrightarrow> es \<noteq> [] \<and> list_all (\<lambda>e. spec_ok (ce_expected e) \<and> trim (ce_prompt e) \<noteq> []) es"
proof -
  assume load: "loadCorpus structural typed read listing = Some es"
  then obtain files where files: "files \<noteq> []" "corpus_entries structural typed read files = Some es"
    by (auto simp: loadCorpus_def Let_def split: option.splits if_splits)
  have "es \<noteq> []" using files by (cases files) (auto split: option.splits)
  then show ?thesis using corpus_entries_valid[OF files(2)] by simp
qed

text \<open>
  No difference means the same meaning.  The comparison reports nothing if and only if the two specs have the same
  roles, and, name by name, entities with the same typed fields, enum values, reference targets and relations, pages of the
  same kind on the same entity, and workflows with the same states and transitions, guards and
  approval rules.
\<close>

theorem no_difference_means_same_meaning: "compareSpecs s t = [] \<longleftrightarrow> same_meaning s t"
  by (simp add: compareSpecs_def same_meaning_def compareSets_empty compareNamed_empty[OF entity_empty]
      compareNamed_empty[OF page_empty] compareNamed_empty[OF workflow_empty])

end
