(* ===== verification/Cli.thy ===== *)
theory Cli
  imports Workspace Generate "HOL-Library.Sublist"
begin

text \<open>
  The command line (\<open>packages/cli/src\<close>): \<open>openrupiv new\<close> and \<open>openrupiv generate\<close>.  A path is the list of its segments
  from the root.  The disk maps paths to directories and files; git, the YAML parser, the language model and randomness
  are arguments, git being a function of its own state (the \<open>.git\<close>
  directories it writes belong to that state and not to the disk).  Messages for people are left out.
\<close>

subsection \<open>Errors and exit codes\<close>

datatype cli_code =
    ERR_BAD_NAME | ERR_WORKSPACE_EXISTS | ERR_NOT_A_WORKSPACE | ERR_BAD_WORKSPACE_CONFIG | ERR_MISSING_API_KEY
  | ERR_GENERATOR_UNAVAILABLE | ERR_GIT | ERR_COMPILED_PATH

definition EXIT_OK :: nat where "EXIT_OK = 0"
definition EXIT_USAGE :: nat where "EXIT_USAGE = 1"
definition EXIT_GENERATE_FAILED :: nat where "EXIT_GENERATE_FAILED = 2"
definition EXIT_COMPILE_FAILED :: nat where "EXIT_COMPILE_FAILED = 3"
definition EXIT_ENVIRONMENT :: nat where "EXIT_ENVIRONMENT = 4"

text \<open>Every \<open>CliError\<close> exits with 4, but the one about a compiled path with 3.\<close>

definition cli_exit :: "cli_code \<Rightarrow> nat" where
  "cli_exit code = (if code = ERR_COMPILED_PATH then EXIT_COMPILE_FAILED else EXIT_ENVIRONMENT)"

text \<open>What is thrown: a \<open>CliError\<close>, a failure of the model's transport, or of the disk.\<close>

datatype 'e cli_throw = Cli_error cli_code | Transport_error 'e | Disk_error

datatype reported = Spec_error "spec_code \<times> string" | Compiler_reported compiler_error | Cli_reported cli_code

record payload =
  pl_ok :: bool
  pl_files :: "string list"
  pl_errors :: "reported list"
  pl_attempts :: nat

datatype cli_text = Json_line payload | Chatter

subsection \<open>The world\<close>

type_synonym path = "string list"

datatype node = Dir | File string

record 'g cli_world =
  cw_disk :: "path \<Rightarrow> node option"
  cw_git :: 'g
  cw_stdout :: "cli_text list"
  cw_stderr :: "cli_text list"

record exec_result =
  xr_code :: int
  xr_stdout :: string
  xr_stderr :: string

text \<open>What became of a spawned process: it could not be started, or it closed with a code (none after a signal) and its two outputs.\<close>

datatype spawned = Not_started | Closed "int option" string string

text \<open>
  \<open>cd_spawn\<close> runs git in a directory; what \<open>.git\<close> holds is part of git's state, not of the disk, and \<open>cd_has_repo\<close> tells whether it exists.
  \<open>cd_random\<close> is the hexadecimal text of the two draws of 32 random bytes; \<open>cd_dash\<close> and \<open>cd_dots\<close> are the two characters of
  the scaffolded texts beyond one byte.  \<open>cd_module\<close> says whether the generator module loads and has its two members, \<open>cd_fails\<close> where
  the disk refuses a write.
\<close>

record ('g, 'e) cli_deps =
  cd_cwd :: path
  cd_env :: "string \<Rightarrow> string option"
  cd_spawn :: "path \<Rightarrow> string list \<Rightarrow> 'g \<Rightarrow> spawned \<times> 'g"
  cd_has_repo :: "'g \<Rightarrow> path \<Rightarrow> bool"
  cd_parse_yaml :: "string \<Rightarrow> json option"
  cd_module :: "(bool \<times> bool) option"
  cd_generate :: "string \<Rightarrow> 'e + generate_result"
  cd_validate :: "app_spec \<Rightarrow> spec_errors + app_spec"
  cd_compile :: "app_spec \<Rightarrow> compiler_error list + compiled_file list"
  cd_random :: "string \<times> string"
  cd_repoRoot :: string
  cd_dash :: string
  cd_dots :: string
  cd_fails :: "path \<Rightarrow> bool"

text \<open>Steps that throw or go on.\<close>

definition and_then :: "('x + 'a) \<times> 'w \<Rightarrow> ('a \<Rightarrow> 'w \<Rightarrow> ('x + 'b) \<times> 'w) \<Rightarrow> ('x + 'b) \<times> 'w" where
  "and_then m f = (case m of (Inl x, w) \<Rightarrow> (Inl x, w) | (Inr a, w) \<Rightarrow> f a w)"

subsection \<open>Git\<close>

definition makeRunGit :: "('g, 'e) cli_deps \<Rightarrow> path \<Rightarrow> string list \<Rightarrow> 'g \<Rightarrow> (cli_code + exec_result) \<times> 'g" where
  "makeRunGit deps cwd args g =
     (case cd_spawn deps cwd args g of
        (Not_started, g1) \<Rightarrow> (Inl ERR_GIT, g1)
      | (Closed code out err, g1) \<Rightarrow>
          (Inr \<lparr>xr_code = (case code of None \<Rightarrow> 1 | Some n \<Rightarrow> n), xr_stdout = out, xr_stderr = err\<rparr>, g1))"

definition git :: "('g, 'e) cli_deps \<Rightarrow> path \<Rightarrow> string list \<Rightarrow> 'g cli_world \<Rightarrow> ('e cli_throw + string) \<times> 'g cli_world" where
  "git deps cwd args w =
     (case makeRunGit deps cwd args (cw_git w) of
        (Inl code, g) \<Rightarrow> (Inl (Cli_error code), w\<lparr>cw_git := g\<rparr>)
      | (Inr r, g) \<Rightarrow>
          (if xr_code r \<noteq> 0 then Inl (Cli_error ERR_GIT) else Inr (xr_stdout r), w\<lparr>cw_git := g\<rparr>))"

subsection \<open>The disk\<close>

text \<open>\<open>path.resolve\<close> of a directory and segments\<close>

fun resolve :: "path \<Rightarrow> string list \<Rightarrow> path" where
  "resolve base [] = base"
| "resolve base (s # ss) =
     resolve (if s = [] \<or> s = ''.'' then base else if s = ''..'' then butlast base else base @ [s]) ss"

definition mkdir_p :: "('g, 'e) cli_deps \<Rightarrow> path \<Rightarrow> (path \<Rightarrow> node option) \<Rightarrow> (path \<Rightarrow> node option) option" where
  "mkdir_p deps dir disk =
     (if cd_fails deps dir \<or> list_ex (\<lambda>q. case disk q of Some (File c) \<Rightarrow> True | _ \<Rightarrow> False) (prefixes dir) then None
      else Some (\<lambda>q. if prefix q dir then Some Dir else disk q))"

definition write_file ::
  "('g, 'e) cli_deps \<Rightarrow> path \<Rightarrow> string \<Rightarrow> 'g cli_world \<Rightarrow> ('e cli_throw + unit) \<times> 'g cli_world" where
  "write_file deps at contents w =
     (case mkdir_p deps (butlast at) (cw_disk w) of
        None \<Rightarrow> (Inl Disk_error, w)
      | Some disk \<Rightarrow>
          if cd_fails deps at \<or> disk at = Some Dir then (Inl Disk_error, w\<lparr>cw_disk := disk\<rparr>)
          else (Inr (), w\<lparr>cw_disk := disk(at \<mapsto> File contents)\<rparr>))"

definition rm_rf :: "path \<Rightarrow> (path \<Rightarrow> node option) \<Rightarrow> path \<Rightarrow> node option" where
  "rm_rf root disk = (\<lambda>q. if prefix root q then None else disk q)"

fun write_files ::
  "('g, 'e) cli_deps \<Rightarrow> path \<Rightarrow> compiled_file list \<Rightarrow> 'g cli_world \<Rightarrow> ('e cli_throw + unit) \<times> 'g cli_world" where
  "write_files deps base [] w = (Inr (), w)"
| "write_files deps base (f # fs) w =
     and_then (write_file deps (resolve base (split_on CHR ''/'' (cf_path f))) (cf_contents f) w) (\<lambda>_. write_files deps base fs)"

subsection \<open>\<open>openrupiv new\<close>\<close>

definition name_ok :: "string \<Rightarrow> bool" where
  "name_ok name \<longleftrightarrow>
     name \<noteq> [] \<and> is_lower (hd name) \<and> list_all (\<lambda>c. is_lower c \<or> is_digit c \<or> c = CHR ''-'') (tl name) \<and> length (tl name) \<le> 63"

definition scaffold_commit :: "string \<Rightarrow> string list" where
  "scaffold_commit name =
     [''commit'', ''-s'', ''-m'', ''chore('' @ name @ ''): scaffold openrupiv workspace'', ''-m'',
      ''Created by `openrupiv new`: workspace config, Compose dev stack (postgres + DEV-ONLY Dex IdP + runtime), and quickstart README.'']"

definition scaffold_files :: "('g, 'e) cli_deps \<Rightarrow> string \<Rightarrow> compiled_file list" where
  "scaffold_files deps name =
     workspaceFiles (cd_dash deps) (cd_dots deps)
       \<lparr>wi_name = name, wi_sessionSecret = fst (cd_random deps), wi_sandboxToken = snd (cd_random deps), wi_repoRoot = cd_repoRoot deps\<rparr>"

definition fill_workspace ::
  "('g, 'e) cli_deps \<Rightarrow> string \<Rightarrow> path \<Rightarrow> 'g cli_world \<Rightarrow> ('e cli_throw + unit) \<times> 'g cli_world" where
  "fill_workspace deps name target w =
     and_then (write_files deps target (scaffold_files deps name) w) (\<lambda>_ w1.
     and_then (git deps target [''init'', ''-b'', ''main''] w1) (\<lambda>_ w2.
     and_then (git deps target [''add'', ''-A''] w2) (\<lambda>_ w3.
     and_then (git deps target (scaffold_commit name) w3) (\<lambda>_ w4.
       (Inr (), w4\<lparr>cw_stdout := cw_stdout w4 @ [Chatter]\<rparr>)))))"

definition createWorkspace_cli ::
  "('g, 'e) cli_deps \<Rightarrow> string \<Rightarrow> 'g cli_world \<Rightarrow> ('e cli_throw + unit) \<times> 'g cli_world" where
  "createWorkspace_cli deps name w =
     (if \<not> name_ok name then (Inl (Cli_error ERR_BAD_NAME), w)
      else (let target = resolve (cd_cwd deps) [name] in
        if cw_disk w target \<noteq> None then (Inl (Cli_error ERR_WORKSPACE_EXISTS), w)
        else (case mkdir_p deps target (cw_disk w) of
                None \<Rightarrow> (Inl Disk_error, w)
              | Some disk \<Rightarrow>
                  (case fill_workspace deps name target (w\<lparr>cw_disk := disk\<rparr>) of
                     (Inl e, w1) \<Rightarrow> (Inl e, w1\<lparr>cw_disk := rm_rf target (cw_disk w1)\<rparr>)
                   | (Inr u, w1) \<Rightarrow> (Inr u, w1)))))"

definition runNew :: "('g, 'e) cli_deps \<Rightarrow> string \<Rightarrow> 'g cli_world \<Rightarrow> ('e cli_throw + nat) \<times> 'g cli_world" where
  "runNew deps name w =
     (case createWorkspace_cli deps name w of
        (Inr u, w1) \<Rightarrow> (Inr EXIT_OK, w1)
      | (Inl (Cli_error code), w1) \<Rightarrow> (Inr (cli_exit code), w1\<lparr>cw_stderr := cw_stderr w1 @ [Chatter]\<rparr>)
      | (Inl e, w1) \<Rightarrow> (Inl e, w1))"

subsection \<open>\<open>openrupiv generate\<close>\<close>

definition requireApiKey :: "(string \<Rightarrow> string option) \<Rightarrow> cli_code option" where
  "requireApiKey env =
     (case env ''ANTHROPIC_API_KEY'' of None \<Rightarrow> Some ERR_MISSING_API_KEY | Some key \<Rightarrow> if trim key = [] then Some ERR_MISSING_API_KEY else None)"

definition assertGeneratorModule :: "bool \<Rightarrow> bool \<Rightarrow> cli_code option" where
  "assertGeneratorModule hasGenerate hasModel = (if \<not> hasGenerate \<or> \<not> hasModel then Some ERR_GENERATOR_UNAVAILABLE else None)"

definition loadGeneratorModule :: "(bool \<times> bool) option \<Rightarrow> cli_code option" where
  "loadGeneratorModule m =
     (case m of None \<Rightarrow> Some ERR_GENERATOR_UNAVAILABLE | Some (hasGenerate, hasModel) \<Rightarrow> assertGeneratorModule hasGenerate hasModel)"

definition workspace_dir :: "path \<Rightarrow> string option \<Rightarrow> path" where
  "workspace_dir cwd dir =
     (let d = (case dir of None \<Rightarrow> ''.'' | Some d \<Rightarrow> d) in
      resolve (if prefix ''/'' d then [] else cwd) (split_on CHR ''/'' d))"

definition resolveWorkspace :: "('g, 'e) cli_deps \<Rightarrow> string option \<Rightarrow> 'g cli_world \<Rightarrow> cli_code + path" where
  "resolveWorkspace deps dir w =
     (let workspace = workspace_dir (cd_cwd deps) dir in
      case cw_disk w (workspace @ [''openrupiv.yaml'']) of
        None \<Rightarrow> Inl ERR_NOT_A_WORKSPACE
      | Some n \<Rightarrow>
          if \<not> cd_has_repo deps (cw_git w) workspace then Inl ERR_NOT_A_WORKSPACE
          else (case n of
             Dir \<Rightarrow> Inl ERR_BAD_WORKSPACE_CONFIG
           | File contents \<Rightarrow>
               (case cd_parse_yaml deps contents of
                  None \<Rightarrow> Inl ERR_BAD_WORKSPACE_CONFIG
                | Some config \<Rightarrow>
                    if (case config of JObj kvs \<Rightarrow> get_field kvs ''specVersion'' | _ \<Rightarrow> JUndef) \<noteq> JStr ''0.1'' then Inl ERR_BAD_WORKSPACE_CONFIG
                    else Inr workspace)))"

text \<open>A path stays inside \<open>app\<close>: segments have no slash, so the prefix of the text is the prefix of the segments.\<close>

definition path_allowed :: "path \<Rightarrow> string \<Rightarrow> bool" where
  "path_allowed workspace p \<longleftrightarrow>
     prefix (workspace @ [''app'']) (resolve workspace (split_on CHR ''/'' p)) \<and> prefix ''app/'' p \<and> \<not> prefix ''/'' p"

definition writeCompiledFiles ::
  "('g, 'e) cli_deps \<Rightarrow> path \<Rightarrow> compiled_file list \<Rightarrow> 'g cli_world \<Rightarrow> ('e cli_throw + unit) \<times> 'g cli_world" where
  "writeCompiledFiles deps workspace files w =
     (if list_ex (\<lambda>f. \<not> path_allowed workspace (cf_path f)) files then (Inl (Cli_error ERR_COMPILED_PATH), w)
      else write_files deps workspace files (w\<lparr>cw_disk := rm_rf (workspace @ [''app'']) (cw_disk w)\<rparr>))"

definition generate_commit :: "string \<Rightarrow> string \<Rightarrow> string list" where
  "generate_commit slug description =
     [''commit'', ''-s'', ''-m'', ''feat(app): generate '' @ slug, ''-m'',
      ''Prompt: '' @ description @ newline @ newline @ ''Spec generated by the LLM, validated against spec v0.1, and'' @ newline @
      ''projected deterministically by @openrupiv/compiler (ADR-0001).'']"

definition commitGenerated ::
  "('g, 'e) cli_deps \<Rightarrow> path \<Rightarrow> app_spec \<Rightarrow> string \<Rightarrow> 'g cli_world \<Rightarrow> ('e cli_throw + string option) \<times> 'g cli_world" where
  "commitGenerated deps workspace spec description w =
     and_then (git deps workspace [''add'', ''-A''] w) (\<lambda>_ w1.
     and_then (git deps workspace [''status'', ''--porcelain''] w1) (\<lambda>status w2.
       if trim status = [] then (Inr None, w2)
       else and_then (git deps workspace (generate_commit (am_slug (sp_app spec)) description) w2) (\<lambda>_ w3.
            and_then (git deps workspace [''rev-parse'', ''--short'', ''HEAD''] w3) (\<lambda>sha w4. (Inr (Some (trim sha)), w4)))))"

definition say :: "bool \<Rightarrow> 'g cli_world \<Rightarrow> 'g cli_world" where
  "say json w = (if json then w\<lparr>cw_stderr := cw_stderr w @ [Chatter]\<rparr> else w\<lparr>cw_stdout := cw_stdout w @ [Chatter]\<rparr>)"

definition failed_payload :: "reported list \<Rightarrow> nat \<Rightarrow> payload" where
  "failed_payload errors attempts = \<lparr>pl_ok = False, pl_files = [], pl_errors = errors, pl_attempts = attempts\<rparr>"

definition doGenerate ::
  "('g, 'e) cli_deps \<Rightarrow> string \<Rightarrow> string option \<Rightarrow> bool \<Rightarrow> 'g cli_world \<Rightarrow> ('e cli_throw + payload \<times> nat) \<times> 'g cli_world" where
  "doGenerate deps description dir json w =
     (case resolveWorkspace deps dir w of
        Inl code \<Rightarrow> (Inl (Cli_error code), w)
      | Inr workspace \<Rightarrow>
     (case requireApiKey (cd_env deps) of
        Some code \<Rightarrow> (Inl (Cli_error code), w)
      | None \<Rightarrow>
     (case loadGeneratorModule (cd_module deps) of
        Some code \<Rightarrow> (Inl (Cli_error code), w)
      | None \<Rightarrow>
     (case cd_generate deps description of
        Inl e \<Rightarrow> (Inl (Transport_error e), say json w)
      | Inr (Not_generated errors n) \<Rightarrow> (Inr (failed_payload (map Spec_error errors) n, EXIT_GENERATE_FAILED), say json w)
      | Inr (Generated generated n) \<Rightarrow>
     (case cd_validate deps generated of
        Inl errors \<Rightarrow> (Inr (failed_payload (map Spec_error errors) n, EXIT_GENERATE_FAILED), say json w)
      | Inr spec \<Rightarrow>
     (case cd_compile deps spec of
        Inl errors \<Rightarrow> (Inr (failed_payload (map Compiler_reported errors) n, EXIT_COMPILE_FAILED), say json w)
      | Inr files \<Rightarrow>
          and_then (writeCompiledFiles deps workspace files (say json w)) (\<lambda>_ w1.
          and_then (commitGenerated deps workspace spec description w1) (\<lambda>commit w2.
            (Inr (\<lparr>pl_ok = True, pl_files = map cf_path files, pl_errors = [], pl_attempts = n\<rparr>, EXIT_OK), say json w2)))))))))"

text \<open>What is printed at the end\<close>

definition report :: "bool \<Rightarrow> payload \<Rightarrow> 'g cli_world \<Rightarrow> 'g cli_world" where
  "report json p w =
     (let w1 = (if json then w\<lparr>cw_stdout := cw_stdout w @ [Json_line p]\<rparr> else w) in
      if pl_ok p then w1 else w1\<lparr>cw_stderr := cw_stderr w1 @ [Chatter] @ replicate (length (pl_errors p)) Chatter\<rparr>)"

definition runGenerate ::
  "('g, 'e) cli_deps \<Rightarrow> string \<Rightarrow> string option \<Rightarrow> bool \<Rightarrow> 'g cli_world \<Rightarrow> ('e cli_throw + nat) \<times> 'g cli_world" where
  "runGenerate deps description dir json w =
     (case doGenerate deps description dir json w of
        (Inr (p, exit_code), w1) \<Rightarrow> (Inr exit_code, report json p w1)
      | (Inl (Cli_error code), w1) \<Rightarrow> (Inr (cli_exit code), report json (failed_payload [Cli_reported code] 0) w1)
      | (Inl e, w1) \<Rightarrow> (Inl e, w1))"

subsection \<open>The program\<close>

text \<open>What the argument parser makes of the command line: a command with its arguments, or an error of its own with an exit code.\<close>

datatype command_line = New_command string | Generate_command string "string option" bool | Commander_error int

definition runCli :: "('g, 'e) cli_deps \<Rightarrow> command_line \<Rightarrow> 'g cli_world \<Rightarrow> ('e cli_throw + nat) \<times> 'g cli_world" where
  "runCli deps c w =
     (case c of
        New_command name \<Rightarrow> runNew deps name w
      | Generate_command description dir json \<Rightarrow> runGenerate deps description dir json w
      | Commander_error code \<Rightarrow> (Inr (if code = 0 then EXIT_OK else EXIT_USAGE), w))"

text \<open>The process: what was thrown and not caught is printed, and the exit code is 1.\<close>

definition cli_process :: "('g, 'e) cli_deps \<Rightarrow> command_line \<Rightarrow> 'g cli_world \<Rightarrow> nat \<times> 'g cli_world" where
  "cli_process deps c w =
     (case runCli deps c w of
        (Inr code, w1) \<Rightarrow> (code, w1)
      | (Inl e, w1) \<Rightarrow> (1, w1\<lparr>cw_stderr := cw_stderr w1 @ [Chatter]\<rparr>))"

end
