(* ===== verification/Cli_Props.thy ===== *)
theory Cli_Props
  imports Cli
begin

text \<open>
  What the command line promises: \<open>generate\<close> changes nothing outside \<open>app\<close> and fills it with exactly the compiled app, or
  leaves the disk as it was when the spec or its compilation fails; \<open>new\<close> creates the whole workspace or nothing.
\<close>

subsection \<open>Disks\<close>

text \<open>The parents of everything on the disk are directories.\<close>

definition disk_ok :: "(path \<Rightarrow> node option) \<Rightarrow> bool" where
  "disk_ok disk \<longleftrightarrow> (\<forall>p q. disk p \<noteq> None \<longrightarrow> strict_prefix q p \<longrightarrow> disk q = Some Dir)"

definition outside :: "path \<Rightarrow> (path \<Rightarrow> node option) \<Rightarrow> path \<Rightarrow> node option" where
  "outside root disk = (\<lambda>q. if prefix root q then None else disk q)"

definition files_under :: "path \<Rightarrow> (path \<Rightarrow> node option) \<Rightarrow> (path \<times> string) set" where
  "files_under root disk = {(q, c). prefix root q \<and> disk q = Some (File c)}"

definition dirs_above :: "path \<Rightarrow> (path \<Rightarrow> node option) \<Rightarrow> bool" where
  "dirs_above root disk \<longleftrightarrow> (\<forall>q. strict_prefix q root \<longrightarrow> disk q = Some Dir)"

lemma outside_rm [simp]: "outside root (rm_rf root disk) = outside root disk"
  by (auto simp: outside_def rm_rf_def)

lemma dirs_above_outside: "outside root d = outside root d' \<Longrightarrow> dirs_above root d \<longleftrightarrow> dirs_above root d'"
proof -
  assume same: "outside root d = outside root d'"
  have "d q = d' q" if "strict_prefix q root" for q
    using fun_cong[OF same, of q] that by (auto simp: outside_def dest: prefix_order.less_le_not_le[THEN iffD1] split: if_splits)
  then show ?thesis by (simp add: dirs_above_def)
qed

lemma mkdir_inside:
  assumes "mkdir_p deps dir disk = Some disk'" "prefix root dir" "dirs_above root disk"
  shows "outside root disk' = outside root disk" "files_under root disk' = files_under root disk"
proof -
  have d: "disk' = (\<lambda>q. if prefix q dir then Some Dir else disk q)"
    and nofile: "\<And>q c. prefix q dir \<Longrightarrow> disk q \<noteq> Some (File c)"
    using assms(1) by (force simp: mkdir_p_def list_ex_iff split: if_splits)+
  have above: "strict_prefix q root" if "prefix q dir" "\<not> prefix root q" for q
    using that assms(2) prefix_same_cases by (metis prefix_order.le_less)
  have "outside root disk' q = outside root disk q" for q
    using above[of q] assms(3) by (auto simp: d outside_def dirs_above_def)
  then show "outside root disk' = outside root disk" by blast
  show "files_under root disk' = files_under root disk"
    using nofile by (auto simp: files_under_def d split: if_splits)
qed

lemma write_inside:
  assumes "write_file deps at c w = (r, w')" "prefix root (butlast at)" "at \<noteq> []" "dirs_above root (cw_disk w)"
  shows "outside root (cw_disk w') = outside root (cw_disk w)" "cw_git w' = cw_git w" "cw_stdout w' = cw_stdout w" "cw_stderr w' = cw_stderr w"
    and "r = Inr () \<Longrightarrow> files_under root (cw_disk w') = insert (at, c) {f \<in> files_under root (cw_disk w). fst f \<noteq> at}"
proof -
  have at: "prefix root at" using assms(2,3) prefix_order.order_trans[of root "butlast at" at] by (metis append_butlast_last_id prefixI)
  have "outside root (cw_disk w') = outside root (cw_disk w) \<and> cw_git w' = cw_git w \<and> cw_stdout w' = cw_stdout w \<and> cw_stderr w' = cw_stderr w \<and>
     (r = Inr () \<longrightarrow> files_under root (cw_disk w') = insert (at, c) {f \<in> files_under root (cw_disk w). fst f \<noteq> at})"
  proof (cases "mkdir_p deps (butlast at) (cw_disk w)")
    case None
    then show ?thesis using assms(1) by (auto simp: write_file_def)
  next
    case (Some disk)
    note inside = mkdir_inside[OF Some assms(2,4)]
    have "outside root (disk(at \<mapsto> File c)) = outside root disk" using at by (auto simp: outside_def)
    moreover have "files_under root (disk(at \<mapsto> File c)) = insert (at, c) {f \<in> files_under root disk. fst f \<noteq> at}"
      using at by (auto simp: files_under_def split: if_splits)
    ultimately show ?thesis using assms(1) inside Some by (auto simp: write_file_def split: if_splits)
  qed
  then show "outside root (cw_disk w') = outside root (cw_disk w)" "cw_git w' = cw_git w" "cw_stdout w' = cw_stdout w" "cw_stderr w' = cw_stderr w"
    and "r = Inr () \<Longrightarrow> files_under root (cw_disk w') = insert (at, c) {f \<in> files_under root (cw_disk w). fst f \<noteq> at}" by blast+
qed

text \<open>Where a file of a list goes\<close>

definition place :: "path \<Rightarrow> compiled_file \<Rightarrow> path" where
  "place base f = resolve base (split_on CHR ''/'' (cf_path f))"

lemma write_files_inside:
  assumes "write_files deps base fs w = (r, w')" "dirs_above root (cw_disk w)"
    and "\<And>f. f \<in> set fs \<Longrightarrow> place base f \<noteq> [] \<and> prefix root (butlast (place base f))"
  shows "outside root (cw_disk w') = outside root (cw_disk w) \<and> cw_git w' = cw_git w \<and> cw_stdout w' = cw_stdout w \<and> cw_stderr w' = cw_stderr w \<and>
    (r = Inr () \<and> distinct (map (place base) fs) \<longrightarrow>
       files_under root (cw_disk w') = (\<lambda>f. (place base f, cf_contents f)) ` set fs \<union> {f \<in> files_under root (cw_disk w). fst f \<notin> place base ` set fs})"
  using assms
proof (induction fs arbitrary: w)
  case Nil
  then show ?case by auto
next
  case (Cons f fs)
  obtain r1 w1 where step: "write_file deps (place base f) (cf_contents f) w = (r1, w1)" by force
  note first = write_inside[OF step, of root]
  have f: "place base f \<noteq> []" "prefix root (butlast (place base f))" using Cons.prems(3) by auto
  note first = first[OF f(2,1) Cons.prems(2)]
  show ?case
  proof (cases r1)
    case (Inl e)
    then show ?thesis using Cons.prems(1) step first by (auto simp: and_then_def place_def)
  next
    case (Inr u)
    then have rest: "write_files deps base fs w1 = (r, w')" using Cons.prems(1) step by (simp add: and_then_def place_def)
    have "dirs_above root (cw_disk w1)" using Cons.prems(2) dirs_above_outside[OF first(1)] by simp
    from Cons.IH[OF rest this Cons.prems(3)] Inr first show ?thesis by auto
  qed
qed

subsection \<open>What the steps of the commands keep\<close>

definition same_but_git :: "'g cli_world \<Rightarrow> 'g cli_world \<Rightarrow> bool" where
  "same_but_git w w' \<longleftrightarrow> cw_disk w' = cw_disk w \<and> cw_stdout w' = cw_stdout w \<and> cw_stderr w' = cw_stderr w"

lemma git_keeps: "git deps cwd args w = (r, w') \<Longrightarrow> same_but_git w w' \<and> (case r of Inl e \<Rightarrow> e = Cli_error ERR_GIT | Inr _ \<Rightarrow> True)"
  by (auto simp: git_def makeRunGit_def same_but_git_def split: sum.splits prod.splits if_splits spawned.splits)

lemma same_but_git_trans: "same_but_git a b \<Longrightarrow> same_but_git b c \<Longrightarrow> same_but_git a c"
  by (simp add: same_but_git_def)

lemma and_then_git:
  assumes "and_then (git deps cwd args w) k = (r, w')"
  obtains "same_but_git w w'" "r = Inl (Cli_error ERR_GIT)" | out w1 where "same_but_git w w1" "k out w1 = (r, w')"
  using assms git_keeps[of deps cwd args w] by (cases "git deps cwd args w") (auto simp: and_then_def split: sum.splits)

lemma commit_keeps:
  assumes "commitGenerated deps workspace spec description w = (r, w')"
  shows "same_but_git w w' \<and> (case r of Inl e \<Rightarrow> e = Cli_error ERR_GIT | Inr _ \<Rightarrow> True)"
  using assms unfolding commitGenerated_def
  by (elim and_then_git) (auto split: if_splits elim!: and_then_git intro: same_but_git_trans simp: same_but_git_def)

subsection \<open>\<open>openrupiv generate\<close>\<close>

lemma compiled_places:
  assumes "compileApp emit spec = Inr files"
  shows "map (place ws) files = map (\<lambda>p. ws @ ''app'' # p)
      [[''README.md''], [''migrations'', ''0001_init.sql''], [''package.json''], [''server.mjs''], [''spec.json''], [''test'', ''spec.test.mjs'']]"
    and "list_all (\<lambda>f. path_allowed ws (cf_path f)) files"
proof -
  have paths: "map (split_on CHR ''/'') (map cf_path files) = map (Cons ''app'')
      [[''README.md''], [''migrations'', ''0001_init.sql''], [''package.json''], [''server.mjs''], [''spec.json''], [''test'', ''spec.test.mjs'']]"
    unfolding compiled_paths[OF assms] by simp
  have "map (place ws) files = map (resolve ws) (map (split_on CHR ''/'') (map cf_path files))"
    by (simp add: place_def comp_def)
  then show "map (place ws) files = map (\<lambda>p. ws @ ''app'' # p)
      [[''README.md''], [''migrations'', ''0001_init.sql''], [''package.json''], [''server.mjs''], [''spec.json''], [''test'', ''spec.test.mjs'']]"
    unfolding paths by simp
  have "list_all (path_allowed ws) (map cf_path files)"
    unfolding compiled_paths[OF assms] by (simp add: path_allowed_def)
  then show "list_all (\<lambda>f. path_allowed ws (cf_path f)) files" by (simp add: list.pred_map comp_def)
qed

lemma write_files_error: "write_files deps base fs w = (Inl e, w') \<Longrightarrow> e = Disk_error"
  by (induction fs arbitrary: w)
    (auto simp: and_then_def write_file_def split: option.splits if_splits sum.splits prod.splits)

lemma write_compiled:
  assumes "compileApp emit spec = Inr files" "writeCompiledFiles deps ws files w = (r, w')" "dirs_above (ws @ [''app'']) (cw_disk w)"
  shows "outside (ws @ [''app'']) (cw_disk w') = outside (ws @ [''app'']) (cw_disk w) \<and> cw_git w' = cw_git w \<and> cw_stdout w' = cw_stdout w \<and>
    (case r of Inl e \<Rightarrow> e = Disk_error
     | Inr _ \<Rightarrow> files_under (ws @ [''app'']) (cw_disk w') = (\<lambda>f. (place ws f, cf_contents f)) ` set files)"
proof -
  let ?root = "ws @ [''app'']" and ?w = "w\<lparr>cw_disk := rm_rf (ws @ [''app'']) (cw_disk w)\<rparr>"
  note places = compiled_places[OF assms(1), of ws]
  have run: "write_files deps ws files ?w = (r, w')"
    using assms(2) places(2) by (auto simp: writeCompiledFiles_def list_ex_iff list_all_iff split: if_splits)
  have "place ws ` set files \<subseteq> (\<lambda>p. ws @ ''app'' # p) `
      {[''README.md''], [''migrations'', ''0001_init.sql''], [''package.json''], [''server.mjs''], [''spec.json''], [''test'', ''spec.test.mjs'']}"
    using arg_cong[OF places(1), of set] by simp
  then have inside: "place ws f \<noteq> [] \<and> prefix ?root (butlast (place ws f))" if "f \<in> set files" for f
    using that by (fastforce simp: butlast_append)
  have "distinct (map (place ws) files)" unfolding places(1) by simp
  moreover have "dirs_above ?root (cw_disk ?w)" using assms(3) dirs_above_outside[of ?root "cw_disk ?w" "cw_disk w"] by simp
  ultimately have "outside ?root (cw_disk w') = outside ?root (cw_disk w) \<and> cw_git w' = cw_git w \<and> cw_stdout w' = cw_stdout w \<and>
    (r = Inr () \<longrightarrow> files_under ?root (cw_disk w') = (\<lambda>f. (place ws f, cf_contents f)) ` set files \<union>
       {f \<in> files_under ?root (cw_disk ?w). fst f \<notin> place ws ` set files})"
    using write_files_inside[OF run, of ?root] inside by simp
  moreover have "files_under ?root (cw_disk ?w) = {}" by (auto simp: files_under_def rm_rf_def)
  ultimately show ?thesis using write_files_error[of deps ws files ?w _ w'] run by (cases r) auto
qed

lemma say_simps [simp]: "cw_disk (say json w) = cw_disk w" "cw_git (say json w) = cw_git w" "cw_stdout (say True w) = cw_stdout w"
  by (simp_all add: say_def)

lemma report_simps [simp]: "cw_disk (report json p w) = cw_disk w" "cw_git (report json p w) = cw_git w"
    "cw_stdout (report True p w) = cw_stdout w @ [Json_line p]"
  by (simp_all add: report_def Let_def)

lemma generate_stages:
  assumes "doGenerate deps description dir json w = (r, w')"
  obtains (early) "cw_disk w' = cw_disk w" "cw_git w' = cw_git w" "if json then cw_stdout w' = cw_stdout w else True"
      "case r of Inl (Cli_error c) \<Rightarrow> c \<noteq> ERR_COMPILED_PATH | Inl Disk_error \<Rightarrow> False | Inl (Transport_error e) \<Rightarrow> True
        | Inr (p, code) \<Rightarrow> \<not> pl_ok p \<and> (code = EXIT_GENERATE_FAILED \<or> code = EXIT_COMPILE_FAILED)"
  | (late) ws generated n spec files where "resolveWorkspace deps dir w = Inr ws" "cd_generate deps description = Inr (Generated generated n)"
      "cd_validate deps generated = Inr spec" "cd_compile deps spec = Inr files"
      "and_then (writeCompiledFiles deps ws files (say json w)) (\<lambda>_ w1.
          and_then (commitGenerated deps ws spec description w1) (\<lambda>commit w2.
            (Inr (\<lparr>pl_ok = True, pl_files = map cf_path files, pl_errors = [], pl_attempts = n\<rparr>, EXIT_OK), say json w2))) = (r, w')"
proof -
  have codes: "resolveWorkspace deps dir w \<noteq> Inl ERR_COMPILED_PATH" "requireApiKey (cd_env deps) \<noteq> Some ERR_COMPILED_PATH"
      "loadGeneratorModule (cd_module deps) \<noteq> Some ERR_COMPILED_PATH"
    by (auto simp: resolveWorkspace_def requireApiKey_def loadGeneratorModule_def assertGeneratorModule_def Let_def
        split: option.splits node.splits prod.splits)
  show thesis
    using assms codes early late
    by (auto simp: doGenerate_def say_def failed_payload_def split: sum.splits option.splits generate_result.splits)
qed

lemma yaml_dirs: "disk_ok (cw_disk w) \<Longrightarrow> resolveWorkspace deps dir w = Inr ws \<Longrightarrow> ws = workspace_dir (cd_cwd deps) dir \<and> dirs_above (ws @ [''app'']) (cw_disk w)"
proof -
  assume ok: "disk_ok (cw_disk w)" and ws: "resolveWorkspace deps dir w = Inr ws"
  have ws_is: "ws = workspace_dir (cd_cwd deps) dir" and yaml: "cw_disk w (ws @ [''openrupiv.yaml'']) \<noteq> None"
    using ws by (auto simp: resolveWorkspace_def Let_def split: option.splits node.splits if_splits)
  have "cw_disk w q = Some Dir" if "strict_prefix q (ws @ [''app''])" for q
  proof -
    have "strict_prefix q (ws @ [''openrupiv.yaml''])" using that by (auto simp: strict_prefix_def)
    then show ?thesis using ok yaml unfolding disk_ok_def by blast
  qed
  then show ?thesis using ws_is by (simp add: dirs_above_def)
qed

text \<open>What a successful generation leaves behind: the compiled app of a spec that passed every gate, and nothing else in \<open>app\<close>\<close>

definition generated_app :: "('g, 'e) cli_deps \<Rightarrow> string \<Rightarrow> path \<Rightarrow> (path \<Rightarrow> node option) \<Rightarrow> bool" where
  "generated_app deps description ws disk \<longleftrightarrow>
     (\<exists>generated n spec files. cd_generate deps description = Inr (Generated generated n) \<and> cd_validate deps generated = Inr spec \<and>
        cd_compile deps spec = Inr files \<and> files_under (ws @ [''app'']) disk = (\<lambda>f. (place ws f, cf_contents f)) ` set files)"

lemma doGenerate_effect:
  assumes "disk_ok (cw_disk w)" "cd_compile deps = compileApp emit" "doGenerate deps description dir json w = (r, w')"
  defines "ws \<equiv> workspace_dir (cd_cwd deps) dir"
  shows "outside (ws @ [''app'']) (cw_disk w') = outside (ws @ [''app'']) (cw_disk w) \<and>
    (if json then cw_stdout w' = cw_stdout w else True) \<and>
    (case r of
       Inr (p, code) \<Rightarrow>
         if code = EXIT_OK then pl_ok p \<and> generated_app deps description ws (cw_disk w')
         else \<not> pl_ok p \<and> (code = EXIT_GENERATE_FAILED \<or> code = EXIT_COMPILE_FAILED) \<and> cw_disk w' = cw_disk w \<and> cw_git w' = cw_git w
     | Inl (Cli_error c) \<Rightarrow> c \<noteq> ERR_COMPILED_PATH
     | Inl e \<Rightarrow> True)"
  using assms(3)
proof (cases rule: generate_stages)
  case early
  then show ?thesis by (auto simp: EXIT_OK_def EXIT_GENERATE_FAILED_def EXIT_COMPILE_FAILED_def split: sum.splits cli_throw.splits)
next
  case (late ws' generated n spec files)
  have ws: "ws' = ws" "dirs_above (ws @ [''app'']) (cw_disk w)" using yaml_dirs[OF assms(1) late(1)] unfolding ws_def by metis+
  have files: "compileApp emit spec = Inr files" using late(4) assms(2) by simp
  obtain r1 w1 where wr: "writeCompiledFiles deps ws files (say json w) = (r1, w1)" by force
  have "dirs_above (ws @ [''app'']) (cw_disk (say json w))" using ws(2) by simp
  note written = write_compiled[OF files wr this]
  show ?thesis
  proof (cases r1)
    case (Inl e)
    then show ?thesis using written late(5) wr ws(1) by (auto simp: and_then_def)
  next
    case (Inr u)
    obtain r2 w2 where co: "commitGenerated deps ws spec description w1 = (r2, w2)" by force
    have app: "generated_app deps description ws (cw_disk w1)"
      using late(2-4) written Inr by (auto simp: generated_app_def)
    show ?thesis
      using late(5) wr ws(1) written Inr co commit_keeps[OF co] app
      by (auto simp: and_then_def same_but_git_def split: sum.splits)
  qed
qed


subsection \<open>\<open>openrupiv new\<close>\<close>

lemma nothing_below: "disk_ok d \<Longrightarrow> d t = None \<Longrightarrow> prefix t q \<Longrightarrow> d q = None"
  unfolding disk_ok_def by (metis node.distinct(1) not_Some_eq option.distinct(1) prefix_order.le_less)

lemma rm_restores: "disk_ok d \<Longrightarrow> d t = None \<Longrightarrow> outside t d' = outside t d \<Longrightarrow> rm_rf t d' = d"
proof -
  assume d: "disk_ok d" "d t = None" and same: "outside t d' = outside t d"
  have "rm_rf t d' q = d q" for q
    using nothing_below[OF d, of q] fun_cong[OF same, of q] by (auto simp: rm_rf_def outside_def split: if_splits)
  then show ?thesis by blast
qed

lemma name_target: "name_ok name \<Longrightarrow> resolve cwd [name] = cwd @ [name]"
proof -
  assume "name_ok name"
  then have "name \<noteq> [] \<and> is_lower (hd name)" by (simp add: name_ok_def)
  moreover have "\<not> is_lower (CHR ''.'')" by code_simp
  ultimately show ?thesis by auto
qed

lemma scaffold_places:
  "map (place base) (workspaceFiles dash dots inputs) = map (\<lambda>p. base @ p)
     [[''.env''], [''.gitignore''], [''README.md''], [''dex'', ''config.yaml''], [''docker-compose.yaml''], [''openrupiv.yaml'']]"
proof -
  have paths: "map (split_on CHR ''/'') (map cf_path (workspaceFiles dash dots inputs)) =
      [[''.env''], [''.gitignore''], [''README.md''], [''dex'', ''config.yaml''], [''docker-compose.yaml''], [''openrupiv.yaml'']]"
    unfolding workspace_paths by simp
  have "map (place base) (workspaceFiles dash dots inputs) =
      map (resolve base) (map (split_on CHR ''/'') (map cf_path (workspaceFiles dash dots inputs)))"
    by (simp add: place_def comp_def)
  then show ?thesis unfolding paths by simp
qed

lemma fill_effect:
  assumes "scaffold_files deps name = workspaceFiles dash dots inputs" "dirs_above target (cw_disk w)" "files_under target (cw_disk w) = {}"
    and "fill_workspace deps name target w = (r, w')"
  shows "outside target (cw_disk w') = outside target (cw_disk w) \<and>
    (case r of Inl e \<Rightarrow> True
     | Inr _ \<Rightarrow> files_under target (cw_disk w') = (\<lambda>f. (place target f, cf_contents f)) ` set (workspaceFiles dash dots inputs))"
proof -
  let ?fs = "workspaceFiles dash dots inputs"
  obtain r1 w1 where wr: "write_files deps target ?fs w = (r1, w1)" by force
  have "place target ` set ?fs \<subseteq> (\<lambda>p. target @ p) `
      {[''.env''], [''.gitignore''], [''README.md''], [''dex'', ''config.yaml''], [''docker-compose.yaml''], [''openrupiv.yaml'']}"
    using arg_cong[OF scaffold_places[of target dash dots inputs], of set] by simp
  then have inside: "place target f \<noteq> [] \<and> prefix target (butlast (place target f))" if "f \<in> set ?fs" for f
    using that by (fastforce simp: butlast_append)
  have "distinct (map (place target) ?fs)" unfolding scaffold_places by simp
  then have written: "outside target (cw_disk w1) = outside target (cw_disk w)"
    "r1 = Inr () \<Longrightarrow> files_under target (cw_disk w1) = (\<lambda>f. (place target f, cf_contents f)) ` set ?fs"
    using write_files_inside[OF wr assms(2)] inside assms(3) by auto
  show ?thesis
  proof (cases r1)
    case (Inl e)
    then show ?thesis using assms(1,4) wr written by (auto simp: fill_workspace_def and_then_def)
  next
    case (Inr u)
    then have rest: "and_then (git deps target [''init'', ''-b'', ''main''] w1) (\<lambda>_ w2.
        and_then (git deps target [''add'', ''-A''] w2) (\<lambda>_ w3.
        and_then (git deps target (scaffold_commit name) w3) (\<lambda>_ w4.
          (Inr (), w4\<lparr>cw_stdout := cw_stdout w4 @ [Chatter]\<rparr>)))) = (r, w')"
      using assms(1,4) wr by (simp add: fill_workspace_def and_then_def)
    then have "cw_disk w' = cw_disk w1"
      by (elim and_then_git) (auto simp: same_but_git_def)
    then show ?thesis using written Inr by (auto split: sum.splits)
  qed
qed

lemma createWorkspace_effect:
  assumes "disk_ok (cw_disk w)" "cw_disk w (cd_cwd deps) = Some Dir" "scaffold_files deps name = workspaceFiles dash dots inputs"
    and "createWorkspace_cli deps name w = (r, w')"
  shows "case r of
      Inl e \<Rightarrow> cw_disk w' = cw_disk w
    | Inr _ \<Rightarrow> name_ok name \<and> cw_disk w (cd_cwd deps @ [name]) = None \<and>
        outside (cd_cwd deps @ [name]) (cw_disk w') = outside (cd_cwd deps @ [name]) (cw_disk w) \<and>
        files_under (cd_cwd deps @ [name]) (cw_disk w') = (\<lambda>f. (place (cd_cwd deps @ [name]) f, cf_contents f)) ` set (workspaceFiles dash dots inputs)"
proof (cases "name_ok name \<and> cw_disk w (cd_cwd deps @ [name]) = None")
  case False
  then show ?thesis using assms(4) name_target[of name "cd_cwd deps"] by (auto simp: createWorkspace_cli_def Let_def split: if_splits)
next
  case True
  let ?t = "cd_cwd deps @ [name]"
  have t: "resolve (cd_cwd deps) [name] = ?t" using name_target True by blast
  show ?thesis
  proof (cases "mkdir_p deps ?t (cw_disk w)")
    case None
    then show ?thesis using assms(4) True t by (auto simp: createWorkspace_cli_def Let_def)
  next
    case (Some disk)
    have "cw_disk w q = Some Dir" if "strict_prefix q ?t" for q
      using that assms(1,2) unfolding disk_ok_def by (metis option.distinct(1) prefix_order.le_less prefix_snoc strict_prefix_def)
    then have above: "dirs_above ?t (cw_disk w)" by (simp add: dirs_above_def)
    note made = mkdir_inside[OF Some _ above, simplified]
    have empty: "files_under ?t disk = {}"
      using made(2) nothing_below[OF assms(1)] True by (auto simp: files_under_def)
    have above': "dirs_above ?t disk" using above dirs_above_outside[OF made(1)] by simp
    obtain r1 w1 where fill: "fill_workspace deps name ?t (w\<lparr>cw_disk := disk\<rparr>) = (r1, w1)" by force
    have effect: "outside ?t (cw_disk w1) = outside ?t disk \<and> (case r1 of Inl e \<Rightarrow> True
       | Inr _ \<Rightarrow> files_under ?t (cw_disk w1) = (\<lambda>f. (place ?t f, cf_contents f)) ` set (workspaceFiles dash dots inputs))"
      using fill_effect[OF assms(3) _ _ fill] above' empty by simp
    have "rm_rf ?t (cw_disk w1) = cw_disk w"
      using rm_restores[OF assms(1)] True effect made(1) by simp
    then show ?thesis using assms(4) True t Some fill effect made(1)
      by (auto simp: createWorkspace_cli_def Let_def split: sum.splits)
  qed
qed

text \<open>
  C40.  A new workspace is created whole or not at all.  On exit 0 the name is one the CLI allows, nothing was there before, the new directory has exactly the files of the
  scaffold (git's own directory apart, which the disk of the model leaves out) and nothing outside it changed; in every other case, be it a bad name, an existing target, a write the disk
  refuses or a git command that fails, the disk is what it was.
\<close>

theorem new_creates_all_or_nothing:
  assumes "disk_ok (cw_disk w)" "cw_disk w (cd_cwd deps) = Some Dir"
  shows "case runNew deps name w of (res, w') \<Rightarrow>
    if res = Inr EXIT_OK
    then name_ok name \<and> cw_disk w (cd_cwd deps @ [name]) = None \<and>
      outside (cd_cwd deps @ [name]) (cw_disk w') = outside (cd_cwd deps @ [name]) (cw_disk w) \<and>
      files_under (cd_cwd deps @ [name]) (cw_disk w') = (\<lambda>f. (place (cd_cwd deps @ [name]) f, cf_contents f)) ` set (scaffold_files deps name)
    else cw_disk w' = cw_disk w"
proof -
  obtain r w1 where run: "createWorkspace_cli deps name w = (r, w1)" by force
  show ?thesis using createWorkspace_effect[OF assms scaffold_files_def run]
    unfolding scaffold_files_def[symmetric]
    by (auto simp: runNew_def run cli_exit_def EXIT_OK_def EXIT_COMPILE_FAILED_def EXIT_ENVIRONMENT_def split: sum.splits cli_throw.splits)
qed

subsection \<open>Exit codes\<close>

lemma cli_exit_codes: "cli_exit k = 3 \<or> cli_exit k = 4"
  by (simp add: cli_exit_def EXIT_COMPILE_FAILED_def EXIT_ENVIRONMENT_def)

lemma doGenerate_codes: "doGenerate deps description dir json w = (Inr (p, code), w') \<Longrightarrow> code = 0 \<or> code = 2 \<or> code = 3"
  by (auto simp: doGenerate_def and_then_def EXIT_OK_def EXIT_GENERATE_FAILED_def EXIT_COMPILE_FAILED_def
      split: sum.splits option.splits generate_result.splits prod.splits)

lemma new_codes: "runNew deps name w = (Inr code, w') \<Longrightarrow> code \<in> {0, 3, 4}"
  using cli_exit_codes by (auto simp: runNew_def EXIT_OK_def split: prod.splits sum.splits cli_throw.splits)

lemma new_throws: "runNew deps name w = (Inl e, w') \<Longrightarrow> e \<noteq> Cli_error k"
  by (auto simp: runNew_def split: prod.splits sum.splits cli_throw.splits)

lemma generate_codes: "runGenerate deps description dir json w = (Inr code, w') \<Longrightarrow> code \<in> {0, 2, 3, 4}"
  using cli_exit_codes doGenerate_codes[of deps description dir json w]
  by (cases "doGenerate deps description dir json w") (auto simp: runGenerate_def split: sum.splits cli_throw.splits)

lemma generate_throws: "runGenerate deps description dir json w = (Inl e, w') \<Longrightarrow> e \<noteq> Cli_error k"
  by (auto simp: runGenerate_def split: prod.splits sum.splits cli_throw.splits)

lemma runCli_throws: "runCli deps c w = (Inl e, w') \<Longrightarrow> e \<noteq> Cli_error k"
  by (cases c) (simp_all add: runCli_def new_throws generate_throws)

lemma runCli_codes: "runCli deps c w = (Inr code, w') \<Longrightarrow>
    code \<le> 4 \<and> (code = 1 \<longleftrightarrow> (case c of Commander_error n \<Rightarrow> n \<noteq> 0 | _ \<Rightarrow> False))"
  using new_codes[of deps _ w code w'] generate_codes[of deps _ _ _ w code w']
  by (cases c) (fastforce simp: runCli_def EXIT_OK_def EXIT_USAGE_def)+

text \<open>
  The exit codes are the contract's.  The process ends with one of 0 to 4, and with 1 exactly when the argument parser refused the command line or
  something other than a typed error of the command line was thrown; no typed error is ever thrown past a command.
\<close>

theorem exit_codes_are_the_contract:
  "case cli_process deps c w of (code, w') \<Rightarrow>
    code \<le> 4 \<and>
    (code = EXIT_USAGE \<longleftrightarrow> (case runCli deps c w of
        (Inl e, _) \<Rightarrow> (case e of Cli_error k \<Rightarrow> False | _ \<Rightarrow> True)
      | (Inr _, _) \<Rightarrow> (case c of Commander_error n \<Rightarrow> n \<noteq> 0 | _ \<Rightarrow> False)))"
proof -
  obtain res w' where run: "runCli deps c w = (res, w')" by force
  show ?thesis
  proof (cases res)
    case (Inl e)
    then show ?thesis using runCli_throws[of deps c w e w'] run by (cases e) (auto simp: cli_process_def EXIT_USAGE_def)
  next
    case (Inr code)
    then show ?thesis using runCli_codes[of deps c w code w'] run by (simp add: cli_process_def EXIT_USAGE_def)
  qed
qed

subsection \<open>Witnesses\<close>

definition demo_disk :: "path \<Rightarrow> node option" where
  "demo_disk = [[] \<mapsto> Dir, [''ws''] \<mapsto> Dir, [''ws'', ''openrupiv.yaml''] \<mapsto> File ''specVersion: 0.1'', [''ws'', ''notes''] \<mapsto> File ''keep'']"

definition demo_shell :: "unit cli_world" where
  "demo_shell = \<lparr>cw_disk = demo_disk, cw_git = (), cw_stdout = [], cw_stderr = []\<rparr>"

definition demo_app_spec :: app_spec where
  "demo_app_spec =
     \<lparr>sp_specVersion = ''0.1'', sp_app = \<lparr>am_name = ''Notes'', am_slug = ''notes'', am_description = None, am_version = ''1'', am_roles = None\<rparr>,
      sp_entities = [], sp_pages = None, sp_workflows = None, sp_policies = None, sp_agents = None, sp_evidence = None\<rparr>"

definition demo_emit :: emitters where
  "demo_emit = \<lparr>em_value = (\<lambda>_. JNull), em_chars = \<lparr>ch_dash = ''-'', ch_arrow = ''>'', ch_geq = ''>''\<rparr>\<rparr>"

definition demo_deps :: "(unit, unit) cli_deps" where
  "demo_deps =
     \<lparr>cd_cwd = [''ws''], cd_env = [''ANTHROPIC_API_KEY'' \<mapsto> ''key''],
      cd_spawn = (\<lambda>_ _ g. (Closed (Some 0) ''M app'' [], g)), cd_has_repo = (\<lambda>_ _. True),
      cd_parse_yaml = (\<lambda>_. Some (JObj [(''specVersion'', JStr ''0.1'')])), cd_module = Some (True, True),
      cd_generate = (\<lambda>_. Inr (Generated demo_app_spec 1)), cd_validate = Inr, cd_compile = compileApp demo_emit,
      cd_random = (replicate 64 (CHR ''a''), replicate 64 (CHR ''b'')), cd_repoRoot = ''/src'', cd_dash = ''-'', cd_dots = ''.'', cd_fails = (\<lambda>_. False)\<rparr>"

lemma demo_disk_dirs: "demo_disk [] = Some Dir" "demo_disk [''ws''] = Some Dir"
  by (simp_all add: demo_disk_def)

lemma demo_disk_above: "demo_disk p \<noteq> None \<Longrightarrow> strict_prefix q p \<Longrightarrow> q = [] \<or> q = [''ws'']"
  by (auto simp: demo_disk_def strict_prefix_def prefix_Cons split: if_splits)

lemma demo_disk_ok: "disk_ok demo_disk"
  unfolding disk_ok_def by (metis demo_disk_above demo_disk_dirs)


theorem new_creates_all_or_nothing_witness:
  "case runNew demo_deps ''vendors'' demo_shell of (res, w') \<Rightarrow>
    if res = Inr EXIT_OK
    then name_ok ''vendors'' \<and> cw_disk demo_shell (cd_cwd demo_deps @ [''vendors'']) = None \<and>
      outside (cd_cwd demo_deps @ [''vendors'']) (cw_disk w') = outside (cd_cwd demo_deps @ [''vendors'']) (cw_disk demo_shell) \<and>
      files_under (cd_cwd demo_deps @ [''vendors'']) (cw_disk w') =
        (\<lambda>f. (place (cd_cwd demo_deps @ [''vendors'']) f, cf_contents f)) ` set (scaffold_files demo_deps ''vendors'')
    else cw_disk w' = cw_disk demo_shell"
  by (rule new_creates_all_or_nothing) (simp_all add: demo_shell_def demo_disk_ok demo_deps_def, simp add: demo_disk_def)

end
