(* ===== verification/Schema.thy ===== *)
theory Schema
  imports Validate_Props Naming
begin

text \<open>
  The JSON Schema of the spec (\<open>packages/spec/src/schema.ts\<close>) as data, what it means for a value to conform to it (the keywords the
  schema uses), and the typed reading of a conforming value, which the code gets by a cast.  The other pass of
  the validator is in \<open>Validate\<close>; \<open>spec_shape\<close> says of a typed spec what the schema enforces.
\<close>

subsection \<open>Patterns\<close>

definition letter_or_digit :: "char \<Rightarrow> bool" where
  "letter_or_digit c \<longleftrightarrow> is_lower c \<or> is_upper c \<or> is_digit c"

definition PATTERN_ENTITY_NAME :: "string \<Rightarrow> bool" where
  "PATTERN_ENTITY_NAME s \<longleftrightarrow> s \<noteq> [] \<and> is_upper (hd s) \<and> list_all letter_or_digit (tl s)"

definition PATTERN_MEMBER_NAME :: "string \<Rightarrow> bool" where
  "PATTERN_MEMBER_NAME s \<longleftrightarrow> s \<noteq> [] \<and> is_lower (hd s) \<and> list_all letter_or_digit (tl s)"

definition PATTERN_KEBAB_NAME :: "string \<Rightarrow> bool" where
  "PATTERN_KEBAB_NAME s \<longleftrightarrow>
     list_all (\<lambda>part. part \<noteq> [] \<and> list_all is_lower_or_digit part) (split_on CHR ''-'' s) \<and> is_lower (hd s)"

definition PATTERN_VALUE_NAME :: "string \<Rightarrow> bool" where
  "PATTERN_VALUE_NAME s \<longleftrightarrow> s \<noteq> [] \<and> is_lower (hd s) \<and> list_all (\<lambda>c. is_lower_or_digit c \<or> c = CHR ''_'') (tl s)"

definition PATTERN_SEMVER :: "string \<Rightarrow> bool" where
  "PATTERN_SEMVER s \<longleftrightarrow> length (split_on CHR ''.'' s) = 3 \<and> list_all (\<lambda>part. part \<noteq> [] \<and> list_all is_digit part) (split_on CHR ''.'' s)"

subsection \<open>The schema language\<close>

text \<open>
  \<open>Text_of p\<close> is a string with a pattern or a length, \<open>One_of\<close> an \<open>enum\<close> or \<open>const\<close> of strings, \<open>Literal\<close> a value of the three
  scalar types, \<open>Array_of m u s\<close> an array with \<open>minItems\<close> and \<open>uniqueItems\<close>, \<open>Object_of r m ps\<close> an object with \<open>required\<close>,
  \<open>minProperties\<close>, \<open>properties\<close> and no additional ones.
\<close>

datatype schema =
    Text_of "string \<Rightarrow> bool" | One_of "string list" | Boolean | Literal | Integer_from int
  | Array_of nat bool schema | Object_of "string list" nat "(string \<times> schema) list"

lemma schema_size_props [termination_simp]:
  "p \<in> set ps \<Longrightarrow> size (snd p) < Suc (size_list (size_prod (\<lambda>_. 0) size) ps)"
  using size_list_estimation'[of p ps "size (snd p)" "size_prod (\<lambda>_. 0) size"]
  by (cases p) simp

fun conforms :: "schema \<Rightarrow> json \<Rightarrow> bool" where
  "conforms (Text_of p) j = (case j of JStr s \<Rightarrow> p s | _ \<Rightarrow> False)"
| "conforms (One_of vs) j = (case j of JStr s \<Rightarrow> s \<in> set vs | _ \<Rightarrow> False)"
| "conforms Boolean j = (case j of JBool b \<Rightarrow> True | _ \<Rightarrow> False)"
| "conforms Literal j = (case j of JStr s \<Rightarrow> True | JNum n \<Rightarrow> is_finite n | JBool b \<Rightarrow> True | _ \<Rightarrow> False)"
| "conforms (Integer_from m) j = (case j of JNum n \<Rightarrow> (case int_of_num n of None \<Rightarrow> False | Some i \<Rightarrow> m \<le> i) | _ \<Rightarrow> False)"
| "conforms (Array_of m u s) j =
     (case j of JArr vs \<Rightarrow> m \<le> length vs \<and> (u \<longrightarrow> distinct vs) \<and> list_all (conforms s) vs | _ \<Rightarrow> False)"
| "conforms (Object_of r m ps) j =
     (case j of
        JObj kvs \<Rightarrow>
          list_all (\<lambda>k. get_field kvs k \<noteq> JUndef) r \<and> m \<le> length kvs \<and> list_all (\<lambda>kv. fst kv \<in> set (map fst ps)) kvs \<and>
          list_all (\<lambda>p. get_field kvs (fst p) = JUndef \<or> conforms (snd p) (get_field kvs (fst p))) ps
      | _ \<Rightarrow> False)"

subsection \<open>The schema\<close>

abbreviation any_text :: schema where
  "any_text \<equiv> Text_of (\<lambda>_. True)"

definition roles_schema :: schema where
  "roles_schema = Array_of 1 True (Text_of PATTERN_VALUE_NAME)"

definition app_schema :: schema where
  "app_schema = Object_of [''name'', ''slug'', ''version''] 0
     [(''name'', Text_of (\<lambda>s. s \<noteq> [])), (''slug'', Text_of PATTERN_KEBAB_NAME), (''description'', any_text),
      (''version'', Text_of PATTERN_SEMVER), (''roles'', roles_schema)]"

definition field_schema :: schema where
  "field_schema = Object_of [''name'', ''type''] 0
     [(''name'', Text_of PATTERN_MEMBER_NAME),
      (''type'', One_of [''string'', ''text'', ''number'', ''boolean'', ''date'', ''datetime'', ''enum'', ''reference'']),
      (''required'', Boolean), (''unique'', Boolean), (''values'', Array_of 1 True (Text_of PATTERN_VALUE_NAME)),
      (''entity'', Text_of PATTERN_ENTITY_NAME), (''default'', Literal)]"

definition relation_schema :: schema where
  "relation_schema = Object_of [''name'', ''kind'', ''to''] 0
     [(''name'', Text_of PATTERN_MEMBER_NAME), (''kind'', One_of [''manyToMany'']), (''to'', Text_of PATTERN_ENTITY_NAME)]"

definition entity_schema :: schema where
  "entity_schema = Object_of [''name'', ''fields''] 0
     [(''name'', Text_of PATTERN_ENTITY_NAME), (''description'', any_text), (''fields'', Array_of 1 False field_schema),
      (''relations'', Array_of 0 False relation_schema)]"

definition page_schema :: schema where
  "page_schema = Object_of [''name'', ''type'', ''entity''] 0
     [(''name'', Text_of PATTERN_KEBAB_NAME), (''type'', One_of [''list'', ''detail'', ''form'']), (''entity'', Text_of PATTERN_ENTITY_NAME),
      (''title'', any_text), (''fields'', Array_of 1 True (Text_of PATTERN_MEMBER_NAME))]"

definition predicate_schema :: schema where
  "predicate_schema = Object_of [''field'', ''op''] 0
     [(''field'', Text_of PATTERN_MEMBER_NAME),
      (''op'', One_of [''eq'', ''ne'', ''gt'', ''gte'', ''lt'', ''lte'', ''set'', ''notSet'']), (''value'', Literal)]"

definition guard_schema :: schema where
  "guard_schema = Object_of [] 1 [(''roles'', roles_schema), (''require'', Array_of 1 False predicate_schema)]"

definition approval_schema :: schema where
  "approval_schema = Object_of [''count''] 0 [(''count'', Integer_from 2), (''roles'', roles_schema)]"

definition transition_schema :: schema where
  "transition_schema = Object_of [''name'', ''from'', ''to''] 0
     [(''name'', Text_of PATTERN_KEBAB_NAME), (''from'', Text_of PATTERN_VALUE_NAME), (''to'', Text_of PATTERN_VALUE_NAME),
      (''guard'', guard_schema), (''approval'', approval_schema)]"

definition workflow_schema :: schema where
  "workflow_schema = Object_of [''name'', ''entity'', ''stateField'', ''initial'', ''transitions''] 0
     [(''name'', Text_of PATTERN_KEBAB_NAME), (''entity'', Text_of PATTERN_ENTITY_NAME), (''stateField'', Text_of PATTERN_MEMBER_NAME),
      (''initial'', Text_of PATTERN_VALUE_NAME), (''transitions'', Array_of 1 False transition_schema)]"

definition policy_schema :: schema where
  "policy_schema = Object_of [''name''] 0
     [(''name'', Text_of PATTERN_KEBAB_NAME), (''description'', any_text), (''rego'', any_text)]"

definition proposal_schema :: schema where
  "proposal_schema = Object_of [''workflow'', ''transition''] 0
     [(''workflow'', Text_of PATTERN_KEBAB_NAME), (''transition'', Text_of PATTERN_KEBAB_NAME)]"

definition task_schema :: schema where
  "task_schema = Object_of [''name''] 0
     [(''name'', Text_of PATTERN_KEBAB_NAME), (''description'', any_text), (''tools'', Array_of 0 True (Text_of PATTERN_KEBAB_NAME)),
      (''proposes'', Array_of 1 False proposal_schema)]"

definition evidence_schema :: schema where
  "evidence_schema = Object_of [''name''] 0 [(''name'', Text_of PATTERN_KEBAB_NAME), (''description'', any_text)]"

definition appSpecSchema :: schema where
  "appSpecSchema = Object_of [''specVersion'', ''app'', ''entities''] 0
     [(''specVersion'', One_of [''0.1'', ''0.2'']), (''app'', app_schema), (''entities'', Array_of 1 False entity_schema),
      (''pages'', Array_of 0 False page_schema), (''workflows'', Array_of 0 False workflow_schema),
      (''policies'', Array_of 0 False policy_schema), (''agents'', Array_of 0 False task_schema),
      (''evidence'', Array_of 0 False evidence_schema)]"

subsection \<open>The typed reading\<close>

fun text_of :: "json \<Rightarrow> string" where
  "text_of (JStr s) = s"
| "text_of _ = []"

definition opt_of :: "(json \<Rightarrow> 'a) \<Rightarrow> json \<Rightarrow> 'a option" where
  "opt_of f j = (if j = JUndef then None else Some (f j))"

fun list_of :: "(json \<Rightarrow> 'a) \<Rightarrow> json \<Rightarrow> 'a list" where
  "list_of f (JArr vs) = map f vs"
| "list_of f _ = []"

fun type_of :: "json \<Rightarrow> field_type" where
  "type_of (JStr s) =
     (case map_of [(''string'', FString), (''text'', FText), (''number'', FNumber), (''boolean'', FBoolean), (''date'', FDate),
        (''datetime'', FDatetime), (''enum'', FEnum)] s of None \<Rightarrow> FReference | Some t \<Rightarrow> t)"
| "type_of _ = FReference"

fun op_of :: "json \<Rightarrow> predicate_op" where
  "op_of (JStr s) =
     (case map_of [(''eq'', Op_eq), (''ne'', Op_ne), (''gt'', Op_gt), (''gte'', Op_gte), (''lt'', Op_lt), (''lte'', Op_lte), (''set'', Op_set)] s of
        None \<Rightarrow> Op_notSet | Some t \<Rightarrow> t)"
| "op_of _ = Op_notSet"

fun page_type_of :: "json \<Rightarrow> page_type" where
  "page_type_of (JStr s) = (case map_of [(''list'', List_page), (''detail'', Detail_page)] s of None \<Rightarrow> Form_page | Some t \<Rightarrow> t)"
| "page_type_of _ = Form_page"

fun count_of :: "json \<Rightarrow> nat" where
  "count_of (JNum n) = (case int_of_num n of None \<Rightarrow> 0 | Some i \<Rightarrow> nat i)"
| "count_of _ = 0"

definition app_of :: "json \<Rightarrow> app_meta" where
  "app_of j = \<lparr>am_name = text_of (js_prop j ''name''), am_slug = text_of (js_prop j ''slug''), am_description = opt_of text_of (js_prop j ''description''),
     am_version = text_of (js_prop j ''version''), am_roles = opt_of (list_of text_of) (js_prop j ''roles'')\<rparr>"

definition field_of :: "json \<Rightarrow> field_def" where
  "field_of j = \<lparr>fd_name = text_of (js_prop j ''name''), fd_type = type_of (js_prop j ''type''), fd_required = truthy (js_prop j ''required''),
     fd_unique = truthy (js_prop j ''unique''), fd_values = opt_of (list_of text_of) (js_prop j ''values''),
     fd_entity = opt_of text_of (js_prop j ''entity''), fd_default = opt_of (\<lambda>v. v) (js_prop j ''default'')\<rparr>"

definition relation_of :: "json \<Rightarrow> relation_def" where
  "relation_of j = \<lparr>rd_name = text_of (js_prop j ''name''), rd_to = text_of (js_prop j ''to'')\<rparr>"

definition entity_of :: "json \<Rightarrow> entity_def" where
  "entity_of j = \<lparr>en_name = text_of (js_prop j ''name''), en_description = opt_of text_of (js_prop j ''description''),
     en_fields = list_of field_of (js_prop j ''fields''), en_relations = opt_of (list_of relation_of) (js_prop j ''relations'')\<rparr>"

definition page_of :: "json \<Rightarrow> page_def" where
  "page_of j = \<lparr>pg_name = text_of (js_prop j ''name''), pg_type = page_type_of (js_prop j ''type''), pg_entity = text_of (js_prop j ''entity''),
     pg_title = opt_of text_of (js_prop j ''title''), pg_fields = opt_of (list_of text_of) (js_prop j ''fields'')\<rparr>"

definition predicate_of :: "json \<Rightarrow> field_predicate" where
  "predicate_of j = \<lparr>fp_field = text_of (js_prop j ''field''), fp_op = op_of (js_prop j ''op''), fp_value = opt_of (\<lambda>v. v) (js_prop j ''value'')\<rparr>"

definition guard_of :: "json \<Rightarrow> transition_guard" where
  "guard_of j = \<lparr>tg_roles = opt_of (list_of text_of) (js_prop j ''roles''), tg_require = opt_of (list_of predicate_of) (js_prop j ''require'')\<rparr>"

definition approval_of :: "json \<Rightarrow> approval_rule" where
  "approval_of j = \<lparr>ap_count = count_of (js_prop j ''count''), ap_roles = opt_of (list_of text_of) (js_prop j ''roles'')\<rparr>"

definition transition_of :: "json \<Rightarrow> transition_def" where
  "transition_of j = \<lparr>tr_name = text_of (js_prop j ''name''), tr_from = text_of (js_prop j ''from''), tr_to = text_of (js_prop j ''to''),
     tr_guard = opt_of guard_of (js_prop j ''guard''), tr_approval = opt_of approval_of (js_prop j ''approval'')\<rparr>"

definition workflow_def_of :: "json \<Rightarrow> workflow_def" where
  "workflow_def_of j = \<lparr>wf_name = text_of (js_prop j ''name''), wf_entity = text_of (js_prop j ''entity''),
     wf_stateField = text_of (js_prop j ''stateField''), wf_initial = text_of (js_prop j ''initial''),
     wf_transitions = list_of transition_of (js_prop j ''transitions'')\<rparr>"

definition proposal_of :: "json \<Rightarrow> agent_proposal_ref" where
  "proposal_of j = \<lparr>ar_workflow = text_of (js_prop j ''workflow''), ar_transition = text_of (js_prop j ''transition'')\<rparr>"

definition task_def_of :: "json \<Rightarrow> agent_task_def" where
  "task_def_of j = \<lparr>at_name = text_of (js_prop j ''name''), at_description = opt_of text_of (js_prop j ''description''),
     at_tools = opt_of (list_of text_of) (js_prop j ''tools''), at_proposes = opt_of (list_of proposal_of) (js_prop j ''proposes'')\<rparr>"

definition app_spec_of :: "json \<Rightarrow> app_spec" where
  "app_spec_of j =
     \<lparr>sp_specVersion = text_of (js_prop j ''specVersion''), sp_app = app_of (js_prop j ''app''),
      sp_entities = list_of entity_of (js_prop j ''entities''), sp_pages = opt_of (list_of page_of) (js_prop j ''pages''),
      sp_workflows = opt_of (list_of workflow_def_of) (js_prop j ''workflows''),
      sp_policies = opt_of (list_of (\<lambda>p. \<lparr>po_name = text_of (js_prop p ''name'')\<rparr>)) (js_prop j ''policies''),
      sp_agents = opt_of (list_of task_def_of) (js_prop j ''agents''),
      sp_evidence = opt_of (list_of (\<lambda>p. \<lparr>ev_name = text_of (js_prop p ''name'')\<rparr>)) (js_prop j ''evidence'')\<rparr>"

end
