(* ===== verification/Schema_Props.thy ===== *)
theory Schema_Props
  imports Schema
begin

text \<open>What the schema enforces of the typed spec, and the validator with its two passes together.\<close>

subsection \<open>The shape of a typed spec\<close>

definition names_ok :: "(string \<Rightarrow> bool) \<Rightarrow> nat \<Rightarrow> string list \<Rightarrow> bool" where
  "names_ok p m names \<longleftrightarrow> m \<le> length names \<and> distinct names \<and> list_all p names"

definition app_shape :: "app_meta \<Rightarrow> bool" where
  "app_shape a \<longleftrightarrow>
     am_name a \<noteq> [] \<and> PATTERN_KEBAB_NAME (am_slug a) \<and> PATTERN_SEMVER (am_version a) \<and> pred_option (names_ok PATTERN_VALUE_NAME 1) (am_roles a)"

definition field_shape :: "field_def \<Rightarrow> bool" where
  "field_shape f \<longleftrightarrow>
     PATTERN_MEMBER_NAME (fd_name f) \<and> pred_option (names_ok PATTERN_VALUE_NAME 1) (fd_values f) \<and>
     pred_option PATTERN_ENTITY_NAME (fd_entity f) \<and> pred_option (conforms Literal) (fd_default f)"

definition relation_shape :: "relation_def \<Rightarrow> bool" where
  "relation_shape r \<longleftrightarrow> PATTERN_MEMBER_NAME (rd_name r) \<and> PATTERN_ENTITY_NAME (rd_to r)"

definition entity_shape :: "entity_def \<Rightarrow> bool" where
  "entity_shape e \<longleftrightarrow>
     PATTERN_ENTITY_NAME (en_name e) \<and> en_fields e \<noteq> [] \<and> list_all field_shape (en_fields e) \<and> list_all relation_shape (or_empty (en_relations e))"

definition page_shape :: "page_def \<Rightarrow> bool" where
  "page_shape p \<longleftrightarrow>
     PATTERN_KEBAB_NAME (pg_name p) \<and> PATTERN_ENTITY_NAME (pg_entity p) \<and> pred_option (names_ok PATTERN_MEMBER_NAME 1) (pg_fields p)"

definition predicate_shape :: "field_predicate \<Rightarrow> bool" where
  "predicate_shape p \<longleftrightarrow> PATTERN_MEMBER_NAME (fp_field p) \<and> pred_option (conforms Literal) (fp_value p)"

definition guard_shape :: "transition_guard \<Rightarrow> bool" where
  "guard_shape g \<longleftrightarrow>
     pred_option (names_ok PATTERN_VALUE_NAME 1) (tg_roles g) \<and> pred_option (\<lambda>ps. ps \<noteq> [] \<and> list_all predicate_shape ps) (tg_require g)"

definition approval_shape :: "approval_rule \<Rightarrow> bool" where
  "approval_shape a \<longleftrightarrow> 2 \<le> ap_count a \<and> pred_option (names_ok PATTERN_VALUE_NAME 1) (ap_roles a)"

definition transition_shape :: "transition_def \<Rightarrow> bool" where
  "transition_shape t \<longleftrightarrow>
     PATTERN_KEBAB_NAME (tr_name t) \<and> PATTERN_VALUE_NAME (tr_from t) \<and> PATTERN_VALUE_NAME (tr_to t) \<and>
     pred_option guard_shape (tr_guard t) \<and> pred_option approval_shape (tr_approval t)"

definition workflow_shape :: "workflow_def \<Rightarrow> bool" where
  "workflow_shape w \<longleftrightarrow>
     PATTERN_KEBAB_NAME (wf_name w) \<and> PATTERN_ENTITY_NAME (wf_entity w) \<and> PATTERN_MEMBER_NAME (wf_stateField w) \<and>
     PATTERN_VALUE_NAME (wf_initial w) \<and> wf_transitions w \<noteq> [] \<and> list_all transition_shape (wf_transitions w)"

definition proposal_shape :: "agent_proposal_ref \<Rightarrow> bool" where
  "proposal_shape r \<longleftrightarrow> PATTERN_KEBAB_NAME (ar_workflow r) \<and> PATTERN_KEBAB_NAME (ar_transition r)"

definition task_shape :: "agent_task_def \<Rightarrow> bool" where
  "task_shape t \<longleftrightarrow>
     PATTERN_KEBAB_NAME (at_name t) \<and> pred_option (names_ok PATTERN_KEBAB_NAME 0) (at_tools t) \<and>
     pred_option (\<lambda>rs. rs \<noteq> [] \<and> list_all proposal_shape rs) (at_proposes t)"

definition spec_shape :: "app_spec \<Rightarrow> bool" where
  "spec_shape spec \<longleftrightarrow>
     sp_specVersion spec \<in> {''0.1'', ''0.2''} \<and> app_shape (sp_app spec) \<and>
     sp_entities spec \<noteq> [] \<and> list_all entity_shape (sp_entities spec) \<and> list_all page_shape (or_empty (sp_pages spec)) \<and>
     list_all workflow_shape (or_empty (sp_workflows spec)) \<and> list_all task_shape (or_empty (sp_agents spec))"

subsection \<open>Members of a conforming object\<close>

named_theorems member_intros \<open>what conforming members read as\<close>

definition opt_conforms :: "schema \<Rightarrow> json \<Rightarrow> bool" where
  "opt_conforms s v \<longleftrightarrow> v = JUndef \<or> conforms s v"

lemma object_members:
  assumes "conforms (Object_of r m ps) j"
  shows "list_all (\<lambda>p. if fst p \<in> set r then conforms (snd p) (js_prop j (fst p)) else opt_conforms (snd p) (js_prop j (fst p))) ps"
  using assms by (cases j) (auto simp: list_all_iff opt_conforms_def)

lemma text_member: "conforms (Text_of p) v \<Longrightarrow> p (text_of v)"
  by (cases v) simp_all

lemmas text_members [member_intros] =
  text_member[of "\<lambda>s. s \<noteq> []"] text_member[of PATTERN_ENTITY_NAME] text_member[of PATTERN_MEMBER_NAME] text_member[of PATTERN_KEBAB_NAME]
  text_member[of PATTERN_VALUE_NAME] text_member[of PATTERN_SEMVER]

lemma opt_member: "opt_conforms s v \<Longrightarrow> (\<And>x. conforms s x \<Longrightarrow> P (f x)) \<Longrightarrow> pred_option P (opt_of f v)"
  by (auto simp: opt_of_def opt_conforms_def)

lemma array_items:
  "conforms (Array_of m u s) v \<Longrightarrow> (\<And>x. conforms s x \<Longrightarrow> P (f x)) \<Longrightarrow> m \<le> length (list_of f v) \<and> list_all P (list_of f v)"
  by (cases v) (auto simp: list_all_iff)

lemma array_member:
  "conforms (Array_of 1 u s) v \<Longrightarrow> (\<And>x. conforms s x \<Longrightarrow> P (f x)) \<Longrightarrow> list_of f v \<noteq> [] \<and> list_all P (list_of f v)"
  using array_items[of 1 u s v P f] by auto

lemma opt_array_member:
  "opt_conforms (Array_of m u s) v \<Longrightarrow> (\<And>x. conforms s x \<Longrightarrow> P (f x)) \<Longrightarrow> list_all P (or_empty (opt_of (list_of f) v))"
  using array_items[of m u s v P f] by (auto simp: opt_of_def opt_conforms_def)

lemma names_member: "conforms (Array_of m True (Text_of p)) v \<Longrightarrow> names_ok p m (list_of text_of v)"
proof (cases v)
  case (JArr vs)
  assume "conforms (Array_of m True (Text_of p)) v"
  then have vs: "m \<le> length vs" "distinct vs" "\<And>x. x \<in> set vs \<Longrightarrow> conforms (Text_of p) x"
    using JArr by (auto simp: list_all_iff)
  have "x = JStr (text_of x) \<and> p (text_of x)" if "x \<in> set vs" for x
    using vs(3)[OF that] by (cases x) simp_all
  then have "inj_on text_of (set vs)" "\<forall>x \<in> set vs. p (text_of x)" by (metis inj_onI, blast)
  then show ?thesis using vs JArr by (simp add: names_ok_def distinct_map list_all_iff)
qed simp_all

lemma opt_names: "opt_conforms (Array_of m True (Text_of p)) v \<Longrightarrow> pred_option (names_ok p m) (opt_of (list_of text_of) v)"
  by (erule opt_member) (rule names_member)

lemma opt_text: "opt_conforms (Text_of p) v \<Longrightarrow> pred_option p (opt_of text_of v)"
  by (erule opt_member) (rule text_member)

lemma opt_literal: "opt_conforms s v \<Longrightarrow> pred_option (conforms s) (opt_of (\<lambda>v. v) v)"
  by (erule opt_member)

lemma opt_items:
  "opt_conforms (Array_of 1 u s) v \<Longrightarrow> (\<And>x. conforms s x \<Longrightarrow> P (f x)) \<Longrightarrow> pred_option (\<lambda>xs. xs \<noteq> [] \<and> list_all P xs) (opt_of (list_of f) v)"
  by (erule opt_member) (rule array_member)

lemma count_member: "conforms (Integer_from 2) v \<Longrightarrow> 2 \<le> count_of v"
  by (cases v) (auto split: option.splits)

lemma version_member: "conforms (One_of vs) v \<Longrightarrow> text_of v \<in> set vs"
  by (cases v) simp_all

subsection \<open>Conforming values have the shape\<close>

lemma app_conforms: "conforms app_schema j \<Longrightarrow> app_shape (app_of j)"
  unfolding app_schema_def roles_schema_def
  by (drule object_members) (simp add: app_shape_def app_of_def text_members opt_names del: conforms.simps One_nat_def)

lemma field_conforms: "conforms field_schema j \<Longrightarrow> field_shape (field_of j)"
  unfolding field_schema_def
  by (drule object_members)
    (simp add: field_shape_def field_of_def text_members opt_names opt_text opt_literal del: conforms.simps One_nat_def)

lemma relation_conforms: "conforms relation_schema j \<Longrightarrow> relation_shape (relation_of j)"
  unfolding relation_schema_def
  by (drule object_members) (simp add: relation_shape_def relation_of_def text_members del: conforms.simps One_nat_def)

lemma entity_conforms: "conforms entity_schema j \<Longrightarrow> entity_shape (entity_of j)"
  unfolding entity_schema_def
  by (drule object_members)
    (simp add: entity_shape_def entity_of_def text_members array_member[where u = False and s = field_schema and P = field_shape and f = field_of, OF _ field_conforms] opt_array_member[where m = 0 and u = False and s = relation_schema and P = relation_shape and f = relation_of, OF _ relation_conforms]
      del: conforms.simps One_nat_def)

lemma page_conforms: "conforms page_schema j \<Longrightarrow> page_shape (page_of j)"
  unfolding page_schema_def
  by (drule object_members) (simp add: page_shape_def page_of_def text_members opt_names del: conforms.simps One_nat_def)

lemma predicate_conforms: "conforms predicate_schema j \<Longrightarrow> predicate_shape (predicate_of j)"
  unfolding predicate_schema_def
  by (drule object_members)
    (simp add: predicate_shape_def predicate_of_def text_members opt_literal del: conforms.simps One_nat_def)

lemma guard_conforms: "conforms guard_schema j \<Longrightarrow> guard_shape (guard_of j)"
  unfolding guard_schema_def roles_schema_def
  by (drule object_members)
    (simp add: guard_shape_def guard_of_def opt_names opt_items[where u = False and s = predicate_schema and P = predicate_shape and f = predicate_of, OF _ predicate_conforms] del: conforms.simps One_nat_def)

lemma approval_conforms: "conforms approval_schema j \<Longrightarrow> approval_shape (approval_of j)"
  unfolding approval_schema_def roles_schema_def
  by (drule object_members) (simp add: approval_shape_def approval_of_def count_member opt_names del: conforms.simps One_nat_def)

lemma transition_conforms: "conforms transition_schema j \<Longrightarrow> transition_shape (transition_of j)"
  unfolding transition_schema_def
  by (drule object_members)
    (simp add: transition_shape_def transition_of_def text_members opt_member[where s = guard_schema and P = guard_shape and f = guard_of, OF _ guard_conforms] opt_member[where s = approval_schema and P = approval_shape and f = approval_of, OF _ approval_conforms]
      del: conforms.simps One_nat_def)

lemma workflow_conforms: "conforms workflow_schema j \<Longrightarrow> workflow_shape (workflow_def_of j)"
  unfolding workflow_schema_def
  by (drule object_members)
    (simp add: workflow_shape_def workflow_def_of_def text_members array_member[where u = False and s = transition_schema and P = transition_shape and f = transition_of, OF _ transition_conforms] del: conforms.simps One_nat_def)

lemma proposal_conforms: "conforms proposal_schema j \<Longrightarrow> proposal_shape (proposal_of j)"
  unfolding proposal_schema_def
  by (drule object_members) (simp add: proposal_shape_def proposal_of_def text_members del: conforms.simps One_nat_def)

lemma task_conforms: "conforms task_schema j \<Longrightarrow> task_shape (task_def_of j)"
  unfolding task_schema_def
  by (drule object_members)
    (simp add: task_shape_def task_def_of_def text_members opt_names opt_items[where u = False and s = proposal_schema and P = proposal_shape and f = proposal_of, OF _ proposal_conforms] del: conforms.simps One_nat_def)

lemma spec_conforms: "conforms appSpecSchema j \<Longrightarrow> spec_shape (app_spec_of j)"
  unfolding appSpecSchema_def
  by (drule object_members)
    (use version_member[of "[''0.1'', ''0.2'']" "js_prop j ''specVersion''"] in
      \<open>simp add: spec_shape_def app_spec_of_def app_conforms array_member[where u = False and s = entity_schema and P = entity_shape and f = entity_of, OF _ entity_conforms] opt_array_member[where m = 0 and u = False and s = page_schema and P = page_shape and f = page_of, OF _ page_conforms]
        opt_array_member[where m = 0 and u = False and s = workflow_schema and P = workflow_shape and f = workflow_def_of, OF _ workflow_conforms] opt_array_member[where m = 0 and u = False and s = task_schema and P = task_shape and f = task_def_of, OF _ task_conforms] del: conforms.simps One_nat_def\<close>)

subsection \<open>The validator\<close>

text \<open>The structural pass: the schema decides, \<open>paths\<close> are the places its implementation reports.\<close>

definition structural_pass :: "(json \<Rightarrow> string list) \<Rightarrow> json \<Rightarrow> string list option" where
  "structural_pass paths j = (if conforms appSpecSchema j then None else Some (paths j))"

lemma schema_version:
  assumes "conforms appSpecSchema input"
  obtains kvs where "input = JObj kvs" "get_field kvs ''specVersion'' = JStr ''0.1'' \<or> get_field kvs ''specVersion'' = JStr ''0.2''"
proof -
  have "conforms (One_of [''0.1'', ''0.2'']) (js_prop input ''specVersion'')"
    using object_members[OF assms[unfolded appSpecSchema_def]] by (simp del: conforms.simps)
  then show thesis using that by (cases input) (auto split: json.splits)
qed

lemma validate_conforming:
  assumes "conforms appSpecSchema input" "semantic_errors (app_spec_of input) = []"
  shows "validateSpec (structural_pass paths) app_spec_of input = Inr (app_spec_of input)"
  by (rule schema_version[OF assms(1)]) (use assms in \<open>auto simp: validateSpec_def structural_pass_def simp del: conforms.simps\<close>)

text \<open>
  C13.  The validator accepts exactly the values that conform to the schema and whose typed reading passes the cross-reference rules, and
  an accepted spec has the shape the schema promises: names follow their patterns, lists that must
  not be empty are not, role lists have no duplicates, an approval rule asks for at least two approvers.
\<close>

theorem validator_accepts_exactly_conforming_input:
  "case validateSpec (structural_pass paths) app_spec_of input of
     Inr spec \<Rightarrow> conforms appSpecSchema input \<and> spec = app_spec_of input \<and> spec_ok spec \<and> spec_shape spec
   | Inl errors \<Rightarrow> \<not> (conforms appSpecSchema input \<and> spec_ok (app_spec_of input))"
  using validate_conforming[of input paths] spec_conforms[of input]
  by (auto simp: validateSpec_def structural_pass_def semantic_none Let_def simp del: conforms.simps split: json.splits)

end
