(* ===== verification/Fixtures.thy ===== *)
theory Fixtures
  imports Schema_Props Compile
begin

text \<open>
  The canonical specs (\<open>packages/spec/src/fixtures.ts\<close>) as the JSON values they are, and that the whole pipeline takes them.
\<close>

definition vendorOnboardingSpec :: json where
  "vendorOnboardingSpec = JObj [
    (''specVersion'', JStr ''0.1''),
    (''app'', JObj [
      (''name'', JStr ''Vendor Onboarding''),
      (''slug'', JStr ''vendor-onboarding''),
      (''description'', JStr ''Approval workflow for onboarding new vendors with 4-eyes review.''),
      (''version'', JStr ''0.1.0''),
      (''roles'', JArr [JStr ''requester'', JStr ''reviewer'', JStr ''compliance''])]),
    (''entities'', JArr [
      JObj [
        (''name'', JStr ''Vendor''),
        (''description'', JStr ''A company we may do business with.''),
        (''fields'', JArr [
          JObj [(''name'', JStr ''name''), (''type'', JStr ''string''), (''required'', JBool True), (''unique'', JBool True)],
          JObj [(''name'', JStr ''contactEmail''), (''type'', JStr ''string''), (''required'', JBool True)],
          JObj [(''name'', JStr ''country''), (''type'', JStr ''string'')],
          JObj [
            (''name'', JStr ''riskTier''),
            (''type'', JStr ''enum''),
            (''values'', JArr [JStr ''low'', JStr ''medium'', JStr ''high'']),
            (''default'', JStr ''medium'')]])],
      JObj [
        (''name'', JStr ''VendorApplication''),
        (''description'', JStr ''A request to onboard a vendor.''),
        (''fields'', JArr [
          JObj [(''name'', JStr ''vendor''), (''type'', JStr ''reference''), (''entity'', JStr ''Vendor''), (''required'', JBool True)],
          JObj [(''name'', JStr ''justification''), (''type'', JStr ''text''), (''required'', JBool True)],
          JObj [(''name'', JStr ''annualSpend''), (''type'', JStr ''number'')],
          JObj [
            (''name'', JStr ''status''),
            (''type'', JStr ''enum''),
            (''required'', JBool True),
            (''values'', JArr [JStr ''draft'', JStr ''submitted'', JStr ''in_review'', JStr ''approved'', JStr ''rejected'']),
            (''default'', JStr ''draft'')]])]]),
    (''pages'', JArr [
      JObj [(''name'', JStr ''vendors''), (''type'', JStr ''list''), (''entity'', JStr ''Vendor''), (''title'', JStr ''Vendors'')],
      JObj [(''name'', JStr ''vendor-form''), (''type'', JStr ''form''), (''entity'', JStr ''Vendor''), (''title'', JStr ''New vendor'')],
      JObj [
        (''name'', JStr ''applications''),
        (''type'', JStr ''list''),
        (''entity'', JStr ''VendorApplication''),
        (''title'', JStr ''Applications''),
        (''fields'', JArr [JStr ''vendor'', JStr ''status'', JStr ''annualSpend''])],
      JObj [
        (''name'', JStr ''application-detail''),
        (''type'', JStr ''detail''),
        (''entity'', JStr ''VendorApplication''),
        (''title'', JStr ''Application'')],
      JObj [
        (''name'', JStr ''application-form''),
        (''type'', JStr ''form''),
        (''entity'', JStr ''VendorApplication''),
        (''title'', JStr ''New application''),
        (''fields'', JArr [JStr ''vendor'', JStr ''justification'', JStr ''annualSpend''])]]),
    (''workflows'', JArr [
      JObj [
        (''name'', JStr ''vendor-approval''),
        (''entity'', JStr ''VendorApplication''),
        (''stateField'', JStr ''status''),
        (''initial'', JStr ''draft''),
        (''transitions'', JArr [
          JObj [
            (''name'', JStr ''submit''),
            (''from'', JStr ''draft''),
            (''to'', JStr ''submitted''),
            (''guard'', JObj [(''roles'', JArr [JStr ''requester''])])],
          JObj [
            (''name'', JStr ''start-review''),
            (''from'', JStr ''submitted''),
            (''to'', JStr ''in_review''),
            (''guard'', JObj [(''roles'', JArr [JStr ''reviewer''])])],
          JObj [
            (''name'', JStr ''approve''),
            (''from'', JStr ''in_review''),
            (''to'', JStr ''approved''),
            (''guard'', JObj [(''roles'', JArr [JStr ''reviewer'', JStr ''compliance''])]),
            (''approval'', JObj [(''count'', JNum (JsInt 2)), (''roles'', JArr [JStr ''reviewer'', JStr ''compliance''])])],
          JObj [
            (''name'', JStr ''reject''),
            (''from'', JStr ''in_review''),
            (''to'', JStr ''rejected''),
            (''guard'', JObj [(''roles'', JArr [JStr ''reviewer'', JStr ''compliance''])])]])]])]"

text \<open>The clone with another version and an agent task.\<close>

definition vendorOnboardingWithAgentSpec :: json where
  "vendorOnboardingWithAgentSpec =
     (case vendorOnboardingSpec of
        JObj kvs \<Rightarrow> JObj (map_set ''agents'' (JArr [
    JObj [
      (''name'', JStr ''vendor-risk-review''),
      (''description'', JStr ''Reads a submitted vendor application and proposes approval when risk looks acceptable.''),
      (''tools'', JArr [JStr ''read-vendor-application'']),
      (''proposes'', JArr [JObj [(''workflow'', JStr ''vendor-approval''), (''transition'', JStr ''approve'')]])]]) (map_set ''specVersion'' (JStr ''0.2'') kvs))
      | v \<Rightarrow> v)"

definition minimalSpec :: json where
  "minimalSpec = JObj [
    (''specVersion'', JStr ''0.1''),
    (''app'', JObj [(''name'', JStr ''Notes''), (''slug'', JStr ''notes''), (''version'', JStr ''0.1.0'')]),
    (''entities'', JArr [
      JObj [
        (''name'', JStr ''Note''),
        (''fields'', JArr [
          JObj [(''name'', JStr ''title''), (''type'', JStr ''string''), (''required'', JBool True)],
          JObj [(''name'', JStr ''body''), (''type'', JStr ''text'')]])]])]"

definition projectTrackerSpec :: json where
  "projectTrackerSpec = JObj [
    (''specVersion'', JStr ''0.1''),
    (''app'', JObj [
      (''name'', JStr ''Project Tracker''),
      (''slug'', JStr ''project-tracker''),
      (''version'', JStr ''0.1.0''),
      (''roles'', JArr [JStr ''member'', JStr ''lead''])]),
    (''entities'', JArr [
      JObj [
        (''name'', JStr ''Project''),
        (''fields'', JArr [
          JObj [(''name'', JStr ''name''), (''type'', JStr ''string''), (''required'', JBool True), (''unique'', JBool True)],
          JObj [(''name'', JStr ''budget''), (''type'', JStr ''number'')],
          JObj [(''name'', JStr ''dueDate''), (''type'', JStr ''date'')],
          JObj [
            (''name'', JStr ''phase''),
            (''type'', JStr ''enum''),
            (''required'', JBool True),
            (''values'', JArr [JStr ''planned'', JStr ''active'', JStr ''done'']),
            (''default'', JStr ''planned'')]]),
        (''relations'', JArr [JObj [(''name'', JStr ''tags''), (''kind'', JStr ''manyToMany''), (''to'', JStr ''Tag'')]])],
      JObj [
        (''name'', JStr ''Tag''),
        (''fields'', JArr [JObj [(''name'', JStr ''label''), (''type'', JStr ''string''), (''required'', JBool True), (''unique'', JBool True)]])]]),
    (''pages'', JArr [
      JObj [(''name'', JStr ''projects''), (''type'', JStr ''list''), (''entity'', JStr ''Project'')],
      JObj [(''name'', JStr ''project-form''), (''type'', JStr ''form''), (''entity'', JStr ''Project'')],
      JObj [(''name'', JStr ''tags''), (''type'', JStr ''list''), (''entity'', JStr ''Tag'')]]),
    (''workflows'', JArr [
      JObj [
        (''name'', JStr ''project-lifecycle''),
        (''entity'', JStr ''Project''),
        (''stateField'', JStr ''phase''),
        (''initial'', JStr ''planned''),
        (''transitions'', JArr [
          JObj [
            (''name'', JStr ''kick-off''),
            (''from'', JStr ''planned''),
            (''to'', JStr ''active''),
            (''guard'', JObj [
              (''roles'', JArr [JStr ''lead'']),
              (''require'', JArr [JObj [(''field'', JStr ''budget''), (''op'', JStr ''gt''), (''value'', JNum (JsInt 0))]])])],
          JObj [
            (''name'', JStr ''complete''),
            (''from'', JStr ''active''),
            (''to'', JStr ''done''),
            (''guard'', JObj [(''require'', JArr [JObj [(''field'', JStr ''dueDate''), (''op'', JStr ''set'')]])])]])]])]"

definition allFixtures :: "json list" where
  "allFixtures = [vendorOnboardingSpec, minimalSpec, projectTrackerSpec]"

lemma fixtures_conform: "list_all (conforms appSpecSchema) (vendorOnboardingWithAgentSpec # allFixtures)"
  by code_simp

lemma fixtures_ok: "list_all (\<lambda>j. semantic_errors (app_spec_of j) = []) (vendorOnboardingWithAgentSpec # allFixtures)"
  by code_simp

lemma fixtures_sql: "list_all (\<lambda>j. collectSqlErrors (app_spec_of j) = []) (vendorOnboardingWithAgentSpec # allFixtures)"
  by code_simp

end
