(* ===== verification/App_Props.thy ===== *)
theory App_Props
  imports Fixtures Server Auth
begin

text \<open>
  The compiled app as a whole: its \<open>spec.json\<close> loads back as the spec it was compiled from, its own tests pass, and its README
  documents the routes the runtime registers for it.
\<close>

subsection \<open>Texts inside texts\<close>

lemma contains_str_prefix: "prefix p s \<Longrightarrow> contains_str s p"
  by (cases s) auto

lemma contains_str_append: "contains_str s p \<Longrightarrow> contains_str (a @ s) p"
  by (induction a) auto

lemma contains_str_more: "contains_str s p \<Longrightarrow> contains_str (s @ b) p"
proof (induction s)
  case Nil
  then show ?case by (simp add: contains_str_prefix)
next
  case (Cons c s)
  then show ?case by (auto intro: prefix_order.trans[of p "c # s" "c # s @ b"])
qed

lemma contains_str_join: "x \<in> set xs \<Longrightarrow> contains_str x p \<Longrightarrow> contains_str (join_with sep xs) p"
proof (induction sep xs rule: join_with.induct)
  case (3 sep x' y zs)
  then show ?case using contains_str_more[of x' p] contains_str_append[of "join_with sep (y # zs)" p "x' @ sep"] by auto
qed auto

subsection \<open>The migration has every table\<close>

lemma entity_statement:
  assumes "e \<in> set (sp_entities spec)"
  shows "\<exists>i. Create_entity (i, e) \<in> set (migration_statements spec)"
proof -
  obtain order deferred where plan: "planTableOrder (sp_entities spec) = (order, deferred)" by force
  have "e \<in> snd ` set order" using plan_result(4)[OF plan] assms by (metis list.set_map mset_eq_setD)
  then obtain i where "(i, e) \<in> set order" by auto
  then show ?thesis by (auto simp: migration_statements_def plan intro: imageI)
qed

lemma relation_statement:
  assumes "e \<in> set (sp_entities spec)" "r \<in> set (or_empty (en_relations e))"
  shows "Create_join e r \<in> set (migration_statements spec)"
  using assms by (cases "planTableOrder (sp_entities spec)") (auto simp: migration_statements_def)

lemma table_statement:
  assumes "t \<in> set (test_tables spec)"
  shows "\<exists>s \<in> set (migration_statements spec). \<forall>d. prefix (''CREATE TABLE '' @ t @ '' ('') (render_ddl d s)"
proof -
  obtain e where e: "e \<in> set (sp_entities spec)"
    "t = snakeCase (en_name e) \<or> (\<exists>r \<in> set (or_empty (en_relations e)). t = snakeCase (en_name e) @ ''_'' @ snakeCase (rd_name r))"
    using assms by (auto simp: test_tables_def)
  from e(2) show ?thesis
  proof (elim disjE bexE)
    assume t: "t = snakeCase (en_name e)"
    obtain i where i: "Create_entity (i, e) \<in> set (migration_statements spec)" using entity_statement[OF e(1)] by blast
    have "prefix (''CREATE TABLE '' @ t @ '' ('') (render_ddl d (Create_entity (i, e)))" for d
      by (simp add: renderEntityTable_def tableName_def t)
    then show ?thesis using i by blast
  next
    fix r assume r: "r \<in> set (or_empty (en_relations e))" "t = snakeCase (en_name e) @ ''_'' @ snakeCase (rd_name r)"
    have "prefix (''CREATE TABLE '' @ t @ '' ('') (render_ddl d (Create_join e r))" for d
      by (simp add: renderJoinTable_def joinTableName_def Let_def r)
    then show ?thesis using relation_statement[OF e(1) r(1)] by blast
  qed
qed

lemma migration_has_tables:
  assumes "renderMigration spec = Inr sql" "t \<in> set (test_tables spec)"
  shows "contains_str sql (''CREATE TABLE '' @ t @ '' ('')"
proof -
  let ?d = "snd (planTableOrder (sp_entities spec))"
  let ?body = "join_with (newline @ newline) (map (render_ddl ?d) (migration_statements spec))"
  have sql: "sql = migration_header spec @ ?body @ newline"
    using assms(1) by (simp add: renderMigration_def Let_def split: if_splits)
  obtain s where "s \<in> set (migration_statements spec)" "prefix (''CREATE TABLE '' @ t @ '' ('') (render_ddl ?d s)"
    using table_statement[OF assms(2)] by blast
  then have "contains_str ?body (''CREATE TABLE '' @ t @ '' ('')"
    by (intro contains_str_join[where x = "render_ddl ?d s"] contains_str_prefix) auto
  then show ?thesis unfolding sql by (intro contains_str_append contains_str_more)
qed

lemma migration_starts: "renderMigration spec = Inr sql \<Longrightarrow> test_pgcrypto sql"
  by (auto simp: renderMigration_def Let_def test_pgcrypto_def migration_header_def split: if_splits)

subsection \<open>The files\<close>

lemma compiled_files:
  assumes "compileApp emit spec = Inr files"
  shows "\<lparr>cf_path = ''app/spec.json'', cf_contents = pretty (em_value emit spec) @ newline\<rparr> \<in> set files"
    and "\<exists>sql. renderMigration spec = Inr sql \<and> \<lparr>cf_path = ''app/migrations/0001_init.sql'', cf_contents = sql\<rparr> \<in> set files"
  using assms by (auto simp: compileApp_def Let_def split: sum.splits if_splits)

lemma compiled_file_unique:
  assumes "compileApp emit spec = Inr files" "f \<in> set files" "g \<in> set files" "cf_path f = cf_path g"
  shows "f = g"
proof -
  have "distinct (map cf_path files)" unfolding compiled_paths[OF assms(1)] by simp
  then show ?thesis using assms(2-4) by (auto simp: distinct_map inj_on_def)
qed

definition accepted :: "(json \<Rightarrow> string list) \<Rightarrow> json \<Rightarrow> app_spec \<Rightarrow> bool" where
  "accepted paths input spec \<longleftrightarrow> json_ok input \<and> validateSpec (structural_pass paths) app_spec_of input = Inr spec"

lemma accepted_ok:
  assumes "accepted paths input spec"
  shows "spec_ok spec" "spec_shape spec" "spec = app_spec_of input" "\<exists>kvs. input = JObj kvs"
proof -
  have v: "validateSpec (structural_pass paths) app_spec_of input = Inr spec" using assms by (simp add: accepted_def)
  then show ok: "spec_ok spec" by (rule validateSpec_ok)
  show obj: "\<exists>kvs. input = JObj kvs" using v by (auto simp: validateSpec_def split: json.splits)
  then have "conforms appSpecSchema input \<and> spec = app_spec_of input"
    using v by (auto simp: validateSpec_def structural_pass_def Let_def simp del: conforms.simps split: if_splits)
  then show "spec_shape spec" "spec = app_spec_of input" using spec_conforms by auto
qed

lemma spec_json_loads:
  assumes "accepted paths input spec"
  shows "json_parse (pretty input @ newline) = Some input"
    and "loadAppDir (structural_pass paths) app_spec_of (Some (pretty input @ newline)) = Inr spec"
proof -
  show parsed: "json_parse (pretty input @ newline) = Some input" using json_parse_pretty assms by (simp add: accepted_def)
  show "loadAppDir (structural_pass paths) app_spec_of (Some (pretty input @ newline)) = Inr spec"
    using assms parsed by (simp add: loadAppDir_def accepted_def)
qed

lemma spec_json_file:
  assumes "em_value emit spec = input" "compileApp emit spec = Inr files" "f \<in> set files" "cf_path f = ''app/spec.json''"
  shows "f = \<lparr>cf_path = ''app/spec.json'', cf_contents = pretty input @ newline\<rparr>"
  using compiled_file_unique[OF assms(2,3) compiled_files(1)[OF assms(2)]] assms(1,4) by simp

text \<open>
  C22.  A compiled app loads as the spec it was compiled from.  If the validator accepts a parsed JSON value and the compiler emits
  files for it, the runtime's loader reads the emitted \<open>spec.json\<close> back to the same spec: the text parses to the value that was
  compiled, and the second validation accepts it.
\<close>

theorem compiled_app_loads_back:
  assumes "accepted paths input spec" "em_value emit spec = input" "compileApp emit spec = Inr files"
    and "f \<in> set files" "cf_path f = ''app/spec.json''"
  shows "json_parse (cf_contents f) = Some input \<and> loadAppDir (structural_pass paths) app_spec_of (Some (cf_contents f)) = Inr spec"
  using spec_json_loads[OF assms(1)] spec_json_file[OF assms(2-5)] by simp

subsection \<open>The app's own tests\<close>

lemma accepted_states: "spec_ok spec \<Longrightarrow> test_states spec"
proof -
  assume ok: "spec_ok spec"
  have "test_workflow_states spec w" if w: "w \<in> set (or_empty (sp_workflows spec))" for w
  proof -
    from ok w obtain e f states where e: "e \<in> set (sp_entities spec)" "en_name e = wf_entity w"
      and f: "f \<in> set (en_fields e)" "fd_name f = wf_stateField w" "fd_type f = FEnum" "fd_values f = Some states"
      and st: "wf_initial w \<in> set states" "\<forall>t \<in> set (wf_transitions w). transition_ok spec e states t"
      unfolding spec_ok_def workflow_ok_def by blast
    have "List.find (\<lambda>e. en_name e = wf_entity w) (sp_entities spec) = Some e"
      using e ok by (subst list_find_unique) (simp_all add: spec_ok_def)
    moreover have "List.find (\<lambda>f. fd_name f = wf_stateField w) (en_fields e) = Some f"
      using f entity_ok_fields ok e(1) by (subst list_find_unique) (auto simp: spec_ok_def)
    ultimately show ?thesis using f st by (auto simp: test_workflow_states_def list_all_iff transition_ok_def Let_def)
  qed
  then show ?thesis by (simp add: test_states_def list_all_iff)
qed

lemma shaped_approvals: "spec_shape spec \<Longrightarrow> test_approvals spec"
proof -
  assume shape: "spec_shape spec"
  have "2 \<le> ap_count a" if "w \<in> set (or_empty (sp_workflows spec))" "t \<in> set (wf_transitions w)" "tr_approval t = Some a" for w t a
  proof -
    have "workflow_shape w" using shape that(1) by (simp add: spec_shape_def list_all_iff)
    then have "transition_shape t" using that(2) by (simp add: workflow_shape_def list_all_iff)
    then show ?thesis using that(3) by (simp add: transition_shape_def approval_shape_def)
  qed
  then show ?thesis by (auto simp: test_approvals_def list_all_iff split: option.splits)
qed

lemma compiled_tests_pass:
  assumes acc: "accepted paths input spec" and sql: "renderMigration spec = Inr sql"
  shows "spec_test_passes app_spec_of (pretty input @ newline) sql"
proof -
  note ok = accepted_ok[OF acc]
  have "test_tables spec \<noteq> []" using ok(2) by (cases "sp_entities spec") (simp_all add: spec_shape_def test_tables_def)
  then have "test_migration spec sql" using migration_has_tables[OF sql] by (simp add: test_migration_def list_all_iff)
  moreover have "test_version spec" using ok(2) by (simp add: spec_shape_def test_version_def)
  ultimately show ?thesis
    using spec_json_loads(1)[OF acc] ok(3,4) accepted_states[OF ok(1)] shaped_approvals[OF ok(2)] migration_starts[OF sql]
    by (auto simp: spec_test_passes_def Let_def)
qed

text \<open>
  Every compiled app passes its own tests.  If the validator accepts a parsed JSON value and the compiler emits files for it, the five
  checks of the emitted \<open>test/spec.test.mjs\<close> hold of the emitted \<open>spec.json\<close> and migration: the version is supported, every workflow state
  is a value of its enum field, every approval asks for two or more, and the migration starts with the extension and has
  a \<open>CREATE TABLE\<close> for every entity and relation.
\<close>

theorem compiled_app_passes_its_tests:
  assumes "accepted paths input spec" "em_value emit spec = input" "compileApp emit spec = Inr files"
    and "f \<in> set files" "cf_path f = ''app/spec.json''" "m \<in> set files" "cf_path m = ''app/migrations/0001_init.sql''"
  shows "spec_test_passes app_spec_of (cf_contents f) (cf_contents m)"
proof -
  have "renderMigration spec = Inr (cf_contents m)"
    using compiled_file_unique[OF assms(3,6)] compiled_files(2)[OF assms(3)] assms(7) by fastforce
  then show ?thesis using compiled_tests_pass[OF assms(1)] spec_json_file[OF assms(2-5)] by simp
qed

subsection \<open>The routes of the README\<close>

lemma entity_name_plain: "PATTERN_ENTITY_NAME n \<Longrightarrow> CHR ''_'' \<notin> set n"
proof -
  assume n: "PATTERN_ENTITY_NAME n"
  have "\<not> letter_or_digit (CHR ''_'')" "\<not> is_upper (CHR ''_'')" by code_simp+
  then show ?thesis using n by (cases n) (auto simp: PATTERN_ENTITY_NAME_def list_all_iff)
qed

lemma kebab_is_segment: "PATTERN_ENTITY_NAME n \<Longrightarrow> kebabCase n = entityApiSegment n"
  by (simp add: entity_name_plain entityApiSegment_def toSnakeCase_cuts kebabCase_cuts replace_to_lower)

text \<open>The rows of the table as the runtime's own models give them\<close>

definition served_entity_rows :: "app_spec \<Rightarrow> entity_def \<Rightarrow> string list" where
  "served_entity_rows spec e =
     (let base = ''/api/'' @ em_apiSegment (buildEntityModel spec e) in
      [route_row ''GET'' base (''List '' @ en_name e @ '' records''), route_row ''POST'' base (''Create a '' @ en_name e),
       route_row ''GET'' (base @ ''/:id'') (''Fetch one '' @ en_name e), route_row ''PUT'' (base @ ''/:id'') (''Update a '' @ en_name e)])"

definition served_transition_row :: "wide_chars \<Rightarrow> string \<times> transition_def \<times> workflow_def \<times> entity_model \<Rightarrow> string" where
  "served_transition_row u route = (case route of (path, t, w, model) \<Rightarrow> route_row ''POST'' path (transition_purpose u t))"

definition is_route_row :: "string \<Rightarrow> bool" where
  "is_route_row line \<longleftrightarrow> list_ex (\<lambda>m. prefix (''| '' @ m @ '' | `'') line) [''GET'', ''POST'', ''PUT'']"

lemma route_row_is: "m \<in> {''GET'', ''POST'', ''PUT''} \<Longrightarrow> is_route_row (route_row m path purpose)"
  by (auto simp: is_route_row_def route_row_def ticked_def)

lemma rows_are_rows:
  "filter is_route_row fixed_route_rows = fixed_route_rows"
  "filter is_route_row (entity_route_rows e) = entity_route_rows e"
  "filter is_route_row (workflow_route_rows u w) = workflow_route_rows u w"
  "filter is_route_row (map page_route_row ps) = map page_route_row ps"
  by (simp_all add: fixed_route_rows_def entity_route_rows_def workflow_route_rows_def page_route_row_def route_row_is Let_def
      filter_empty_conv filter_id_conv)

lemma filter_concat_id:
  assumes "\<And>x. filter P (f x) = f x"
  shows "filter P (concat (map f xs)) = concat (map f xs)"
proof -
  have "filter P \<circ> f = f" using assms by auto
  then show ?thesis by (simp add: filter_concat)
qed

lemma readme_rows:
  "filter is_route_row (renderRoutes u spec) =
     fixed_route_rows @ concat (map entity_route_rows (sp_entities spec)) @
     concat (map (workflow_route_rows u) (or_empty (sp_workflows spec))) @ map page_route_row (or_empty (sp_pages spec))"
proof -
  have not_rows: "\<not> is_route_row l" if "\<not> prefix ''| GET'' l" "\<not> prefix ''| P'' l" for l
    using that by (auto simp: is_route_row_def prefix_def)
  show ?thesis
    by (simp add: renderRoutes_def rows_are_rows filter_concat_id not_rows)
qed

lemma segment_of_model [simp]: "em_apiSegment (buildEntityModel spec e) = entityApiSegment (en_name e)"
  by (simp add: buildEntityModel_def Let_def)

lemma entity_rows_served: "PATTERN_ENTITY_NAME (en_name e) \<Longrightarrow> served_entity_rows spec e = entity_route_rows e"
  by (simp add: served_entity_rows_def entity_route_rows_def kebab_is_segment Let_def)

definition routes_of :: "app_spec \<Rightarrow> workflow_def \<Rightarrow> (string \<times> transition_def \<times> workflow_def \<times> entity_model) list" where
  "routes_of spec w =
     (let model = buildEntityModel spec (the (List.find (\<lambda>e. en_name e = wf_entity w) (sp_entities spec))) in
      map (\<lambda>t. (''/api/'' @ em_apiSegment model @ ''/:id/transitions/'' @ tr_name t, t, w, model)) (wf_transitions w))"

lemma find_entity: "workflow_ok spec w \<Longrightarrow> \<exists>e. List.find (\<lambda>e. en_name e = wf_entity w) (sp_entities spec) = Some e \<and> en_name e = wf_entity w"
  by (cases "List.find (\<lambda>e. en_name e = wf_entity w) (sp_entities spec)") (auto simp: workflow_ok_def find_None_iff find_Some_iff)

lemma concat_of_somes:
  "(\<And>w. w \<in> set ws \<Longrightarrow> one w = Some (g w)) \<Longrightarrow>
   (if list_all (\<lambda>w. one w \<noteq> None) ws then Some (concat (map (\<lambda>w. the (one w)) ws)) else None) = Some (concat (map g ws))"
  by (simp add: list_all_iff cong: map_cong)

lemma workflow_routes_are:
  assumes "\<And>w. w \<in> set (or_empty (sp_workflows spec)) \<Longrightarrow> workflow_ok spec w"
  shows "workflow_routes spec = Some (concat (map (routes_of spec) (or_empty (sp_workflows spec))))"
proof -
  have "map_option (\<lambda>e. let model = buildEntityModel spec e in
           map (\<lambda>t. (''/api/'' @ em_apiSegment model @ ''/:id/transitions/'' @ tr_name t, t, w, model)) (wf_transitions w))
         (List.find (\<lambda>e. en_name e = wf_entity w) (sp_entities spec)) = Some (routes_of spec w)"
    if "w \<in> set (or_empty (sp_workflows spec))" for w
    using find_entity[OF assms[OF that]] by (auto simp: routes_of_def Let_def)
  then show ?thesis unfolding workflow_routes_def Let_def by (rule concat_of_somes)
qed

lemma transition_rows_served:
  assumes "workflow_ok spec w" "PATTERN_ENTITY_NAME (wf_entity w)"
  shows "map (served_transition_row u) (routes_of spec w) = workflow_route_rows u w"
  using find_entity[OF assms(1)] kebab_is_segment[OF assms(2)]
  by (auto simp: routes_of_def served_transition_row_def workflow_route_rows_def Let_def)

text \<open>
  The README's route table is what the runtime registers.  For every accepted spec the rows of the table are the five fixed ones, then
  the four operations of each entity under the path segment of the runtime's own model of it, then one row for each transition
  route the runtime registers, in that order and with its path, then the pages.
\<close>

theorem readme_lists_the_served_routes:
  assumes "accepted paths input spec"
  shows "\<exists>rs. workflow_routes spec = Some rs \<and>
    filter is_route_row (renderRoutes u spec) =
      fixed_route_rows @ concat (map (served_entity_rows spec) (sp_entities spec)) @ map (served_transition_row u) rs
      @ map page_route_row (or_empty (sp_pages spec))"
proof -
  note ok = accepted_ok[OF assms]
  have w: "workflow_ok spec w" "PATTERN_ENTITY_NAME (wf_entity w)" if "w \<in> set (or_empty (sp_workflows spec))" for w
    using that ok by (auto simp: spec_ok_def spec_shape_def list_all_iff workflow_shape_def)
  have "concat (map (served_entity_rows spec) (sp_entities spec)) = concat (map entity_route_rows (sp_entities spec))"
    using ok(2) by (simp add: spec_shape_def list_all_iff entity_shape_def entity_rows_served cong: map_cong)
  moreover have "map (served_transition_row u) (concat (map (routes_of spec) (or_empty (sp_workflows spec))))
      = concat (map (workflow_route_rows u) (or_empty (sp_workflows spec)))"
    using w by (simp add: map_concat o_def transition_rows_served cong: map_cong)
  ultimately show ?thesis using workflow_routes_are[OF w(1)] readme_rows by simp
qed

text \<open>
  The text above the table says that every route but three requires a session; the gate also leaves the bearer routes to
  their own authentication.
\<close>

lemma more_public_paths: "list_all isPublicPath [''/healthz'', ''/auth/login'', ''/auth/callback'', ''/auth/logout'', ''/mcp'', ''/a2a/v1'']"
  by (simp add: isPublicPath_def)

subsection \<open>Witnesses\<close>

definition fixture_emit :: "json \<Rightarrow> emitters" where
  "fixture_emit input = \<lparr>em_value = (\<lambda>_. input), em_chars = \<lparr>ch_dash = ''-'', ch_arrow = ''>'', ch_geq = ''>''\<rparr>\<rparr>"

lemma fixture_accepted: "accepted (\<lambda>_. []) vendorOnboardingSpec (app_spec_of vendorOnboardingSpec)"
proof -
  have "json_ok vendorOnboardingSpec" by code_simp
  moreover have "conforms appSpecSchema vendorOnboardingSpec" "semantic_errors (app_spec_of vendorOnboardingSpec) = []"
    using fixtures_conform fixtures_ok by (simp_all only: list.pred_inject allFixtures_def)
  ultimately show ?thesis by (simp add: accepted_def validate_conforming)
qed

lemma fixture_compiles:
  obtains files where "compileApp (fixture_emit vendorOnboardingSpec) (app_spec_of vendorOnboardingSpec) = Inr files"
proof -
  have "collectSqlErrors (app_spec_of vendorOnboardingSpec) = []" using fixtures_sql by (simp only: list.pred_inject allFixtures_def)
  moreover have "unsupported_errors (app_spec_of vendorOnboardingSpec) = []" by code_simp
  ultimately show thesis using that by (simp add: compileApp_def Let_def renderMigration_def)
qed

theorem compiled_app_loads_back_witness:
  "loadAppDir (structural_pass (\<lambda>_. [])) app_spec_of (Some (pretty vendorOnboardingSpec @ newline)) = Inr (app_spec_of vendorOnboardingSpec)"
proof -
  obtain files where files: "compileApp (fixture_emit vendorOnboardingSpec) (app_spec_of vendorOnboardingSpec) = Inr files"
    by (rule fixture_compiles)
  have "em_value (fixture_emit vendorOnboardingSpec) (app_spec_of vendorOnboardingSpec) = vendorOnboardingSpec" by (simp add: fixture_emit_def)
  from compiled_app_loads_back[OF fixture_accepted this files compiled_files(1)[OF files]] this show ?thesis by simp
qed

theorem compiled_app_passes_its_tests_witness:
  "\<exists>sql. renderMigration (app_spec_of vendorOnboardingSpec) = Inr sql \<and>
     spec_test_passes app_spec_of (pretty vendorOnboardingSpec @ newline) sql"
proof -
  obtain files where files: "compileApp (fixture_emit vendorOnboardingSpec) (app_spec_of vendorOnboardingSpec) = Inr files"
    by (rule fixture_compiles)
  obtain sql where sql: "renderMigration (app_spec_of vendorOnboardingSpec) = Inr sql"
    "\<lparr>cf_path = ''app/migrations/0001_init.sql'', cf_contents = sql\<rparr> \<in> set files"
    using compiled_files(2)[OF files] by blast
  have "em_value (fixture_emit vendorOnboardingSpec) (app_spec_of vendorOnboardingSpec) = vendorOnboardingSpec" by (simp add: fixture_emit_def)
  from compiled_app_passes_its_tests[OF fixture_accepted this files compiled_files(1)[OF files] _ sql(2)] this sql(1) show ?thesis by simp
qed

theorem readme_lists_the_served_routes_witness:
  "workflow_routes (app_spec_of vendorOnboardingSpec) \<noteq> None"
  using readme_lists_the_served_routes[OF fixture_accepted, of "\<lparr>ch_dash = ''-'', ch_arrow = ''>'', ch_geq = ''>''\<rparr>"] by auto

end
