(* ===== verification/Pipeline.thy ===== *)
theory Pipeline
  imports Cli_Props App_Props
begin

text \<open>
  From the command line to the running app: what \<open>openrupiv generate\<close> leaves on disk is an app the runtime loads and whose own tests pass.
\<close>

definition app_file :: "path \<Rightarrow> string list \<Rightarrow> 'g cli_world \<Rightarrow> string option" where
  "app_file ws p w = (case cw_disk w (ws @ ''app'' # p) of Some (File contents) \<Rightarrow> Some contents | _ \<Rightarrow> None)"

lemma generated_files:
  assumes "disk_ok (cw_disk w)" "cd_compile deps = compileApp emit" "runGenerate deps description dir json w = (Inr EXIT_OK, w')"
  obtains generated n spec files where "cd_generate deps description = Inr (Generated generated n)" "cd_validate deps generated = Inr spec"
    "compileApp emit spec = Inr files"
    "files_under (workspace_dir (cd_cwd deps) dir @ [''app'']) (cw_disk w') =
       (\<lambda>f. (place (workspace_dir (cd_cwd deps) dir) f, cf_contents f)) ` set files"
proof -
  obtain r w1 where run: "doGenerate deps description dir json w = (r, w1)" by force
  have no: "cli_exit k \<noteq> EXIT_OK" for k using cli_exit_codes[of k] by (auto simp: EXIT_OK_def)
  obtain p where "r = Inr (p, EXIT_OK)" "cw_disk w' = cw_disk w1"
    using assms(3) no by (auto simp: runGenerate_def run report_def Let_def split: sum.splits cli_throw.splits prod.splits if_splits)
  then have "generated_app deps description (workspace_dir (cd_cwd deps) dir) (cw_disk w')"
    using doGenerate_effect[OF assms(1,2) run] by simp
  then show thesis using that assms(2) unfolding generated_app_def by metis
qed

lemma file_on_disk:
  assumes "files_under (ws @ [''app'']) d = (\<lambda>f. (place ws f, cf_contents f)) ` set files" "f \<in> set files"
  shows "d (place ws f) = Some (File (cf_contents f))"
proof -
  have "(place ws f, cf_contents f) \<in> files_under (ws @ [''app'']) d" using assms by blast
  then show ?thesis by (simp add: files_under_def)
qed

lemma app_places:
  "place ws \<lparr>cf_path = ''app/spec.json'', cf_contents = c\<rparr> = ws @ [''app'', ''spec.json'']"
  "place ws \<lparr>cf_path = ''app/migrations/0001_init.sql'', cf_contents = c\<rparr> = ws @ [''app'', ''migrations'', ''0001_init.sql'']"
  by (simp_all add: place_def)

text \<open>
  C21.  What \<open>openrupiv generate\<close> leaves behind can be served.  If the command exits with 0, where its second validation is the validator's, the
  file \<open>app/spec.json\<close> on disk is loaded by the runtime as the very spec that passed this validation, the migration on disk
  is the one compiled from it, and the tests of the app pass on the two files.
\<close>

theorem generated_app_is_loadable:
  assumes "disk_ok (cw_disk w)" "cd_compile deps = compileApp emit"
    and validated: "\<And>s spec. cd_validate deps s = Inr spec \<Longrightarrow> accepted paths (em_value emit spec) spec"
    and "runGenerate deps description dir json w = (Inr EXIT_OK, w')"
  shows "\<exists>generated n spec raw sql.
    cd_generate deps description = Inr (Generated generated n) \<and> cd_validate deps generated = Inr spec \<and>
    app_file (workspace_dir (cd_cwd deps) dir) [''spec.json''] w' = Some raw \<and>
    app_file (workspace_dir (cd_cwd deps) dir) [''migrations'', ''0001_init.sql''] w' = Some sql \<and>
    loadAppDir (structural_pass paths) app_spec_of (Some raw) = Inr spec \<and> renderMigration spec = Inr sql \<and>
    spec_test_passes app_spec_of raw sql"
proof -
  obtain generated n spec files where gen: "cd_generate deps description = Inr (Generated generated n)" "cd_validate deps generated = Inr spec"
    "compileApp emit spec = Inr files"
    "files_under (workspace_dir (cd_cwd deps) dir @ [''app'']) (cw_disk w') =
       (\<lambda>f. (place (workspace_dir (cd_cwd deps) dir) f, cf_contents f)) ` set files"
    by (rule generated_files[OF assms(1,2,4)])
  note acc = validated[OF gen(2)] and json = compiled_files(1)[OF gen(3)]
  obtain sql where sql: "renderMigration spec = Inr sql" "\<lparr>cf_path = ''app/migrations/0001_init.sql'', cf_contents = sql\<rparr> \<in> set files"
    using compiled_files(2)[OF gen(3)] by blast
  have "app_file (workspace_dir (cd_cwd deps) dir) [''spec.json''] w' = Some (pretty (em_value emit spec) @ newline)"
    "app_file (workspace_dir (cd_cwd deps) dir) [''migrations'', ''0001_init.sql''] w' = Some sql"
    using file_on_disk[OF gen(4) json] file_on_disk[OF gen(4) sql(2)] by (simp_all add: app_file_def app_places)
  then show ?thesis using gen(1,2) sql(1) spec_json_loads(2)[OF acc] compiled_tests_pass[OF acc sql(1)] by blast
qed

subsection \<open>Witness\<close>

definition fixture_deps :: "(unit, unit) cli_deps" where
  "fixture_deps = demo_deps\<lparr>
     cd_generate := (\<lambda>_. Inr (Generated (app_spec_of vendorOnboardingSpec) 1)),
     cd_validate := (\<lambda>s. if s = app_spec_of vendorOnboardingSpec then Inr s else Inl []),
     cd_compile := compileApp (fixture_emit vendorOnboardingSpec)\<rparr>"

lemma fixture_workspace: "resolveWorkspace fixture_deps None demo_shell = Inr [''ws'']"
  by (simp add: resolveWorkspace_def workspace_dir_def fixture_deps_def demo_deps_def demo_shell_def demo_disk_def get_field_def)

lemma fixture_gates: "requireApiKey (cd_env fixture_deps) = None" "loadGeneratorModule (cd_module fixture_deps) = None"
proof -
  have "trim ''key'' \<noteq> []" by code_simp
  then show "requireApiKey (cd_env fixture_deps) = None" by (simp add: requireApiKey_def fixture_deps_def demo_deps_def)
  show "loadGeneratorModule (cd_module fixture_deps) = None"
    by (simp add: loadGeneratorModule_def assertGeneratorModule_def fixture_deps_def demo_deps_def)
qed

lemma fixture_git: "git fixture_deps cwd args w = (Inr ''M app'', w)"
  by (simp add: git_def makeRunGit_def fixture_deps_def demo_deps_def)

lemma fixture_commit: "fst (commitGenerated fixture_deps ws spec description w) = Inr (Some (trim ''M app''))"
proof -
  have "trim ''M app'' \<noteq> []" by code_simp
  then show ?thesis by (simp add: commitGenerated_def and_then_def fixture_git)
qed

lemma fixture_writes:
  assumes "compileApp emit spec = Inr files"
  shows "\<exists>w'. writeCompiledFiles fixture_deps [''ws''] files (say True demo_shell) = (Inr (), w')"
proof -
  have fails: "cd_fails fixture_deps = (\<lambda>_. False)" by (simp add: fixture_deps_def demo_deps_def)
  obtain a b c d e f where files: "files = [a, b, c, d, e, f]" "cf_path a = ''app/README.md''" "cf_path b = ''app/migrations/0001_init.sql''"
    "cf_path c = ''app/package.json''" "cf_path d = ''app/server.mjs''" "cf_path e = ''app/spec.json''" "cf_path f = ''app/test/spec.test.mjs''"
    using compiled_paths[OF assms] by (auto simp: map_eq_Cons_conv)
  show ?thesis
    by (simp add: writeCompiledFiles_def path_allowed_def write_file_def mkdir_p_def and_then_def fails files say_def demo_shell_def demo_disk_def rm_rf_def)
qed

lemma fixture_run: "\<exists>w'. runGenerate fixture_deps ''vendors'' None True demo_shell = (Inr EXIT_OK, w')"
proof -
  obtain files where files: "compileApp (fixture_emit vendorOnboardingSpec) (app_spec_of vendorOnboardingSpec) = Inr files"
    by (rule fixture_compiles)
  obtain w1 where wr: "writeCompiledFiles fixture_deps [''ws''] files (say True demo_shell) = (Inr (), w1)"
    using fixture_writes[OF files] by blast
  have steps: "cd_generate fixture_deps ''vendors'' = Inr (Generated (app_spec_of vendorOnboardingSpec) 1)"
    "cd_validate fixture_deps (app_spec_of vendorOnboardingSpec) = Inr (app_spec_of vendorOnboardingSpec)"
    "cd_compile fixture_deps (app_spec_of vendorOnboardingSpec) = Inr files"
    using files by (simp_all add: fixture_deps_def)
  obtain w2 where co: "commitGenerated fixture_deps [''ws''] (app_spec_of vendorOnboardingSpec) ''vendors'' w1 = (Inr (Some (trim ''M app'')), w2)"
    using fixture_commit by (metis prod.collapse)
  have "\<exists>p w3. doGenerate fixture_deps ''vendors'' None True demo_shell = (Inr (p, EXIT_OK), w3)"
    by (simp add: doGenerate_def fixture_workspace fixture_gates steps wr co and_then_def)
  then show ?thesis by (auto simp: runGenerate_def)
qed

theorem generated_app_is_loadable_witness:
  "\<exists>w' raw. runGenerate fixture_deps ''vendors'' None True demo_shell = (Inr EXIT_OK, w') \<and>
     app_file [''ws''] [''spec.json''] w' = Some raw \<and>
     loadAppDir (structural_pass (\<lambda>_. [])) app_spec_of (Some raw) = Inr (app_spec_of vendorOnboardingSpec)"
proof -
  obtain w' where run: "runGenerate fixture_deps ''vendors'' None True demo_shell = (Inr EXIT_OK, w')" using fixture_run by blast
  have ws: "workspace_dir (cd_cwd fixture_deps) None = [''ws'']" by (simp add: fixture_deps_def demo_deps_def workspace_dir_def)
  have "\<exists>generated n spec raw sql.
    cd_generate fixture_deps ''vendors'' = Inr (Generated generated n) \<and> cd_validate fixture_deps generated = Inr spec \<and>
    app_file [''ws''] [''spec.json''] w' = Some raw \<and>
    app_file [''ws''] [''migrations'', ''0001_init.sql''] w' = Some sql \<and>
    loadAppDir (structural_pass (\<lambda>_. [])) app_spec_of (Some raw) = Inr spec \<and> renderMigration spec = Inr sql \<and>
    spec_test_passes app_spec_of raw sql"
    by (rule generated_app_is_loadable[where emit = "fixture_emit vendorOnboardingSpec" and deps = fixture_deps and dir = None, unfolded ws, OF _ _ _ run])
      (auto simp: demo_shell_def demo_disk_ok fixture_deps_def fixture_emit_def fixture_accepted split: if_splits)
  then show ?thesis using run by (auto simp: fixture_deps_def split: if_splits)
qed

end
