(* ===== verification/Spec2Isabelle.thy ===== *)
theory Spec2Isabelle
  imports Audit_Export Runtime_Audit Workflow_Live Auth_Props Sandbox A2a_Props Mcp_Client_Props Mcp_Server_Props System Config Migrate Admin_Audit Server Sandbox_Log Pages Generate_Props Compare Pipeline
begin

text \<open>
  Verification development of openRupiv, a platform that turns a validated app specification into a governed web
  application.  Paths below are relative to \<open>src/packages\<close>.

  THE PROGRAM.  A language model writes an app spec and nothing else; everything after it is deterministic.
  \<^item> \<open>generator\<close> asks the model for a spec, finds the JSON object in the answer and retries with the validator's errors.
  \<^item> \<open>spec\<close> holds the schema and the validator of specs.
  \<^item> \<open>compiler\<close> projects a valid spec to the app directory: \<open>spec.json\<close>, one SQL migration, README, test, server entry.
  \<^item> \<open>cli\<close> scaffolds a workspace (\<open>new\<close>), and runs generator and compiler into its \<open>app\<close> directory with a commit (\<open>generate\<close>).
  \<^item> \<open>runtime\<close> serves an app directory: OIDC sessions, the entity API, workflows with n-eyes approvals, pages, the audit log,
    agent tasks, and the MCP and A2A endpoints.
  \<^item> \<open>policy\<close> is the decision point, \<open>audit\<close> the hash-chained log, \<open>agents\<close> the governed workers, \<open>mcp\<close> client and server of the
    Model Context Protocol, \<open>sandbox\<close> the sidecar that runs tools in a jail.
  They meet in three places: the spec (validated once, then read by compiler and runtime), the PostgreSQL database (rows, approvals,
  proposals, audit log), and the audit log, into which every decision goes before it takes effect.

  THEORIES.  Shared vocabulary:
  \<^item> \<open>Prelude\<close>: character classes, the string operations of the sources, association lists, named collections of rules.
  \<^item> \<open>Js_Values\<close>, \<open>Js_Json\<close>, \<open>Js_Pretty\<close>, \<open>Encoding\<close>: the values of the language and what the sources use of its library: numbers as exact
    decimals, key order, \<open>String\<close>, \<open>JSON.parse\<close>, \<open>JSON.stringify\<close> with and without indentation, UTF-8, base64url.
  \<^item> \<open>App_Spec\<close> (\<open>spec/src/types.ts\<close>), \<open>Schema\<close> (\<open>schema.ts\<close>), \<open>Validate\<close> (\<open>validate.ts\<close>), \<open>Fixtures\<close> (\<open>fixtures.ts\<close>); what they mean is in \<open>Schema_Props\<close>
    and \<open>Validate_Props\<close>.
  The audit log:
  \<^item> \<open>Audit_Chain\<close> (\<open>audit/src/chain.ts\<close>), \<open>Audit_Store\<close> (\<open>store.ts\<close>, with the advisory lock as interleaved appenders), \<open>Audit_Export\<close> (\<open>export.ts\<close>),
    \<open>Db\<close> (\<open>runtime/src/db.ts\<close>), \<open>Runtime_Audit\<close> (\<open>runtime/src/audit.ts\<close>), \<open>Admin_Audit\<close> (\<open>admin.ts\<close>).
  The compiler and what becomes of its output:
  \<^item> \<open>Naming\<close> (both \<open>naming.ts\<close>), \<open>Compiler_Sql\<close> and \<open>Compiler_Props\<close> (\<open>compiler/src/sql.ts\<close>), \<open>App_Readme\<close> (\<open>app-readme.ts\<close>), \<open>App_Test\<close> (\<open>app-test.ts\<close>), \<open>Compile\<close>
    (\<open>compile.ts\<close>), \<open>Migrate\<close> (\<open>runtime/src/migrate.ts\<close> and the two infrastructure migrations), \<open>App_Props\<close> (the compiled app as a whole).
  The running app:
  \<^item> \<open>Config\<close>, \<open>Server\<close>, \<open>Logger\<close> (\<open>runtime/src/config.ts\<close>, \<open>server.ts\<close>, \<open>logger.ts\<close>): configuration gates, order of the start, log lines.
  \<^item> \<open>Session\<close>, \<open>Rate_Limit\<close>, \<open>Auth\<close>, \<open>Auth_Props\<close> (\<open>session.ts\<close>, \<open>auth.ts\<close>): signed cookies, limiters, login and the gate before every route.
  \<^item> \<open>Policy\<close> (\<open>policy/src/engine.ts\<close> and \<open>authz.rego\<close>), \<open>Records\<close> (\<open>records.ts\<close>), \<open>Workflow\<close>, \<open>Workflow_Props\<close>,
    \<open>Workflow_Live\<close> (\<open>workflows.ts\<close>), \<open>Entities\<close> and
    \<open>Entities_Props\<close> (\<open>entities.ts\<close>), \<open>System\<close> (spec to reachable states of the app), \<open>Pages\<close> (\<open>pages.ts\<close>).
  Agents and protocols:
  \<^item> \<open>Agents\<close>, \<open>Agents_Props\<close>, \<open>Agent_Endpoints\<close>, \<open>Agent_Runs\<close> (\<open>agents/src/runtime.ts\<close>, \<open>runtime/src/agent-tasks.ts\<close>, \<open>admin-agents.ts\<close>), \<open>A2a\<close> and
    \<open>A2a_Props\<close> (\<open>a2a.ts\<close>), \<open>Bearer\<close>, \<open>Mcp_Client\<close>, \<open>Mcp_Server\<close> with their \<open>_Props\<close> (\<open>mcp/src\<close>, \<open>runtime/src/mcp-capabilities.ts\<close>), \<open>Semaphore\<close>, \<open>Jail\<close>,
    \<open>Sandbox\<close>, \<open>Sandbox_Log\<close> (\<open>sandbox/src\<close>; the last holds the runtime's request log too).
  The tools around it:
  \<^item> \<open>Generate\<close>, \<open>Generate_Props\<close>, \<open>Compare\<close> (\<open>generator/src\<close>), \<open>Workspace\<close> (\<open>cli/src/workspace-files.ts\<close>), \<open>Cli\<close>, \<open>Cli_Props\<close> (the commands and the process); \<open>Pipeline\<close> (from the
    command line to the running app).

  INTERFACES.  \<open>append_only\<close> (in \<open>Audit_Store\<close>) is what a log owes its users, interpreted on the PostgreSQL store and on the runtime's sink;
  \<open>record_before_act\<close> (in \<open>Accounted\<close>) says that an effect is justified by the log before it, interpreted on the MCP client and server;
  \<open>decision_point\<close> (in \<open>Policy\<close>) is deny by default, interpreted on the Rego rules; \<open>bounded_gate\<close> (in \<open>Semaphore\<close>) is a
  bounded queue for slots, interpreted on the semaphore.

  CONVENTIONS.
  \<^item> A character is a UTF-16 code unit below 256; fixed texts with a dash, an arrow or an ellipsis take these as arguments.
  \<^item> Identifiers are those of the source where HOL allows it.  Thrown errors are the left injection of a sum with the source's error codes;
    messages for people, durations and log lines other than audit events are dropped unless a theorem is about them.
  \<^item> State that the code mutates is a record passed through; what happens at an \<open>await\<close> is an argument: other requests (\<open>env\<close>), other writers
    (\<open>others\<close>), outages (\<open>outages\<close>, \<open>fails\<close>), a commit whose answer was lost (\<open>landed\<close>).  Where interleaving matters the code
    between two awaits is a step and the theorems are invariants of all sequences of steps.
  \<^item> Code that is not in the repository is an argument: SHA-256 and HMAC, randomness, clock, \<open>Date\<close> conversions and \<open>URL\<close>, the PostgreSQL driver,
    Fastify, the OIDC library, the OPA evaluator, the MCP transport, the argument and YAML parsers, git, the file system's failures,
    the language model, Compose's expansion of variables, and the places ajv reports for a value that does not conform.
    Nothing is assumed of the hash functions: where collision freedom would be needed, the theorem exhibits the two texts that
    would collide or the MAC the server never made.

  BOUNDS AND FUEL.  \<open>json_parse\<close> runs with one more than the length of its text, which is enough for every printed value
  (\<open>json_parse_jtext\<close>, \<open>json_parse_pretty\<close>).  The generator's loop runs for \<open>MAX_ATTEMPTS\<close>, which is the code's bound, and the paging loops for
  the number of records left.  The planning of tables ends since after a deferral the first remaining entity is ready.  All other recursion
  is structural or has a measure.

  WHAT IS SHOWN.
  \<^item> The log: verification accepts exactly the linked chains and names the first fault; equal heads mean equal histories; appends, alone or
    interleaved, keep the chain verified; secrets do not reach it; pages and exports agree with the whole.
  \<^item> The spec: both passes together accept exactly the conforming valid values; a compiled app loads back as its spec, its own test
    passes, its migration applies in order, its README lists the registered routes; names agree between compiler and runtime.
  \<^item> The app: every stored workflow state is declared, the n-eyes rule holds of the log under any interleaving, a failed
    transition changes nothing, enough approvals fire it, bodies are typed and never move a state field, pages carry no markup of their data.
  \<^item> Access: only human sessions pass the gate, a cookie accepted was issued for its purpose, redirects stay on the site, decisions deny by
    default and are on the record before what they allow happens.
  \<^item> Agents: they act only on the record and within their allowlists, callers are kept apart, the sandbox isolates runs and leaks nothing, the
    semaphore is bounded and fair.
  \<^item> The tools: the generated spec is the first valid answer, \<open>generate\<close> touches only the app and what it leaves there
    loads and passes its tests, \<open>new\<close> is all or nothing, the scaffolded stack passes the runtime's gates and keeps its secrets in one ignored file.
  Where the code does not do what its comments or documents say, a lemma exhibits it: for example
  \<open>approvals_cross_workflows\<close>, \<open>reserved_words_are_emitted\<close>, \<open>fenced_text_inside_a_spec_wins\<close>, \<open>default_with_a_bar_breaks_the_row\<close>,
  \<open>sidecar_masks_less\<close>.

  NOT MODELLED.
  \<^item> The frameworks' own behaviour (routing, body parsing, HTTP headers other than those a handler sets), process signals and
    shutdown.
  \<^item> Re-export files (\<open>index.ts\<close>), type-only declarations, the fixed system prompt of the generator, console output.
  \<^item> The website, the scripts, container files and CI configuration: assets and glue without logic of the program.
  \<^item> Characters above code unit 255, and PostgreSQL itself beyond the statements' effects on the modelled tables.
\<close>

end
